(* ===== verification/Prelude.thy ===== *)
theory Prelude
  imports Main "HOL-Library.Product_Lexorder"
begin

text \<open>
  What the component theories share: the Python values and string operations the sources use,
  results that may be an HTTP error, timestamps, and rows of a table. A Python string is a
  \<open>string\<close> whose characters are code points below 256; the ellipsis the sources put into some
  messages is the one character beyond that range and is represented by a fixed stand-in
  character (\<open>ellipsis\<close>), so that lengths count code points as Python does.
\<close>

named_theorems row_simps \<open>rewrite rules about tables of rows\<close>
named_theorems keeps_intros \<open>an operation keeps a state predicate\<close>

type_synonym time = int
type_synonym key_id = int

section \<open>Values\<close>

text \<open>
  A JSON-like Python value. A string carries a flag that tells an \<open>Unsafe\<close> string
  (\<open>app.inventory_render.Unsafe\<close>, a subclass of \<open>str\<close>) from a plain one. Dictionary keys are
  strings; equality of keys ignores the flag, as \<open>Unsafe\<close> inherits \<open>str.__eq__\<close>. A float is kept
  as the text of its \<open>repr\<close>.
\<close>

datatype val =
    VNone
  | VBool bool
  | VInt int
  | VFloat string
  | VStr bool string
  | VList "val list"
  | VDict "((bool \<times> string) \<times> val) list"

abbreviation Str :: "string \<Rightarrow> val" where
  "Str s \<equiv> VStr False s"

abbreviation vkey :: "string \<Rightarrow> bool \<times> string" where
  "vkey k \<equiv> (False, k)"

section \<open>Results\<close>

datatype http_error = HTTPException int string

type_synonym 'a http = "http_error + 'a"

fun res_bind :: "'e + 'a \<Rightarrow> ('a \<Rightarrow> 'e + 'b) \<Rightarrow> 'e + 'b" where
  "res_bind (Inl e) f = Inl e"
| "res_bind (Inr x) f = f x"

lemma res_bind_Inr_iff: "res_bind m f = Inr y \<longleftrightarrow> (\<exists>x. m = Inr x \<and> f x = Inr y)"
  by (cases m) auto

lemma res_bind_Inl_iff:
  "res_bind m f = Inl e \<longleftrightarrow> m = Inl e \<or> (\<exists>x. m = Inr x \<and> f x = Inl e)"
  by (cases m) auto

text \<open>A comprehension or loop whose body may raise.\<close>

fun map_res :: "('a \<Rightarrow> 'e + 'b) \<Rightarrow> 'a list \<Rightarrow> 'e + 'b list" where
  "map_res f [] = Inr []"
| "map_res f (x # xs) = res_bind (f x) (\<lambda>y. res_bind (map_res f xs) (\<lambda>ys. Inr (y # ys)))"

lemma map_res_cong [fundef_cong]:
  "xs = ys \<Longrightarrow> (\<And>x. x \<in> set ys \<Longrightarrow> f x = g x) \<Longrightarrow> map_res f xs = map_res g ys"
  by (induction ys arbitrary: xs) auto

lemma map_res_Inr:
  "map_res f xs = Inr ys \<longleftrightarrow> list_all2 (\<lambda>x y. f x = Inr y) xs ys"
  by (induction xs arbitrary: ys) (auto simp: res_bind_Inr_iff list_all2_Cons1)

lemma map_res_Inl:
  "(\<exists>e. map_res f xs = Inl e) \<longleftrightarrow> (\<exists>x \<in> set xs. \<exists>e. f x = Inl e)"
proof (induction xs)
  case (Cons x xs)
  then show ?case by (cases "f x"; cases "map_res f xs") auto
qed simp

section \<open>Time\<close>

text \<open>Timestamps are microseconds, the resolution of Postgres's \<open>timestamptz\<close>.\<close>

definition secs :: "int \<Rightarrow> time" where
  "secs n = n * 1000000"

definition mins :: "int \<Rightarrow> time" where
  "mins n = secs (n * 60)"

definition days :: "int \<Rightarrow> time" where
  "days n = secs (n * 86400)"

lemma secs_nonneg [simp]: "0 \<le> n \<Longrightarrow> 0 \<le> secs n"
  by (simp add: secs_def)

lemma secs_pos [simp]: "0 < secs n \<longleftrightarrow> 0 < n"
  by (simp add: secs_def)

lemma secs_mono [simp]: "secs a \<le> secs b \<longleftrightarrow> a \<le> b"
  by (simp add: secs_def)

lemma secs_less [simp]: "secs a < secs b \<longleftrightarrow> a < b"
  by (simp add: secs_def)

text \<open>Python's \<open>round\<close> of the quotient \<open>a / b\<close>: to the nearest integer, halves to even.\<close>

definition round_div :: "int \<Rightarrow> int \<Rightarrow> int" where
  "round_div a b =
     (let q = a div b; r = a mod b in
      if 2 * r < b then q else if b < 2 * r then q + 1 else if even q then q else q + 1)"

section \<open>Text\<close>

definition ellipsis :: string where
  "ellipsis = [CHR 0x9F]"

fun show_nat :: "nat \<Rightarrow> string" where
  "show_nat n =
     (if n < 10 then [char_of (48 + n)] else show_nat (n div 10) @ [char_of (48 + n mod 10)])"

declare show_nat.simps [simp del]

definition show_int :: "int \<Rightarrow> string" where
  "show_int i = (if i < 0 then CHR ''-'' # show_nat (nat (- i)) else show_nat (nat i))"

fun read_nat :: "nat \<Rightarrow> string \<Rightarrow> nat" where
  "read_nat acc [] = acc"
| "read_nat acc (c # cs) = read_nat (10 * acc + (of_char c - 48)) cs"

definition is_digit :: "char \<Rightarrow> bool" where
  "is_digit c = (let n = of_char c :: nat in 48 \<le> n \<and> n \<le> 57)"

lemma read_nat_append: "read_nat acc (xs @ ys) = read_nat (read_nat acc xs) ys"
  by (induction xs arbitrary: acc) auto

lemma of_char_digit: "n < 10 \<Longrightarrow> (of_char (char_of (48 + n) :: char) :: nat) = 48 + n"
  by (simp add: of_char_of)

lemma read_show_nat: "read_nat 0 (show_nat n) = n"
proof (induction n rule: show_nat.induct)
  case (1 n)
  show ?case
  proof (cases "n < 10")
    case True
    then show ?thesis by (subst show_nat.simps) (simp add: of_char_digit)
  next
    case False
    with 1 show ?thesis
      by (subst show_nat.simps) (simp add: read_nat_append of_char_digit)
  qed
qed

lemma show_nat_digits: "list_all is_digit (show_nat n)"
proof (induction n rule: show_nat.induct)
  case (1 n)
  show ?case
  proof (cases "n < 10")
    case True
    then show ?thesis by (subst show_nat.simps) (simp add: is_digit_def of_char_digit)
  next
    case False
    have "n mod 10 < 10" by simp
    then have "is_digit (char_of (48 + n mod 10))"
      by (simp add: is_digit_def of_char_digit)
    with 1 False show ?thesis by (subst show_nat.simps) simp
  qed
qed

lemma show_nat_not_empty [simp]: "show_nat n \<noteq> []"
  by (subst show_nat.simps) simp

lemma show_nat_inj: "show_nat m = show_nat n \<longleftrightarrow> m = n"
  by (metis read_show_nat)

text \<open>\<open>str.isspace\<close> on code points below 256.\<close>

definition is_space :: "char \<Rightarrow> bool" where
  "is_space c =
     (let n = of_char c :: nat in (9 \<le> n \<and> n \<le> 13) \<or> (28 \<le> n \<and> n \<le> 32) \<or> n = 133 \<or> n = 160)"

definition is_upper :: "nat \<Rightarrow> bool" where
  "is_upper n = ((65 \<le> n \<and> n \<le> 90) \<or> (192 \<le> n \<and> n \<le> 222 \<and> n \<noteq> 215))"

definition lower_char :: "char \<Rightarrow> char" where
  "lower_char c = (let n = of_char c in if is_upper n then char_of (n + 32) else c)"

definition lower :: "string \<Rightarrow> string" where
  "lower = map lower_char"

definition lstrip :: "string \<Rightarrow> string" where
  "lstrip = dropWhile is_space"

definition rstrip_of :: "(char \<Rightarrow> bool) \<Rightarrow> string \<Rightarrow> string" where
  "rstrip_of p s = rev (dropWhile p (rev s))"

definition strip_of :: "(char \<Rightarrow> bool) \<Rightarrow> string \<Rightarrow> string" where
  "strip_of p s = rstrip_of p (dropWhile p s)"

definition strip :: "string \<Rightarrow> string" where
  "strip = strip_of is_space"

definition startswith :: "string \<Rightarrow> string \<Rightarrow> bool" where
  "startswith s p = (take (length p) s = p)"

lemma startswith_append [simp]: "startswith (p @ s) p"
  by (simp add: startswith_def)

lemma startswith_iff: "startswith s p \<longleftrightarrow> (\<exists>r. s = p @ r)"
  by (metis append_eq_conv_conj append_take_drop_id startswith_def)

definition contains :: "string \<Rightarrow> string \<Rightarrow> bool" where
  "contains s p = (\<exists>i \<in> set [0..<Suc (length s)]. startswith (drop i s) p)"

definition removeprefix :: "string \<Rightarrow> string \<Rightarrow> string" where
  "removeprefix s p = (if startswith s p then drop (length p) s else s)"

text \<open>\<open>s.partition(c)\<close> for a one-character separator, as \<open>(head, found, tail)\<close>.\<close>

definition partition_char :: "char \<Rightarrow> string \<Rightarrow> string \<times> bool \<times> string" where
  "partition_char c s =
     (let h = takeWhile (\<lambda>x. x \<noteq> c) s; r = dropWhile (\<lambda>x. x \<noteq> c) s
      in (h, r \<noteq> [], tl r))"

text \<open>\<open>s.split(c)\<close> for a one-character separator: one part more than there are separators.\<close>

fun split_char :: "char \<Rightarrow> string \<Rightarrow> string list" where
  "split_char c [] = [[]]"
| "split_char c (x # xs) =
     (if x = c then [] # split_char c xs
      else (case split_char c xs of [] \<Rightarrow> [[x]] | p # ps \<Rightarrow> (x # p) # ps))"

text \<open>\<open>s.split()\<close>: the maximal runs of non-space characters.\<close>

fun split_ws_aux :: "string \<Rightarrow> string \<Rightarrow> string list" where
  "split_ws_aux acc [] = (if acc = [] then [] else [rev acc])"
| "split_ws_aux acc (x # xs) =
     (if is_space x then (if acc = [] then split_ws_aux [] xs else rev acc # split_ws_aux [] xs)
      else split_ws_aux (x # acc) xs)"

definition split_ws :: "string \<Rightarrow> string list" where
  "split_ws = split_ws_aux []"

fun join :: "string \<Rightarrow> string list \<Rightarrow> string" where
  "join sep [] = []"
| "join sep [s] = s"
| "join sep (s # ss) = s @ sep @ join sep ss"

lemma split_char_not_empty [simp]: "split_char c s \<noteq> []"
  by (induction s) (auto split: list.splits)

lemma length_split_char: "length (split_char c s) = Suc (count_list s c)"
  by (induction s) (auto split: list.splits)

lemma split_char_parts: "p \<in> set (split_char c s) \<Longrightarrow> c \<notin> set p"
proof (induction s arbitrary: p)
  case (Cons x xs)
  then show ?case
    by (cases "split_char c xs") (auto split: if_splits)
qed simp

lemma join_split_char: "join [c] (split_char c s) = s"
proof (induction s)
  case (Cons x xs)
  then show ?case
    by (cases "split_char c xs"; cases "tl (split_char c xs)") auto
qed simp

lemma lower_length [simp]: "length (lower s) = length s"
  by (simp add: lower_def)

lemma lower_char_idem: "lower_char (lower_char c) = lower_char c"
proof (cases "is_upper (of_char c)")
  case True
  then have "(of_char (char_of (of_char c + 32 :: nat) :: char) :: nat) = of_char c + 32"
    and "\<not> is_upper (of_char c + 32)"
    by (auto simp: is_upper_def)
  with True show ?thesis by (simp add: lower_char_def)
next
  case False
  then show ?thesis by (simp add: lower_char_def)
qed

lemma lower_idem [simp]: "lower (lower s) = lower s"
  by (simp add: lower_def lower_char_idem)

lemma lower_append: "lower (s @ t) = lower s @ lower t"
  by (simp add: lower_def)

lemma rstrip_of_prefix: "\<exists>t. s = rstrip_of p s @ t"
proof -
  have "rev s = takeWhile p (rev s) @ dropWhile p (rev s)" by simp
  then have "s = rev (dropWhile p (rev s)) @ rev (takeWhile p (rev s))"
    by (metis rev_append rev_rev_ident)
  then show ?thesis unfolding rstrip_of_def by blast
qed

lemma strip_of_subset: "set (strip_of p s) \<subseteq> set s"
proof -
  obtain t where "dropWhile p s = strip_of p s @ t"
    using rstrip_of_prefix [of "dropWhile p s" p] by (auto simp: strip_of_def)
  then have "set (strip_of p s) \<subseteq> set (dropWhile p s)" by (metis Un_upper1 set_append)
  then show ?thesis by (meson set_dropWhileD subset_iff)
qed

section \<open>Rows of a table\<close>

text \<open>
  A table is the list of its rows. \<open>get_row\<close> is \<open>Session.get\<close> (primary keys are unique, so the
  first match is the row), \<open>update_rows\<close> an \<open>UPDATE ... WHERE\<close>, \<open>delete_rows\<close> a
  \<open>DELETE ... WHERE\<close>. \<open>first_by\<close> is \<open>SELECT ... ORDER BY k LIMIT 1\<close>.
\<close>

definition get_row :: "('r \<Rightarrow> 'k) \<Rightarrow> 'r list \<Rightarrow> 'k \<Rightarrow> 'r option" where
  "get_row key tbl i = find (\<lambda>r. key r = i) tbl"

definition update_rows :: "('r \<Rightarrow> bool) \<Rightarrow> ('r \<Rightarrow> 'r) \<Rightarrow> 'r list \<Rightarrow> 'r list" where
  "update_rows p f tbl = map (\<lambda>r. if p r then f r else r) tbl"

definition delete_rows :: "('r \<Rightarrow> bool) \<Rightarrow> 'r list \<Rightarrow> 'r list" where
  "delete_rows p tbl = filter (\<lambda>r. \<not> p r) tbl"

definition first_by :: "('r \<Rightarrow> 'k :: linorder) \<Rightarrow> 'r list \<Rightarrow> 'r option" where
  "first_by k rs = (case sort_key k rs of [] \<Rightarrow> None | r # _ \<Rightarrow> Some r)"

lemma find_SomeD: "find P xs = Some x \<Longrightarrow> x \<in> set xs \<and> P x"
  by (induction xs) (auto split: if_splits)

lemma get_row_Some: "get_row key tbl i = Some r \<Longrightarrow> r \<in> set tbl \<and> key r = i"
  unfolding get_row_def by (auto simp: find_Some_iff)

lemma get_row_None: "get_row key tbl i = None \<longleftrightarrow> (\<forall>r \<in> set tbl. key r \<noteq> i)"
  unfolding get_row_def by (auto simp: find_None_iff)

lemma get_row_unique:
  "distinct (map key tbl) \<Longrightarrow> r \<in> set tbl \<Longrightarrow> get_row key tbl (key r) = Some r"
  unfolding get_row_def
  by (induction tbl) (auto simp: rev_image_eqI)

lemma length_update_rows [simp]: "length (update_rows p f tbl) = length tbl"
  by (simp add: update_rows_def)

lemma set_update_rows: "set (update_rows p f tbl) = (\<lambda>r. if p r then f r else r) ` set tbl"
  by (simp add: update_rows_def)

lemma update_rows_ball:
  assumes "\<And>r. r \<in> set tbl \<Longrightarrow> Q r" and "\<And>r. r \<in> set tbl \<Longrightarrow> p r \<Longrightarrow> Q (f r)"
  shows "r \<in> set (update_rows p f tbl) \<Longrightarrow> Q r"
  using assms by (auto simp: set_update_rows)

lemma map_update_rows:
  "(\<And>r. g (f r) = g r) \<Longrightarrow> map g (update_rows p f tbl) = map g tbl"
  by (simp add: update_rows_def)

lemma update_rows_none: "(\<And>r. r \<in> set tbl \<Longrightarrow> \<not> p r) \<Longrightarrow> update_rows p f tbl = tbl"
  by (simp add: update_rows_def map_idI)

lemma get_row_update_rows:
  assumes "\<And>r. key (f r) = key r"
  shows "get_row key (update_rows p f tbl) i =
    map_option (\<lambda>r. if p r then f r else r) (get_row key tbl i)"
  using assms unfolding get_row_def update_rows_def
  by (induction tbl) auto

lemma length_filter_mono:
  "(\<And>x. P x \<Longrightarrow> Q x) \<Longrightarrow> length (filter P xs) \<le> length (filter Q xs)"
  by (induction xs) auto

lemma length_filter_update_le:
  assumes "\<And>y. q y \<Longrightarrow> \<not> P (f y)"
  shows "length (filter P (update_rows q f xs)) \<le> length (filter P xs)"
  by (induction xs) (auto simp: update_rows_def assms)

lemma length_filter_put:
  assumes "distinct (map k xs)"
  shows "length (filter P (update_rows (\<lambda>x. k x = k d) (\<lambda>_. d) xs)) \<le> length (filter P xs) + (if P d then 1 else 0)"
  using assms
proof (induction xs)
  case (Cons x xs)
  show ?case
  proof (cases "k x = k d")
    case True
    then have "update_rows (\<lambda>x. k x = k d) (\<lambda>_. d) xs = xs"
      using Cons.prems by (intro update_rows_none) (auto simp: rev_image_eqI)
    then show ?thesis using True by (simp add: update_rows_def)
  next
    case False
    then show ?thesis using Cons by (cases "P d") (simp_all add: update_rows_def)
  qed
qed (simp add: update_rows_def)

lemma length_filter_update_less:
  assumes "\<And>y. q y \<Longrightarrow> \<not> P (f y)" and "x \<in> set xs" "q x" "P x"
  shows "length (filter P (update_rows q f xs)) < length (filter P xs)"
  using assms(2)
proof (induction xs)
  case (Cons y ys)
  have "length (filter P (update_rows q f ys)) \<le> length (filter P ys)"
    using length_filter_update_le [of q P f ys] assms(1) by blast
  with Cons assms(1,3,4) show ?case
    by (cases "x = y") (auto simp: update_rows_def)
qed simp

lemma update_rows_twice:
  assumes "\<And>r. q (g r) = q r"
  shows "update_rows q (\<lambda>_. c) (update_rows q g xs) = update_rows q (\<lambda>_. c) xs"
  using assms by (simp add: update_rows_def)

lemma set_delete_rows [simp]: "set (delete_rows p tbl) = {r \<in> set tbl. \<not> p r}"
  by (auto simp: delete_rows_def)

lemma first_by_None [simp]: "first_by k rs = None \<longleftrightarrow> rs = []"
  by (metis (no_types) first_by_def list.case_eq_if list.set_sel(1) option.distinct(1)
      set_empty set_sort)

lemma first_by_Nil [simp]: "first_by k [] = None"
  by simp

lemma first_by_Some:
  assumes "first_by k rs = Some r"
  shows "r \<in> set rs \<and> (\<forall>x \<in> set rs. k r \<le> k x)"
proof -
  from assms obtain xs where s: "sort_key k rs = r # xs"
    by (auto simp: first_by_def split: list.splits)
  have "sorted (map k (r # xs))" using s by (metis sorted_sort_key)
  moreover have "set rs = set (r # xs)" using s by (metis set_sort)
  ultimately show ?thesis by auto
qed

lemmas row_facts = get_row_Some get_row_None get_row_unique first_by_Some

declare length_update_rows [row_simps] set_update_rows [row_simps]
  get_row_update_rows [row_simps] set_delete_rows [row_simps]

section \<open>Dictionaries in insertion order\<close>

text \<open>A Python \<open>dict\<close>: an association list; assigning to a key that is there keeps its place.\<close>

fun dict_set :: "'k \<Rightarrow> 'v \<Rightarrow> ('k \<times> 'v) list \<Rightarrow> ('k \<times> 'v) list" where
  "dict_set k v [] = [(k, v)]"
| "dict_set k v ((k', v') # d) = (if k' = k then (k', v) # d else (k', v') # dict_set k v d)"

lemma map_of_dict_set: "map_of (dict_set k v d) = (map_of d)(k \<mapsto> v)"
  by (induction d) auto

lemma keys_dict_set: "fst ` set (dict_set k v d) = insert k (fst ` set d)"
proof (induction d)
  case (Cons kv d)
  then show ?case by (cases kv) (simp add: insert_commute)
qed simp

lemma distinct_dict_set: "distinct (map fst d) \<Longrightarrow> distinct (map fst (dict_set k v d))"
proof (induction d)
  case (Cons kv d)
  then show ?case
    using keys_dict_set [of k v d] by (cases kv) (auto simp flip: set_map)
qed simp

end
