(* ===== verification/Models.thy ===== *)
theory Models
  imports Prelude
begin

text \<open>
  The tables of \<open>app/models.py\<close> that the modelled components read and write, as records, and the
  database they form. Runs, inventory refreshes, playbook checks and host key scans carry the
  same life-cycle columns (status, queue and claim times, lease, token hashes), which are the
  fields of \<open>job\<close>; each table extends it with its own columns. Columns that no operation of the
  program's core reads (descriptions, display metadata of other tables) are left out.
\<close>

datatype run_status = QUEUED | RUNNING | SUCCESS | FAILED | CANCELLED | TIMED_OUT

fun status_text :: "run_status \<Rightarrow> string" where
  "status_text QUEUED = ''queued''"
| "status_text RUNNING = ''running''"
| "status_text SUCCESS = ''success''"
| "status_text FAILED = ''failed''"
| "status_text CANCELLED = ''cancelled''"
| "status_text TIMED_OUT = ''timed_out''"

text \<open>\<open>status.replace("_", " ")\<close>, and \<open>error or text\<close>.\<close>

definition status_words :: "run_status \<Rightarrow> string" where
  "status_words st = map (\<lambda>c. if c = CHR ''_'' then CHR '' '' else c) (status_text st)"

definition error_or :: "string option \<Rightarrow> string \<Rightarrow> string" where
  "error_or error t = (case error of None \<Rightarrow> t | Some x \<Rightarrow> if x = [] then t else x)"

definition FINISHED_STATUSES :: "run_status list" where
  "FINISHED_STATUSES = [SUCCESS, FAILED, CANCELLED, TIMED_OUT]"

definition MAX_RUN_TIMEOUT_SECONDS :: int where
  "MAX_RUN_TIMEOUT_SECONDS = 24 * 60 * 60"

lemma finished_iff: "s \<in> set FINISHED_STATUSES \<longleftrightarrow> s \<noteq> QUEUED \<and> s \<noteq> RUNNING"
  by (cases s) (auto simp: FINISHED_STATUSES_def)

text \<open>Variables of a host or group, in order; and an inventory's own hosts and groups.\<close>

type_synonym vars = "((bool \<times> string) \<times> val) list"

record static_inv =
  st_hosts :: "(string \<times> vars) list"
  st_groups :: "(string \<times> string list) list"

section \<open>People and projects\<close>

record passkey =
  pk_id :: key_id
  pk_credential_id :: string
  pk_public_key :: string
  pk_sign_count :: int
  pk_transports :: "string list option"
  pk_name :: string
  pk_aaguid :: "string option"
  pk_backup_eligible :: bool
  pk_backed_up :: bool
  pk_last_used_at :: "time option"

text \<open>The challenge a user is answering, a JSON column.\<close>

record webauthn_challenge =
  wc_challenge :: string
  wc_purpose :: string
  wc_expires :: time

text \<open>
  \<open>User\<close>. The last four fields are the attributes a request's principal may carry beside the
  columns: the cached memberships \<open>_project_roles\<close>, and the key id and limits that
  \<open>app.api_keys.principal_for\<close> puts on an API key's transient user (which has no id).
\<close>

record user =
  user_id :: "key_id option"
  username :: string
  password_hash :: string
  user_role :: string
  is_active :: bool
  session_version :: int
  totp_secret :: "string option"
  totp_pending_secret :: "string option"
  totp_last_counter :: "int option"
  recovery_code_hashes :: "string list option"
  webauthn_user_handle :: "string option"
  webauthn_pending :: "webauthn_challenge option"
  passkeys :: "passkey list"
  cached_project_roles :: "(key_id \<times> string) list option"
  api_key_id :: "key_id option"
  allowed_playbook_ids :: "key_id list option"
  allowed_inventory_ids :: "key_id list option"

definition two_factor_enabled :: "user \<Rightarrow> bool" where
  "two_factor_enabled u = (totp_secret u \<noteq> None \<or> passkeys u \<noteq> [])"

record project =
  p_id :: key_id
  p_name :: string

record project_member =
  m_project_id :: key_id
  m_user_id :: key_id
  m_role :: string

record api_key =
  k_id :: key_id
  k_project_id :: key_id
  k_name :: string
  k_preset :: string
  k_prefix :: string
  k_token_hash :: string
  k_created_by :: string
  k_created_by_id :: "key_id option"
  k_created_at :: time
  k_expires_at :: time
  k_last_used_at :: "time option"
  k_last_used_ip :: "string option"
  k_revoked_at :: "time option"
  k_revoked_by :: "string option"
  k_allowed_networks :: "string list option"
  k_allowed_playbook_ids :: "key_id list option"
  k_allowed_inventory_ids :: "key_id list option"

section \<open>What runs use\<close>

record credential =
  c_id :: key_id
  c_name :: string
  c_kind :: string
  c_env_names :: "string list option"
  c_store_path :: "string option"
  c_store_key :: "string option"
  c_ssh_mount :: "string option"
  c_project_id :: key_id

record vault_password =
  v_id :: key_id
  v_name :: string
  v_store_path :: "string option"
  v_store_key :: "string option"
  v_project_id :: key_id

record inventory_group =
  ig_id :: key_id
  ig_name :: string
  ig_hosts :: "string list"

record inventory =
  i_id :: key_id
  i_name :: string
  i_project_id :: key_id
  i_refresh_interval_seconds :: int
  i_refresh_before_run :: bool
  i_current_snapshot_id :: "key_id option"
  i_host_key_checking :: string
  i_egress_restricted :: bool
  i_egress_extras :: "vars list option"
  i_hosts :: "(string \<times> vars) list"
  i_groups :: "inventory_group list"

record inventory_source =
  src_id :: key_id
  src_inventory_id :: key_id
  src_name :: string
  src_kind :: string
  src_plugin :: string
  src_config :: "string option"
  src_git_source_id :: "key_id option"
  src_path :: "string option"
  src_credential_id :: "key_id option"
  src_enabled :: bool
  src_position :: int
  src_refresh_interval_seconds :: "int option"
  src_last_queued_at :: "time option"
  src_last_error :: "string option"
  src_last_finished_at :: "time option"
  src_missing_at :: "time option"

text \<open>
  The graph of an inventory: the dictionary \<open>{"vars", "hosts", "groups"}\<close> of
  \<open>app.inventory_render\<close>, and the data of a snapshot, which also lists the inventory's own hosts it
  was made with (absent in old snapshots).
\<close>

record graph_group =
  gg_hosts :: "string list"
  gg_children :: "string list"
  gg_vars :: vars

record graph =
  gr_vars :: vars
  gr_hosts :: "(string \<times> vars) list"
  gr_groups :: "(string \<times> graph_group) list"

record snapshot_data = graph +
  sd_static_hosts :: "string list"

record source_output =
  so_source_id :: key_id
  so_inventory_id :: key_id
  so_refresh_id :: "key_id option"
  so_data :: graph
  so_host_count :: int
  so_group_count :: int
  so_output_bytes :: int
  so_warnings :: "string list"
  so_input_sha256 :: string
  so_git_commit :: "string option"
  so_refreshed_at :: time

record refresh_source =
  rs_id :: key_id
  rs_refresh_id :: key_id
  rs_source_id :: "key_id option"
  rs_name :: string
  rs_plugin :: string
  rs_ran :: bool
  rs_status :: "string option"
  rs_error :: "string option"
  rs_input_sha256 :: "string option"
  rs_host_count :: "int option"
  rs_git_commit :: "string option"

text \<open>What a refresh ran: \<open>{"sources", "static_hosts"}\<close>; a missing entry is the empty list.\<close>

record source_entry =
  se_id :: key_id
  se_name :: string
  se_plugin :: string
  se_sha256 :: string

record refresh_inputs =
  ri_sources :: "source_entry list"
  ri_static_hosts :: "string list"

record snapshot =
  sn_id :: key_id
  sn_inventory_id :: key_id
  sn_refresh_id :: "key_id option"
  sn_data :: snapshot_data
  sn_host_count :: int
  sn_group_count :: int
  sn_warnings :: "string list"
  sn_sources :: "source_entry list"
  sn_created_at :: time
  sn_superseded_at :: "time option"

section \<open>Playbooks and git sources\<close>

record playbook =
  pb_id :: key_id
  pb_name :: string
  pb_project_id :: key_id
  pb_updated_at :: time
  pb_source_id :: "key_id option"
  pb_repo_path :: "string option"
  pb_missing_at :: "time option"

text \<open>Without the columns of the token, which only the reading of the source's secret uses.\<close>

record git_source =
  gs_id :: key_id
  gs_project_id :: key_id
  gs_name :: string
  gs_url :: string
  gs_branch :: string
  gs_web_url :: "string option"
  gs_subdir :: "string option"
  gs_playbook_globs :: "string list"
  gs_ssh_known_hosts :: "string option"
  gs_auto_sync_seconds :: int
  gs_enabled :: bool
  gs_current_snapshot_id :: "key_id option"
  gs_sync_requested_at :: "time option"
  gs_last_sync_started_at :: "time option"
  gs_last_sync_finished_at :: "time option"
  gs_last_sync_status :: "string option"
  gs_last_sync_error :: "string option"

record git_snapshot =
  gt_id :: key_id
  gt_source_id :: key_id
  gt_commit :: string
  gt_size_bytes :: int
  gt_file_count :: int
  gt_sha256 :: string
  gt_warnings :: "string list"
  gt_created_at :: time
  gt_superseded_at :: "time option"

section \<open>Jobs: runs, refreshes, checks and scans\<close>

text \<open>The columns shared by the four kinds of work a worker claims.\<close>

record job =
  row_id :: key_id
  status :: run_status
  queued_at :: time
  claimed_at :: "time option"
  started_at :: "time option"
  finished_at :: "time option"
  timeout_seconds :: int
  worker_id :: "string option"
  lease_expires_at :: "time option"
  heartbeat_at :: "time option"
  claim_token_hash :: "string option"
  job_token_hash :: "string option"
  job_token_expires_at :: "time option"

record run = job +
  project_id :: key_id
  playbook_id :: "key_id option"
  playbook_name :: string
  inventory_id :: "key_id option"
  inventory_name :: string
  group_id :: "key_id option"
  group_name :: "string option"
  credential_id :: "key_id option"
  credential_name :: string
  env_credential_ids :: "key_id list option"
  env_credential_names :: "string list option"
  vault_password_id :: "key_id option"
  vault_password_name :: "string option"
  become :: bool
  become_blocked :: bool
  check_mode :: bool
  diff_mode :: bool
  limit_hosts :: "string option"
  extra_vars :: "vars option"
  triggered_by :: string
  triggered_by_api_key_id :: "key_id option"
  return_code :: "int option"
  hosts_total :: "int option"
  hosts_ok :: "int option"
  hosts_changed :: "int option"
  hosts_failed :: "int option"
  hosts_unreachable :: "int option"
  playbook_snapshot :: "string option"
  inventory_static :: "static_inv option"
  inventory_sha256 :: "string option"
  inventory_snapshot_id :: "key_id option"
  inventory_snapshot_at :: "time option"
  inventory_snapshot_hosts :: "int option"
  refresh_first :: bool
  waiting_refresh_id :: "key_id option"
  playbook_sha256 :: "string option"
  host_key_checking :: "string option"
  host_key_problems :: "val list option"
  host_keys_learned :: "int option"
  egress_restricted :: "bool option"
  egress_allowlist :: "val option"
  egress_refused :: "val list option"
  ssh_certificate :: "val option"
  secret_reads :: "val list option"
  status_reason :: "string option"
  cancel_requested_at :: "time option"
  cancel_requested_by :: "string option"
  git_source_id :: "key_id option"
  git_source_name :: "string option"
  git_snapshot_id :: "key_id option"
  git_commit :: "string option"
  playbook_path :: "string option"
  artifacts_files :: "val list option"
  artifacts_bytes :: "int option"
  artifacts_tar_bytes :: "int option"
  artifacts_sha256 :: "string option"
  artifacts_error :: "string option"
  artifacts_deleted_at :: "time option"
  log_seq :: int
  log_bytes :: int

record refresh = job +
  f_inventory_id :: key_id
  f_project_id :: key_id
  f_trigger :: string
  f_requested_by :: "string option"
  f_sources :: "refresh_inputs option"
  f_output_bytes :: "int option"
  f_error :: "string option"
  f_snapshot_id :: "key_id option"
  f_scope :: "key_id list option"
  f_stage :: "string option"

record lint_job = job +
  l_project_id :: key_id
  l_requested_by_user_id :: key_id
  l_requested_by :: string
  l_playbook_id :: "key_id option"
  l_target :: string
  l_content :: "string option"
  l_content_sha256 :: "string option"
  l_git_snapshot_id :: "key_id option"
  l_git_commit :: "string option"
  l_findings :: "val list option"
  l_findings_total :: "int option"
  l_truncated :: bool
  l_external :: int
  l_repo_config :: bool
  l_error :: "string option"
  l_scrubbed :: bool
  l_version :: "string option"

record scan_target =
  t_name :: string
  t_host :: string
  t_port :: int

record host_key_scan = job +
  s_inventory_id :: key_id
  s_requested_by_user_id :: "key_id option"
  s_requested_by :: string
  s_targets :: "scan_target list"
  s_results :: "val list option"
  s_error :: "string option"

record inventory_host_key =
  hk_inventory_id :: key_id
  hk_name :: string
  hk_key_type :: string
  hk_key_b64 :: string
  hk_fingerprint :: string
  hk_source :: string
  hk_confirmed :: bool
  hk_run_id :: "key_id option"
  hk_created_by :: "string option"
  hk_created_at :: time
  hk_confirmed_by :: "string option"
  hk_confirmed_at :: "time option"

record galaxy_install =
  g_id :: key_id
  g_status :: run_status
  g_triggered_by :: string
  g_requirements_snapshot :: string
  g_upgrade :: bool
  g_return_code :: "int option"
  g_status_reason :: "string option"
  g_started_at :: "time option"
  g_finished_at :: "time option"
  g_lease_expires_at :: "time option"

record worker =
  w_id :: string
  w_slots :: int
  w_isolated :: "bool option"
  w_egress_filtered :: "bool option"
  w_host_keys :: "bool option"
  w_egress_allowlist :: "bool option"
  w_ssh_certificates :: "bool option"
  w_first_seen_at :: time
  w_last_seen_at :: time

section \<open>Audit trail, notifications, secret store outage\<close>

record audit_event =
  ev_actor_user_id :: "key_id option"
  ev_actor_username :: "string option"
  ev_project_id :: "key_id option"
  ev_action :: string
  ev_target_type :: "string option"
  ev_target_id :: "key_id option"
  ev_target_name :: "string option"
  ev_outcome :: string
  ev_ip :: "string option"
  ev_detail :: "vars option"

record channel =
  ch_id :: key_id
  ch_project_id :: "key_id option"
  ch_kind :: string
  ch_events :: "string list"
  ch_enabled :: bool

record delivery =
  d_id :: key_id
  d_channel_id :: key_id
  d_event :: string
  d_payload :: vars
  d_dedup_key :: "string option"
  d_status :: string
  d_attempts :: int
  d_next_attempt_at :: time
  d_last_status_code :: "int option"
  d_last_error :: "string option"
  d_created_at :: time
  d_sent_at :: "time option"

record alert =
  a_key :: string
  a_raised_at :: time
  a_data :: "vars option"

record store_outage =
  o_kind :: string
  o_since :: time
  o_hold_until :: time

section \<open>The database\<close>

text \<open>
  One record for the whole persistent state: the tables, the next ids of the sequences the
  modelled inserts draw from, and the files on the data volume (as bytes; \<open>None\<close> where no
  file exists): run logs and artifacts by run id, the outputs of refreshes by refresh and part, the
  playbooks' copies by playbook id, the tars of git snapshots by source and commit.
\<close>

record database =
  users :: "user list"
  projects :: "project list"
  members :: "project_member list"
  api_keys :: "api_key list"
  credentials :: "credential list"
  vault_passwords :: "vault_password list"
  inventories :: "inventory list"
  sources :: "inventory_source list"
  source_outputs :: "source_output list"
  refresh_sources :: "refresh_source list"
  snapshots :: "snapshot list"
  playbooks :: "playbook list"
  git_sources :: "git_source list"
  git_snapshots :: "git_snapshot list"
  runs :: "run list"
  refreshes :: "refresh list"
  lints :: "lint_job list"
  scans :: "host_key_scan list"
  trusted_keys :: "inventory_host_key list"
  installs :: "galaxy_install list"
  workers :: "worker list"
  audit_events :: "audit_event list"
  channels :: "channel list"
  deliveries :: "delivery list"
  alerts :: "alert list"
  outage :: "store_outage option"
  next_run_id :: key_id
  next_delivery_id :: key_id
  next_refresh_id :: key_id
  next_refresh_source_id :: key_id
  next_snapshot_id :: key_id
  next_playbook_id :: key_id
  next_git_snapshot_id :: key_id
  next_lint_id :: key_id
  next_scan_id :: key_id
  next_api_key_id :: key_id
  next_passkey_id :: key_id
  run_logs :: "key_id \<Rightarrow> string option"
  artifact_parts :: "key_id \<Rightarrow> string option"
  artifact_files :: "key_id \<Rightarrow> string option"
  refresh_outputs :: "key_id \<times> string \<Rightarrow> string option"
  playbook_files :: "key_id \<Rightarrow> string option"
  snapshot_tars :: "key_id \<times> string \<Rightarrow> string option"

text \<open>The tables people edit; the operations on jobs leave them alone.\<close>

definition static_part where
  "static_part db =
     (users db, projects db, members db, api_keys db, credentials db, vault_passwords db,
      inventories db, sources db)"

lemma static_partD:
  "static_part db' = static_part db \<Longrightarrow>
   credentials db' = credentials db \<and> vault_passwords db' = vault_passwords db \<and>
   inventories db' = inventories db \<and> sources db' = sources db \<and> projects db' = projects db \<and>
   members db' = members db"
  by (simp add: static_part_def)

text \<open>A fresh installation.\<close>

definition empty_db :: database where
  "empty_db =
     \<lparr>users = [], projects = [], members = [], api_keys = [], credentials = [], vault_passwords = [],
      inventories = [], sources = [], source_outputs = [], refresh_sources = [], snapshots = [], playbooks = [],
      git_sources = [], git_snapshots = [], runs = [], refreshes = [], lints = [], scans = [],
      trusted_keys = [], installs = [], workers = [], audit_events = [], channels = [], deliveries = [], alerts = [],
      outage = None, next_run_id = 1, next_delivery_id = 1, next_refresh_id = 1, next_refresh_source_id = 1, next_snapshot_id = 1,
      next_playbook_id = 1, next_git_snapshot_id = 1, next_lint_id = 1, next_scan_id = 1, next_api_key_id = 1, next_passkey_id = 1,
      run_logs = (\<lambda>_. None), artifact_parts = (\<lambda>_. None), artifact_files = (\<lambda>_. None),
      refresh_outputs = (\<lambda>_. None), playbook_files = (\<lambda>_. None), snapshot_tars = (\<lambda>_. None)\<rparr>"

text \<open>
  What the operations take from outside the database: the settings of \<open>app.config\<close> they read,
  the SHA-256 hex digest, \<open>json.dumps\<close>, and how an event becomes a line of a run log (the pattern scrubber and
  \<open>json.dumps\<close>).
\<close>

record env =
  sha256_hex :: "string \<Rightarrow> string"
  log_line :: "vars \<Rightarrow> string"
  json_dumps :: "val \<Rightarrow> string"
  environment :: string
  require_admin_2fa :: bool
  run_lease_seconds :: int
  lint_max_running :: int
  lint_timeout_seconds :: int
  inventory_refresh_timeout_seconds :: int
  inventory_max_output_mb :: int
  inventory_max_hosts :: int
  inventory_max_groups :: int
  secrets_store_wait_minutes :: int
  secrets_store_label :: string
  run_artifact_max_mb :: int
  run_artifact_max_files :: int
  run_artifact_retention_days :: int
  api_key_retention_days :: int
  notify_worker_offline_seconds :: int
  notify_queue_stuck_minutes :: int
  git_allow_local_sources :: bool
  git_max_files :: int
  git_max_snapshot_mb :: int
  git_max_playbooks :: int
  secrets_store_enabled :: bool
  secrets_store_ssh_mount_list :: "string list"

section \<open>Rows of a job table\<close>

text \<open>A run as it is inserted, with every optional column NULL.\<close>

definition blank_run :: "key_id \<Rightarrow> time \<Rightarrow> run" where
  "blank_run i t =
     \<lparr>row_id = i, status = QUEUED, queued_at = t, claimed_at = None, started_at = None,
      finished_at = None, timeout_seconds = 3600, worker_id = None, lease_expires_at = None,
      heartbeat_at = None, claim_token_hash = None, job_token_hash = None,
      job_token_expires_at = None, project_id = 0, playbook_id = None, playbook_name = [],
      inventory_id = None, inventory_name = [], group_id = None, group_name = None,
      credential_id = None, credential_name = [], env_credential_ids = None,
      env_credential_names = None, vault_password_id = None, vault_password_name = None,
      become = False, become_blocked = False, check_mode = False, diff_mode = False,
      limit_hosts = None, extra_vars = None, triggered_by = [], triggered_by_api_key_id = None,
      return_code = None, hosts_total = None, hosts_ok = None, hosts_changed = None,
      hosts_failed = None, hosts_unreachable = None, playbook_snapshot = None,
      inventory_static = None, inventory_sha256 = None, inventory_snapshot_id = None,
      inventory_snapshot_at = None, inventory_snapshot_hosts = None, refresh_first = False,
      waiting_refresh_id = None, playbook_sha256 = None, host_key_checking = None,
      host_key_problems = None, host_keys_learned = None, egress_restricted = None,
      egress_allowlist = None, egress_refused = None, ssh_certificate = None,
      secret_reads = None, status_reason = None, cancel_requested_at = None,
      cancel_requested_by = None, git_source_id = None, git_source_name = None,
      git_snapshot_id = None, git_commit = None, playbook_path = None, artifacts_files = None,
      artifacts_bytes = None, artifacts_tar_bytes = None, artifacts_sha256 = None,
      artifacts_error = None, artifacts_deleted_at = None, log_seq = 0, log_bytes = 0\<rparr>"

definition get_run :: "database \<Rightarrow> key_id \<Rightarrow> run option" where
  "get_run db i = get_row row_id (runs db) i"

definition set_run :: "key_id \<Rightarrow> (run \<Rightarrow> run) \<Rightarrow> database \<Rightarrow> database" where
  "set_run i f db = db\<lparr>runs := update_rows (\<lambda>r. row_id r = i) f (runs db)\<rparr>"

text \<open>Flushing a mutated \<open>Run\<close> object.\<close>

definition put_run :: "run \<Rightarrow> database \<Rightarrow> database" where
  "put_run r = set_run (row_id r) (\<lambda>_. r)"

lemma get_set_run:
  assumes "\<And>r. row_id (f r) = row_id r"
  shows "get_run (set_run i f db) j =
    map_option (\<lambda>r. if row_id r = i then f r else r) (get_run db j)"
  using assms by (simp add: get_run_def set_run_def get_row_update_rows)

lemma set_run_frame [simp]:
  "refreshes (set_run i f db) = refreshes db" "lints (set_run i f db) = lints db"
  "scans (set_run i f db) = scans db" "installs (set_run i f db) = installs db"
  "workers (set_run i f db) = workers db" "run_logs (set_run i f db) = run_logs db"
  "deliveries (set_run i f db) = deliveries db" "channels (set_run i f db) = channels db"
  "alerts (set_run i f db) = alerts db" "outage (set_run i f db) = outage db"
  "audit_events (set_run i f db) = audit_events db"
  by (simp_all add: set_run_def)

lemma static_set_run [simp]: "static_part (set_run i f db) = static_part db"
  by (simp add: static_part_def set_run_def)

lemma runs_set_run: "runs (set_run i f db) = update_rows (\<lambda>r. row_id r = i) f (runs db)"
  by (simp add: set_run_def)

lemma put_run_frame [simp]:
  "refreshes (put_run r db) = refreshes db" "lints (put_run r db) = lints db"
  "scans (put_run r db) = scans db" "installs (put_run r db) = installs db"
  "workers (put_run r db) = workers db" "run_logs (put_run r db) = run_logs db"
  "deliveries (put_run r db) = deliveries db" "channels (put_run r db) = channels db"
  "alerts (put_run r db) = alerts db" "outage (put_run r db) = outage db"
  "audit_events (put_run r db) = audit_events db"
  by (simp_all add: put_run_def)

lemma static_put_run [simp]: "static_part (put_run r db) = static_part db"
  by (simp add: put_run_def)

lemma static_update [simp]:
  "static_part (db\<lparr>runs := rs\<rparr>) = static_part db" "static_part (db\<lparr>run_logs := ls\<rparr>) = static_part db"
  "static_part (db\<lparr>refreshes := fs\<rparr>) = static_part db" "static_part (db\<lparr>lints := ll\<rparr>) = static_part db"
  "static_part (db\<lparr>scans := ss\<rparr>) = static_part db" "static_part (db\<lparr>workers := ws\<rparr>) = static_part db"
  "static_part (db\<lparr>alerts := al\<rparr>) = static_part db" "static_part (db\<lparr>outage := ou\<rparr>) = static_part db"
  "static_part (db\<lparr>audit_events := ae\<rparr>) = static_part db"
  by (simp_all add: static_part_def)

lemma runs_put_run: "runs (put_run r db) = update_rows (\<lambda>x. row_id x = row_id r) (\<lambda>_. r) (runs db)"
  by (simp add: put_run_def runs_set_run)

lemma get_put_run:
  "get_run (put_run r db) i =
     (if i = row_id r then map_option (\<lambda>_. r) (get_run db i) else get_run db i)"
proof -
  have "find (\<lambda>x. row_id x = i) (map (\<lambda>x. if row_id x = row_id r then r else x) rs) =
    (if i = row_id r then map_option (\<lambda>_. r) (find (\<lambda>x. row_id x = i) rs)
     else find (\<lambda>x. row_id x = i) rs)" for rs :: "run list"
    by (induction rs) auto
  then show ?thesis by (simp only: get_run_def runs_put_run get_row_def update_rows_def)
qed

text \<open>
  The partial unique index \<open>ux_runs_running_inventory\<close> (and its like on refreshes): no two
  running rows share an owner. SQL's NULL is equal to nothing, so a row without an owner never
  conflicts.
\<close>

definition running_conflict ::
  "('a job_scheme \<Rightarrow> key_id option) \<Rightarrow> 'a job_scheme list \<Rightarrow> 'a job_scheme \<Rightarrow> bool" where
  "running_conflict owner tbl r =
     (\<exists>x \<in> set tbl. row_id x \<noteq> row_id r \<and> status x = RUNNING \<and>
        owner x \<noteq> None \<and> owner x = owner r)"

definition unique_running ::
  "('a job_scheme \<Rightarrow> key_id option) \<Rightarrow> 'a job_scheme list \<Rightarrow> bool" where
  "unique_running owner tbl =
     (\<forall>r \<in> set tbl. status r = RUNNING \<longrightarrow> \<not> running_conflict owner tbl r)"

text \<open>Rows have distinct ids (the primary key).\<close>

definition unique_ids :: "'a job_scheme list \<Rightarrow> bool" where
  "unique_ids tbl = distinct (map row_id tbl)"

lemma unique_ids_update:
  "unique_ids tbl \<Longrightarrow> (\<And>r. row_id (f r) = row_id r) \<Longrightarrow> unique_ids (update_rows p f tbl)"
  by (simp add: unique_ids_def map_update_rows)

lemma running_conflict_map:
  assumes "\<And>r. row_id (g r) = row_id r" "\<And>r. owner (g r) = owner r"
  shows "running_conflict owner (map g tbl) (g r) \<longleftrightarrow>
    (\<exists>x \<in> set tbl. row_id x \<noteq> row_id r \<and> status (g x) = RUNNING \<and>
       owner x \<noteq> None \<and> owner x = owner r)"
  using assms by (simp add: running_conflict_def)

text \<open>
  An update that starts no job keeps \<open>unique_running\<close>: most operations only end or requeue work.
\<close>

lemma unique_running_update:
  assumes u: "unique_running owner tbl"
    and f: "\<And>r. r \<in> set tbl \<Longrightarrow> p r \<Longrightarrow> row_id (f r) = row_id r"
    and stop: "\<And>r. r \<in> set tbl \<Longrightarrow> p r \<Longrightarrow> status (f r) = RUNNING \<Longrightarrow>
      status r = RUNNING \<and> owner (f r) = owner r"
  shows "unique_running owner (update_rows p f tbl)"
proof -
  define g where "g = (\<lambda>r. if p r then f r else r)"
  have id: "row_id (g r) = row_id r" if "r \<in> set tbl" for r
    using f that by (simp add: g_def)
  have run: "status r = RUNNING \<and> owner (g r) = owner r" if "r \<in> set tbl" "status (g r) = RUNNING" for r
    using stop [OF that(1)] that(2) by (auto simp: g_def split: if_splits)
  have "\<not> running_conflict owner (map g tbl) (g r)"
    if r: "r \<in> set tbl" and s: "status (g r) = RUNNING" for r
  proof
    assume "running_conflict owner (map g tbl) (g r)"
    then obtain x where x: "x \<in> set tbl" "row_id (g x) \<noteq> row_id (g r)" "status (g x) = RUNNING"
      "owner (g x) \<noteq> None" "owner (g x) = owner (g r)"
      unfolding running_conflict_def set_map by blast
    then have "running_conflict owner tbl r"
      using run [OF x(1,3)] run [OF r s] id [OF x(1)] id [OF r] by (auto simp: running_conflict_def)
    with u r run [OF r s] show False by (simp add: unique_running_def)
  qed
  then show ?thesis unfolding unique_running_def update_rows_def g_def [symmetric] by auto
qed

lemma unique_ids_put_run: "unique_ids (runs db) \<Longrightarrow> unique_ids (runs (put_run r db))"
proof -
  have "map row_id (update_rows (\<lambda>x. row_id x = row_id r) (\<lambda>_. r) rs) = map row_id rs" for rs :: "run list"
    by (simp add: update_rows_def)
  then show "unique_ids (runs db) \<Longrightarrow> unique_ids (runs (put_run r db))"
    by (simp only: unique_ids_def runs_put_run)
qed

lemma unique_running_put_run:
  assumes "unique_running inventory_id (runs db)"
    and "\<And>x. x \<in> set (runs db) \<Longrightarrow> row_id x = row_id r \<Longrightarrow> status r = RUNNING \<Longrightarrow>
      status x = RUNNING \<and> inventory_id r = inventory_id x"
  shows "unique_running inventory_id (runs (put_run r db))"
  unfolding runs_put_run by (rule unique_running_update) (use assms in auto)

text \<open>Starting one row that conflicts with no running row keeps it too.\<close>

lemma unique_running_start:
  assumes u: "unique_running owner tbl" and ids: "unique_ids tbl"
    and r: "r \<in> set tbl" and free: "\<not> running_conflict owner tbl r"
    and f: "\<And>x. row_id (f x) = row_id x" "\<And>x. owner (f x) = owner x"
  shows "unique_running owner (update_rows (\<lambda>x. row_id x = row_id r) f tbl)"
proof -
  have only: "x = r" if "x \<in> set tbl" "row_id x = row_id r" for x
    using that ids r unfolding unique_ids_def
    by (metis get_row_unique option.inject)
  define g where "g = (\<lambda>x. if row_id x = row_id r then f x else x)"
  have g: "row_id (g x) = row_id x" "owner (g x) = owner x" for x
    using f by (auto simp: g_def)
  have other: "g x = x" if "row_id x \<noteq> row_id r" for x
    using that by (simp add: g_def)
  have "\<not> running_conflict owner (map g tbl) (g y)"
    if y: "y \<in> set tbl" and s: "status (g y) = RUNNING" for y
  proof
    assume "running_conflict owner (map g tbl) (g y)"
    then obtain x where x: "x \<in> set tbl" "row_id x \<noteq> row_id y" "status (g x) = RUNNING"
      "owner x \<noteq> None" "owner x = owner y"
      unfolding running_conflict_map [of g owner, OF g] by blast
    then consider "y = r" | "x = r" "row_id y \<noteq> row_id r" | "row_id x \<noteq> row_id r" "row_id y \<noteq> row_id r"
      using only y by metis
    then have "running_conflict owner tbl r \<or> (running_conflict owner tbl y \<and> status y = RUNNING)"
    proof cases
      case 1
      with x other [of x] show ?thesis by (auto simp: running_conflict_def)
    next
      case 2
      with x y s other [of y] show ?thesis by (auto simp: running_conflict_def)
    next
      case 3
      with x s other [of x] other [of y] show ?thesis by (auto simp: running_conflict_def)
    qed
    with u free y show False by (auto simp: unique_running_def)
  qed
  then show ?thesis unfolding unique_running_def update_rows_def g_def [symmetric] by auto
qed

lemma delete_rows_unique_running: "unique_running owner tbl \<Longrightarrow> unique_running owner (delete_rows p tbl)"
  by (auto simp: unique_running_def running_conflict_def)

lemma unique_ids_delete: "unique_ids tbl \<Longrightarrow> unique_ids (delete_rows p tbl)"
  by (simp add: unique_ids_def delete_rows_def distinct_map_filter)

end
