(* ===== verification/Notifications.thy ===== *)
theory Notifications
  imports Models
begin

text \<open>
  The notification outbox and the audit trail: \<open>app/notifications/events.py\<close> (emitting an event
  into the outbox, the event of a finished run), \<open>app/notifications/alerts.py\<close> (raised and
  cleared alerts), \<open>app/notifications/security.py\<close> (events read off the audit trail),
  \<open>app/notifications/ops.py\<close> (worker and queue alerts) and \<open>app/audit.py\<close>. The in-process wake-up
  of the dispatcher carries no state and is left out, as are metrics.
\<close>

section \<open>Events\<close>

definition RUN_FAILED :: string where "RUN_FAILED = ''run.failed''"
definition RUN_RECOVERED :: string where "RUN_RECOVERED = ''run.recovered''"
definition INVENTORY_REFRESH_FAILED :: string where
  "INVENTORY_REFRESH_FAILED = ''inventory.refresh_failed''"
definition HOST_KEY_CHANGED :: string where "HOST_KEY_CHANGED = ''inventory.host_key_changed''"
definition WORKER_OFFLINE :: string where "WORKER_OFFLINE = ''worker.offline''"
definition WORKER_UNISOLATED :: string where "WORKER_UNISOLATED = ''worker.unisolated''"
definition WORKER_UNFILTERED :: string where "WORKER_UNFILTERED = ''worker.unfiltered''"
definition QUEUE_STUCK :: string where "QUEUE_STUCK = ''queue.stuck''"
definition SECRETS_UNAVAILABLE :: string where "SECRETS_UNAVAILABLE = ''secrets.unavailable''"
definition LOGIN_ATTACK :: string where "LOGIN_ATTACK = ''security.login_attack''"
definition ADMIN_CHANGE :: string where "ADMIN_CHANGE = ''security.admin_change''"
definition RESOLVED :: string where "RESOLVED = ''resolved''"

lemmas event_names = RUN_FAILED_def RUN_RECOVERED_def INVENTORY_REFRESH_FAILED_def
  HOST_KEY_CHANGED_def WORKER_OFFLINE_def WORKER_UNISOLATED_def WORKER_UNFILTERED_def
  QUEUE_STUCK_def SECRETS_UNAVAILABLE_def LOGIN_ATTACK_def ADMIN_CHANGE_def RESOLVED_def

text \<open>The \<open>project\<close> flag of each entry of \<open>EVENTS\<close>; a name outside the table is a \<open>KeyError\<close>.\<close>

definition EVENTS :: "(string \<times> bool) list" where
  "EVENTS =
     [(RUN_FAILED, True), (RUN_RECOVERED, True), (INVENTORY_REFRESH_FAILED, True),
      (HOST_KEY_CHANGED, True), (WORKER_OFFLINE, False), (WORKER_UNISOLATED, False),
      (WORKER_UNFILTERED, False), (QUEUE_STUCK, False), (SECRETS_UNAVAILABLE, False),
      (LOGIN_ATTACK, False), (ADMIN_CHANGE, False)]"

definition PROJECT_EVENTS :: "string list" where
  "PROJECT_EVENTS = map fst (filter snd EVENTS)"

section \<open>The outbox\<close>

text \<open>
  \<open>INSERT ... ON CONFLICT (channel_id, dedup_key) DO NOTHING\<close>. A NULL dedup key conflicts with
  nothing. The sequence advances even when the row is not inserted.
\<close>

definition insert_delivery ::
  "time \<Rightarrow> string \<Rightarrow> vars \<Rightarrow> string option \<Rightarrow> channel \<Rightarrow> database \<Rightarrow> database" where
  "insert_delivery now event data dedup ch db =
     (let new = \<lparr>d_id = next_delivery_id db, d_channel_id = ch_id ch, d_event = event,
                 d_payload = data, d_dedup_key = dedup, d_status = ''pending'', d_attempts = 0,
                 d_next_attempt_at = now, d_last_status_code = None, d_last_error = None,
                 d_created_at = now, d_sent_at = None\<rparr>;
          clash = (dedup \<noteq> None \<and>
                   (\<exists>d \<in> set (deliveries db). d_channel_id d = ch_id ch \<and> d_dedup_key d = dedup))
      in db\<lparr>next_delivery_id := next_delivery_id db + 1,
            deliveries := deliveries db @ (if clash then [] else [new])\<rparr>)"

definition event_channels :: "database \<Rightarrow> string \<Rightarrow> bool \<Rightarrow> key_id option \<Rightarrow> channel list" where
  "event_channels db event project pid =
     filter (\<lambda>c. ch_enabled c \<and>
                 (ch_project_id c = None \<or> (project \<and> pid \<noteq> None \<and> ch_project_id c = pid)) \<and>
                 event \<in> set (ch_events c))
       (channels db)"

definition emit ::
  "time \<Rightarrow> string \<Rightarrow> key_id option \<Rightarrow> vars \<Rightarrow> string option \<Rightarrow> database \<Rightarrow> (database \<times> int) option"
where
  "emit now event pid data dedup db =
     (case map_of EVENTS event of
        None \<Rightarrow> None
      | Some project \<Rightarrow>
          let chs = event_channels db event project pid
          in Some (fold (insert_delivery now event data dedup) chs db, int (length chs)))"

text \<open>Every caller names an entry of \<open>EVENTS\<close>, so the \<open>KeyError\<close> branch is never taken.\<close>

definition emit_known ::
  "time \<Rightarrow> string \<Rightarrow> key_id option \<Rightarrow> vars \<Rightarrow> string option \<Rightarrow> database \<Rightarrow> database" where
  "emit_known now event pid data dedup db =
     (case emit now event pid data dedup db of None \<Rightarrow> db | Some (db', _) \<Rightarrow> db')"

lemma insert_delivery_frame [simp]:
  "runs (insert_delivery now e data k ch db) = runs db"
  "refreshes (insert_delivery now e data k ch db) = refreshes db"
  "lints (insert_delivery now e data k ch db) = lints db"
  "scans (insert_delivery now e data k ch db) = scans db"
  "installs (insert_delivery now e data k ch db) = installs db"
  "workers (insert_delivery now e data k ch db) = workers db"
  "run_logs (insert_delivery now e data k ch db) = run_logs db"
  "outage (insert_delivery now e data k ch db) = outage db"
  "alerts (insert_delivery now e data k ch db) = alerts db"
  "channels (insert_delivery now e data k ch db) = channels db"
  "audit_events (insert_delivery now e data k ch db) = audit_events db"
  by (simp_all add: insert_delivery_def Let_def)

lemma fold_insert_delivery_frame [simp]:
  "runs (fold (insert_delivery now e data k) chs db) = runs db"
  "refreshes (fold (insert_delivery now e data k) chs db) = refreshes db"
  "lints (fold (insert_delivery now e data k) chs db) = lints db"
  "scans (fold (insert_delivery now e data k) chs db) = scans db"
  "installs (fold (insert_delivery now e data k) chs db) = installs db"
  "workers (fold (insert_delivery now e data k) chs db) = workers db"
  "run_logs (fold (insert_delivery now e data k) chs db) = run_logs db"
  "outage (fold (insert_delivery now e data k) chs db) = outage db"
  "alerts (fold (insert_delivery now e data k) chs db) = alerts db"
  "channels (fold (insert_delivery now e data k) chs db) = channels db"
  "audit_events (fold (insert_delivery now e data k) chs db) = audit_events db"
  by (induction chs arbitrary: db) simp_all

lemma emit_known_frame [simp]:
  "runs (emit_known now e pid data k db) = runs db"
  "refreshes (emit_known now e pid data k db) = refreshes db"
  "lints (emit_known now e pid data k db) = lints db"
  "scans (emit_known now e pid data k db) = scans db"
  "installs (emit_known now e pid data k db) = installs db"
  "workers (emit_known now e pid data k db) = workers db"
  "run_logs (emit_known now e pid data k db) = run_logs db"
  "outage (emit_known now e pid data k db) = outage db"
  "alerts (emit_known now e pid data k db) = alerts db"
  "channels (emit_known now e pid data k db) = channels db"
  "audit_events (emit_known now e pid data k db) = audit_events db"
  by (auto simp: emit_known_def emit_def Let_def split: option.splits)

lemma static_insert_delivery [simp]: "static_part (insert_delivery now e data k ch db) = static_part db"
  by (simp add: insert_delivery_def Let_def static_part_def)

lemma static_fold_insert_delivery [simp]:
  "static_part (fold (insert_delivery now e data k) chs db) = static_part db"
  by (induction chs arbitrary: db) simp_all

lemma static_emit_known [simp]: "static_part (emit_known now e pid data k db) = static_part db"
  by (auto simp: emit_known_def emit_def Let_def split: option.splits)

section \<open>A finished run\<close>

text \<open>
  \<open>_previous_failed\<close>. SQLAlchemy renders a comparison of a column with a Python \<open>None\<close> as
  \<open>IS NULL\<close>, so a missing inventory matches a missing one.
\<close>

definition previous_failed :: "database \<Rightarrow> run \<Rightarrow> bool" where
  "previous_failed db r =
     (let same = filter (\<lambda>x. row_id x \<noteq> row_id r \<and> project_id x = project_id r \<and>
                        playbook_id x = playbook_id r \<and> inventory_id x = inventory_id r \<and>
                        group_id x = group_id r \<and>
                        status x \<in> {SUCCESS, FAILED, TIMED_OUT} \<and> finished_at x \<noteq> None)
                   (runs db)
      in case first_by (\<lambda>x. (- the (finished_at x), - row_id x)) same of
           None \<Rightarrow> False
         | Some x \<Rightarrow> status x \<in> {FAILED, TIMED_OUT})"

definition opt_int :: "int option \<Rightarrow> val" where
  "opt_int v = (case v of None \<Rightarrow> VNone | Some i \<Rightarrow> VInt i)"

definition opt_str :: "string option \<Rightarrow> val" where
  "opt_str v = (case v of None \<Rightarrow> VNone | Some s \<Rightarrow> Str s)"

definition project_name :: "database \<Rightarrow> key_id \<Rightarrow> string option" where
  "project_name db pid = map_option p_name (get_row p_id (projects db) pid)"

text \<open>
  \<open>run_finished\<close>, with the run's row as it will be committed. The payload's \<open>finished_at\<close> is the
  API process's clock, the argument \<open>clock\<close>.
\<close>

definition finished_event :: "database \<Rightarrow> run \<Rightarrow> string option" where
  "finished_event db r =
     (if status r \<in> {FAILED, TIMED_OUT} then Some RUN_FAILED
      else if status r = SUCCESS \<and> playbook_id r \<noteq> None \<and> playbook_id r \<noteq> Some 0 \<and>
              previous_failed db r
           then Some RUN_RECOVERED
      else None)"

definition run_payload :: "string \<Rightarrow> database \<Rightarrow> run \<Rightarrow> vars" where
  "run_payload clock db r =
     [(vkey ''run_id'', VInt (row_id r)),
      (vkey ''project'', opt_str (project_name db (project_id r))),
      (vkey ''playbook'', Str (playbook_name r)),
      (vkey ''inventory'', Str (inventory_name r)),
      (vkey ''group'', opt_str (group_name r)),
      (vkey ''triggered_by'', Str (triggered_by r)),
      (vkey ''status'', Str (status_text (status r))),
      (vkey ''reason'', opt_str (status_reason r)),
      (vkey ''hosts'', VDict
         [(vkey ''total'', opt_int (hosts_total r)), (vkey ''ok'', opt_int (hosts_ok r)),
          (vkey ''changed'', opt_int (hosts_changed r)), (vkey ''failed'', opt_int (hosts_failed r)),
          (vkey ''unreachable'', opt_int (hosts_unreachable r))]),
      (vkey ''finished_at'', Str clock)]"

definition run_finished :: "time \<Rightarrow> string \<Rightarrow> run \<Rightarrow> database \<Rightarrow> database" where
  "run_finished now clock r db =
     (case finished_event db r of
        None \<Rightarrow> db
      | Some event \<Rightarrow> emit_known now event (Some (project_id r)) (run_payload clock db r) None db)"

lemma run_finished_frame [simp]:
  "runs (run_finished now c r db) = runs db"
  "refreshes (run_finished now c r db) = refreshes db"
  "lints (run_finished now c r db) = lints db"
  "scans (run_finished now c r db) = scans db"
  "installs (run_finished now c r db) = installs db"
  "workers (run_finished now c r db) = workers db"
  "run_logs (run_finished now c r db) = run_logs db"
  "outage (run_finished now c r db) = outage db"
  "alerts (run_finished now c r db) = alerts db"
  "channels (run_finished now c r db) = channels db"
  "audit_events (run_finished now c r db) = audit_events db"
  by (auto simp: run_finished_def split: option.splits)

lemma static_run_finished [simp]: "static_part (run_finished now c r db) = static_part db"
  by (auto simp: run_finished_def split: option.splits)

section \<open>Alerts\<close>

definition raise_alert :: "time \<Rightarrow> string \<Rightarrow> vars option \<Rightarrow> database \<Rightarrow> database \<times> bool" where
  "raise_alert now key data db =
     (if key \<in> a_key ` set (alerts db) then (db, False)
      else (db\<lparr>alerts := alerts db @ [\<lparr>a_key = key, a_raised_at = now, a_data = data\<rparr>]\<rparr>, True))"

definition clear_alert :: "string \<Rightarrow> database \<Rightarrow> database \<times> bool" where
  "clear_alert key db =
     (db\<lparr>alerts := delete_rows (\<lambda>a. a_key a = key) (alerts db)\<rparr>, key \<in> a_key ` set (alerts db))"

definition clear_alerts :: "string list \<Rightarrow> database \<Rightarrow> database" where
  "clear_alerts keys db = db\<lparr>alerts := delete_rows (\<lambda>a. a_key a \<in> set keys) (alerts db)\<rparr>"

definition alert_event ::
  "time \<Rightarrow> string \<Rightarrow> vars option \<Rightarrow> string \<Rightarrow> key_id option \<Rightarrow> vars \<Rightarrow> database \<Rightarrow> database" where
  "alert_event now key stored event pid data db =
     (case raise_alert now key stored db of
        (db', raised) \<Rightarrow> if raised then emit_known now event pid data None db' else db')"

definition all_clear_event ::
  "time \<Rightarrow> string \<Rightarrow> string \<Rightarrow> key_id option \<Rightarrow> vars \<Rightarrow> database \<Rightarrow> database" where
  "all_clear_event now key event pid data db =
     (case clear_alert key db of
        (db', cleared) \<Rightarrow> if cleared then emit_known now event pid data None db' else db')"

definition alert_key :: "string \<Rightarrow> string \<Rightarrow> string" where
  "alert_key event who = event @ '':'' @ who"

text \<open>\<open>app.notifications.ops.worker_seen\<close>: on every claim and heartbeat.\<close>

definition worker_seen ::
  "time \<Rightarrow> string \<Rightarrow> int \<Rightarrow> bool option \<Rightarrow> bool option \<Rightarrow> database \<Rightarrow> database" where
  "worker_seen now worker slots isolated egress_filtered db =
     (let w = take 255 worker;
          db1 = all_clear_event now (alert_key WORKER_OFFLINE w) WORKER_OFFLINE None
                  [(vkey ''state'', Str RESOLVED), (vkey ''worker'', Str w),
                   (vkey ''slots'', VInt slots)] db;
          key = alert_key WORKER_UNISOLATED w;
          db2 = (if isolated = Some False
                 then alert_event now key None WORKER_UNISOLATED None [(vkey ''worker'', Str w)] db1
                 else if isolated = Some True then fst (clear_alert key db1) else db1);
          key' = alert_key WORKER_UNFILTERED w
      in if isolated = Some True \<and> egress_filtered = Some False
         then alert_event now key' None WORKER_UNFILTERED None [(vkey ''worker'', Str w)] db2
         else if egress_filtered = Some True \<or> isolated = Some False
         then fst (clear_alert key' db2) else db2)"

definition secret_store_failed :: "time \<Rightarrow> string \<Rightarrow> string \<Rightarrow> database \<Rightarrow> database" where
  "secret_store_failed now kind label db =
     (let data = [(vkey ''kind'', Str kind), (vkey ''label'', Str (take 60 label))]
      in alert_event now SECRETS_UNAVAILABLE (Some data) SECRETS_UNAVAILABLE None data db)"

definition secret_store_ok :: "time \<Rightarrow> string \<Rightarrow> database \<Rightarrow> database" where
  "secret_store_ok now label db =
     all_clear_event now SECRETS_UNAVAILABLE SECRETS_UNAVAILABLE None
       [(vkey ''state'', Str RESOLVED), (vkey ''label'', Str (take 60 label))] db"

text \<open>What the alert operations leave alone.\<close>

lemma alert_frame [simp]:
  "runs (alert_event now k s e pid data db) = runs db"
  "refreshes (alert_event now k s e pid data db) = refreshes db"
  "lints (alert_event now k s e pid data db) = lints db"
  "scans (alert_event now k s e pid data db) = scans db"
  "installs (alert_event now k s e pid data db) = installs db"
  "workers (alert_event now k s e pid data db) = workers db"
  "run_logs (alert_event now k s e pid data db) = run_logs db"
  "outage (alert_event now k s e pid data db) = outage db"
  "channels (alert_event now k s e pid data db) = channels db"
  "runs (all_clear_event now k e pid data db) = runs db"
  "refreshes (all_clear_event now k e pid data db) = refreshes db"
  "lints (all_clear_event now k e pid data db) = lints db"
  "scans (all_clear_event now k e pid data db) = scans db"
  "installs (all_clear_event now k e pid data db) = installs db"
  "workers (all_clear_event now k e pid data db) = workers db"
  "run_logs (all_clear_event now k e pid data db) = run_logs db"
  "outage (all_clear_event now k e pid data db) = outage db"
  "channels (all_clear_event now k e pid data db) = channels db"
  by (auto simp: alert_event_def all_clear_event_def raise_alert_def clear_alert_def)

lemma static_alerts [simp]:
  "static_part (alert_event now k s e pid data db) = static_part db"
  "static_part (all_clear_event now k e pid data db) = static_part db"
  "static_part (fst (clear_alert k db)) = static_part db"
  by (auto simp: alert_event_def all_clear_event_def raise_alert_def clear_alert_def)

lemma clear_alert_frame [simp]:
  "runs (fst (clear_alert k db)) = runs db" "refreshes (fst (clear_alert k db)) = refreshes db"
  "lints (fst (clear_alert k db)) = lints db" "scans (fst (clear_alert k db)) = scans db"
  "installs (fst (clear_alert k db)) = installs db" "workers (fst (clear_alert k db)) = workers db"
  "run_logs (fst (clear_alert k db)) = run_logs db" "outage (fst (clear_alert k db)) = outage db"
  "channels (fst (clear_alert k db)) = channels db"
  by (simp_all add: clear_alert_def)

lemma worker_seen_frame [simp]:
  "runs (worker_seen now w n i e db) = runs db"
  "refreshes (worker_seen now w n i e db) = refreshes db"
  "lints (worker_seen now w n i e db) = lints db"
  "scans (worker_seen now w n i e db) = scans db"
  "installs (worker_seen now w n i e db) = installs db"
  "workers (worker_seen now w n i e db) = workers db"
  "run_logs (worker_seen now w n i e db) = run_logs db"
  "outage (worker_seen now w n i e db) = outage db"
  by (simp_all add: worker_seen_def Let_def)

lemma secret_store_failed_frame [simp]:
  "runs (secret_store_failed now k l db) = runs db"
  "refreshes (secret_store_failed now k l db) = refreshes db"
  "lints (secret_store_failed now k l db) = lints db"
  "scans (secret_store_failed now k l db) = scans db"
  "installs (secret_store_failed now k l db) = installs db"
  "workers (secret_store_failed now k l db) = workers db"
  "run_logs (secret_store_failed now k l db) = run_logs db"
  "outage (secret_store_failed now k l db) = outage db"
  by (simp_all add: secret_store_failed_def Let_def)

lemma static_store_alerts [simp]:
  "static_part (worker_seen now w n i ef db) = static_part db"
  "static_part (secret_store_failed now k l db) = static_part db"
  "static_part (secret_store_ok now l db) = static_part db"
  by (simp_all add: worker_seen_def secret_store_failed_def secret_store_ok_def Let_def)

section \<open>The audit trail\<close>

definition clip :: "nat \<Rightarrow> string \<Rightarrow> string" where
  "clip limit value = (if length value \<le> limit then value else take (limit - 1) value @ ellipsis)"

fun clean_value :: "val \<Rightarrow> val option" where
  "clean_value (VStr u s) = Some (if length s \<le> 200 then VStr u s else Str (clip 200 s))"
| "clean_value (VDict d) = None"
| "clean_value v = Some v"

definition clean_detail :: "vars option \<Rightarrow> vars option" where
  "clean_detail detail =
     (case detail of
        None \<Rightarrow> None
      | Some [] \<Rightarrow> None
      | Some d \<Rightarrow>
          Some (fold (\<lambda>((u, k), v) acc.
                  case clean_value v of None \<Rightarrow> acc | Some v' \<Rightarrow> dict_set (vkey (take 50 k)) v' acc) d []))"

text \<open>The arguments of \<open>audit.record\<close>, with its defaults.\<close>

record audit_args =
  au_action :: string
  au_outcome :: string
  au_actor :: "user option"
  au_actor_username :: "string option"
  au_target_type :: "string option"
  au_target_id :: "key_id option"
  au_target_name :: "string option"
  au_ip :: "string option"
  au_project_id :: "key_id option"
  au_detail :: "vars option"

definition audit_call :: "string \<Rightarrow> audit_args" where
  "audit_call action =
     \<lparr>au_action = action, au_outcome = ''success'', au_actor = None, au_actor_username = None,
      au_target_type = None, au_target_id = None, au_target_name = None, au_ip = None,
      au_project_id = None, au_detail = None\<rparr>"

definition detail_get :: "vars option \<Rightarrow> string \<Rightarrow> val" where
  "detail_get detail k =
     (case detail of None \<Rightarrow> VNone
      | Some d \<Rightarrow> (case map_of (map (\<lambda>((u, k), v). (k, v)) d) k of None \<Rightarrow> VNone | Some v \<Rightarrow> v))"

text \<open>Python's truth value.\<close>

fun truthy :: "val \<Rightarrow> bool" where
  "truthy VNone = False"
| "truthy (VBool b) = b"
| "truthy (VInt i) = (i \<noteq> 0)"
| "truthy (VFloat s) = (s \<noteq> ''0.0'' \<and> s \<noteq> ''-0.0'')"
| "truthy (VStr u s) = (s \<noteq> [])"
| "truthy (VList xs) = (xs \<noteq> [])"
| "truthy (VDict d) = (d \<noteq> [])"

fun is_text :: "string \<Rightarrow> val \<Rightarrow> bool" where
  "is_text t (VStr u s) = (s = t)"
| "is_text t v = False"

fun list_has :: "string \<Rightarrow> val \<Rightarrow> bool" where
  "list_has t (VList xs) = (\<exists>x \<in> set xs. is_text t x)"
| "list_has t v = False"

definition ATTACK_WINDOW_SECONDS :: int where
  "ATTACK_WINDOW_SECONDS = 15 * 60"

definition attack :: "time \<Rightarrow> string option \<Rightarrow> string \<Rightarrow> vars \<Rightarrow> database \<Rightarrow> database" where
  "attack now ip kind extra db =
     (let bucket = (now div secs 1) div ATTACK_WINDOW_SECONDS;
          ip_text = (case ip of None \<Rightarrow> ''None'' | Some s \<Rightarrow> s)
      in emit_known now LOGIN_ATTACK None
           ([(vkey ''ip'', opt_str ip), (vkey ''kind'', Str kind)] @ extra)
           (Some (''login_attack:'' @ kind @ '':'' @ ip_text @ '':'' @ show_int bucket)) db)"

definition admin_change ::
  "time \<Rightarrow> string \<Rightarrow> string option \<Rightarrow> string option \<Rightarrow> string option \<Rightarrow> database \<Rightarrow> database" where
  "admin_change now what actor target ip db =
     emit_known now ADMIN_CHANGE None
       [(vkey ''change'', Str what), (vkey ''by'', opt_str actor), (vkey ''user'', opt_str target),
        (vkey ''ip'', opt_str ip)] None db"

text \<open>\<open>detail['method']\<close> in the last message is the text of a string value.\<close>

fun val_text :: "val \<Rightarrow> string" where
  "val_text (VStr u s) = s"
| "val_text (VInt i) = show_int i"
| "val_text (VBool b) = (if b then ''True'' else ''False'')"
| "val_text VNone = ''None''"
| "val_text (VFloat s) = s"
| "val_text _ = []"

definition from_audit :: "time \<Rightarrow> audit_args \<Rightarrow> database \<Rightarrow> database" where
  "from_audit now a db =
     (let detail = au_detail a; action = au_action a; ip = au_ip a;
          who = (case au_actor a of Some u \<Rightarrow> Some (username u) | None \<Rightarrow> au_actor_username a)
      in if au_outcome a = ''failure'' \<and> truthy (detail_get detail ''locked_out'')
         then attack now ip
                (if is_text ''bad second factor'' (detail_get detail ''reason'')
                 then ''second_factor'' else ''password'')
                [(vkey ''user'', opt_str who)] db
         else if action = ''worker.auth_failed'' then attack now ip ''worker_token'' [] db
         else if au_outcome a \<noteq> ''success'' then db
         else if action = ''user.create'' \<and> is_text ''admin'' (detail_get detail ''role'')
         then admin_change now ''created as a global admin'' who (au_target_name a) ip db
         else if action = ''user.update'' \<and> list_has ''role'' (detail_get detail ''changed'') \<and>
                 is_text ''admin'' (detail_get detail ''role'')
         then admin_change now ''made a global admin'' who (au_target_name a) ip db
         else if action = ''user.two_factor_reset'' \<or> action = ''user.totp_reset''
         then admin_change now ''had two-factor login reset'' who (au_target_name a) ip db
         else if (action = ''auth.totp_disable'' \<or> action = ''auth.passkey_remove'') \<and>
                 truthy (detail_get detail ''two_factor_off'')
         then admin_change now ''turned off two-factor login'' who who ip db
         else if action = ''auth.login'' \<and> truthy (detail_get detail ''method'') \<and>
                 (case au_actor a of None \<Rightarrow> False | Some u \<Rightarrow> user_role u = ''admin'')
         then admin_change now
                (''signed in as a global admin with '' @ val_text (detail_get detail ''method''))
                who who ip db
         else db)"

definition audit_record :: "time \<Rightarrow> audit_args \<Rightarrow> database \<Rightarrow> database" where
  "audit_record now a db =
     (let key = Option.bind (au_actor a) api_key_id;
          detail = (case key of None \<Rightarrow> au_detail a
                    | Some k \<Rightarrow> Some (dict_set (vkey ''api_key_id'') (VInt k)
                                       (case au_detail a of None \<Rightarrow> [] | Some d \<Rightarrow> d)));
          a' = a\<lparr>au_detail := detail\<rparr>;
          name = (case au_actor a of Some u \<Rightarrow> Some (username u) | None \<Rightarrow> au_actor_username a);
          ev = \<lparr>ev_actor_user_id = Option.bind (au_actor a) user_id,
                ev_actor_username = map_option (clip 150) name,
                ev_project_id = au_project_id a, ev_action = au_action a,
                ev_target_type = au_target_type a, ev_target_id = au_target_id a,
                ev_target_name = map_option (clip 255) (au_target_name a),
                ev_outcome = au_outcome a, ev_ip = map_option (clip 64) (au_ip a),
                ev_detail = clean_detail detail\<rparr>
      in from_audit now a' (db\<lparr>audit_events := audit_events db @ [ev]\<rparr>))"

lemma from_audit_frame [simp]:
  "runs (from_audit now a db) = runs db" "refreshes (from_audit now a db) = refreshes db"
  "lints (from_audit now a db) = lints db" "scans (from_audit now a db) = scans db"
  "installs (from_audit now a db) = installs db" "workers (from_audit now a db) = workers db"
  "run_logs (from_audit now a db) = run_logs db" "outage (from_audit now a db) = outage db"
  "audit_events (from_audit now a db) = audit_events db"
  by (simp_all add: from_audit_def attack_def admin_change_def Let_def)

lemma static_audit [simp]:
  "static_part (from_audit now a db) = static_part db"
  "static_part (audit_record now a db) = static_part db"
  by (simp_all add: audit_record_def from_audit_def attack_def admin_change_def Let_def)

lemma audit_record_frame [simp]:
  "runs (audit_record now a db) = runs db" "refreshes (audit_record now a db) = refreshes db"
  "lints (audit_record now a db) = lints db" "scans (audit_record now a db) = scans db"
  "installs (audit_record now a db) = installs db" "workers (audit_record now a db) = workers db"
  "run_logs (audit_record now a db) = run_logs db" "outage (audit_record now a db) = outage db"
  by (simp_all add: audit_record_def Let_def)

text \<open>The trail only grows, and every call adds exactly one event with the call's action.\<close>

lemma audit_record_appends:
  "\<exists>ev. audit_events (audit_record now a db) = audit_events db @ [ev] \<and>
        ev_action ev = au_action a \<and> ev_outcome ev = au_outcome a"
  by (simp add: audit_record_def Let_def)

lemma clip_length: "0 < n \<Longrightarrow> length (clip n s) \<le> n"
  by (simp add: clip_def ellipsis_def)

section \<open>Who receives an event\<close>

definition new_deliveries :: "string \<Rightarrow> vars \<Rightarrow> channel list \<Rightarrow> delivery list \<Rightarrow> bool" where
  "new_deliveries e data chs ds \<longleftrightarrow>
     map d_channel_id ds = map ch_id chs \<and>
     (\<forall>d \<in> set ds. d_event d = e \<and> d_payload d = data \<and> d_status d = ''pending'' \<and> d_attempts d = 0)"

lemma deliveries_fold:
  "\<exists>ds. deliveries (fold (insert_delivery now e data None) chs db) = deliveries db @ ds \<and>
        new_deliveries e data chs ds"
proof (induction chs arbitrary: db)
  case Nil
  then show ?case by (simp add: new_deliveries_def)
next
  case (Cons ch chs)
  let ?db = "insert_delivery now e data None ch db"
  obtain ds where "deliveries (fold (insert_delivery now e data None) chs ?db) = deliveries ?db @ ds"
    and "new_deliveries e data chs ds"
    using Cons by blast
  moreover obtain d where "deliveries ?db = deliveries db @ [d]"
    and "new_deliveries e data [ch] [d]"
    by (simp add: insert_delivery_def new_deliveries_def Let_def)
  ultimately show ?case
    by (intro exI [of _ "d # ds"]) (auto simp: new_deliveries_def)
qed

text \<open>
  An event reaches exactly the enabled channels that subscribe to it and are global, or belong
  to the project it comes from, once each.
\<close>

lemma emit_recipients:
  assumes "map_of EVENTS e = Some project"
  shows "\<exists>ds. deliveries (emit_known now e pid data None db) = deliveries db @ ds \<and>
    new_deliveries e data (event_channels db e project pid) ds"
  using assms deliveries_fold [of now e data "event_channels db e project pid" db]
  by (simp add: emit_known_def emit_def Let_def)

end
