(* ===== verification/Permissions.thy ===== *)
theory Permissions
  imports Notifications
begin

text \<open>
  Role-based access control: \<open>app/permissions.py\<close> (roles, permissions, the route guard) and the
  principal an API key acts as (\<open>principal_for\<close>, \<open>run_limit_problem\<close> of \<open>app/api_keys.py\<close>).
  Sessions are signed by a third-party library, so \<open>session_info\<close> (the sign-in method of a valid
  session cookie) is an argument of the guard.
\<close>

section \<open>Permissions and roles\<close>

datatype permission =
    CONTENT_READ | CONTENT_WRITE | SECRETS_LIST | SECRETS_MANAGE | RUNS_TRIGGER | RUNS_BECOME
  | RUNS_READ_EXTRA_VARS | VAULT_ENCRYPT | VAULT_DECRYPT | MEMBERS_MANAGE | API_KEYS_MANAGE
  | GALAXY_MANAGE | USERS_MANAGE | PROJECTS_MANAGE | AUDIT_READ | WORKERS_READ
  | NOTIFICATIONS_MANAGE | NOTIFICATIONS_GLOBAL | SOURCES_MANAGE

fun permission_text :: "permission \<Rightarrow> string" where
  "permission_text CONTENT_READ = ''content:read''"
| "permission_text CONTENT_WRITE = ''content:write''"
| "permission_text SECRETS_LIST = ''secrets:list''"
| "permission_text SECRETS_MANAGE = ''secrets:manage''"
| "permission_text RUNS_TRIGGER = ''runs:trigger''"
| "permission_text RUNS_BECOME = ''runs:become''"
| "permission_text RUNS_READ_EXTRA_VARS = ''runs:read_extra_vars''"
| "permission_text VAULT_ENCRYPT = ''vault:encrypt''"
| "permission_text VAULT_DECRYPT = ''vault:decrypt''"
| "permission_text MEMBERS_MANAGE = ''members:manage''"
| "permission_text API_KEYS_MANAGE = ''api_keys:manage''"
| "permission_text GALAXY_MANAGE = ''galaxy:manage''"
| "permission_text USERS_MANAGE = ''users:manage''"
| "permission_text PROJECTS_MANAGE = ''projects:manage''"
| "permission_text AUDIT_READ = ''audit:read''"
| "permission_text WORKERS_READ = ''workers:read''"
| "permission_text NOTIFICATIONS_MANAGE = ''notifications:manage''"
| "permission_text NOTIFICATIONS_GLOBAL = ''notifications:global''"
| "permission_text SOURCES_MANAGE = ''sources:manage''"

definition ALL_PERMISSIONS :: "permission set" where
  "ALL_PERMISSIONS =
     {CONTENT_READ, CONTENT_WRITE, SECRETS_LIST, SECRETS_MANAGE, RUNS_TRIGGER, RUNS_BECOME,
      RUNS_READ_EXTRA_VARS, VAULT_ENCRYPT, VAULT_DECRYPT, MEMBERS_MANAGE, API_KEYS_MANAGE,
      GALAXY_MANAGE, USERS_MANAGE, PROJECTS_MANAGE, AUDIT_READ, WORKERS_READ,
      NOTIFICATIONS_MANAGE, NOTIFICATIONS_GLOBAL, SOURCES_MANAGE}"

lemma ALL_PERMISSIONS_UNIV [simp]: "ALL_PERMISSIONS = UNIV"
proof -
  have "p \<in> ALL_PERMISSIONS" for p by (cases p) (simp_all add: ALL_PERMISSIONS_def)
  then show ?thesis by blast
qed

definition GLOBAL_ONLY :: "permission set" where
  "GLOBAL_ONLY =
     {USERS_MANAGE, AUDIT_READ, WORKERS_READ, GALAXY_MANAGE, PROJECTS_MANAGE, NOTIFICATIONS_GLOBAL}"

definition VIEWER_PERMS :: "permission set" where
  "VIEWER_PERMS = {CONTENT_READ}"

definition OPERATOR_PERMS :: "permission set" where
  "OPERATOR_PERMS =
     VIEWER_PERMS \<union>
     {CONTENT_WRITE, SECRETS_LIST, RUNS_TRIGGER, RUNS_READ_EXTRA_VARS, VAULT_ENCRYPT}"

text \<open>\<open>ROLE_PERMISSIONS[Role(role)]\<close>: \<open>None\<close> where \<open>Role(role)\<close> raises \<open>ValueError\<close>.\<close>

definition ROLE_PERMISSIONS :: "string \<Rightarrow> permission set option" where
  "ROLE_PERMISSIONS role =
     (if role = ''viewer'' then Some VIEWER_PERMS
      else if role = ''operator'' then Some OPERATOR_PERMS
      else if role = ''admin'' then Some ALL_PERMISSIONS
      else None)"

definition KEY_ROLE_PREFIX :: string where
  "KEY_ROLE_PREFIX = ''key:''"

definition KEY_ROLE_PERMISSIONS :: "string \<Rightarrow> permission set option" where
  "KEY_ROLE_PERMISSIONS role =
     (if role = KEY_ROLE_PREFIX @ ''trigger'' then Some {CONTENT_READ, SECRETS_LIST, RUNS_TRIGGER}
      else if role = KEY_ROLE_PREFIX @ ''read-only'' then Some {CONTENT_READ}
      else None)"

definition SAFE_METHODS :: "string set" where
  "SAFE_METHODS = {''GET'', ''HEAD'', ''OPTIONS''}"

definition is_global_admin :: "user \<Rightarrow> bool" where
  "is_global_admin u = (user_role u = ''admin'')"

definition project_role_permissions :: "string \<Rightarrow> permission set" where
  "project_role_permissions role =
     (case KEY_ROLE_PERMISSIONS role of
        Some ps \<Rightarrow> ps
      | None \<Rightarrow> (case ROLE_PERMISSIONS role of Some ps \<Rightarrow> ps - GLOBAL_ONLY | None \<Rightarrow> {}))"

definition user_project_roles :: "database \<Rightarrow> user \<Rightarrow> (key_id \<times> string) list" where
  "user_project_roles db u =
     (case cached_project_roles u of
        Some roles \<Rightarrow> roles
      | None \<Rightarrow> fold (\<lambda>m d. dict_set (m_project_id m) (m_role m) d)
                  (filter (\<lambda>m. user_id u = Some (m_user_id m)) (members db)) [])"

definition project_permissions :: "database \<Rightarrow> user \<Rightarrow> key_id \<Rightarrow> permission set" where
  "project_permissions db u pid =
     (if is_global_admin u then ALL_PERMISSIONS
      else case map_of (user_project_roles db u) pid of
             None \<Rightarrow> {}
           | Some role \<Rightarrow> (if role \<noteq> [] then project_role_permissions role else {}))"

definition holds_somewhere :: "database \<Rightarrow> user \<Rightarrow> permission \<Rightarrow> bool" where
  "holds_somewhere db u p =
     (is_global_admin u \<or>
      (\<exists>(pid, role) \<in> set (user_project_roles db u). p \<in> project_role_permissions role))"

definition effective_permissions :: "database \<Rightarrow> user \<Rightarrow> permission set" where
  "effective_permissions db u =
     (if is_global_admin u then ALL_PERMISSIONS
      else fold (\<lambda>(pid, role) acc. acc \<union> project_role_permissions role) (user_project_roles db u) {})"

definition admin_2fa_required :: "env \<Rightarrow> database \<Rightarrow> user \<Rightarrow> bool" where
  "admin_2fa_required e db u =
     (require_admin_2fa e \<and>
      (is_global_admin u \<or> ''admin'' \<in> snd ` set (user_project_roles db u)))"

definition two_factor_setup_required ::
  "env \<Rightarrow> (string \<Rightarrow> string option) \<Rightarrow> database \<Rightarrow> user \<Rightarrow> string option \<Rightarrow> bool" where
  "two_factor_setup_required e session_info db u cookie =
     (if api_key_id u \<noteq> None \<or> two_factor_enabled u then False
      else (session_info (case cookie of None \<Rightarrow> [] | Some c \<Rightarrow> c) \<noteq> Some ''sso'') \<and>
           admin_2fa_required e db u)"

section \<open>The route guard\<close>

record request =
  rq_method :: string
  rq_path :: string
  rq_ip :: string
  rq_cookie :: "string option"

record guard_spec =
  gd_read :: "permission option"
  gd_write :: "permission option"
  gd_api_key :: bool
  gd_during_2fa_setup :: bool

definition endpoint_denial :: "user \<Rightarrow> request \<Rightarrow> vars \<Rightarrow> audit_args" where
  "endpoint_denial u rq detail =
     (audit_call ''permission.denied'')
       \<lparr>au_outcome := ''denied'', au_actor := Some u, au_target_type := Some ''endpoint'',
        au_target_name := Some (rq_method rq @ '' '' @ rq_path rq), au_ip := Some (rq_ip rq),
        au_detail := Some detail\<rparr>"

definition guard ::
  "env \<Rightarrow> (string \<Rightarrow> string option) \<Rightarrow> guard_spec \<Rightarrow> time \<Rightarrow> request \<Rightarrow> user \<Rightarrow> database \<Rightarrow>
   database \<times> user http" where
  "guard e session_info g now rq u db =
     (if api_key_id u \<noteq> None \<and> \<not> gd_api_key g
      then (audit_record now
              (endpoint_denial u rq [(vkey ''reason'', Str ''api keys cannot use this endpoint'')]) db,
            Inl (HTTPException 403 ''API keys cannot use this endpoint''))
      else if \<not> gd_during_2fa_setup g \<and>
              two_factor_setup_required e session_info db u (rq_cookie rq)
      then (audit_record now
              (endpoint_denial u rq [(vkey ''reason'', Str ''two-factor setup required'')]) db,
            Inl (HTTPException 403 ''Set up two-factor login first''))
      else let required = (if rq_method rq \<in> SAFE_METHODS then gd_read g else gd_write g) in
           case required of
             None \<Rightarrow> (db, Inr u)
           | Some p \<Rightarrow>
               if \<not> holds_somewhere db u p
               then (audit_record now
                       (endpoint_denial u rq [(vkey ''required'', Str (permission_text p))]) db,
                     Inl (HTTPException 403 ''You do not have permission to do that''))
               else (db, Inr u))"

section \<open>The principal of an API key\<close>

definition principal_for :: "api_key \<Rightarrow> user" where
  "principal_for k =
     \<lparr>user_id = None, username = ''apikey:'' @ k_name k, password_hash = ''!'', user_role = ''viewer'',
      is_active = True, session_version = 0, totp_secret = None, totp_pending_secret = None, totp_last_counter = None,
      recovery_code_hashes = None, webauthn_user_handle = None, webauthn_pending = None, passkeys = [],
      cached_project_roles = Some [(k_project_id k, KEY_ROLE_PREFIX @ k_preset k)],
      api_key_id = Some (k_id k), allowed_playbook_ids = k_allowed_playbook_ids k,
      allowed_inventory_ids = k_allowed_inventory_ids k\<rparr>"

definition run_limit_problem :: "user \<Rightarrow> key_id \<Rightarrow> key_id \<Rightarrow> string option" where
  "run_limit_problem u playbook inventory =
     (if (case allowed_playbook_ids u of None \<Rightarrow> False | Some ps \<Rightarrow> playbook \<notin> set ps)
      then Some ''This API key may not run this playbook''
      else if (case allowed_inventory_ids u of None \<Rightarrow> False | Some is \<Rightarrow> inventory \<notin> set is)
      then Some ''This API key may not run against this inventory''
      else None)"

section \<open>Facts about roles\<close>

lemmas role_defs = project_role_permissions_def KEY_ROLE_PERMISSIONS_def ROLE_PERMISSIONS_def
  KEY_ROLE_PREFIX_def VIEWER_PERMS_def OPERATOR_PERMS_def GLOBAL_ONLY_def

text \<open>A project role never carries a global permission, whatever text is stored for it.\<close>

lemma project_role_not_global: "project_role_permissions role \<inter> GLOBAL_ONLY = {}"
  by (auto simp: role_defs)

lemma project_role_unknown:
  "role \<notin> {''viewer'', ''operator'', ''admin'', ''key:trigger'', ''key:read-only''} \<Longrightarrow>
   project_role_permissions role = {}"
  by (simp add: role_defs)

lemma project_permissions_member:
  "p \<in> project_permissions db u pid \<Longrightarrow> \<not> is_global_admin u \<Longrightarrow>
   \<exists>role. map_of (user_project_roles db u) pid = Some role \<and> p \<in> project_role_permissions role"
  by (auto simp: project_permissions_def split: option.splits if_splits)

lemma project_permissions_somewhere:
  "p \<in> project_permissions db u pid \<Longrightarrow> holds_somewhere db u p"
  by (cases "is_global_admin u")
     (auto simp: holds_somewhere_def dest!: project_permissions_member map_of_SomeD)

lemma role_project_permissions:
  assumes "distinct (map fst (user_project_roles db u))"
    and "(pid, role) \<in> set (user_project_roles db u)" and "p \<in> project_role_permissions role"
  shows "p \<in> project_permissions db u pid"
proof -
  have "role \<noteq> []" using assms(3) by (auto simp: role_defs)
  with assms show ?thesis by (auto simp: project_permissions_def)
qed

lemma distinct_fold_dict_set:
  "distinct (map fst d) \<Longrightarrow> distinct (map fst (fold (\<lambda>m. dict_set (f m) (g m)) ms d))"
  by (induction ms arbitrary: d) (simp_all add: distinct_dict_set)

text \<open>The roles read from the membership table are one per project.\<close>

lemma user_project_roles_distinct:
  "cached_project_roles u = None \<Longrightarrow> distinct (map fst (user_project_roles db u))"
  by (simp add: user_project_roles_def distinct_fold_dict_set)

lemma fold_role_permissions:
  "fold (\<lambda>(pid, role) acc. acc \<union> project_role_permissions role) rs A =
   A \<union> {p. \<exists>(pid, role) \<in> set rs. p \<in> project_role_permissions role}"
  by (induction rs arbitrary: A) auto

lemma effective_permissions_eq:
  "effective_permissions db u = {p. holds_somewhere db u p}"
  by (auto simp: effective_permissions_def holds_somewhere_def fold_role_permissions)

lemma principal_roles [simp]:
  "user_project_roles db (principal_for k) = [(k_project_id k, KEY_ROLE_PREFIX @ k_preset k)]"
  "\<not> is_global_admin (principal_for k)" "api_key_id (principal_for k) = Some (k_id k)"
  by (simp_all add: user_project_roles_def principal_for_def is_global_admin_def)

lemma key_role_bound:
  "project_role_permissions (KEY_ROLE_PREFIX @ preset) \<subseteq> {CONTENT_READ, SECRETS_LIST, RUNS_TRIGGER}"
  by (auto simp: role_defs)

section \<open>What the guard and the key principal promise\<close>

text \<open>When a request may pass: what the guard is meant to decide, without its order of checks.\<close>

definition request_allowed ::
  "env \<Rightarrow> (string \<Rightarrow> string option) \<Rightarrow> guard_spec \<Rightarrow> request \<Rightarrow> user \<Rightarrow> database \<Rightarrow> bool" where
  "request_allowed e session_info g rq u db =
     ((api_key_id u = None \<or> gd_api_key g) \<and>
      (two_factor_setup_required e session_info db u (rq_cookie rq) \<longrightarrow> gd_during_2fa_setup g) \<and>
      (case (if rq_method rq \<in> SAFE_METHODS then gd_read g else gd_write g) of
         None \<Rightarrow> True | Some p \<Rightarrow> holds_somewhere db u p))"


text \<open>
  An API key acts in its own project only, and there never beyond reading content, listing
  secrets' metadata and triggering runs: no become, no secrets, no membership, no global
  permission, whatever preset text its row holds.
\<close>

theorem api_key_confined:
  "project_permissions db (principal_for k) pid \<subseteq>
     (if pid = k_project_id k then {CONTENT_READ, SECRETS_LIST, RUNS_TRIGGER} else {})"
  using key_role_bound [of "k_preset k"]
  by (auto simp: project_permissions_def)

text \<open>
  Someone who is not a global admin holds a global permission nowhere: not in any project
  and not in the union over all their projects, whatever roles the membership rows hold; and
  what they hold in a project is part of that union, so the route guard never refuses a request
  the project's own check would allow.
\<close>

theorem global_permissions_admin_only:
  assumes "\<not> is_global_admin u"
  shows "effective_permissions db u \<inter> GLOBAL_ONLY = {} \<and>
    project_permissions db u pid \<inter> GLOBAL_ONLY = {} \<and>
    project_permissions db u pid \<subseteq> effective_permissions db u"
proof -
  have 1: "project_permissions db u pid \<subseteq> effective_permissions db u"
    using project_permissions_somewhere by (auto simp: effective_permissions_eq)
  have 2: "effective_permissions db u \<inter> GLOBAL_ONLY = {}"
    using assms project_role_not_global by (fastforce simp: effective_permissions_eq holds_somewhere_def)
  from 1 2 show ?thesis by blast
qed

definition sample_key :: api_key where
  "sample_key =
     \<lparr>k_id = 1, k_project_id = 7, k_name = ''ci'', k_preset = ''trigger'', k_prefix = ''adk'',
      k_token_hash = ''h'', k_created_by = ''ann'', k_created_by_id = None, k_created_at = 0, k_expires_at = 10,
      k_last_used_at = None, k_last_used_ip = None, k_revoked_at = None, k_revoked_by = None, k_allowed_networks = None,
      k_allowed_playbook_ids = None, k_allowed_inventory_ids = None\<rparr>"

theorem global_permissions_admin_only_witness:
  "\<forall>db. effective_permissions db (principal_for sample_key) \<inter> GLOBAL_ONLY = {} \<and>
    RUNS_TRIGGER \<in> project_permissions db (principal_for sample_key) 7"
  using global_permissions_admin_only [of "principal_for sample_key" _ 7]
  by (simp add: project_permissions_def sample_key_def role_defs)

end
