(* ===== verification/Scoping.thy ===== *)
theory Scoping
  imports Permissions
begin

text \<open>
  Per-project resolution, \<open>app/scoping.py\<close>: every handler that touches a project-owned row goes
  through these. The table a handler reads (\<open>model\<close>) is given by its key, its project column and
  how to read its rows off the database.
\<close>

section \<open>Denials\<close>

definition record_denial ::
  "time \<Rightarrow> user \<Rightarrow> request option \<Rightarrow> permission \<Rightarrow> key_id option \<Rightarrow> vars \<Rightarrow> database \<Rightarrow> database"
where
  "record_denial now u rq p pid detail db =
     audit_record now
       ((audit_call ''permission.denied'')
          \<lparr>au_outcome := ''denied'', au_actor := Some u, au_target_type := Some ''endpoint'',
           au_target_name := map_option (\<lambda>r. rq_method r @ '' '' @ rq_path r) rq,
           au_ip := map_option rq_ip rq, au_project_id := pid,
           au_detail := Some ((vkey ''required'', Str (permission_text p)) # detail)\<rparr>) db"

definition deny ::
  "time \<Rightarrow> user \<Rightarrow> request option \<Rightarrow> permission \<Rightarrow> key_id option \<Rightarrow> database \<Rightarrow> database \<times> 'a http"
where
  "deny now u rq p pid db =
     (record_denial now u rq p pid [] db,
      Inl (HTTPException 403 ''You do not have permission to do that''))"

definition hidden ::
  "time \<Rightarrow> user \<Rightarrow> request option \<Rightarrow> permission \<Rightarrow> key_id \<Rightarrow> string \<Rightarrow> database \<Rightarrow>
   database \<times> 'a http" where
  "hidden now u rq p pid not_found db =
     (record_denial now u rq p (Some pid) [(vkey ''reason'', Str ''not_member'')] db,
      Inl (HTTPException 404 not_found))"

section \<open>Reaching a row\<close>

definition get_scoped ::
  "(database \<Rightarrow> key_id \<Rightarrow> 'r option) \<Rightarrow> ('r \<Rightarrow> key_id) \<Rightarrow> time \<Rightarrow> user \<Rightarrow> request option \<Rightarrow> key_id \<Rightarrow>
   permission \<Rightarrow> string \<Rightarrow> database \<Rightarrow> database \<times> 'r http" where
  "get_scoped get project now u rq i p not_found db =
     (case get db i of
        None \<Rightarrow> (db, Inl (HTTPException 404 not_found))
      | Some obj \<Rightarrow>
          let perms = project_permissions db u (project obj) in
          if perms = {} then hidden now u rq p (project obj) not_found db
          else if p \<notin> perms then deny now u rq p (Some (project obj)) db
          else (db, Inr obj))"

definition require_project_permission ::
  "time \<Rightarrow> user \<Rightarrow> request option \<Rightarrow> key_id \<Rightarrow> permission \<Rightarrow> database \<Rightarrow> database \<times> project http"
where
  "require_project_permission now u rq pid p db =
     (case get_row p_id (projects db) pid of
        None \<Rightarrow> (db, Inl (HTTPException 404 ''Project not found''))
      | Some project \<Rightarrow>
          let perms = project_permissions db u pid in
          if perms = {} then hidden now u rq p pid ''Project not found'' db
          else if p \<notin> perms then deny now u rq p (Some pid) db
          else (db, Inr project))"

text \<open>The projects of the caller whose role carries a permission, as both list routines filter.\<close>

definition permitted_project_ids :: "database \<Rightarrow> user \<Rightarrow> permission \<Rightarrow> key_id list" where
  "permitted_project_ids db u p =
     map fst (filter (\<lambda>(pid, role). p \<in> project_role_permissions role) (user_project_roles db u))"

definition readable_project_ids ::
  "time \<Rightarrow> user \<Rightarrow> request option \<Rightarrow> permission \<Rightarrow> key_id option \<Rightarrow> database \<Rightarrow>
   database \<times> key_id list option http" where
  "readable_project_ids now u rq p pid db =
     (case pid of
        Some i \<Rightarrow>
          (case require_project_permission now u rq i p db of
             (db', Inl e) \<Rightarrow> (db', Inl e)
           | (db', Inr _) \<Rightarrow> (db', Inr (Some [i])))
      | None \<Rightarrow>
          if is_global_admin u then (db, Inr None)
          else (db, Inr (Some (permitted_project_ids db u p))))"

definition resolve_write_project ::
  "time \<Rightarrow> user \<Rightarrow> request option \<Rightarrow> key_id option \<Rightarrow> permission \<Rightarrow> database \<Rightarrow> database \<times> key_id http"
where
  "resolve_write_project now u rq pid p db =
     (case pid of
        Some i \<Rightarrow>
          (case require_project_permission now u rq i p db of
             (db', Inl e) \<Rightarrow> (db', Inl e)
           | (db', Inr _) \<Rightarrow> (db', Inr i))
      | None \<Rightarrow>
          let candidates = (if is_global_admin u then map p_id (projects db)
                            else permitted_project_ids db u p) in
          (case candidates of
             [i] \<Rightarrow> (db, Inr i)
           | [] \<Rightarrow> (db, Inl (HTTPException 400 ''No project available to create this in''))
           | _ \<Rightarrow> (db, Inl (HTTPException 400
                    ''project_id is required (you can write to several projects)''))))"

section \<open>What scoping promises\<close>

lemma record_denial_frame [simp]:
  "runs (record_denial now u rq p pid d db) = runs db"
  "refreshes (record_denial now u rq p pid d db) = refreshes db"
  "lints (record_denial now u rq p pid d db) = lints db"
  "scans (record_denial now u rq p pid d db) = scans db"
  by (simp_all add: record_denial_def)

lemma record_denial_appends:
  "\<exists>ev. audit_events (record_denial now u rq p pid d db) = audit_events db @ [ev] \<and>
        ev_action ev = ''permission.denied'' \<and> ev_outcome ev = ''denied'' \<and> ev_project_id ev = pid"
  by (simp add: record_denial_def audit_record_def audit_call_def Let_def)

lemma permitted_project_ids_sound:
  assumes "cached_project_roles u = None" and "pid \<in> set (permitted_project_ids db u p)"
  shows "p \<in> project_permissions db u pid"
  using assms(2) role_project_permissions [OF user_project_roles_distinct [OF assms(1)]]
  by (auto simp: permitted_project_ids_def)

lemma permitted_project_ids_complete:
  assumes "\<not> is_global_admin u" and "p \<in> project_permissions db u pid"
  shows "pid \<in> set (permitted_project_ids db u p)"
  using project_permissions_member [OF assms(2,1)]
  by (force simp: permitted_project_ids_def dest: map_of_SomeD)

lemma require_project_permission_Inr:
  "snd (require_project_permission now u rq i p db) = Inr r \<Longrightarrow>
   fst (require_project_permission now u rq i p db) = db \<and> p \<in> project_permissions db u i \<and>
   get_row p_id (projects db) i = Some r"
  by (auto simp: require_project_permission_def hidden_def deny_def Let_def
      split: option.splits if_splits)


text \<open>
  The project a create request writes into is always one where the caller holds the
  permission, or, for a global admin, one that exists; an explicit id is never replaced; and
  the database is unchanged when a project is found.
\<close>

theorem resolve_write_project_sound:
  assumes "cached_project_roles u = None"
    and "resolve_write_project now u rq pid p db = (db', Inr i)"
  shows "db' = db \<and> p \<in> project_permissions db u i \<and> (pid = None \<or> pid = Some i) \<and>
    (is_global_admin u \<longrightarrow> i \<in> p_id ` set (projects db))"
proof (cases pid)
  case (Some j)
  then obtain r where "require_project_permission now u rq j p db = (db', Inr r)" "i = j"
    using assms(2) by (auto simp: resolve_write_project_def split: prod.splits sum.splits)
  then show ?thesis
    using require_project_permission_Inr [of now u rq j p db r] Some
    by (auto dest!: get_row_Some)
next
  case None
  let ?c = "if is_global_admin u then map p_id (projects db) else permitted_project_ids db u p"
  have "db' = db" "?c = [i]"
    using assms(2) None unfolding resolve_write_project_def
    by (auto simp: Let_def split: list.splits if_splits)
  then show ?thesis
    using None permitted_project_ids_sound [OF assms(1), of i db p]
    by (auto simp: project_permissions_def [of db u] split: if_splits)
qed

definition sample_member :: user where
  "sample_member =
     \<lparr>user_id = Some 4, username = ''mel'', password_hash = ''x'', user_role = ''viewer'',
      is_active = True, session_version = 0, totp_secret = None, totp_pending_secret = None, totp_last_counter = None,
      recovery_code_hashes = None, webauthn_user_handle = None, webauthn_pending = None, passkeys = [],
      cached_project_roles = None, api_key_id = None, allowed_playbook_ids = None,
      allowed_inventory_ids = None\<rparr>"

theorem resolve_write_project_sound_witness:
  "resolve_write_project 0 sample_member None None CONTENT_WRITE
     (empty_db\<lparr>projects := [\<lparr>p_id = 7, p_name = ''web''\<rparr>],
       members := [\<lparr>m_project_id = 7, m_user_id = 4, m_role = ''operator''\<rparr>]\<rparr>) =
     (empty_db\<lparr>projects := [\<lparr>p_id = 7, p_name = ''web''\<rparr>],
       members := [\<lparr>m_project_id = 7, m_user_id = 4, m_role = ''operator''\<rparr>]\<rparr>, Inr 7) \<and>
   CONTENT_WRITE \<in> project_permissions
     (empty_db\<lparr>projects := [\<lparr>p_id = 7, p_name = ''web''\<rparr>],
       members := [\<lparr>m_project_id = 7, m_user_id = 4, m_role = ''operator''\<rparr>]\<rparr>) sample_member 7"
proof -
  let ?db = "empty_db\<lparr>projects := [\<lparr>p_id = 7, p_name = ''web''\<rparr>],
       members := [\<lparr>m_project_id = 7, m_user_id = 4, m_role = ''operator''\<rparr>]\<rparr>"
  have "resolve_write_project 0 sample_member None None CONTENT_WRITE ?db = (?db, Inr 7)"
    by (simp add: resolve_write_project_def permitted_project_ids_def user_project_roles_def
        is_global_admin_def sample_member_def role_defs)
  then show ?thesis
    using resolve_write_project_sound [of sample_member 0 None None CONTENT_WRITE ?db ?db 7]
    by (simp add: sample_member_def)
qed

end
