(* ===== verification/Claims.thy ===== *)
theory Claims
  imports Models
begin

text \<open>
  How a claim statement behaves, for the four statements of \<open>app/queue.py\<close>: a subquery picks the
  oldest eligible queued row with \<open>FOR UPDATE SKIP LOCKED\<close>, and the update starts it. The
  statement sees the snapshot taken when it began, while other transactions go on: rows they have
  locked are skipped, and a row that changed since the snapshot is checked again before it is
  locked (Postgres's READ COMMITTED). The table the update writes is the live one, and a partial
  unique index is checked against it.
\<close>

definition queue_order :: "'a job_scheme \<Rightarrow> time \<times> key_id" where
  "queue_order r = (queued_at r, row_id r)"

definition claimable ::
  "('a job_scheme \<Rightarrow> bool) \<Rightarrow> key_id list \<Rightarrow> 'a job_scheme list \<Rightarrow> 'a job_scheme \<Rightarrow> bool" where
  "claimable eligible locked live r =
     (eligible r \<and> row_id r \<notin> set locked \<and>
      (case get_row row_id live (row_id r) of None \<Rightarrow> False | Some x \<Rightarrow> eligible x))"

definition claim_stmt ::
  "('a job_scheme \<Rightarrow> bool) \<Rightarrow> ('a job_scheme \<Rightarrow> 'a job_scheme) \<Rightarrow> key_id list \<Rightarrow>
   'a job_scheme list \<Rightarrow> 'a job_scheme list \<Rightarrow> (key_id \<times> 'a job_scheme list) option" where
  "claim_stmt eligible start locked snap live =
     (case first_by queue_order (filter (claimable eligible locked live) snap) of
        None \<Rightarrow> None
      | Some r \<Rightarrow> Some (row_id r, update_rows (\<lambda>x. row_id x = row_id r) start live))"

text \<open>The columns every claim sets.\<close>

definition claim_columns ::
  "time \<Rightarrow> int \<Rightarrow> int \<Rightarrow> string \<Rightarrow> string \<Rightarrow> string \<Rightarrow> 'a job_scheme \<Rightarrow> 'a job_scheme" where
  "claim_columns now lease ttl worker claim_hash job_hash r =
     r\<lparr>status := RUNNING, claimed_at := Some now, heartbeat_at := Some now,
       lease_expires_at := Some (now + secs lease), worker_id := Some worker,
       claim_token_hash := Some claim_hash, job_token_hash := Some job_hash,
       job_token_expires_at := Some (now + secs ttl)\<rparr>"

lemma claim_columns_keeps [simp]:
  "row_id (claim_columns now l t w c j r) = row_id r"
  "queued_at (claim_columns now l t w c j r) = queued_at r"
  "status (claim_columns now l t w c j r) = RUNNING"
  "claim_token_hash (claim_columns now l t w c j r) = Some c"
  "job_token_hash (claim_columns now l t w c j r) = Some j"
  "lease_expires_at (claim_columns now l t w c j r) = Some (now + secs l)"
  "finished_at (claim_columns now l t w c j r) = finished_at r"
  "started_at (claim_columns now l t w c j r) = started_at r"
  by (simp_all add: claim_columns_def)

text \<open>
  What the four statements have in common, and what follows from it alone. \<open>owner\<close> is the column
  of which at most one row may be running.
\<close>

locale claim_table =
  fixes table :: "database \<Rightarrow> 'a job_scheme list"
    and owner :: "'a job_scheme \<Rightarrow> key_id option"
    and eligible :: "'c \<Rightarrow> database \<Rightarrow> 'a job_scheme \<Rightarrow> bool"
    and start :: "'p \<Rightarrow> 'a job_scheme \<Rightarrow> 'a job_scheme"
  assumes eligible_queued: "eligible c snap r \<Longrightarrow> status r = QUEUED"
    and eligible_free:
      "eligible c snap r \<Longrightarrow> x \<in> set (table snap) \<Longrightarrow> status x = RUNNING \<Longrightarrow> owner x \<noteq> None \<Longrightarrow>
       owner x \<noteq> owner r"
    and start_row_id [simp]: "row_id (start p r) = row_id r"
    and start_owner [simp]: "owner (start p r) = owner r"
    and start_running [simp]: "status (start p r) = RUNNING"
begin

abbreviation stmt where
  "stmt c p locked snap live \<equiv> claim_stmt (eligible c snap) (start p) locked (table snap) live"

lemma claim_picks_oldest:
  assumes "stmt c p locked snap live = Some (i, live')"
  shows "\<exists>r \<in> set (table snap). row_id r = i \<and> claimable (eligible c snap) locked live r \<and>
    (\<forall>x \<in> set (table snap). claimable (eligible c snap) locked live x \<longrightarrow>
       queue_order r \<le> queue_order x)"
proof -
  obtain r where "first_by queue_order (filter (claimable (eligible c snap) locked live) (table snap)) = Some r"
    and "row_id r = i"
    using assms by (auto simp: claim_stmt_def split: option.splits)
  with first_by_Some [OF this(1)] show ?thesis by (intro bexI [of _ r]) auto
qed

lemma claim_starts_one:
  assumes "stmt c p locked snap live = Some (i, live')"
  shows "live' = update_rows (\<lambda>x. row_id x = i) (start p) live \<and>
    (\<exists>x. get_row row_id live i = Some x \<and> eligible c snap x \<and> status x = QUEUED \<and>
         i \<notin> set locked)"
proof -
  obtain r where r: "row_id r = i" "claimable (eligible c snap) locked live r"
    using claim_picks_oldest [OF assms] by blast
  then show ?thesis
    using assms eligible_queued
    by (auto simp: claim_stmt_def claimable_def split: option.splits)
qed

lemma claim_unique_ids:
  assumes "stmt c p locked snap live = Some (i, live')" and "unique_ids live"
  shows "unique_ids live'"
  using claim_starts_one [OF assms(1)] assms(2) unique_ids_update by force

lemma claim_get_row:
  assumes "stmt c p locked snap live = Some (i, live')"
  shows "get_row row_id live' j =
    map_option (\<lambda>x. if row_id x = i then start p x else x) (get_row row_id live j)"
  using claim_starts_one [OF assms] by (simp add: get_row_update_rows)

text \<open>When nothing ran beside the statement, the unique index cannot be violated.\<close>

lemma claim_fresh_unique:
  assumes c: "stmt c p locked db (table db) = Some (i, live')"
    and u: "unique_running owner (table db)" and ids: "unique_ids (table db)"
  shows "unique_running owner live'"
proof -
  obtain r where r: "r \<in> set (table db)" "row_id r = i" "eligible c db r"
    using claim_starts_one [OF c] by (auto dest: get_row_Some)
  have "\<not> running_conflict owner (table db) r"
    using eligible_free [OF r(3)] by (auto simp: running_conflict_def)
  then show ?thesis
    using claim_starts_one [OF c] r unique_running_start [OF u ids r(1)] by simp
qed

lemma claim_progress:
  assumes "r \<in> set (table db)" "eligible c db r" "row_id r \<notin> set locked" "unique_ids (table db)"
  shows "\<exists>i live'. stmt c p locked db (table db) = Some (i, live')"
proof -
  have "claimable (eligible c db) locked (table db) r"
    using assms get_row_unique [of row_id "table db" r] by (simp add: claimable_def unique_ids_def)
  then show ?thesis
    using assms(1) first_by_None [of queue_order "filter (claimable (eligible c db) locked (table db)) (table db)"]
    by (fastforce simp: claim_stmt_def filter_empty_conv split: option.splits)
qed

end

end
