(* ===== verification/Store_Outage.thy ===== *)
theory Store_Outage
  imports Models
begin

text \<open>
  The secret store's outage row, \<open>app/store_outage.py\<close>: who waits while the store is down, and
  until when. The outage is one row shared by every API process.
\<close>

definition HOLD_SECONDS :: int where
  "HOLD_SECONDS = 30"

definition wait_minutes :: "env \<Rightarrow> int" where
  "wait_minutes e = secrets_store_wait_minutes e"

definition store_wait :: "env \<Rightarrow> bool" where
  "store_wait e = (wait_minutes e > 0)"

definition seen :: "time \<Rightarrow> string \<Rightarrow> database \<Rightarrow> database \<times> time" where
  "seen now kind db =
     (let since = (case outage db of None \<Rightarrow> now | Some o' \<Rightarrow> o_since o')
      in (db\<lparr>outage := Some \<lparr>o_kind = take 30 kind, o_since = since,
                             o_hold_until = now + secs HOLD_SECONDS\<rparr>\<rparr>, since))"

definition cleared :: "database \<Rightarrow> database \<times> bool" where
  "cleared db = (db\<lparr>outage := None\<rparr>, outage db \<noteq> None)"

definition current :: "time \<Rightarrow> database \<Rightarrow> store_outage option" where
  "current now db =
     (case outage db of
        None \<Rightarrow> None
      | Some o' \<Rightarrow> if o_hold_until o' > now then Some o' else None)"

definition deadline :: "env \<Rightarrow> time \<Rightarrow> time \<Rightarrow> time" where
  "deadline e queued since = max queued since + mins (wait_minutes e)"

text \<open>Python's truth of an optional string: neither \<open>None\<close> nor empty.\<close>

definition nonempty :: "string option \<Rightarrow> bool" where
  "nonempty s = (s \<noteq> None \<and> s \<noteq> Some [])"

definition run_needs_store :: "database \<Rightarrow> run \<Rightarrow> bool" where
  "run_needs_store db r =
     (let credential = (case credential_id r of
                          None \<Rightarrow> None
                        | Some i \<Rightarrow> if i \<noteq> 0 then get_row c_id (credentials db) i else None)
      in if (case credential of None \<Rightarrow> False
             | Some c \<Rightarrow> nonempty (c_store_path c) \<or> c_kind c = ''ssh_cert'') then True
         else if (case vault_password_id r of None \<Rightarrow> False
                  | Some i \<Rightarrow> (case get_row v_id (vault_passwords db) i of
                                 None \<Rightarrow> False | Some v \<Rightarrow> nonempty (v_store_path v))) then True
         else (case env_credential_ids r of
                 None \<Rightarrow> False
               | Some ids \<Rightarrow> (ids \<noteq> [] \<and>
                   length (filter (\<lambda>c. c_id c \<in> set ids \<and> c_store_path c \<noteq> None)
                     (credentials db)) \<noteq> 0)))"

definition refresh_needs_store :: "database \<Rightarrow> key_id \<Rightarrow> bool" where
  "refresh_needs_store db iid =
     (length (filter (\<lambda>(s, c). src_credential_id s = Some (c_id c) \<and> src_inventory_id s = iid \<and>
                               src_enabled s \<and> c_store_path c \<noteq> None)
        (List.product (sources db) (credentials db))) \<noteq> 0)"

section \<open>The same rules in the claim statements\<close>

text \<open>The \<open>EXISTS\<close> clauses of \<open>_CLAIM\<close> and \<open>_CLAIM_REFRESH\<close> in \<open>app/queue.py\<close>.\<close>

definition outage_holds :: "env \<Rightarrow> time \<Rightarrow> database \<Rightarrow> time \<Rightarrow> bool" where
  "outage_holds e now db queued =
     (case outage db of
        None \<Rightarrow> False
      | Some o' \<Rightarrow> o_hold_until o' > now \<and>
                  max queued (o_since o') + mins (wait_minutes e) > now)"

definition claim_needs_store :: "database \<Rightarrow> run \<Rightarrow> bool" where
  "claim_needs_store db r =
     ((\<exists>c \<in> set (credentials db). credential_id r = Some (c_id c) \<and>
         (c_store_path c \<noteq> None \<or> c_kind c = ''ssh_cert'')) \<or>
      (\<exists>v \<in> set (vault_passwords db). vault_password_id r = Some (v_id v) \<and> v_store_path v \<noteq> None) \<or>
      (\<exists>c \<in> set (credentials db). c_store_path c \<noteq> None \<and>
         (case env_credential_ids r of None \<Rightarrow> False | Some ids \<Rightarrow> c_id c \<in> set ids)))"

definition claim_refresh_needs_store :: "database \<Rightarrow> refresh \<Rightarrow> bool" where
  "claim_refresh_needs_store db f =
     (\<exists>s \<in> set (sources db). \<exists>c \<in> set (credentials db).
        src_credential_id s = Some (c_id c) \<and> src_inventory_id s = f_inventory_id f \<and>
        src_enabled s \<and> c_store_path c \<noteq> None)"

text \<open>
  What the tables guarantee and the equivalence needs: unique primary keys, ids from a sequence
  that starts at 1, and no empty store path (the API validates a path's segments).
\<close>

definition store_refs_ok :: "database \<Rightarrow> bool" where
  "store_refs_ok db =
     (distinct (map c_id (credentials db)) \<and> distinct (map v_id (vault_passwords db)) \<and>
      list_all (\<lambda>c. c_id c \<noteq> 0 \<and> c_store_path c \<noteq> Some []) (credentials db) \<and>
      list_all (\<lambda>v. v_store_path v \<noteq> Some []) (vault_passwords db))"

lemma get_row_ex:
  "distinct (map key tbl) \<Longrightarrow>
   (case get_row key tbl i of None \<Rightarrow> False | Some r \<Rightarrow> P r) \<longleftrightarrow> (\<exists>r \<in> set tbl. key r = i \<and> P r)"
proof (cases "get_row key tbl i")
  case None
  then have "\<forall>r \<in> set tbl. key r \<noteq> i" by (simp add: get_row_None)
  with None show ?thesis by auto
next
  case (Some r)
  moreover assume "distinct (map key tbl)"
  ultimately have "x = r" if "x \<in> set tbl" "key x = i" for x
    using that get_row_unique [of key tbl x] by simp
  with Some show ?thesis by (auto dest: get_row_Some)
qed

lemma run_needs_store_agrees_aux:
  assumes "store_refs_ok db"
  shows "run_needs_store db r \<longleftrightarrow> claim_needs_store db r"
proof -
  have c: "distinct (map c_id (credentials db))" and v: "distinct (map v_id (vault_passwords db))"
    and cs: "\<And>c. c \<in> set (credentials db) \<Longrightarrow> c_id c \<noteq> 0 \<and> c_store_path c \<noteq> Some []"
    and vs: "\<And>v. v \<in> set (vault_passwords db) \<Longrightarrow> v_store_path v \<noteq> Some []"
    using assms by (auto simp: store_refs_ok_def list_all_iff)
  have 1: "(case (case credential_id r of None \<Rightarrow> None
                  | Some i \<Rightarrow> if i \<noteq> 0 then get_row c_id (credentials db) i else None) of
              None \<Rightarrow> False | Some c \<Rightarrow> nonempty (c_store_path c) \<or> c_kind c = ''ssh_cert'') \<longleftrightarrow>
    (\<exists>c \<in> set (credentials db). credential_id r = Some (c_id c) \<and>
         (c_store_path c \<noteq> None \<or> c_kind c = ''ssh_cert''))"
  proof (cases "credential_id r")
    case (Some i)
    have "(case get_row c_id (credentials db) i of None \<Rightarrow> False
       | Some c \<Rightarrow> nonempty (c_store_path c) \<or> c_kind c = ''ssh_cert'') \<longleftrightarrow>
      (\<exists>c \<in> set (credentials db). c_id c = i \<and> (c_store_path c \<noteq> None \<or> c_kind c = ''ssh_cert''))"
      unfolding get_row_ex [OF c] nonempty_def using cs by blast
    then show ?thesis using Some cs by auto
  qed simp
  have 2: "(case vault_password_id r of None \<Rightarrow> False
            | Some i \<Rightarrow> (case get_row v_id (vault_passwords db) i of
                 None \<Rightarrow> False | Some v \<Rightarrow> nonempty (v_store_path v))) \<longleftrightarrow>
    (\<exists>v \<in> set (vault_passwords db). vault_password_id r = Some (v_id v) \<and> v_store_path v \<noteq> None)"
    unfolding nonempty_def using vs by (cases "vault_password_id r") (auto simp: get_row_ex [OF v])
  have 3: "(case env_credential_ids r of None \<Rightarrow> False
            | Some ids \<Rightarrow> (ids \<noteq> [] \<and> length (filter (\<lambda>c. c_id c \<in> set ids \<and> c_store_path c \<noteq> None)
                     (credentials db)) \<noteq> 0)) \<longleftrightarrow>
    (\<exists>c \<in> set (credentials db). c_store_path c \<noteq> None \<and>
         (case env_credential_ids r of None \<Rightarrow> False | Some ids \<Rightarrow> c_id c \<in> set ids))"
    by (cases "env_credential_ids r") (auto simp: filter_empty_conv)
  show ?thesis
    unfolding run_needs_store_def claim_needs_store_def Let_def 1 2 3 by (simp only: if_True if_False if_bool_eq_disj) blast
qed

text \<open>
  The rule \<open>wait_reason\<close> shows the user (\<open>run_needs_store\<close>, in Python) and the rule the claim
  statement applies (in SQL) agree on every run, so a run is never said to wait for the store
  while it could be claimed, or the other way round.
\<close>

theorem run_needs_store_agrees:
  assumes "store_refs_ok db"
  shows "run_needs_store db r \<longleftrightarrow> claim_needs_store db r"
  using assms by (rule run_needs_store_agrees_aux)

theorem run_needs_store_agrees_witness:
  "store_refs_ok (empty_db\<lparr>credentials := [\<lparr>c_id = 3, c_name = ''k'', c_kind = ''ssh'',
       c_env_names = None, c_store_path = Some ''a/b'', c_store_key = None, c_ssh_mount = None, c_project_id = 1\<rparr>]\<rparr>) \<and>
   claim_needs_store (empty_db\<lparr>credentials := [\<lparr>c_id = 3, c_name = ''k'', c_kind = ''ssh'',
       c_env_names = None, c_store_path = Some ''a/b'', c_store_key = None, c_ssh_mount = None, c_project_id = 1\<rparr>]\<rparr>)
     ((blank_run 1 0)\<lparr>credential_id := Some 3\<rparr>)"
proof -
  let ?db = "empty_db\<lparr>credentials := [\<lparr>c_id = 3, c_name = ''k'', c_kind = ''ssh'',
       c_env_names = None, c_store_path = Some ''a/b'', c_store_key = None, c_ssh_mount = None, c_project_id = 1\<rparr>]\<rparr>"
  have ok: "store_refs_ok ?db" by (simp add: store_refs_ok_def empty_db_def)
  have "run_needs_store ?db ((blank_run 1 0)\<lparr>credential_id := Some 3\<rparr>)"
    by (simp add: run_needs_store_def get_row_def nonempty_def)
  then show ?thesis using ok run_needs_store_agrees [OF ok] by simp
qed

lemma refresh_needs_store_agrees:
  "refresh_needs_store db (f_inventory_id f) \<longleftrightarrow> claim_refresh_needs_store db f"
  by (auto simp: refresh_needs_store_def claim_refresh_needs_store_def filter_empty_conv)

lemma outage_holds_iff:
  "outage_holds e now db queued \<longleftrightarrow>
     (\<exists>o'. current now db = Some o' \<and> deadline e queued (o_since o') > now)"
  by (auto simp: outage_holds_def current_def deadline_def split: option.splits if_splits)

lemma store_outage_frame [simp]:
  "runs (fst (seen now k db)) = runs db" "refreshes (fst (seen now k db)) = refreshes db"
  "lints (fst (seen now k db)) = lints db" "scans (fst (seen now k db)) = scans db"
  "installs (fst (seen now k db)) = installs db" "run_logs (fst (seen now k db)) = run_logs db"
  "runs (fst (cleared db)) = runs db" "refreshes (fst (cleared db)) = refreshes db"
  "lints (fst (cleared db)) = lints db" "scans (fst (cleared db)) = scans db"
  "installs (fst (cleared db)) = installs db" "run_logs (fst (cleared db)) = run_logs db"
  by (simp_all add: seen_def cleared_def Let_def)

text \<open>
  However often an outage is sighted, its start stays that of the first sighting, so the
  deadline of a waiting run does not move: it waits at most the configured time in all.
\<close>

lemma seen_keeps_since:
  "snd (seen now' k' (fst (seen now k db))) = snd (seen now k db)"
  by (auto simp: seen_def Let_def split: option.splits)

end
