(* ===== verification/Run_Log.thy ===== *)
theory Run_Log
  imports Models
begin

text \<open>
  A run's JSONL log, \<open>app/run_log.py\<close>. The file is written and fsynced before the row that
  carries its committed length (\<open>log_bytes\<close>) is committed; a write whose commit never happened
  leaves bytes behind which the next append cuts off. How an event becomes a line (the pattern
  scrubber, \<open>json.dumps\<close>) is the parameter \<open>log_line\<close> of \<open>env\<close>.
\<close>

type_synonym files = "key_id \<Rightarrow> string option"

definition file_text :: "files \<Rightarrow> key_id \<Rightarrow> string" where
  "file_text files i = (case files i of None \<Rightarrow> [] | Some s \<Rightarrow> s)"

text \<open>\<open>truncate(n)\<close>: cuts the file, or extends it with zero bytes.\<close>

definition truncate_to :: "int \<Rightarrow> string \<Rightarrow> string" where
  "truncate_to n s = take (nat n) s @ replicate (nat n - length s) (CHR 0x00)"

definition log_data :: "env \<Rightarrow> vars list \<Rightarrow> string" where
  "log_data e events = concat (map (log_line e) events)"

definition append_events :: "env \<Rightarrow> vars list \<Rightarrow> run \<Rightarrow> files \<Rightarrow> run \<times> files" where
  "append_events e events r files =
     (let data = log_data e events;
          old = truncate_to (log_bytes r) (file_text files (row_id r))
      in (r\<lparr>log_bytes := log_bytes r + int (length data)\<rparr>, files(row_id r \<mapsto> old @ data)))"

definition append_status_line :: "env \<Rightarrow> string \<Rightarrow> run \<Rightarrow> files \<Rightarrow> run \<times> files" where
  "append_status_line e line_text r files =
     (let r' = r\<lparr>log_seq := log_seq r + 1\<rparr>
      in append_events e
           [[(vkey ''event'', Str ''ansideck_status''), (vkey ''counter'', VInt (log_seq r')),
             (vkey ''stdout'', Str line_text)]] r' files)"

section \<open>The committed log\<close>

definition committed_log :: "run \<Rightarrow> files \<Rightarrow> string" where
  "committed_log r files = take (nat (log_bytes r)) (file_text files (row_id r))"

definition log_ok :: "run \<Rightarrow> files \<Rightarrow> bool" where
  "log_ok r files = (0 \<le> log_bytes r \<and> nat (log_bytes r) \<le> length (file_text files (row_id r)))"

lemma append_events_columns [simp]:
  "row_id (fst (append_events e evs r fs)) = row_id r"
  "status (fst (append_events e evs r fs)) = status r"
  "inventory_id (fst (append_events e evs r fs)) = inventory_id r"
  "claim_token_hash (fst (append_events e evs r fs)) = claim_token_hash r"
  "job_token_hash (fst (append_events e evs r fs)) = job_token_hash r"
  "finished_at (fst (append_events e evs r fs)) = finished_at r"
  "lease_expires_at (fst (append_events e evs r fs)) = lease_expires_at r"
  "log_seq (fst (append_events e evs r fs)) = log_seq r"
  "started_at (fst (append_events e evs r fs)) = started_at r"
  "status_reason (fst (append_events e evs r fs)) = status_reason r"
  "queued_at (fst (append_events e evs r fs)) = queued_at r"
  "project_id (fst (append_events e evs r fs)) = project_id r"
  by (simp_all add: append_events_def Let_def)

lemma append_status_line_columns [simp]:
  "row_id (fst (append_status_line e t r fs)) = row_id r"
  "status (fst (append_status_line e t r fs)) = status r"
  "inventory_id (fst (append_status_line e t r fs)) = inventory_id r"
  "claim_token_hash (fst (append_status_line e t r fs)) = claim_token_hash r"
  "job_token_hash (fst (append_status_line e t r fs)) = job_token_hash r"
  "finished_at (fst (append_status_line e t r fs)) = finished_at r"
  "lease_expires_at (fst (append_status_line e t r fs)) = lease_expires_at r"
  "log_seq (fst (append_status_line e t r fs)) = log_seq r + 1"
  "started_at (fst (append_status_line e t r fs)) = started_at r"
  "status_reason (fst (append_status_line e t r fs)) = status_reason r"
  "queued_at (fst (append_status_line e t r fs)) = queued_at r"
  "project_id (fst (append_status_line e t r fs)) = project_id r"
  by (simp_all add: append_status_line_def Let_def)

lemma truncate_to_ok: "nat n \<le> length s \<Longrightarrow> truncate_to n s = take (nat n) s"
  by (simp add: truncate_to_def)

lemma append_events_log:
  assumes "log_ok r files" and "append_events e events r files = (r', files')"
  shows "log_ok r' files' \<and> committed_log r' files' = committed_log r files @ log_data e events \<and>
    (\<forall>i. i \<noteq> row_id r \<longrightarrow> files' i = files i)"
  using assms
  by (auto simp: append_events_def log_ok_def committed_log_def truncate_to_ok Let_def
      file_text_def nat_add_distrib min_def)

section \<open>Crashes\<close>

text \<open>
  An append either commits, or the process dies before the commit: before the file is touched,
  or after cutting it back and writing some of the bytes. The row then keeps its old length.
\<close>

datatype log_attempt = Commit "vars list" | Crash_early "vars list" | Crash_writing "vars list" nat

fun attempt :: "env \<Rightarrow> log_attempt \<Rightarrow> run \<times> files \<Rightarrow> run \<times> files" where
  "attempt e (Commit events) (r, files) = append_events e events r files"
| "attempt e (Crash_early events) (r, files) = (r, files)"
| "attempt e (Crash_writing events k) (r, files) =
     (r, files(row_id r \<mapsto> truncate_to (log_bytes r) (file_text files (row_id r)) @
                           take k (log_data e events)))"

fun committed_data :: "env \<Rightarrow> log_attempt list \<Rightarrow> string" where
  "committed_data e [] = []"
| "committed_data e (Commit events # as) = log_data e events @ committed_data e as"
| "committed_data e (_ # as) = committed_data e as"

lemma crash_writing_log:
  assumes "log_ok r files"
  shows "let files' = snd (attempt e (Crash_writing events k) (r, files)) in
    log_ok r files' \<and> committed_log r files' = committed_log r files"
  using assms by (simp add: log_ok_def committed_log_def truncate_to_ok Let_def file_text_def)

text \<open>
  C23. Whatever mix of committed appends and crashes a run's log goes through, what a reader sees
  of it (the committed length of the file) is the log before followed by exactly the committed
  appends, in order: nothing of a write that did not commit, nothing lost, nothing twice.
\<close>

theorem log_crash_consistent:
  assumes "log_ok r files" and "fold (attempt e) as (r, files) = (r', files')"
  shows "log_ok r' files' \<and> committed_log r' files' = committed_log r files @ committed_data e as"
  using assms
proof (induction as arbitrary: r files)
  case (Cons a as)
  obtain r1 files1 where 1: "attempt e a (r, files) = (r1, files1)"
    by (cases "attempt e a (r, files)")
  have "log_ok r1 files1 \<and>
    committed_log r1 files1 = committed_log r files @ committed_data e [a]"
  proof (cases a)
    case (Commit events)
    with 1 Cons.prems(1) show ?thesis using append_events_log [of r files e events r1 files1] by simp
  next
    case (Crash_early events)
    with 1 Cons.prems(1) show ?thesis by simp
  next
    case (Crash_writing events k)
    with 1 show ?thesis using crash_writing_log [OF Cons.prems(1), of e events k]
      by (auto simp: Let_def)
  qed
  moreover have "committed_data e (a # as) = committed_data e [a] @ committed_data e as"
    by (cases a) simp_all
  ultimately show ?case using Cons.IH [of r1 files1] Cons.prems(2) 1 by simp
qed simp

text \<open>A concrete environment for the examples: one line per event, the text of its first value.\<close>

fun sample_line :: "vars \<Rightarrow> string" where
  "sample_line ((k, VStr u s) # _) = s @ [CHR 0x0A]"
| "sample_line _ = [CHR 0x0A]"

definition sample_env :: env where
  "sample_env =
     \<lparr>sha256_hex = (\<lambda>s. ''#'' @ s), log_line = sample_line, json_dumps = (\<lambda>_. []), environment = ''production'',
      require_admin_2fa = False, run_lease_seconds = 60, lint_max_running = 2,
      lint_timeout_seconds = 120, inventory_refresh_timeout_seconds = 300, inventory_max_output_mb = 8,
      inventory_max_hosts = 5000, inventory_max_groups = 1000, secrets_store_wait_minutes = 30,
      secrets_store_label = ''OpenBao'', run_artifact_max_mb = 50, run_artifact_max_files = 200,
      run_artifact_retention_days = 30, api_key_retention_days = 90,
      notify_worker_offline_seconds = 120, notify_queue_stuck_minutes = 15, git_allow_local_sources = False,
      git_max_files = 20000, git_max_snapshot_mb = 100, git_max_playbooks = 200,
      secrets_store_enabled = False, secrets_store_ssh_mount_list = []\<rparr>"

theorem log_crash_consistent_witness:
  "fold (attempt sample_env)
     [Commit [[(vkey ''a'', Str ''x'')]], Crash_writing [[(vkey ''a'', Str ''yz'')]] 1,
      Commit [[(vkey ''a'', Str ''w'')]]] (blank_run 5 0, \<lambda>_. None) =
     ((blank_run 5 0)\<lparr>log_bytes := 4\<rparr>, (\<lambda>_. None)(5 \<mapsto> [CHR ''x'', CHR 0x0A, CHR ''w'', CHR 0x0A])) \<and>
   committed_log ((blank_run 5 0)\<lparr>log_bytes := 4\<rparr>)
     ((\<lambda>_. None)(5 \<mapsto> [CHR ''x'', CHR 0x0A, CHR ''w'', CHR 0x0A])) =
     [CHR ''x'', CHR 0x0A, CHR ''w'', CHR 0x0A]"
proof -
  let ?as = "[Commit [[(vkey ''a'', Str ''x'')]], Crash_writing [[(vkey ''a'', Str ''yz'')]] 1,
      Commit [[(vkey ''a'', Str ''w'')]]]"
  let ?r = "(blank_run 5 0)\<lparr>log_bytes := 4\<rparr>"
  let ?f = "(\<lambda>_. None)(5 \<mapsto> [CHR ''x'', CHR 0x0A, CHR ''w'', CHR 0x0A])"
  have "fold (attempt sample_env) ?as (blank_run 5 0, \<lambda>_. None) = (?r, ?f)"
    by (simp add: append_events_def log_data_def sample_env_def truncate_to_def file_text_def
        blank_run_def Let_def)
  then show ?thesis
    using log_crash_consistent [of "blank_run 5 0" "\<lambda>_. None" sample_env ?as ?r ?f]
    by (simp add: log_ok_def log_data_def sample_env_def blank_run_def committed_log_def file_text_def)
qed

end
