(* ===== verification/Jobs.thy ===== *)
theory Jobs
  imports Models
begin

text \<open>
  Turning a claimed run into a job, \<open>app/jobs.py\<close>: whether a queued run can still run as it was
  triggered, and what Ansible gets as extra vars. What reads the secret store or the encrypted
  columns is left to the parameter of the handlers that hand a job out.
\<close>

definition unrunnable_reason :: "run \<Rightarrow> string option" where
  "unrunnable_reason r =
     (if playbook_snapshot r = None then Some ''its playbook snapshot is missing''
      else if playbook_id r = None then Some ''its playbook was deleted''
      else if inventory_id r = None then Some ''its inventory was deleted''
      else if credential_id r = None then Some ''its credential was deleted''
      else if group_name r \<noteq> None \<and> group_id r = None \<and> inventory_static r = None
      then Some (''its inventory group '' @ [CHR 0x27] @ the (group_name r) @ [CHR 0x27] @
                 '' was deleted'')
      else if vault_password_name r \<noteq> None \<and> vault_password_id r = None
      then Some ''its vault password was deleted''
      else if git_commit r \<noteq> None \<and> git_snapshot_id r = None
      then Some ''its git source (and the commit it was to run) was deleted''
      else None)"

text \<open>\<open>UNRUNNABLE\<close>, the same conditions as a SQL filter.\<close>

definition UNRUNNABLE :: "run \<Rightarrow> bool" where
  "UNRUNNABLE r =
     (playbook_snapshot r = None \<or> playbook_id r = None \<or> inventory_id r = None \<or>
      credential_id r = None \<or>
      (group_name r \<noteq> None \<and> group_id r = None \<and> inventory_static r = None) \<or>
      (vault_password_name r \<noteq> None \<and> vault_password_id r = None) \<or>
      (git_commit r \<noteq> None \<and> git_snapshot_id r = None))"

lemma UNRUNNABLE_iff: "UNRUNNABLE r \<longleftrightarrow> unrunnable_reason r \<noteq> None"
  by (auto simp: UNRUNNABLE_def unrunnable_reason_def)

text \<open>Errors of the preparation of a job.\<close>

datatype job_failure = RuntimeError string | JobError string | StoreError string string string

definition assert_same_project :: "run \<Rightarrow> key_id option \<Rightarrow> string \<Rightarrow> job_failure + unit" where
  "assert_same_project r owner label =
     (if owner = None \<or> owner \<noteq> Some (project_id r)
      then Inl (RuntimeError (''run '' @ show_int (row_id r) @ '': '' @ label @
                              '' is not in the run'' @ [CHR 0x27] @ ''s project''))
      else Inr ())"

definition extravars :: "run \<Rightarrow> vars" where
  "extravars r =
     (let vs = (case extra_vars r of None \<Rightarrow> [] | Some d \<Rightarrow> d)
      in if become_blocked r then dict_set (vkey ''ansible_become'') (VBool False) vs else vs)"

text \<open>
  A run triggered by someone without the become permission is handed to Ansible with
  \<open>ansible_become: false\<close> among its extra vars, whatever extra vars it was triggered with (they
  outrank every other source of the variable), and every other extra var is passed on unchanged.
\<close>

theorem become_blocked_forced:
  assumes "become_blocked r"
  shows "map_of (extravars r) (vkey ''ansible_become'') = Some (VBool False) \<and>
    (\<forall>k. k \<noteq> vkey ''ansible_become'' \<longrightarrow>
       map_of (extravars r) k = Option.bind (extra_vars r) (\<lambda>d. map_of d k))"
  using assms by (auto simp: extravars_def map_of_dict_set split: option.splits)

theorem become_blocked_forced_witness:
  "map_of (extravars ((blank_run 1 0)\<lparr>become_blocked := True,
     extra_vars := Some [(vkey ''ansible_become'', VBool True)]\<rparr>)) (vkey ''ansible_become'') =
   Some (VBool False)"
  using become_blocked_forced [of "(blank_run 1 0)\<lparr>become_blocked := True,
     extra_vars := Some [(vkey ''ansible_become'', VBool True)]\<rparr>"]
  by simp

end
