(* ===== verification/Queue.thy ===== *)
theory Queue
  imports Claims Store_Outage Run_Log Jobs Notifications
begin

text \<open>
  The run queue, \<open>app/queue.py\<close>: the four claim statements, the retry loops around them, how a
  run is ended or put back, the worker table, and why a queued run waits. Metrics and the
  in-process notifier carry no persistent state and are left out. The random tokens, the clock
  and what other transactions do during a claim are arguments.
\<close>

definition JOB_TOKEN_SECONDS :: int where "JOB_TOKEN_SECONDS = 60"
definition WORKER_ONLINE_SECONDS :: int where "WORKER_ONLINE_SECONDS = 30"
definition CLAIM_ATTEMPTS :: nat where "CLAIM_ATTEMPTS = 20"

definition hash_token :: "env \<Rightarrow> string \<Rightarrow> string" where
  "hash_token e token = sha256_hex e token"

definition is_active_status :: "run_status \<Rightarrow> bool" where
  "is_active_status s = (s = QUEUED \<or> s = RUNNING)"

definition install_pending :: "database \<Rightarrow> bool" where
  "install_pending db = (\<exists>g \<in> set (installs db). is_active_status (g_status g))"

section \<open>Claim statements\<close>

record claim_req =
  cr_worker :: string
  cr_host_keys :: bool
  cr_egress_allowlist :: bool
  cr_ssh_certificates :: bool

record claim_params =
  cp_now :: time
  cp_lease :: int
  cp_worker :: string
  cp_claim_hash :: string
  cp_job_hash :: string

definition start_job :: "claim_params \<Rightarrow> 'a job_scheme \<Rightarrow> 'a job_scheme" where
  "start_job p = claim_columns (cp_now p) (cp_lease p) JOB_TOKEN_SECONDS (cp_worker p)
                   (cp_claim_hash p) (cp_job_hash p)"

text \<open>The \<open>WHERE\<close> clause of \<open>_CLAIM\<close>, evaluated in the statement's snapshot.\<close>

definition run_eligible :: "env \<times> time \<times> claim_req \<Rightarrow> database \<Rightarrow> run \<Rightarrow> bool" where
  "run_eligible = (\<lambda>(e, now, req) snap r.
     status r = QUEUED \<and>
     \<not> (\<exists>busy \<in> set (runs snap). inventory_id busy \<noteq> None \<and> inventory_id busy = inventory_id r \<and>
           status busy = RUNNING) \<and>
     \<not> (\<exists>f \<in> set (refreshes snap). waiting_refresh_id r = Some (row_id f) \<and>
           (status f = QUEUED \<or> status f = RUNNING)) \<and>
     (cr_host_keys req \<or>
      \<not> (\<exists>i \<in> set (inventories snap). inventory_id r = Some (i_id i) \<and> i_host_key_checking i \<noteq> ''off'')) \<and>
     (cr_egress_allowlist req \<or>
      \<not> (\<exists>i \<in> set (inventories snap). inventory_id r = Some (i_id i) \<and> i_egress_restricted i)) \<and>
     (cr_ssh_certificates req \<or>
      \<not> (\<exists>c \<in> set (credentials snap). credential_id r = Some (c_id c) \<and> c_kind c = ''ssh_cert'')) \<and>
     \<not> (store_wait e \<and> outage_holds e now snap (queued_at r) \<and> claim_needs_store snap r) \<and>
     \<not> (\<exists>earlier \<in> set (runs snap). inventory_id earlier \<noteq> None \<and>
           inventory_id earlier = inventory_id r \<and> status earlier = QUEUED \<and>
           queue_order earlier < queue_order r))"

text \<open>The \<open>SET\<close> clause: the inventory's modes are fixed from the snapshot.\<close>

definition start_run :: "claim_params \<times> database \<Rightarrow> run \<Rightarrow> run" where
  "start_run = (\<lambda>(p, snap) r.
     let inventory = (case inventory_id r of None \<Rightarrow> None | Some i \<Rightarrow> get_row i_id (inventories snap) i)
     in (start_job p r)\<lparr>host_key_checking := map_option i_host_key_checking inventory,
                        egress_restricted := map_option i_egress_restricted inventory\<rparr>)"

definition refresh_eligible :: "env \<times> time \<Rightarrow> database \<Rightarrow> refresh \<Rightarrow> bool" where
  "refresh_eligible = (\<lambda>(e, now) snap f.
     status f = QUEUED \<and>
     \<not> (\<exists>busy \<in> set (refreshes snap). f_inventory_id busy = f_inventory_id f \<and> status busy = RUNNING) \<and>
     \<not> (store_wait e \<and> outage_holds e now snap (queued_at f) \<and> claim_refresh_needs_store snap f))"

definition lint_eligible :: "int \<Rightarrow> database \<Rightarrow> lint_job \<Rightarrow> bool" where
  "lint_eligible max_running snap l =
     (status l = QUEUED \<and>
      \<not> (\<exists>busy \<in> set (lints snap). l_requested_by_user_id busy = l_requested_by_user_id l \<and>
            status busy = RUNNING) \<and>
      int (length (filter (\<lambda>r. status r = RUNNING) (lints snap))) < max_running)"

definition scan_eligible :: "unit \<Rightarrow> database \<Rightarrow> host_key_scan \<Rightarrow> bool" where
  "scan_eligible u snap s =
     (status s = QUEUED \<and>
      \<not> (\<exists>busy \<in> set (scans snap). s_inventory_id busy = s_inventory_id s \<and> status busy = RUNNING))"

lemma start_job_keeps [simp]:
  "row_id (start_job p r) = row_id r" "status (start_job p r) = RUNNING"
  "queued_at (start_job p r) = queued_at r" "finished_at (start_job p r) = finished_at r"
  "claim_token_hash (start_job p r) = Some (cp_claim_hash p)"
  "job_token_hash (start_job p r) = Some (cp_job_hash p)"
  "lease_expires_at (start_job p r) = Some (cp_now p + secs (cp_lease p))"
  by (simp_all add: start_job_def)

lemma start_job_owner [simp]:
  "inventory_id (start_job p r) = inventory_id r"
  "f_inventory_id (start_job p f) = f_inventory_id f"
  "l_requested_by_user_id (start_job p l) = l_requested_by_user_id l"
  "s_inventory_id (start_job p s) = s_inventory_id s"
  "project_id (start_job p r) = project_id r" "credential_id (start_job p r) = credential_id r"
  by (simp_all add: start_job_def claim_columns_def)

lemma start_run_keeps [simp]:
  "row_id (start_run q r) = row_id r" "status (start_run q r) = RUNNING"
  "inventory_id (start_run q r) = inventory_id r" "queued_at (start_run q r) = queued_at r"
  "claim_token_hash (start_run q r) = Some (cp_claim_hash (fst q))"
  "job_token_hash (start_run q r) = Some (cp_job_hash (fst q))"
  "lease_expires_at (start_run q r) = Some (cp_now (fst q) + secs (cp_lease (fst q)))"
  by (simp_all add: start_run_def Let_def split: prod.split)

interpretation run_claims: claim_table runs inventory_id run_eligible start_run
  by unfold_locales (auto simp: run_eligible_def)

interpretation refresh_claims:
  claim_table refreshes "\<lambda>f. Some (f_inventory_id f)" refresh_eligible start_job
  by unfold_locales (auto simp: refresh_eligible_def)

interpretation lint_claims:
  claim_table lints "\<lambda>l. Some (l_requested_by_user_id l)" lint_eligible start_job
  by unfold_locales (auto simp: lint_eligible_def)

interpretation scan_claims:
  claim_table scans "\<lambda>s. Some (s_inventory_id s)" scan_eligible start_job
  by unfold_locales (auto simp: scan_eligible_def)

section \<open>Ending a run, putting it back\<close>

definition fail_run ::
  "env \<Rightarrow> time \<Rightarrow> string \<Rightarrow> run_status \<Rightarrow> string \<Rightarrow> run \<Rightarrow> database \<Rightarrow> database" where
  "fail_run e now clock st reason r db =
     (let r1 = r\<lparr>status := st, status_reason := Some (take 500 reason), finished_at := Some now,
                 lease_expires_at := None, claim_token_hash := None, job_token_hash := None\<rparr>;
          (r2, logs) = append_status_line e (''AnsiDeck: '' @ reason) r1 (run_logs db)
      in run_finished now clock r2 (put_run r2 (db\<lparr>run_logs := logs\<rparr>)))"

definition requeue_run :: "run \<Rightarrow> run" where
  "requeue_run r =
     r\<lparr>status := QUEUED, claimed_at := None, worker_id := None, heartbeat_at := None,
       lease_expires_at := None, claim_token_hash := None, job_token_hash := None,
       job_token_expires_at := None, host_key_checking := None, egress_restricted := None\<rparr>"

section \<open>Workers\<close>

definition record_worker ::
  "time \<Rightarrow> string \<Rightarrow> int \<Rightarrow> bool option \<Rightarrow> bool option \<Rightarrow> bool option \<Rightarrow> bool option \<Rightarrow> bool option \<Rightarrow>
   database \<Rightarrow> database" where
  "record_worker now worker slots isolated egress_filtered host_keys egress_allow ssh_certs db =
     (let wid = take 255 worker;
          new = \<lparr>w_id = wid, w_slots = slots, w_isolated = isolated,
                 w_egress_filtered = egress_filtered, w_host_keys = host_keys,
                 w_egress_allowlist = egress_allow, w_ssh_certificates = ssh_certs,
                 w_first_seen_at = now, w_last_seen_at = now\<rparr>;
          table = (if wid \<in> w_id ` set (workers db)
                   then update_rows (\<lambda>w. w_id w = wid)
                          (\<lambda>w. new\<lparr>w_first_seen_at := w_first_seen_at w\<rparr>) (workers db)
                   else workers db @ [new])
      in worker_seen now worker slots isolated egress_filtered (db\<lparr>workers := table\<rparr>))"

definition online_slots :: "time \<Rightarrow> database \<Rightarrow> bool \<Rightarrow> bool \<Rightarrow> bool \<Rightarrow> int" where
  "online_slots now db host_keys egress_allow ssh_certs =
     sum_list (map w_slots
       (filter (\<lambda>w. w_last_seen_at w > now - secs WORKER_ONLINE_SECONDS \<and>
                    (host_keys \<longrightarrow> w_host_keys w = Some True) \<and>
                    (egress_allow \<longrightarrow> w_egress_allowlist w = Some True \<and> w_egress_filtered w = Some True) \<and>
                    (ssh_certs \<longrightarrow> w_ssh_certificates w = Some True))
         (workers db)))"

section \<open>Why a queued run waits\<close>

text \<open>\<open>app.secret_store.explain\<close>.\<close>

definition KIND_TEXT :: "(string \<times> string) list" where
  "KIND_TEXT =
     [(''disabled'', ''no secret store is configured''),
      (''invalid'', ''invalid path or key: use up to 16 segments separated by '' @ [CHR 0x27] @ ''/'' @
         [CHR 0x27] @ '', each of letters, digits, '' @ [CHR 0x27] @ ''.'' @ [CHR 0x27] @ '', '' @ [CHR 0x27] @
         ''_'' @ [CHR 0x27] @ '' or '' @ [CHR 0x27] @ ''-'' @ [CHR 0x27] @ '' (not starting with '' @ [CHR 0x27] @
         ''.'' @ [CHR 0x27] @ '' or '' @ [CHR 0x27] @ ''-'' @ [CHR 0x27] @ '')''),
      (''unreachable'', ''the secret store can't be reached''),
      (''tls'', ''the secret store's TLS certificate is not trusted''),
      (''sealed'', ''the secret store is sealed''),
      (''auth_failed'', ''AnsiDeck could not log in to the secret store''),
      (''denied'', ''permission denied by the secret store''),
      (''not_found'', ''no secret at that path''),
      (''missing_key'', ''the secret has no such key''),
      (''bad_value'', ''the value is not text''),
      (''bad_response'', ''unexpected answer from the secret store''),
      (''exists'', ''a secret already exists at that path (AnsiDeck never overwrites one; a deleted '' @
         ''secret's versions count until its metadata is deleted)''),
      (''write_denied'', ''the secret store refused the write: AnsiDeck's policy needs create on that '' @
         ''path, and a deleted secret there (until its metadata is deleted) blocks it''),
      (''ssh_disabled'',
         ''SSH certificates aren't enabled for that mount (SECRETS_STORE_SSH_MOUNTS)''),
      (''no_ssh_role'', ''no SSH role by that name (or no SSH secrets engine at that mount)''),
      (''principal_refused'', ''the SSH role doesn't allow one of the credential's principals''),
      (''ssh_refused'', ''the SSH role refused to sign the key (check its key types, certificate '' @
         ''type, extensions and maximum TTL)''),
      (''bad_certificate'', ''the secret store's certificate doesn't match what was asked for'')]"

definition explain :: "string \<Rightarrow> string" where
  "explain kind =
     (case map_of KIND_TEXT kind of
        Some t \<Rightarrow> t | None \<Rightarrow> the (map_of KIND_TEXT ''bad_response''))"

definition OUTAGE_KINDS :: "string list" where
  "OUTAGE_KINDS = [''unreachable'', ''tls'', ''sealed'', ''auth_failed'']"

text \<open>\<open>_minutes\<close>, of a duration in microseconds.\<close>

definition minutes_text :: "time \<Rightarrow> string" where
  "minutes_text t = show_int (max 1 (round_div t (mins 1))) @ '' min''"

definition store_wait_text :: "env \<Rightarrow> time \<Rightarrow> database \<Rightarrow> run \<Rightarrow> string option" where
  "store_wait_text e now db r =
     (if wait_minutes e = 0 then None
      else case current now db of
        None \<Rightarrow> None
      | Some o' \<Rightarrow>
          if \<not> run_needs_store db r then None
          else let left = deadline e (queued_at r) (o_since o') - now in
               if left \<le> 0 then None
               else let label = secrets_store_label e in
                    Some (''Waiting for '' @ label @ '': '' @ explain (o_kind o') @ '' (for '' @
                          minutes_text (now - o_since o') @ ''). AnsiDeck tries again every '' @
                          show_int HOLD_SECONDS @ '' s; the run fails if '' @ label @
                          '' is still unavailable in '' @ minutes_text left))"

text \<open>
  \<open>wait_reason\<close>, in two parts: what keeps the run from being claimed by any worker, and which
  workers are missing.
\<close>

definition run_ahead :: "database \<Rightarrow> run \<Rightarrow> key_id option" where
  "run_ahead db r =
     (let earlier = filter (\<lambda>x. inventory_id x = inventory_id r \<and> status x = QUEUED \<and>
                              queue_order x < queue_order r) (runs db);
          running = filter (\<lambda>x. inventory_id x = inventory_id r \<and> status x = RUNNING) (runs db)
      in case first_by (\<lambda>x. (- queued_at x, - row_id x)) earlier of
           Some x \<Rightarrow> Some (row_id x)
         | None \<Rightarrow> (case running of [] \<Rightarrow> None | x # _ \<Rightarrow> Some (row_id x)))"

definition blocked_reason :: "env \<Rightarrow> time \<Rightarrow> database \<Rightarrow> run \<Rightarrow> string option" where
  "blocked_reason e now db r =
     (if install_pending db then Some ''Waiting for a galaxy install to finish''
      else if (case waiting_refresh_id r of None \<Rightarrow> False
               | Some i \<Rightarrow> (case get_row row_id (refreshes db) i of None \<Rightarrow> False
                           | Some f \<Rightarrow> status f = QUEUED \<or> status f = RUNNING))
      then Some ''Waiting for its inventory's sources to be refreshed''
      else case (if inventory_id r = None then None else run_ahead db r) of
        Some i \<Rightarrow> Some (''Waiting behind run #'' @ show_int i @ '' (same inventory)'')
      | None \<Rightarrow> store_wait_text e now db r)"

definition worker_reason :: "time \<Rightarrow> database \<Rightarrow> run \<Rightarrow> string" where
  "worker_reason now db r =
     (let inventory = (case inventory_id r of None \<Rightarrow> None | Some i \<Rightarrow> get_row i_id (inventories db) i);
          credential = (case credential_id r of None \<Rightarrow> None | Some i \<Rightarrow> get_row c_id (credentials db) i);
          slots = online_slots now db False False False
      in if slots = 0 then ''No worker is online: start one to run queued runs''
         else if (case inventory of None \<Rightarrow> False | Some i \<Rightarrow> i_host_key_checking i \<noteq> ''off'') \<and>
                 online_slots now db True False False = 0
         then ''Waiting for a worker that checks SSH host keys (upgrade your workers)''
         else if (case inventory of None \<Rightarrow> False | Some i \<Rightarrow> i_egress_restricted i) \<and>
                 online_slots now db False True False = 0
         then ''Waiting for a worker that can restrict network egress (its egress filter must be '' @
              ''on; upgrade your workers)''
         else if (case credential of None \<Rightarrow> False | Some c \<Rightarrow> c_kind c = ''ssh_cert'') \<and>
                 online_slots now db False False True = 0
         then ''Waiting for a worker that supports SSH certificates (upgrade your workers)''
         else if int (length (filter (\<lambda>x. status x = RUNNING) (runs db))) \<ge> slots
         then ''Waiting for a free worker (all are busy)''
         else ''Waiting for a worker'' @ ellipsis)"

definition wait_reason :: "env \<Rightarrow> time \<Rightarrow> database \<Rightarrow> run \<Rightarrow> string" where
  "wait_reason e now db r =
     (case blocked_reason e now db r of Some t \<Rightarrow> t | None \<Rightarrow> worker_reason now db r)"

section \<open>Claiming\<close>

text \<open>
  One attempt of a claim is one transaction. What it is given from outside: its clock, the
  random tokens, and its view (the snapshot of the claim statement, \<open>None\<close> when no other
  transaction committed meanwhile; and the rows other transactions hold locked).
\<close>

record claim_try =
  ct_now :: time
  ct_clock :: string
  ct_claim_token :: string
  ct_job_token :: string
  ct_snapshot :: "database option"
  ct_locked :: "key_id list"

record claim =
  cl_id :: key_id
  cl_claim_token :: string
  cl_job_token :: string
  cl_kind :: string

datatype attempt_outcome = Retry | Done "claim option"

definition view_of :: "claim_try \<Rightarrow> database \<Rightarrow> database" where
  "view_of t db = (case ct_snapshot t of None \<Rightarrow> db | Some snap \<Rightarrow> snap)"

definition params_of :: "env \<Rightarrow> claim_req \<Rightarrow> claim_try \<Rightarrow> claim_params" where
  "params_of e req t =
     \<lparr>cp_now = ct_now t, cp_lease = run_lease_seconds e, cp_worker = take 255 (cr_worker req),
      cp_claim_hash = hash_token e (ct_claim_token t), cp_job_hash = hash_token e (ct_job_token t)\<rparr>"

definition claim_of :: "claim_try \<Rightarrow> string \<Rightarrow> key_id \<Rightarrow> claim" where
  "claim_of t kind i =
     \<lparr>cl_id = i, cl_claim_token = ct_claim_token t, cl_job_token = ct_job_token t, cl_kind = kind\<rparr>"

definition claim_lint :: "env \<Rightarrow> claim_req \<Rightarrow> claim_try \<Rightarrow> database \<Rightarrow> database \<times> claim option" where
  "claim_lint e req t db =
     (if install_pending db then (db, None)
      else case claim_stmt (lint_eligible (lint_max_running e) db) (start_job (params_of e req t))
                  (ct_locked t) (lints db) (lints db) of
        None \<Rightarrow> (db, None)
      | Some (i, table) \<Rightarrow> (db\<lparr>lints := table\<rparr>, Some (claim_of t ''lint'' i)))"

definition claim_keyscan :: "env \<Rightarrow> claim_req \<Rightarrow> claim_try \<Rightarrow> database \<Rightarrow> database \<times> claim option" where
  "claim_keyscan e req t db =
     (let snap = view_of t db in
      case claim_stmt (scan_eligible () snap) (start_job (params_of e req t)) (ct_locked t)
             (scans snap) (scans db) of
        None \<Rightarrow> (db, None)
      | Some (i, table) \<Rightarrow> (db\<lparr>scans := table\<rparr>, Some (claim_of t ''keyscan'' i)))"

definition claim_refresh_attempt ::
  "env \<Rightarrow> claim_req \<Rightarrow> claim_try \<Rightarrow> database \<Rightarrow> database \<times> attempt_outcome" where
  "claim_refresh_attempt e req t db =
     (if install_pending db then (db, Done None)
      else let snap = view_of t db in
      case claim_stmt (refresh_eligible (e, ct_now t) snap) (start_job (params_of e req t))
             (ct_locked t) (refreshes snap) (refreshes db) of
        None \<Rightarrow> (db, Done None)
      | Some (i, table) \<Rightarrow>
          if \<not> unique_running (\<lambda>f. Some (f_inventory_id f)) table then (db, Retry)
          else (db\<lparr>refreshes := table\<rparr>, Done (Some (claim_of t ''refresh'' i))))"

definition claim_run_attempt ::
  "env \<Rightarrow> claim_req \<Rightarrow> claim_try \<Rightarrow> database \<Rightarrow> database \<times> attempt_outcome" where
  "claim_run_attempt e req t db =
     (if install_pending db then (db, Done None)
      else let snap = view_of t db in
      case claim_stmt (run_eligible (e, ct_now t, req) snap) (start_run (params_of e req t, snap))
             (ct_locked t) (runs snap) (runs db) of
        None \<Rightarrow> (db, Done None)
      | Some (i, table) \<Rightarrow>
          if \<not> unique_running inventory_id table then (db, Retry)
          else let db1 = db\<lparr>runs := table\<rparr> in
               case get_run db1 i of
                 None \<Rightarrow> (db1, Done None)
               | Some r \<Rightarrow>
                   (case unrunnable_reason r of
                      None \<Rightarrow> (db1, Done (Some (claim_of t ''run'' i)))
                    | Some reason \<Rightarrow>
                        (fail_run e (ct_now t) (ct_clock t) FAILED (''not run: '' @ reason) r db1,
                         Retry)))"

text \<open>The loops \<open>for _ in range(_CLAIM_ATTEMPTS)\<close>.\<close>

fun claim_loop ::
  "(claim_try \<Rightarrow> database \<Rightarrow> database \<times> attempt_outcome) \<Rightarrow> claim_try list \<Rightarrow> database \<Rightarrow>
   database \<times> claim option" where
  "claim_loop att [] db = (db, None)"
| "claim_loop att (t # ts) db =
     (case att t db of
        (db', Retry) \<Rightarrow> claim_loop att ts db'
      | (db', Done c) \<Rightarrow> (db', c))"

definition claim_refresh ::
  "env \<Rightarrow> claim_req \<Rightarrow> (nat \<Rightarrow> claim_try) \<Rightarrow> database \<Rightarrow> database \<times> claim option" where
  "claim_refresh e req tries db =
     claim_loop (claim_refresh_attempt e req) (map tries [0..<CLAIM_ATTEMPTS]) db"

definition claim_run ::
  "env \<Rightarrow> claim_req \<Rightarrow> (nat \<Rightarrow> claim_try) \<Rightarrow> database \<Rightarrow> database \<times> claim option" where
  "claim_run e req tries db =
     claim_loop (claim_run_attempt e req) (map tries [0..<CLAIM_ATTEMPTS]) db"

definition claim_next ::
  "env \<Rightarrow> claim_req \<Rightarrow> string list \<Rightarrow> claim_try \<Rightarrow> claim_try \<Rightarrow> (nat \<Rightarrow> claim_try) \<Rightarrow>
   (nat \<Rightarrow> claim_try) \<Rightarrow> database \<Rightarrow> database \<times> claim option" where
  "claim_next e req kinds lint_try scan_try refresh_tries run_tries db0 =
     (let (db1, c1) = (if ''lint'' \<in> set kinds then claim_lint e req lint_try db0 else (db0, None)) in
      if c1 \<noteq> None then (db1, c1) else
      let (db2, c2) = (if ''keyscan'' \<in> set kinds then claim_keyscan e req scan_try db1 else (db1, None)) in
      if c2 \<noteq> None then (db2, c2) else
      let (db3, c3) = (if ''refresh'' \<in> set kinds then claim_refresh e req refresh_tries db2
                       else (db2, None)) in
      if c3 \<noteq> None then (db3, c3) else
      if ''run'' \<notin> set kinds then (db3, None) else claim_run e req run_tries db3)"

end
