(* ===== verification/Queue_Facts.thy ===== *)
theory Queue_Facts
  imports Queue
begin

text \<open>
  What the queue promises: the order of claims, one running job per owner, the capabilities of
  the worker a run goes to, the gate with galaxy installs, and that the reason shown for a queued
  run is the rule that holds it back.
\<close>

section \<open>Ending and requeueing\<close>

lemma fail_run_runs:
  "\<exists>r2. runs (fail_run e now clock st reason r db) = runs (put_run r2 db) \<and>
     row_id r2 = row_id r \<and> status r2 = st \<and> inventory_id r2 = inventory_id r \<and>
     claim_token_hash r2 = None \<and> job_token_hash r2 = None \<and> lease_expires_at r2 = None \<and>
     finished_at r2 = Some now \<and> status_reason r2 = Some (take 500 reason) \<and>
     log_seq r2 = log_seq r + 1 \<and> queued_at r2 = queued_at r"
proof -
  let ?r1 = "r\<lparr>status := st, status_reason := Some (take 500 reason), finished_at := Some now,
                 lease_expires_at := None, claim_token_hash := None, job_token_hash := None\<rparr>"
  let ?r2 = "fst (append_status_line e (''AnsiDeck: '' @ reason) ?r1 (run_logs db))"
  have "runs (fail_run e now clock st reason r db) = runs (put_run ?r2 db)"
    by (simp add: fail_run_def Let_def runs_put_run case_prod_beta)
  then show ?thesis by (intro exI [of _ ?r2]) simp
qed

lemma fail_run_frame [simp]:
  "refreshes (fail_run e now c st reason r db) = refreshes db"
  "lints (fail_run e now c st reason r db) = lints db"
  "scans (fail_run e now c st reason r db) = scans db"
  "installs (fail_run e now c st reason r db) = installs db"
  "workers (fail_run e now c st reason r db) = workers db"
  "outage (fail_run e now c st reason r db) = outage db"
  by (simp_all add: fail_run_def Let_def split: prod.split)

lemma requeue_run_columns [simp]:
  "row_id (requeue_run r) = row_id r" "status (requeue_run r) = QUEUED"
  "queued_at (requeue_run r) = queued_at r" "inventory_id (requeue_run r) = inventory_id r"
  "log_seq (requeue_run r) = log_seq r" "log_bytes (requeue_run r) = log_bytes r"
  "claim_token_hash (requeue_run r) = None" "job_token_hash (requeue_run r) = None"
  by (simp_all add: requeue_run_def)

lemma record_worker_frame [simp]:
  "runs (record_worker now w n i ef hk ea sc db) = runs db"
  "refreshes (record_worker now w n i ef hk ea sc db) = refreshes db"
  "lints (record_worker now w n i ef hk ea sc db) = lints db"
  "scans (record_worker now w n i ef hk ea sc db) = scans db"
  "installs (record_worker now w n i ef hk ea sc db) = installs db"
  "run_logs (record_worker now w n i ef hk ea sc db) = run_logs db"
  "outage (record_worker now w n i ef hk ea sc db) = outage db"
  by (simp_all add: record_worker_def Let_def)

section \<open>The queue's invariant\<close>

text \<open>
  The gate: while a galaxy install runs, no run, refresh or check does (installs change the roles
  and collections they load). The tables' keys are unique, at most one run and one refresh runs
  per inventory and one check per user.
\<close>

definition busy :: "'a job_scheme list \<Rightarrow> bool" where
  "busy tbl = (\<exists>r \<in> set tbl. status r = RUNNING)"

definition gate_ok :: "database \<Rightarrow> bool" where
  "gate_ok db =
     ((\<exists>g \<in> set (installs db). g_status g = RUNNING) \<longrightarrow>
      \<not> busy (runs db) \<and> \<not> busy (refreshes db) \<and> \<not> busy (lints db))"

definition ids_ok :: "database \<Rightarrow> bool" where
  "ids_ok db =
     (unique_ids (runs db) \<and> unique_ids (refreshes db) \<and> unique_ids (lints db) \<and>
      unique_ids (scans db))"

definition one_running :: "database \<Rightarrow> bool" where
  "one_running db =
     (unique_running inventory_id (runs db) \<and>
      unique_running (\<lambda>f. Some (f_inventory_id f)) (refreshes db) \<and>
      unique_running (\<lambda>l. Some (l_requested_by_user_id l)) (lints db))"

definition queue_inv :: "database \<Rightarrow> bool" where
  "queue_inv db = (ids_ok db \<and> one_running db \<and> gate_ok db)"

lemmas queue_inv_defs = queue_inv_def ids_ok_def one_running_def gate_ok_def

lemma gate_ok_idle: "\<not> install_pending db \<Longrightarrow> installs db' = installs db \<Longrightarrow> gate_ok db'"
  by (auto simp: gate_ok_def install_pending_def is_active_status_def)

lemma fail_run_inv:
  assumes "queue_inv db" and "st \<noteq> RUNNING"
  shows "queue_inv (fail_run e now clock st reason r db)"
proof -
  obtain r2 where r2: "runs (fail_run e now clock st reason r db) = runs (put_run r2 db)"
    "status r2 = st" using fail_run_runs by blast
  have "busy (runs (put_run r2 db)) \<Longrightarrow> busy (runs db)"
    using assms(2) r2(2) by (auto simp: busy_def runs_put_run set_update_rows split: if_splits)
  moreover have "unique_running inventory_id (runs (put_run r2 db))"
    using assms r2(2) unique_running_put_run [of db r2] by (simp add: queue_inv_defs)
  ultimately show ?thesis
    using assms unique_ids_put_run [of db r2] by (auto simp: queue_inv_defs r2(1))
qed

lemma claim_lint_inv:
  assumes "queue_inv db"
  shows "queue_inv (fst (claim_lint e req t db))"
proof (cases "install_pending db")
  case False
  show ?thesis
  proof (cases "claim_stmt (lint_eligible (lint_max_running e) db) (start_job (params_of e req t))
                  (ct_locked t) (lints db) (lints db)")
    case (Some a)
    then obtain i table where a: "a = (i, table)"
      "lint_claims.stmt (lint_max_running e) (params_of e req t) (ct_locked t) db (lints db) = Some (i, table)"
      by (cases a) auto
    have "gate_ok (db\<lparr>lints := table\<rparr>)" by (rule gate_ok_idle [OF False]) simp
    with a Some False assms show ?thesis
      using lint_claims.claim_fresh_unique [OF a(2)] lint_claims.claim_unique_ids [OF a(2)]
      by (simp add: claim_lint_def queue_inv_def ids_ok_def one_running_def)
  qed (use assms False in \<open>simp add: claim_lint_def\<close>)
qed (use assms in \<open>simp add: claim_lint_def\<close>)

lemma claim_keyscan_inv:
  assumes "queue_inv db"
  shows "queue_inv (fst (claim_keyscan e req t db))"
  using assms
  by (auto simp: claim_keyscan_def queue_inv_defs Let_def split: option.splits prod.splits
      dest: scan_claims.claim_unique_ids)

lemma claim_refresh_attempt_inv:
  assumes "queue_inv db"
  shows "queue_inv (fst (claim_refresh_attempt e req t db))"
  using assms gate_ok_idle [of db]
  by (auto simp: claim_refresh_attempt_def queue_inv_def ids_ok_def one_running_def Let_def
      split: option.splits prod.splits dest: refresh_claims.claim_unique_ids)

lemma claim_run_attempt_inv:
  assumes "queue_inv db"
  shows "queue_inv (fst (claim_run_attempt e req t db))"
proof (cases "install_pending db")
  case False
  let ?stmt = "claim_stmt (run_eligible (e, ct_now t, req) (view_of t db))
     (start_run (params_of e req t, view_of t db)) (ct_locked t) (runs (view_of t db)) (runs db)"
  show ?thesis
  proof (cases ?stmt)
    case (Some a)
    then obtain i table where a: "?stmt = Some (i, table)" by (cases a) auto
    have "queue_inv (db\<lparr>runs := table\<rparr>)" if "unique_running inventory_id table"
      using that assms run_claims.claim_unique_ids [OF a] gate_ok_idle [OF False, of "db\<lparr>runs := table\<rparr>"]
      by (simp add: queue_inv_def ids_ok_def one_running_def)
    then show ?thesis
      using a False assms fail_run_inv
      by (auto simp: claim_run_attempt_def Let_def split: option.splits)
  qed (use assms False in \<open>simp add: claim_run_attempt_def Let_def\<close>)
qed (use assms in \<open>simp add: claim_run_attempt_def\<close>)

lemma claim_loop_inv:
  assumes "\<And>t db. P db \<Longrightarrow> P (fst (att t db))" and "P db"
  shows "P (fst (claim_loop att ts db))"
  using assms(2)
proof (induction ts arbitrary: db)
  case (Cons t ts)
  then show ?case using assms(1) [of db t] by (auto split: prod.splits attempt_outcome.splits)
qed simp

lemma claim_next_inv:
  assumes "queue_inv db"
  shows "queue_inv (fst (claim_next e req kinds lt st rts uts db))"
proof -
  have loop: "queue_inv (fst (claim_refresh e req rts d))" "queue_inv (fst (claim_run e req uts d))"
    if "queue_inv d" for d
    using that claim_loop_inv [of queue_inv] claim_refresh_attempt_inv claim_run_attempt_inv
    by (auto simp: claim_refresh_def claim_run_def)
  show ?thesis
    unfolding claim_next_def Let_def case_prod_beta using assms
    by (simp add: loop claim_lint_inv claim_keyscan_inv)
qed

section \<open>One attempt\<close>

lemma claim_run_attempt_claims:
  assumes "claim_run_attempt e req t db = (db', Done (Some c))"
  obtains table where
    "claim_stmt (run_eligible (e, ct_now t, req) (view_of t db))
       (start_run (params_of e req t, view_of t db)) (ct_locked t) (runs (view_of t db)) (runs db) =
     Some (cl_id c, table)"
    and "db' = db\<lparr>runs := table\<rparr>" and "\<not> install_pending db"
    and "unique_running inventory_id table" and "c = claim_of t ''run'' (cl_id c)"
  using assms
  by (auto simp: claim_run_attempt_def Let_def claim_of_def split: if_splits option.splits)

lemma unrunnable_start_run [simp]: "unrunnable_reason (start_run q r) = unrunnable_reason r"
  by (cases q) (simp add: unrunnable_reason_def start_run_def start_job_def claim_columns_def Let_def)

text \<open>A capable worker: the one the wait reason reasons about.\<close>

definition capable :: claim_req where
  "capable = \<lparr>cr_worker = [], cr_host_keys = True, cr_egress_allowlist = True, cr_ssh_certificates = True\<rparr>"

lemma run_ahead_None:
  assumes "r \<in> set (runs db)" and "inventory_id r \<noteq> None"
  shows "run_ahead db r = None \<longleftrightarrow>
    \<not> (\<exists>x \<in> set (runs db). inventory_id x = inventory_id r \<and> status x = RUNNING) \<and>
    \<not> (\<exists>x \<in> set (runs db). inventory_id x = inventory_id r \<and> status x = QUEUED \<and>
         queue_order x < queue_order r)"
proof -
  have "(case first_by k xs of Some x \<Rightarrow> Some (f x)
      | None \<Rightarrow> (case ys of [] \<Rightarrow> None | y # _ \<Rightarrow> Some (f y))) = None \<longleftrightarrow> xs = [] \<and> ys = []"
    for k :: "run \<Rightarrow> time \<times> key_id" and xs ys and f :: "run \<Rightarrow> key_id"
    using first_by_None [of k xs] by (cases "first_by k xs"; cases ys) auto
  then show ?thesis unfolding run_ahead_def Let_def by (auto simp: filter_empty_conv)
qed

lemma store_wait_text_None:
  assumes "0 \<le> wait_minutes e" and "store_refs_ok db"
  shows "store_wait_text e now db r = None \<longleftrightarrow>
    \<not> (store_wait e \<and> outage_holds e now db (queued_at r) \<and> claim_needs_store db r)"
  using assms(1) run_needs_store_agrees_aux [OF assms(2)]
  by (auto simp: store_wait_text_def store_wait_def outage_holds_iff Let_def split: option.splits)

lemma refresh_wait_iff:
  assumes "unique_ids (refreshes db)"
  shows "(case waiting_refresh_id r of None \<Rightarrow> False
      | Some i \<Rightarrow> (case get_row row_id (refreshes db) i of None \<Rightarrow> False
                  | Some f \<Rightarrow> status f = QUEUED \<or> status f = RUNNING)) \<longleftrightarrow>
    (\<exists>f \<in> set (refreshes db). waiting_refresh_id r = Some (row_id f) \<and>
       (status f = QUEUED \<or> status f = RUNNING))"
  using assms by (cases "waiting_refresh_id r") (auto simp: unique_ids_def get_row_ex)

text \<open>
  C24. The reason shown for a queued run is the rule that holds it back: the part of \<open>wait_reason\<close>
  about the run itself (installs, its refresh, runs ahead of it, the secret store) gives no
  reason exactly when the claim statement would hand the run to a worker with all capabilities.
\<close>

theorem wait_reason_is_claim_rule:
  assumes "r \<in> set (runs db)" and "status r = QUEUED" and "unique_ids (refreshes db)"
    and "store_refs_ok db" and "0 \<le> wait_minutes e"
  shows "blocked_reason e now db r = None \<longleftrightarrow>
    \<not> install_pending db \<and> run_eligible (e, now, capable) db r"
  using assms(2) run_ahead_None [OF assms(1)] store_wait_text_None [OF assms(5,4)]
  unfolding blocked_reason_def refresh_wait_iff [OF assms(3)] run_eligible_def
  by (cases "inventory_id r") (auto simp: capable_def split: option.splits if_splits)

text \<open>A small queue for the examples: one inventory, two of its runs queued, one worker.\<close>

definition sample_inventory :: inventory where
  "sample_inventory =
     \<lparr>i_id = 2, i_name = ''prod'', i_project_id = 1, i_refresh_interval_seconds = 0, i_refresh_before_run = False,
      i_current_snapshot_id = None, i_host_key_checking = ''strict'', i_egress_restricted = False,
      i_egress_extras = None, i_hosts = [], i_groups = []\<rparr>"

definition sample_run :: "key_id \<Rightarrow> time \<Rightarrow> run" where
  "sample_run i t =
     (blank_run i t)\<lparr>playbook_snapshot := Some ''p'', playbook_id := Some 1, inventory_id := Some 2,
       credential_id := Some 3\<rparr>"

definition sample_db :: database where
  "sample_db = empty_db\<lparr>inventories := [sample_inventory], runs := [sample_run 11 5, sample_run 12 4]\<rparr>"

definition sample_try :: claim_try where
  "sample_try = \<lparr>ct_now = 9, ct_clock = ''t'', ct_claim_token = ''c'', ct_job_token = ''j'',
     ct_snapshot = None, ct_locked = []\<rparr>"

lemmas sample_defs = sample_db_def sample_run_def sample_inventory_def empty_db_def blank_run_def
  sample_try_def capable_def

lemma sample_queue_inv: "queue_inv sample_db"
  by (simp add: queue_inv_defs sample_defs unique_ids_def unique_running_def busy_def)

lemma sample_eligible:
  "run_eligible (sample_env, 9, capable) sample_db (sample_run 12 4)"
  "\<not> run_eligible (sample_env, 9, capable) sample_db (sample_run 11 5)"
  by (simp_all add: run_eligible_def sample_defs outage_holds_def queue_order_def)

lemma sample_get_run:
  "get_run sample_db 12 = Some (sample_run 12 4)" "row_id (sample_run 12 4) = 12"
  by (simp_all add: get_run_def get_row_def sample_defs)

lemma sample_attempt:
  "claim_run_attempt sample_env capable sample_try sample_db =
   (set_run 12 (start_run (params_of sample_env capable sample_try, sample_db)) sample_db,
    Done (Some (claim_of sample_try ''run'' 12)))"
proof -
  let ?q = "(params_of sample_env capable sample_try, sample_db)"
  have runs: "runs sample_db = [sample_run 11 5, sample_run 12 4]" and idle: "\<not> install_pending sample_db"
    by (simp_all add: sample_defs install_pending_def)
  have view: "view_of sample_try sample_db = sample_db" "ct_locked sample_try = []" "ct_now sample_try = 9"
    by (simp_all add: view_of_def sample_try_def)
  have id: "row_id (sample_run i t) = i" "status (sample_run i t) = QUEUED"
    "unrunnable_reason (sample_run i t) = None" for i t
    by (simp_all add: sample_run_def blank_run_def unrunnable_reason_def)
  have "claim_stmt (run_eligible (sample_env, 9, capable) sample_db) (start_run ?q) []
      (runs sample_db) (runs sample_db) = Some (12, [sample_run 11 5, start_run ?q (sample_run 12 4)])"
    by (simp add: claim_stmt_def runs claimable_def sample_eligible get_row_def first_by_def id update_rows_def)
  then show ?thesis
    by (simp add: claim_run_attempt_def view idle Let_def unique_running_def running_conflict_def id
        get_run_def get_row_def set_run_def runs update_rows_def)
qed

theorem wait_reason_is_claim_rule_witness:
  "blocked_reason sample_env 9 sample_db (sample_run 12 4) = None"
proof -
  have "unique_ids (refreshes sample_db)" "store_refs_ok sample_db" "0 \<le> wait_minutes sample_env"
    "sample_run 12 4 \<in> set (runs sample_db)" "status (sample_run 12 4) = QUEUED"
    "\<not> install_pending sample_db"
    by (simp_all add: unique_ids_def store_refs_ok_def sample_defs wait_minutes_def sample_env_def
        install_pending_def)
  then show ?thesis using wait_reason_is_claim_rule [of "sample_run 12 4" sample_db sample_env 9] sample_eligible(1)
    by blast
qed

text \<open>
  C6. A claimed run was, in the view of the claim, queued, with no run of its inventory running
  and none of its inventory queued before it; it is the oldest of all the runs the claim could
  have taken; and the claim changes nothing but that one row, which was still queued.
\<close>

theorem claim_run_in_order:
  assumes "claim_run_attempt e req t db = (db', Done (Some c))"
  shows "\<exists>r \<in> set (runs (view_of t db)). row_id r = cl_id c \<and> status r = QUEUED \<and>
    (\<forall>x \<in> set (runs (view_of t db)). inventory_id r \<noteq> None \<and> inventory_id x = inventory_id r \<longrightarrow>
       status x \<noteq> RUNNING \<and> (status x = QUEUED \<longrightarrow> queue_order r \<le> queue_order x)) \<and>
    (\<forall>x \<in> set (runs (view_of t db)).
       claimable (run_eligible (e, ct_now t, req) (view_of t db)) (ct_locked t) (runs db) x \<longrightarrow>
       queue_order r \<le> queue_order x) \<and>
    (\<exists>x. get_run db (cl_id c) = Some x \<and> status x = QUEUED) \<and>
    db' = set_run (cl_id c) (start_run (params_of e req t, view_of t db)) db"
proof -
  obtain table where t: "claim_stmt (run_eligible (e, ct_now t, req) (view_of t db))
       (start_run (params_of e req t, view_of t db)) (ct_locked t) (runs (view_of t db)) (runs db) =
     Some (cl_id c, table)" and db': "db' = db\<lparr>runs := table\<rparr>"
    using claim_run_attempt_claims [OF assms] by blast
  obtain r where r: "r \<in> set (runs (view_of t db))" "row_id r = cl_id c"
    "claimable (run_eligible (e, ct_now t, req) (view_of t db)) (ct_locked t) (runs db) r"
    "\<forall>x \<in> set (runs (view_of t db)).
       claimable (run_eligible (e, ct_now t, req) (view_of t db)) (ct_locked t) (runs db) x \<longrightarrow>
       queue_order r \<le> queue_order x"
    using run_claims.claim_picks_oldest [OF t] by blast
  then have el: "run_eligible (e, ct_now t, req) (view_of t db) r" by (simp add: claimable_def)
  have "status r = QUEUED" "\<forall>x \<in> set (runs (view_of t db)).
      inventory_id r \<noteq> None \<and> inventory_id x = inventory_id r \<longrightarrow>
      status x \<noteq> RUNNING \<and> (status x = QUEUED \<longrightarrow> queue_order r \<le> queue_order x)"
    using el unfolding run_eligible_def prod.case by (blast, metis linorder_not_le)
  moreover have "\<exists>x. get_run db (cl_id c) = Some x \<and> status x = QUEUED"
    "db' = set_run (cl_id c) (start_run (params_of e req t, view_of t db)) db"
    using run_claims.claim_starts_one [OF t] db' unfolding get_run_def set_run_def by blast+
  ultimately show ?thesis using r by blast
qed

theorem claim_run_in_order_witness:
  "\<exists>x. get_run sample_db 12 = Some x \<and> status x = QUEUED"
  using claim_run_in_order [OF sample_attempt] by (auto simp: claim_of_def)

text \<open>
  A run goes only to a worker that can do what its inventory and credential ask: with host
  key checking fixed on the claimed row the worker checks host keys, with egress restricted it
  can restrict egress, and with a certificate credential it loads certificates.
\<close>

theorem claim_run_capabilities:
  assumes "claim_run_attempt e req t db = (db', Done (Some c))"
    and "get_run db' (cl_id c) = Some r"
  shows "(host_key_checking r = None \<or> host_key_checking r = Some ''off'' \<or> cr_host_keys req) \<and>
    (egress_restricted r = Some True \<longrightarrow> cr_egress_allowlist req) \<and>
    (\<forall>k \<in> set (credentials (view_of t db)).
       credential_id r = Some (c_id k) \<and> c_kind k = ''ssh_cert'' \<longrightarrow> cr_ssh_certificates req)"
proof -
  obtain table where t: "claim_stmt (run_eligible (e, ct_now t, req) (view_of t db))
       (start_run (params_of e req t, view_of t db)) (ct_locked t) (runs (view_of t db)) (runs db) =
     Some (cl_id c, table)" and db': "db' = db\<lparr>runs := table\<rparr>"
    using claim_run_attempt_claims [OF assms(1)] by blast
  obtain x where x: "get_row row_id (runs db) (cl_id c) = Some x"
    "run_eligible (e, ct_now t, req) (view_of t db) x"
    using run_claims.claim_starts_one [OF t] by blast
  have r: "r = start_run (params_of e req t, view_of t db) x"
    using assms(2) run_claims.claim_get_row [OF t, of "cl_id c"] x(1) get_row_Some [OF x(1)] db'
    by (simp add: get_run_def)
  define inventory where "inventory = (case inventory_id x of None \<Rightarrow> None
    | Some i \<Rightarrow> get_row i_id (inventories (view_of t db)) i)"
  have cols: "host_key_checking r = map_option i_host_key_checking inventory"
    "egress_restricted r = map_option i_egress_restricted inventory"
    "credential_id r = credential_id x"
    by (simp_all add: r start_run_def inventory_def Let_def)
  have inv: "i \<in> set (inventories (view_of t db)) \<and> inventory_id x = Some (i_id i)"
    if "inventory = Some i" for i
    using that by (auto simp: inventory_def split: option.splits dest!: get_row_Some)
  have "inventory = None \<or> (\<exists>i. inventory = Some i \<and> i_host_key_checking i = ''off'') \<or> cr_host_keys req"
    using x(2) inv unfolding run_eligible_def prod.case by (cases inventory) blast+
  moreover have "cr_egress_allowlist req" if "inventory = Some i" "i_egress_restricted i" for i
    using x(2) inv [OF that(1)] that(2) unfolding run_eligible_def prod.case by blast
  moreover have "cr_ssh_certificates req" if "k \<in> set (credentials (view_of t db))"
    "credential_id x = Some (c_id k)" "c_kind k = ''ssh_cert''" for k
    using x(2) that unfolding run_eligible_def prod.case by blast
  ultimately show ?thesis unfolding cols by auto
qed

theorem claim_run_capabilities_witness:
  "\<exists>r. get_run (set_run 12 (start_run (params_of sample_env capable sample_try, sample_db)) sample_db) 12 =
     Some r \<and> host_key_checking r = Some ''strict'' \<and> cr_host_keys capable"
proof -
  let ?q = "(params_of sample_env capable sample_try, sample_db)"
  have r: "get_run (set_run 12 (start_run ?q) sample_db) 12 = Some (start_run ?q (sample_run 12 4))"
    by (subst get_set_run) (simp_all add: sample_get_run)
  have "host_key_checking (start_run ?q (sample_run 12 4)) = Some ''strict''"
    by (simp add: start_run_def sample_defs get_row_def)
  then show ?thesis
    using r claim_run_capabilities [OF sample_attempt, of "start_run ?q (sample_run 12 4)"]
    by (simp add: claim_of_def)
qed

section \<open>Progress\<close>

lemma static_fail_run [simp]: "static_part (fail_run e now c st reason r db) = static_part db"
  by (simp add: fail_run_def Let_def split: prod.split)

lemma run_eligible_shrink:
  assumes "run_eligible c db r" and "static_part db' = static_part db"
    and "refreshes db' = refreshes db" "outage db' = outage db"
    and act: "\<And>x. x \<in> set (runs db') \<Longrightarrow> status x = QUEUED \<or> status x = RUNNING \<Longrightarrow> x \<in> set (runs db)"
  shows "run_eligible c db' r"
proof -
  note same = static_partD [OF assms(2)]
  obtain e now req where c: "c = (e, now, req)" by (cases c)
  have "outage_holds e now db' q = outage_holds e now db q" for q
    by (simp add: outage_holds_def assms)
  moreover have "claim_needs_store db' r = claim_needs_store db r"
    by (simp add: claim_needs_store_def same)
  ultimately show ?thesis
    using assms(1) act unfolding c run_eligible_def prod.case by (simp add: same assms(3)) blast
qed

definition doomed :: "database \<Rightarrow> nat" where
  "doomed db = length (filter (\<lambda>x. status x = QUEUED \<and> UNRUNNABLE x) (runs db))"

definition fresh_try :: "time \<Rightarrow> claim_try \<Rightarrow> bool" where
  "fresh_try now t = (ct_now t = now \<and> ct_snapshot t = None \<and> ct_locked t = [])"

definition has_claimable :: "env \<Rightarrow> time \<Rightarrow> claim_req \<Rightarrow> database \<Rightarrow> bool" where
  "has_claimable e now req db =
     (\<not> install_pending db \<and>
      (\<exists>r \<in> set (runs db). run_eligible (e, now, req) db r \<and> \<not> UNRUNNABLE r))"

lemma fail_started_runs:
  assumes "runs db1 = update_rows (\<lambda>x. row_id x = i) (start_run q) (runs db)" and "row_id r = i"
  shows "\<exists>r2. runs (fail_run e now clock FAILED reason r db1) =
      update_rows (\<lambda>x. row_id x = i) (\<lambda>_. r2) (runs db) \<and> row_id r2 = i \<and> status r2 = FAILED"
proof -
  obtain r2 where "runs (fail_run e now clock FAILED reason r db1) = runs (put_run r2 db1)"
    "row_id r2 = row_id r" "status r2 = FAILED" using fail_run_runs by blast
  with assms show ?thesis by (auto simp: runs_put_run update_rows_twice)
qed

lemma attempt_fails_one:
  assumes "queue_inv db" "has_claimable e now req db" "i \<notin> row_id ` {x \<in> set (runs db). \<not> UNRUNNABLE x}"
    and i: "get_run db i = Some x" "status x = QUEUED"
    and runs': "runs db' = update_rows (\<lambda>x. row_id x = i) (\<lambda>_. r2) (runs db)"
    and r2: "row_id r2 = i" "status r2 = FAILED"
    and same: "static_part db' = static_part db" "refreshes db' = refreshes db" "outage db' = outage db"
      "installs db' = installs db"
  shows "has_claimable e now req db' \<and> doomed db' < doomed db"
proof
  obtain r where r: "r \<in> set (runs db)" "run_eligible (e, now, req) db r" "\<not> UNRUNNABLE r"
    using assms(2) by (auto simp: has_claimable_def)
  then have "row_id r \<noteq> i" using assms(3) by auto
  then have "r \<in> set (runs db')" using r(1) by (auto simp: runs' set_update_rows)
  moreover have "run_eligible (e, now, req) db' r"
    by (rule run_eligible_shrink [OF r(2) same(1-3)]) (auto simp: runs' set_update_rows r2 split: if_splits)
  ultimately show "has_claimable e now req db'"
    using r(3) assms(2) same(4) by (auto simp: has_claimable_def install_pending_def)
  have x: "x \<in> set (runs db)" "row_id x = i" using get_row_Some [of row_id "runs db" i x] i(1) by (simp_all add: get_run_def)
  then have "UNRUNNABLE x" using assms(3) by auto
  then show "doomed db' < doomed db"
    unfolding doomed_def runs' by (rule_tac length_filter_update_less) (use x i r2 in auto)
qed

lemma attempt_progress:
  assumes inv: "queue_inv db" and live: "has_claimable e now req db" and t: "fresh_try now t"
  shows "(\<exists>db' c. claim_run_attempt e req t db = (db', Done (Some c))) \<or>
    (\<exists>db'. claim_run_attempt e req t db = (db', Retry) \<and> has_claimable e now req db' \<and>
       doomed db' < doomed db)"
proof -
  have view: "view_of t db = db" "ct_locked t = []" "ct_now t = now"
    using t by (simp_all add: fresh_try_def view_of_def)
  have ids: "unique_ids (runs db)" and idle: "\<not> install_pending db"
    using inv live by (auto simp: queue_inv_defs has_claimable_def)
  obtain i table where st: "run_claims.stmt (e, now, req) (params_of e req t, db) [] db (runs db) = Some (i, table)"
    using live run_claims.claim_progress [OF _ _ _ ids] by (fastforce simp: has_claimable_def)
  have u: "unique_running inventory_id table"
    using run_claims.claim_fresh_unique [OF st _ ids] inv by (simp add: queue_inv_defs)
  obtain x where x: "get_run db i = Some x" "status x = QUEUED"
    and tab: "table = update_rows (\<lambda>x. row_id x = i) (start_run (params_of e req t, db)) (runs db)"
    using run_claims.claim_starts_one [OF st] by (auto simp: get_run_def)
  let ?x = "start_run (params_of e req t, db) x"
  have got: "get_run (db\<lparr>runs := table\<rparr>) i = Some ?x" "row_id x = i"
    using x(1) get_row_Some [of row_id "runs db" i x] by (simp_all add: get_run_def tab get_row_update_rows)
  show ?thesis
  proof (cases "unrunnable_reason x")
    case None
    then show ?thesis using st u idle got by (simp add: claim_run_attempt_def Let_def view)
  next
    case (Some reason)
    let ?db' = "fail_run e (ct_now t) (ct_clock t) FAILED (''not run: '' @ reason) ?x (db\<lparr>runs := table\<rparr>)"
    have att: "claim_run_attempt e req t db = (?db', Retry)"
      using Some st u idle got by (simp add: claim_run_attempt_def Let_def view)
    have "runs (db\<lparr>runs := table\<rparr>) =
        update_rows (\<lambda>x. row_id x = i) (start_run (params_of e req t, db)) (runs db)"
      using tab by simp
    then obtain r2 where r2: "runs ?db' = update_rows (\<lambda>x. row_id x = i) (\<lambda>_. r2) (runs db)"
      "row_id r2 = i" "status r2 = FAILED"
      using fail_started_runs [of "db\<lparr>runs := table\<rparr>" i _ db ?x] got(2) start_run_keeps(1) by metis
    have "i \<notin> row_id ` {x \<in> set (runs db). \<not> UNRUNNABLE x}"
      using Some x(1) get_row_unique [of row_id "runs db"] ids
      by (auto simp: UNRUNNABLE_iff get_run_def unique_ids_def)
    then have "has_claimable e now req ?db' \<and> doomed ?db' < doomed db"
      by (rule attempt_fails_one [OF inv live _ x r2]) simp_all
    with att show ?thesis by blast
  qed
qed

lemma claim_loop_progress:
  assumes "queue_inv db" "has_claimable e now req db" "list_all (fresh_try now) ts" "doomed db < length ts"
  shows "\<exists>db' c. claim_loop (claim_run_attempt e req) ts db = (db', Some c)"
  using assms
proof (induction ts arbitrary: db)
  case (Cons t ts)
  from attempt_progress [OF Cons.prems(1,2), of t] Cons.prems(3)
  consider db' c where "claim_run_attempt e req t db = (db', Done (Some c))"
    | db' where "claim_run_attempt e req t db = (db', Retry)" "has_claimable e now req db'"
        "doomed db' < doomed db" by auto
  then show ?case
  proof cases
    case 2
    then have "queue_inv db'" using claim_run_attempt_inv [OF Cons.prems(1), of e req t] by simp
    with 2 Cons show ?thesis by simp
  qed simp
qed simp



text \<open>
  Claiming keeps the queue's invariant, whatever snapshots the claim statements see and
  whatever rows other transactions hold locked: at most one run and one refresh of an inventory
  runs at a time, one check per user, none of them beside a galaxy install, and ids stay unique.
\<close>

theorem claim_next_keeps_invariant:
  assumes "queue_inv db"
  shows "queue_inv (fst (claim_next e req kinds lint_try scan_try refresh_tries run_tries db))"
  using assms by (rule claim_next_inv)

theorem claim_next_keeps_invariant_witness:
  "queue_inv sample_db \<and>
   queue_inv (fst (claim_next sample_env capable [''lint'', ''run''] sample_try sample_try
     (\<lambda>_. sample_try) (\<lambda>_. sample_try) sample_db))"
  using claim_next_keeps_invariant [OF sample_queue_inv] sample_queue_inv by blast

end
