(* ===== verification/Galaxy.thy ===== *)
theory Galaxy
  imports Queue_Facts
begin

text \<open>
  The gate between galaxy installs and the jobs that load what they change
  (\<open>try_start_install\<close> and the end of \<open>run_install\<close> in \<open>app/galaxy.py\<close>). The advisory lock
  \<open>GALAXY_GATE_KEY\<close> is held exclusively here and shared by claims, so the check and the start are
  one step with respect to them. The install itself (pip, ansible-galaxy) is a subprocess.
\<close>

definition try_start_install :: "env \<Rightarrow> time \<Rightarrow> database \<Rightarrow> database \<times> key_id option" where
  "try_start_install e now db =
     (if \<exists>g \<in> set (installs db). g_status g = RUNNING then (db, None)
      else case first_by g_id (filter (\<lambda>g. g_status g = QUEUED) (installs db)) of
        None \<Rightarrow> (db, None)
      | Some install \<Rightarrow>
          if busy (runs db) then (db, None)
          else if busy (refreshes db) then (db, None)
          else if busy (lints db) then (db, None)
          else (db\<lparr>installs := update_rows (\<lambda>g. g_id g = g_id install)
                      (\<lambda>g. g\<lparr>g_status := RUNNING, g_started_at := Some now,
                             g_lease_expires_at := Some (now + secs (run_lease_seconds e))\<rparr>)
                      (installs db)\<rparr>,
                Some (g_id install)))"

text \<open>The end of an install (the \<open>finally\<close> of \<open>run_install\<close>), before the next one is tried.\<close>

definition end_install :: "time \<Rightarrow> key_id \<Rightarrow> int option \<Rightarrow> database \<Rightarrow> database" where
  "end_install now i code db =
     db\<lparr>installs := update_rows (\<lambda>g. g_id g = i)
          (\<lambda>g. g\<lparr>g_return_code := (case code of None \<Rightarrow> g_return_code g | Some c \<Rightarrow> Some c),
                 g_status := (if code = Some 0 then SUCCESS else FAILED),
                 g_finished_at := Some now, g_lease_expires_at := None\<rparr>) (installs db)\<rparr>"

lemma try_start_install_frame [simp]:
  "runs (fst (try_start_install e now db)) = runs db"
  "refreshes (fst (try_start_install e now db)) = refreshes db"
  "lints (fst (try_start_install e now db)) = lints db"
  "scans (fst (try_start_install e now db)) = scans db"
  "run_logs (fst (try_start_install e now db)) = run_logs db"
  "outage (fst (try_start_install e now db)) = outage db"
  "audit_events (fst (try_start_install e now db)) = audit_events db"
  "deliveries (fst (try_start_install e now db)) = deliveries db"
  "static_part (fst (try_start_install e now db)) = static_part db"
  by (auto simp: try_start_install_def static_part_def split: option.splits)

lemma try_start_install_gate: "gate_ok db \<Longrightarrow> gate_ok (fst (try_start_install e now db))"
  by (auto simp: try_start_install_def gate_ok_def split: option.splits)

lemma try_start_install_inv: "queue_inv db \<Longrightarrow> queue_inv (fst (try_start_install e now db))"
  using try_start_install_gate [of db e now] by (simp add: queue_inv_def ids_ok_def one_running_def)

lemma end_install_inv: "queue_inv db \<Longrightarrow> queue_inv (end_install now i code db)"
  by (auto simp: queue_inv_def ids_ok_def one_running_def gate_ok_def end_install_def set_update_rows
      split: if_splits)

text \<open>
  An install starts only when nothing that loads roles or collections is running and no
  other install is, and then it is the oldest queued one; the other queued installs stay queued.
\<close>

theorem install_starts_alone:
  assumes "try_start_install e now db = (db', Some i)"
  shows "\<not> busy (runs db') \<and> \<not> busy (refreshes db') \<and> \<not> busy (lints db') \<and>
    (\<forall>g \<in> set (installs db). g_status g \<noteq> RUNNING \<and> (g_status g = QUEUED \<longrightarrow> i \<le> g_id g)) \<and>
    (\<forall>g \<in> set (installs db'). g_status g = RUNNING \<longleftrightarrow> g_id g = i)"
proof -
  obtain g where g: "first_by g_id (filter (\<lambda>g. g_status g = QUEUED) (installs db)) = Some g" "i = g_id g"
    and none: "\<not> (\<exists>g \<in> set (installs db). g_status g = RUNNING)"
    and idle: "\<not> busy (runs db)" "\<not> busy (refreshes db)" "\<not> busy (lints db)"
    and db': "installs db' = update_rows (\<lambda>g. g_id g = i)
       (\<lambda>g. g\<lparr>g_status := RUNNING, g_started_at := Some now,
              g_lease_expires_at := Some (now + secs (run_lease_seconds e))\<rparr>) (installs db)"
    using assms by (auto simp: try_start_install_def split: if_splits option.splits)
  have same: "runs db' = runs db" "refreshes db' = refreshes db" "lints db' = lints db"
    using try_start_install_frame(1-3) [of e now db] assms by simp_all
  have "\<forall>x \<in> set (installs db). g_status x = QUEUED \<longrightarrow> i \<le> g_id x"
    using first_by_Some [OF g(1)] g(2) by auto
  moreover have "\<forall>x \<in> set (installs db'). g_status x = RUNNING \<longleftrightarrow> g_id x = i"
    using none by (auto simp: db' set_update_rows)
  ultimately show ?thesis using none idle same by auto
qed

definition sample_install :: "key_id \<Rightarrow> galaxy_install" where
  "sample_install i = \<lparr>g_id = i, g_status = QUEUED, g_triggered_by = ''mel'',
     g_requirements_snapshot = [], g_upgrade = False, g_return_code = None, g_status_reason = None,
     g_started_at = None, g_finished_at = None, g_lease_expires_at = None\<rparr>"

theorem install_starts_alone_witness:
  "\<exists>db'. try_start_install sample_env 3 (empty_db\<lparr>installs := [sample_install 8, sample_install 6]\<rparr>) =
     (db', Some 6) \<and> \<not> busy (runs db')"
proof -
  let ?db = "empty_db\<lparr>installs := [sample_install 8, sample_install 6]\<rparr>"
  have "snd (try_start_install sample_env 3 ?db) = Some 6"
    by (simp add: try_start_install_def sample_install_def first_by_def busy_def empty_db_def)
  then obtain db' where "try_start_install sample_env 3 ?db = (db', Some 6)" by (metis prod.collapse)
  with install_starts_alone [OF this] show ?thesis by blast
qed

end
