(* ===== verification/Host_Keys.thy ===== *)
theory Host_Keys
  imports Notifications
begin

text \<open>
  SSH host keys, \<open>app/host_keys.py\<close>: the names keys are stored under, checking a key's blob,
  parsing known_hosts text, and the address ssh connects to. The SHA-256 fingerprint of a key is
  a parameter; Ansible's own merge of group and host variables is not modelled (its result, the
  variables of a host, is the argument of \<open>address_of\<close>).
\<close>

section \<open>Python text helpers\<close>

definition is_line_break :: "char \<Rightarrow> bool" where
  "is_line_break c =
     (let n = of_char c :: nat in (10 \<le> n \<and> n \<le> 13) \<or> (28 \<le> n \<and> n \<le> 30) \<or> n = 133)"

text \<open>\<open>str.splitlines\<close>: no empty last line; a carriage return and newline are one break.\<close>

fun splitlines_from :: "bool \<Rightarrow> string \<Rightarrow> string \<Rightarrow> string list" where
  "splitlines_from after_cr acc [] = (if acc = [] then [] else [rev acc])"
| "splitlines_from after_cr acc (c # cs) =
     (if after_cr \<and> c = CHR 0x0A then splitlines_from False acc cs
      else if is_line_break c then rev acc # splitlines_from (c = CHR 0x0D) [] cs
      else splitlines_from False (c # acc) cs)"

definition splitlines :: "string \<Rightarrow> string list" where
  "splitlines = splitlines_from False []"

definition hex_digit :: "nat \<Rightarrow> char" where
  "hex_digit n = (if n < 10 then char_of (48 + n) else char_of (87 + n))"

text \<open>\<open>repr\<close> of a string.\<close>

definition py_repr :: "string \<Rightarrow> string" where
  "py_repr s =
     (let q = (if CHR 0x27 \<in> set s \<and> CHR 0x22 \<notin> set s then CHR 0x22 else CHR 0x27);
          esc = (\<lambda>c. let n = of_char c :: nat in
                   if c = CHR 0x5C \<or> c = q then [CHR 0x5C, c]
                   else if n = 9 then [CHR 0x5C, CHR ''t'']
                   else if n = 10 then [CHR 0x5C, CHR ''n'']
                   else if n = 13 then [CHR 0x5C, CHR ''r'']
                   else if n < 32 \<or> (127 \<le> n \<and> n \<le> 160 \<and> [c] \<noteq> ellipsis) \<or> n = 173
                   then [CHR 0x5C, CHR ''x'', hex_digit (n div 16), hex_digit (n mod 16)]
                   else [c])
      in q # concat (map esc s) @ [q])"

section \<open>Base64\<close>

definition b64_value :: "char \<Rightarrow> nat option" where
  "b64_value c =
     (let n = of_char c :: nat in
      if 65 \<le> n \<and> n \<le> 90 then Some (n - 65)
      else if 97 \<le> n \<and> n \<le> 122 then Some (n - 71)
      else if 48 \<le> n \<and> n \<le> 57 then Some (n + 4)
      else if c = CHR ''+'' then Some 62
      else if c = CHR ''/'' then Some 63
      else None)"

text \<open>\<open>base64.b64decode(s, validate=True)\<close>: \<open>None\<close> where it raises.\<close>

fun b64decode :: "string \<Rightarrow> string option" where
  "b64decode [] = Some []"
| "b64decode (a # b # c # d # rest) =
     (case (b64_value a, b64_value b) of
        (Some va, Some vb) \<Rightarrow>
          let x = char_of (va * 4 + vb div 16) in
          if c = CHR ''='' then (if d = CHR ''='' \<and> rest = [] then Some [x] else None)
          else (case b64_value c of
            None \<Rightarrow> None
          | Some vc \<Rightarrow>
              let y = char_of ((vb mod 16) * 16 + vc div 4) in
              if d = CHR ''='' then (if rest = [] then Some [x, y] else None)
              else (case b64_value d of
                None \<Rightarrow> None
              | Some vd \<Rightarrow>
                  map_option (\<lambda>bs. [x, y, char_of ((vc mod 4) * 64 + vd)] @ bs) (b64decode rest)))
      | _ \<Rightarrow> None)"
| "b64decode _ = None"

section \<open>Keys\<close>

definition KEY_TYPES :: "string list" where
  "KEY_TYPES =
     [''ssh-ed25519'', ''ssh-rsa'', ''ecdsa-sha2-nistp256'', ''ecdsa-sha2-nistp384'',
      ''ecdsa-sha2-nistp521'', ''sk-ssh-ed25519@openssh.com'',
      ''sk-ecdsa-sha2-nistp256@openssh.com'']"

definition MAX_KEY_BYTES :: nat where "MAX_KEY_BYTES = 16 * 1024"
definition MAX_NAME :: nat where "MAX_NAME = 300"
definition MAX_PASTED_LINES :: nat where "MAX_PASTED_LINES = 2000"
definition MAX_LEARNED_LINES :: nat where "MAX_LEARNED_LINES = 200"
definition MAX_PROBLEMS :: nat where "MAX_PROBLEMS = 100"

record known_host =
  kh_name :: string
  kh_key_type :: string
  kh_key_b64 :: string
  kh_fingerprint :: string

definition kh_line :: "known_host \<Rightarrow> string" where
  "kh_line k = kh_name k @ '' '' @ kh_key_type k @ '' '' @ kh_key_b64 k"

definition host_alias :: "string \<Rightarrow> int option \<Rightarrow> string" where
  "host_alias host port =
     (let host = lower host in
      case port of
        None \<Rightarrow> host
      | Some p \<Rightarrow> if p = 22 then host else ''['' @ host @ '']:'' @ show_int p)"

text \<open>The pattern \<open>_HOST\<close>, and \<open>_NAME\<close> for a bracketed name with a port.\<close>

definition host_start :: "char \<Rightarrow> bool" where
  "host_start c = (let n = of_char c :: nat in (97 \<le> n \<and> n \<le> 122) \<or> (48 \<le> n \<and> n \<le> 57) \<or> c = CHR ''_'')"

definition host_char :: "char \<Rightarrow> bool" where
  "host_char c = (host_start c \<or> c \<in> {CHR ''.'', CHR '':'', CHR ''%'', CHR ''-''})"

definition is_host :: "string \<Rightarrow> bool" where
  "is_host s = (case s of [] \<Rightarrow> False | c # cs \<Rightarrow> host_start c \<and> list_all host_char cs)"

definition bracket_parts :: "string \<Rightarrow> (string \<times> string) option" where
  "bracket_parts s =
     (case s of
        [] \<Rightarrow> None
      | c # cs \<Rightarrow>
          let host = takeWhile (\<lambda>x. x \<noteq> CHR '']'') cs; rest = dropWhile (\<lambda>x. x \<noteq> CHR '']'') cs;
              port = drop 2 rest
          in if c = CHR ''['' \<and> is_host host \<and> take 2 rest = '']:'' \<and> list_all is_digit port \<and>
                1 \<le> length port \<and> length port \<le> 5
             then Some (host, port) else None)"

definition normalise_name :: "string \<Rightarrow> string option" where
  "normalise_name raw =
     (let name = lower (strip raw) in
      if name = [] \<or> length name > MAX_NAME \<or> \<not> (is_host name \<or> bracket_parts name \<noteq> None) then None
      else case bracket_parts name of
        None \<Rightarrow> Some name
      | Some (host, digits) \<Rightarrow>
          let port = read_nat 0 digits in
          if \<not> (1 \<le> port \<and> port \<le> 65535) then None
          else if port = 22 then Some host
          else Some name)"

definition be32 :: "string \<Rightarrow> nat" where
  "be32 bs = foldl (\<lambda>acc c. acc * 256 + of_char c) 0 bs"

definition check_key :: "(string \<Rightarrow> string) \<Rightarrow> string \<Rightarrow> string \<Rightarrow> string + string" where
  "check_key fingerprint key_type key_b64 =
     (if key_type \<notin> set KEY_TYPES then Inl (''unsupported key type '' @ py_repr (take 60 key_type))
      else if length key_b64 > MAX_KEY_BYTES * 4 div 3 + 4 then Inl ''the key is too long''
      else case b64decode key_b64 of
        None \<Rightarrow> Inl ''the key is not valid base64''
      | Some blob \<Rightarrow>
          if length blob < 4 then Inl ''the key is too short''
          else let len = be32 (take 4 blob) in
               if take len (drop 4 blob) \<noteq> key_type
               then Inl (''the key's data isn't a '' @ key_type @ '' key'')
               else Inr (fingerprint key_b64))"

section \<open>Known hosts text\<close>

type_synonym known_keys = "((string \<times> string) \<times> known_host) list"

definition add_name ::
  "nat \<Rightarrow> string \<Rightarrow> string \<Rightarrow> string \<Rightarrow> string \<Rightarrow> known_keys \<times> string list \<Rightarrow> known_keys \<times> string list"
where
  "add_name number key_type key_b64 found raw_name = (\<lambda>(keys, warnings).
     case normalise_name raw_name of
       None \<Rightarrow>
         let shown = take 60 raw_name @ (if length raw_name > 60 then ellipsis else []);
             why = (if startswith raw_name ''|'' then ''hashed names'' else py_repr shown)
         in (keys, warnings @ [''line '' @ show_nat number @ '': '' @ why @
               '' can't be used (one plain name per key)''])
     | Some name \<Rightarrow>
         (dict_set (name, key_type)
            \<lparr>kh_name = name, kh_key_type = key_type, kh_key_b64 = key_b64, kh_fingerprint = found\<rparr> keys,
          warnings))"

definition parse_line ::
  "(string \<Rightarrow> string) \<Rightarrow> nat \<times> string \<Rightarrow> known_keys \<times> string list \<Rightarrow> known_keys \<times> string list" where
  "parse_line fingerprint = (\<lambda>(number, raw) (keys, warnings).
     let line = strip raw; warn = (\<lambda>t. warnings @ [''line '' @ show_nat number @ '': '' @ t]) in
     if line = [] \<or> startswith line ''#'' then (keys, warnings)
     else if startswith line ''@''
     then (keys, warn ''@cert-authority and @revoked lines aren't supported'')
     else case split_ws line of
       names # key_type # key_b64 # _ \<Rightarrow>
         (case check_key fingerprint key_type key_b64 of
            Inl problem \<Rightarrow> (keys, warn problem)
          | Inr found \<Rightarrow>
              fold (add_name number key_type key_b64 found) (split_char (CHR '','') names)
                (keys, warnings))
     | _ \<Rightarrow> (keys, warn ''not a known_hosts line''))"

definition parse_known_hosts ::
  "(string \<Rightarrow> string) \<Rightarrow> string \<Rightarrow> nat \<Rightarrow> known_host list \<times> string list" where
  "parse_known_hosts fingerprint txt max_lines =
     (let lines = splitlines txt;
          w0 = (if length lines > max_lines
                then [''only the first '' @ show_nat max_lines @ '' lines were read''] else []);
          (keys, warnings) = fold (parse_line fingerprint) (enumerate 1 (take max_lines lines)) ([], w0)
      in (map snd keys, warnings))"

section \<open>Where ssh connects\<close>

record host_address =
  ha_name :: "string option"
  ha_connection :: string
  ha_checked :: bool
  ha_reason :: "string option"

definition SSH_CONNECTIONS :: "string list" where
  "SSH_CONNECTIONS = [''ssh'', ''smart'']"

fun templated :: "val \<Rightarrow> bool" where
  "templated (VStr u s) = (contains s ''{{'' \<or> contains s ''{%'' \<or> contains s ''{#'')"
| "templated _ = False"

text \<open>\<open>_port\<close>: \<open>None\<close> where it raises \<open>ValueError\<close>.\<close>

fun port_of :: "val \<Rightarrow> int option" where
  "port_of (VInt p) = (if 1 \<le> p \<and> p \<le> 65535 then Some p else None)"
| "port_of (VStr u s) =
     (let d = strip s; p = int (read_nat 0 d) in
      if d \<noteq> [] \<and> list_all is_digit d \<and> 1 \<le> p \<and> p \<le> 65535 then Some p else None)"
| "port_of _ = None"

definition unset :: "val \<Rightarrow> bool" where
  "unset v = (v = VNone \<or> is_text [] v)"

definition address_of :: "string \<Rightarrow> vars \<Rightarrow> host_address" where
  "address_of hostname vs =
     (let get = detail_get (Some vs);
          pick = (\<lambda>names v0. fold (\<lambda>n v. if unset (get n) then v else get n) names v0);
          c0 = get ''ansible_connection'';
          connection = (if truthy c0 then c0 else Str ''ssh'') in
      case connection of
        VStr u cname \<Rightarrow>
          if templated connection
          then \<lparr>ha_name = None, ha_connection = ''?'', ha_checked = False,
                ha_reason = Some ''its connection is set by a template''\<rparr>
          else if cname \<notin> set SSH_CONNECTIONS
          then \<lparr>ha_name = None, ha_connection = cname, ha_checked = False,
                ha_reason = Some (''connects with '' @ cname @ '', not ssh'')\<rparr>
          else let host = pick [''ansible_host'', ''ansible_ssh_host''] (Str hostname);
                   port = pick [''ansible_port'', ''ansible_ssh_port''] VNone;
                   plain = (\<lambda>reason. \<lparr>ha_name = None, ha_connection = ''ssh'', ha_checked = True,
                                      ha_reason = Some reason\<rparr>) in
               if templated host \<or> templated port then plain ''its address is set by a template''
               else if port \<noteq> VNone \<and> port_of port = None then plain ''its port isn't a number''
               else (case (case host of
                             VStr u h \<Rightarrow> normalise_name (host_alias h (port_of port)) | _ \<Rightarrow> None) of
                       None \<Rightarrow> plain ''its address isn't a plain host name''
                     | Some name \<Rightarrow> \<lparr>ha_name = Some name, ha_connection = ''ssh'', ha_checked = True,
                                     ha_reason = None\<rparr>)
      | _ \<Rightarrow> \<lparr>ha_name = None, ha_connection = ''?'', ha_checked = False,
              ha_reason = Some ''its connection is set by a template''\<rparr>)"

section \<open>Names\<close>

lemma is_digit_plain:
  assumes "is_digit c"
  shows "lower_char c = c" "\<not> is_space c" "c \<noteq> CHR '']''"
  using assms by (auto simp: is_digit_def lower_char_def is_upper_def is_space_def Let_def)

lemma host_char_plain:
  assumes "host_char c"
  shows "lower_char c = c" "\<not> is_space c" "c \<noteq> CHR '']''" "c \<noteq> CHR ''[''"
  using assms by (auto simp: host_char_def host_start_def lower_char_def is_upper_def is_space_def Let_def)

lemma is_host_chars: "is_host s \<Longrightarrow> list_all host_char s \<and> s \<noteq> []"
  by (auto simp: is_host_def host_char_def split: list.splits)

lemma lower_id: "list_all (\<lambda>c. lower_char c = c) s \<Longrightarrow> lower s = s"
  by (induction s) (auto simp: lower_def)

lemma strip_id:
  assumes "list_all (\<lambda>c. \<not> is_space c) s"
  shows "strip s = s"
proof -
  have 1: "dropWhile is_space t = t" if "list_all (\<lambda>c. \<not> is_space c) t" for t
    using that by (cases t) auto
  have "list_all (\<lambda>c. \<not> is_space c) (rev s)" using assms by (simp add: list_all_iff)
  then show ?thesis using 1 [OF assms] 1 by (simp add: strip_def strip_of_def rstrip_of_def)
qed

lemma bracket_parts_iff:
  "bracket_parts s = Some (h, d) \<longleftrightarrow>
   s = ''['' @ h @ '']:'' @ d \<and> is_host h \<and> list_all is_digit d \<and> 1 \<le> length d \<and> length d \<le> 5"
proof
  assume a: "bracket_parts s = Some (h, d)"
  then obtain cs where s: "s = CHR ''['' # cs" and h: "h = takeWhile (\<lambda>x. x \<noteq> CHR '']'') cs"
    and d: "d = drop 2 (dropWhile (\<lambda>x. x \<noteq> CHR '']'') cs)"
    and t: "take 2 (dropWhile (\<lambda>x. x \<noteq> CHR '']'') cs) = '']:''"
    and ok: "is_host h" "list_all is_digit d" "1 \<le> length d" "length d \<le> 5"
    by (auto simp: bracket_parts_def Let_def split: list.splits if_splits)
  have "cs = h @ dropWhile (\<lambda>x. x \<noteq> CHR '']'') cs" by (simp add: h)
  moreover have "dropWhile (\<lambda>x. x \<noteq> CHR '']'') cs = '']:'' @ d" using t d append_take_drop_id by metis
  ultimately show "s = ''['' @ h @ '']:'' @ d \<and> is_host h \<and> list_all is_digit d \<and> 1 \<le> length d \<and>
    length d \<le> 5" using s ok by simp
next
  assume a: "s = ''['' @ h @ '']:'' @ d \<and> is_host h \<and> list_all is_digit d \<and> 1 \<le> length d \<and> length d \<le> 5"
  then have "\<forall>x \<in> set h. x \<noteq> CHR '']''"
    using is_host_chars host_char_plain(3) by (fastforce simp: list_all_iff)
  then have "takeWhile (\<lambda>x. x \<noteq> CHR '']'') (h @ '']:'' @ d) = h"
    "dropWhile (\<lambda>x. x \<noteq> CHR '']'') (h @ '']:'' @ d) = '']:'' @ d"
    by (simp_all add: takeWhile_append2 dropWhile_append2)
  with a show "bracket_parts s = Some (h, d)" by (simp add: bracket_parts_def Let_def)
qed

lemma is_host_no_bracket: "is_host s \<Longrightarrow> bracket_parts s = None"
  using host_char_plain(4) [of "CHR ''[''"]
  by (auto simp: is_host_def bracket_parts_def host_char_def Let_def split: list.splits)

lemma plain_host: "is_host s \<Longrightarrow> lower s = s \<and> strip s = s"
  using is_host_chars [of s] host_char_plain
  by (auto simp: list_all_iff intro!: lower_id strip_id)

lemma plain_bracketed:
  assumes "bracket_parts s = Some (h, d)"
  shows "lower s = s \<and> strip s = s"
proof -
  have s: "s = ''['' @ h @ '']:'' @ d" "is_host h" "list_all is_digit d"
    using assms by (simp_all add: bracket_parts_iff)
  have "\<forall>c \<in> set s. lower_char c = c \<and> \<not> is_space c"
    using s is_host_chars [of h] host_char_plain is_digit_plain
    by (auto simp: list_all_iff lower_char_def is_upper_def is_space_def)
  then show ?thesis by (auto simp: list_all_iff intro!: lower_id strip_id)
qed

text \<open>What a stored name looks like.\<close>

definition canonical_name :: "string \<Rightarrow> bool" where
  "canonical_name n = (normalise_name n = Some n)"

lemma canonical_host: "is_host s \<Longrightarrow> length s \<le> MAX_NAME \<Longrightarrow> canonical_name s"
  using plain_host [of s] is_host_no_bracket [of s]
  by (auto simp: canonical_name_def normalise_name_def Let_def is_host_def)

lemma canonical_bracketed:
  assumes "bracket_parts s = Some (h, d)" and "length s \<le> MAX_NAME"
    and "1 \<le> read_nat 0 d" "read_nat 0 d \<le> 65535" "read_nat 0 d \<noteq> 22"
  shows "canonical_name s"
proof -
  have "s \<noteq> []" using assms(1) by (auto simp: bracket_parts_iff)
  then show ?thesis
    using plain_bracketed [OF assms(1)] assms by (simp add: canonical_name_def normalise_name_def Let_def)
qed

lemma normalise_name_canonical:
  assumes "normalise_name raw = Some n"
  shows "canonical_name n \<and> length n \<le> MAX_NAME \<and>
    (is_host n \<or> (\<exists>h d. bracket_parts n = Some (h, d) \<and> read_nat 0 d \<noteq> 22))"
proof -
  let ?m = "lower (strip raw)"
  have m: "length ?m \<le> MAX_NAME" using assms by (auto simp: normalise_name_def Let_def split: if_splits)
  show ?thesis
  proof (cases "bracket_parts ?m")
    case None
    then have "n = ?m" "is_host ?m"
      using assms by (auto simp: normalise_name_def Let_def split: if_splits)
    then show ?thesis using m canonical_host by blast
  next
    case (Some hd)
    then obtain h d where hd: "bracket_parts ?m = Some (h, d)" by (cases hd) auto
    then have h: "is_host h" "length h \<le> MAX_NAME"
      using m by (auto simp: bracket_parts_iff)
    show ?thesis
    proof (cases "read_nat 0 d = 22")
      case True
      then have "n = h" using assms hd by (auto simp: normalise_name_def Let_def split: if_splits)
      then show ?thesis using h canonical_host by blast
    next
      case False
      then have "n = ?m" "1 \<le> read_nat 0 d" "read_nat 0 d \<le> 65535"
        using assms hd by (auto simp: normalise_name_def Let_def split: if_splits)
      then show ?thesis using hd m False canonical_bracketed by blast
    qed
  qed
qed

lemma bracket_tail_unique:
  assumes "h @ '']:22'' = h' @ '']:'' @ d" and "CHR '']'' \<notin> set h'" "CHR '']'' \<notin> set d"
  shows "d = ''22''"
proof -
  have "takeWhile (\<lambda>c. c \<noteq> CHR '']'') (rev (h @ '']:22'')) = ''22:''"
    by simp
  moreover have "takeWhile (\<lambda>c. c \<noteq> CHR '']'') (rev (h' @ '']:'' @ d)) = rev d @ '':''"
    using assms(3) by (subst rev_append, subst rev_append, subst append_assoc, subst takeWhile_append2) auto
  ultimately have "rev d @ '':'' = ''22:''" using assms(1) by metis
  then have "rev d = ''22''" by (cases "rev d" rule: rev_cases) auto
  then show ?thesis by (metis rev_rev_ident rev.simps append.simps)
qed

text \<open>
  Normalising a host key name is idempotent: a name that is accepted gives a name which is
  stored as it is, at most 300 characters, free of white space and upper case, and never bracketed
  with port 22, so two spellings of one address cannot both be stored.
\<close>

theorem normalise_name_idempotent:
  assumes "normalise_name raw = Some n"
  shows "normalise_name n = Some n \<and> length n \<le> 300 \<and> lower n = n \<and> strip n = n \<and>
    (\<forall>h. n \<noteq> ''['' @ h @ '']:22'')"
proof -
  have n: "canonical_name n" "length n \<le> 300"
    and shape: "is_host n \<or> (\<exists>h d. bracket_parts n = Some (h, d) \<and> read_nat 0 d \<noteq> 22)"
    using normalise_name_canonical [OF assms] by (auto simp: MAX_NAME_def)
  have "lower n = n \<and> strip n = n" using shape plain_host plain_bracketed by blast
  moreover have "n \<noteq> ''['' @ h @ '']:22''" for h
  proof
    assume eq: "n = ''['' @ h @ '']:22''"
    then have "\<not> is_host n" by (auto simp: is_host_def host_start_def Let_def)
    then obtain h' d where hd: "bracket_parts n = Some (h', d)" "read_nat 0 d \<noteq> 22" using shape by blast
    then have "''['' @ h @ '']:22'' = ''['' @ h' @ '']:'' @ d" and h': "is_host h'"
      and d: "list_all is_digit d"
      using eq by (simp_all add: bracket_parts_iff)
    then have "h @ '']:22'' = h' @ '']:'' @ d" by simp
    moreover have "CHR '']'' \<notin> set h'" "CHR '']'' \<notin> set d"
      using is_host_chars [OF h'] host_char_plain(3) d is_digit_plain(3) by (auto simp: list_all_iff)
    ultimately have "d = ''22''" by (rule bracket_tail_unique)
    with hd(2) show False by simp
  qed
  ultimately show ?thesis using n by (auto simp: canonical_name_def)
qed

theorem normalise_name_idempotent_witness:
  "normalise_name '' [Web1]:0022 '' = Some ''web1'' \<and> normalise_name ''web1'' = Some ''web1''"
proof -
  have "char_of (119 :: nat) = CHR ''w''" by code_simp
  then have "normalise_name '' [Web1]:0022 '' = Some ''web1''"
    by (simp add: normalise_name_def strip_def strip_of_def rstrip_of_def is_space_def lower_def
        lower_char_def is_upper_def bracket_parts_def is_host_def host_start_def host_char_def
        is_digit_def MAX_NAME_def)
  then show ?thesis using normalise_name_idempotent by blast
qed

section \<open>Parsed keys\<close>

text \<open>What is true of every key kept: a stored name, a supported type that the blob confirms.\<close>

definition key_ok :: "(string \<Rightarrow> string) \<Rightarrow> known_host \<Rightarrow> bool" where
  "key_ok fp k =
     (canonical_name (kh_name k) \<and> check_key fp (kh_key_type k) (kh_key_b64 k) = Inr (kh_fingerprint k))"

definition keys_inv :: "(string \<Rightarrow> string) \<Rightarrow> known_keys \<times> string list \<Rightarrow> bool" where
  "keys_inv fp st =
     (distinct (map fst (fst st)) \<and>
      (\<forall>((n, t), k) \<in> set (fst st). kh_name k = n \<and> kh_key_type k = t \<and> key_ok fp k))"

lemma dict_set_set: "set (dict_set k v d) \<subseteq> insert (k, v) (set d)"
  by (induction k v d rule: dict_set.induct) auto

lemma add_name_inv:
  assumes "keys_inv fp st" and "check_key fp key_type key_b64 = Inr found"
  shows "keys_inv fp (add_name number key_type key_b64 found raw st)"
proof (cases "normalise_name raw")
  case None
  then show ?thesis using assms(1) by (cases st) (simp add: add_name_def keys_inv_def Let_def)
next
  case (Some name)
  let ?k = "\<lparr>kh_name = name, kh_key_type = key_type, kh_key_b64 = key_b64, kh_fingerprint = found\<rparr>"
  have "key_ok fp ?k" using normalise_name_canonical [OF Some] assms(2) by (simp add: key_ok_def)
  then show ?thesis
    using assms(1) Some dict_set_set [of "(name, key_type)" ?k "fst st"]
    by (cases st) (fastforce simp: add_name_def keys_inv_def distinct_dict_set)
qed

lemma parse_line_inv:
  assumes "keys_inv fp st"
  shows "keys_inv fp (parse_line fp nl st)"
proof -
  obtain number raw keys warnings where nl: "nl = (number, raw)" and st: "st = (keys, warnings)"
    by (cases nl, cases st)
  have w: "keys_inv fp (keys, ws)" for ws using assms by (simp add: keys_inv_def st)
  have names: "keys_inv fp (fold (add_name number key_type key_b64 found) names (keys, warnings))"
    if "check_key fp key_type key_b64 = Inr found" for key_type key_b64 found names
    by (rule fold_invariant [where Q = "\<lambda>_. True" and P = "keys_inv fp"])
       (use w that add_name_inv in auto)
  show ?thesis
    unfolding parse_line_def nl st prod.case Let_def
    using w names by (auto split: list.split sum.split)
qed

lemma parse_known_hosts_inv:
  "\<exists>d. fst (parse_known_hosts fp txt n) = map snd d \<and> keys_inv fp (d, [])"
proof -
  define st where "st = fold (parse_line fp) (enumerate 1 (take n (splitlines txt)))
    ([], if length (splitlines txt) > n then [''only the first '' @ show_nat n @ '' lines were read''] else [])"
  have "keys_inv fp ([], w)" for w by (simp add: keys_inv_def)
  then have "keys_inv fp st"
    unfolding st_def
    by (intro fold_invariant [where Q = "\<lambda>_. True" and P = "keys_inv fp"]) (auto intro: parse_line_inv)
  moreover have "fst (parse_known_hosts fp txt n) = map snd (fst st)"
    by (simp add: parse_known_hosts_def st_def Let_def case_prod_beta)
  ultimately show ?thesis by (auto simp: keys_inv_def)
qed

text \<open>
  Whatever text is pasted, learned or scanned, every key that comes out of it has a plain
  canonical name, a supported type, valid base64 data that names that same type, and the
  fingerprint of that data; and there is at most one key per name and type.
\<close>

theorem parse_known_hosts_sound:
  "list_all (key_ok fp) (fst (parse_known_hosts fp txt n)) \<and>
   distinct (map (\<lambda>k. (kh_name k, kh_key_type k)) (fst (parse_known_hosts fp txt n)))"
proof -
  obtain d where d: "fst (parse_known_hosts fp txt n) = map snd d" "keys_inv fp (d, [])"
    using parse_known_hosts_inv by blast
  have "map (\<lambda>k. (kh_name k, kh_key_type k)) (map snd d) = map fst d"
    using d(2) by (auto simp: keys_inv_def)
  then have "distinct (map (\<lambda>k. (kh_name k, kh_key_type k)) (map snd d))"
    using d(2) by (simp only: keys_inv_def fst_conv)
  moreover have "list_all (key_ok fp) (map snd d)"
    using d(2) by (auto simp: keys_inv_def list_all_iff)
  ultimately show ?thesis by (simp only: d(1))
qed

section \<open>Addresses and names\<close>

lemma length_show_nat: "n < 10 ^ k \<Longrightarrow> 0 < k \<Longrightarrow> length (show_nat n) \<le> k"
proof (induction k arbitrary: n)
  case (Suc k)
  show ?case
  proof (cases "n < 10")
    case True
    then show ?thesis by (subst show_nat.simps) simp
  next
    case False
    then have "n div 10 < 10 ^ k" "0 < k" using Suc.prems by (auto simp: less_mult_imp_div_less mult.commute intro: Nat.gr0I)
    then have "length (show_nat (n div 10)) \<le> k" using Suc.IH by blast
    with False show ?thesis by (subst show_nat.simps) simp
  qed
qed simp

lemma host_alias_canonical:
  assumes "is_host h" and "length h \<le> 292" and "1 \<le> p" "p \<le> 65535"
  shows "canonical_name (host_alias h (Some p))"
proof (cases "p = 22")
  case True
  then show ?thesis
    using assms plain_host [of h] canonical_host [of h] by (simp add: host_alias_def MAX_NAME_def)
next
  case False
  let ?d = "show_nat (nat p)"
  have len: "length ?d \<le> 5" using length_show_nat [of "nat p" 5] assms by simp
  have parts: "bracket_parts (''['' @ h @ '']:'' @ ?d) = Some (h, ?d)"
    using assms len show_nat_digits [of "nat p"] show_nat_not_empty [of "nat p"]
    by (auto simp: bracket_parts_iff Suc_le_eq)
  have "canonical_name (''['' @ h @ '']:'' @ ?d)"
    by (rule canonical_bracketed [OF parts]) (use assms len False in \<open>auto simp: read_show_nat MAX_NAME_def\<close>)
  then show ?thesis
    using assms plain_host [of h] False by (simp add: host_alias_def show_int_def)
qed

end
