(* ===== verification/Lint.thy ===== *)
theory Lint
  imports Queue_Facts
begin

text \<open>
  Playbook checks, \<open>app/lint.py\<close>: queueing (the newer check of a person replaces the queued one),
  the end of a check, why one waits, and pruning. Building the job reads a repository snapshot
  from disk and is a parameter of the handler that hands it out.
\<close>

definition LINT_QUEUE_TIMEOUT_SECONDS :: int where "LINT_QUEUE_TIMEOUT_SECONDS = 120"
definition LINT_RETENTION_SECONDS :: int where "LINT_RETENTION_SECONDS = 3600"
definition LINT_TIMEOUT_GRACE_SECONDS :: int where "LINT_TIMEOUT_GRACE_SECONDS = 30"

definition enqueue_lint ::
  "env \<Rightarrow> time \<Rightarrow> key_id \<Rightarrow> string \<Rightarrow> key_id \<Rightarrow> string \<Rightarrow> string option \<Rightarrow> key_id option \<Rightarrow>
   key_id option \<Rightarrow> string option \<Rightarrow> database \<Rightarrow> database \<times> lint_job" where
  "enqueue_lint e now uid uname pid target content playbook snapshot commit db =
     (let replaced = update_rows (\<lambda>l. l_requested_by_user_id l = uid \<and> status l = QUEUED)
            (\<lambda>l. l\<lparr>status := CANCELLED, l_error := Some ''replaced by a newer check'',
                   l_content := None, finished_at := Some now\<rparr>) (lints db);
          lint = \<lparr>row_id = next_lint_id db, status = QUEUED, queued_at = now, claimed_at = None,
                  started_at = None, finished_at = None, timeout_seconds = lint_timeout_seconds e,
                  worker_id = None, lease_expires_at = None, heartbeat_at = None,
                  claim_token_hash = None, job_token_hash = None, job_token_expires_at = None,
                  l_project_id = pid, l_requested_by_user_id = uid, l_requested_by = uname,
                  l_playbook_id = playbook, l_target = target, l_content = content,
                  l_content_sha256 = map_option (sha256_hex e) content, l_git_snapshot_id = snapshot,
                  l_git_commit = commit, l_findings = None, l_findings_total = None,
                  l_truncated = False, l_external = 0, l_repo_config = False, l_error = None,
                  l_scrubbed = False, l_version = None\<rparr>
      in (db\<lparr>lints := replaced @ [lint], next_lint_id := next_lint_id db + 1\<rparr>, lint))"

record lint_result =
  lr_findings :: "val list"
  lr_total :: int
  lr_truncated :: bool
  lr_external :: int
  lr_repo_config :: bool
  lr_scrubbed :: bool
  lr_version :: "string option"

text \<open>\<open>error[:1000] if error else None\<close>.\<close>

definition error_column :: "string option \<Rightarrow> string option" where
  "error_column error = (case error of None \<Rightarrow> None | Some t \<Rightarrow> if t = [] then None else Some (take 1000 t))"

definition end_lint ::
  "time \<Rightarrow> run_status \<Rightarrow> string option \<Rightarrow> lint_result option \<Rightarrow> lint_job \<Rightarrow> lint_job" where
  "end_lint now st error result l =
     (let l1 = l\<lparr>status := st, finished_at := Some now, lease_expires_at := None,
                 claim_token_hash := None, job_token_hash := None, job_token_expires_at := None,
                 l_content := None, l_error := error_column error\<rparr>
      in case result of
           None \<Rightarrow> l1
         | Some res \<Rightarrow>
             l1\<lparr>l_findings := Some (lr_findings res), l_findings_total := Some (lr_total res),
                l_truncated := lr_truncated res, l_external := lr_external res,
                l_repo_config := lr_repo_config res, l_scrubbed := lr_scrubbed res,
                l_version := lr_version res\<rparr>)"

definition running_count :: "'a job_scheme list \<Rightarrow> int" where
  "running_count tbl = int (length (filter (\<lambda>r. status r = RUNNING) tbl))"

definition lint_wait_reason :: "env \<Rightarrow> time \<Rightarrow> database \<Rightarrow> lint_job \<Rightarrow> string" where
  "lint_wait_reason e now db l =
     (if install_pending db then ''Waiting for a Galaxy install to finish''
      else if \<exists>x \<in> set (lints db). status x = RUNNING \<and>
                l_requested_by_user_id x = l_requested_by_user_id l
      then ''Waiting for your previous check to finish''
      else let slots = online_slots now db False False False in
           if slots = 0 then ''No worker is online: start one to check playbooks''
           else let checks = running_count (lints db); limit = lint_max_running e in
                if checks \<ge> limit
                then ''Waiting: '' @ show_int checks @ '' checks are running (at most '' @
                     show_int limit @ '' at once)''
                else if checks + running_count (runs db) + running_count (refreshes db) \<ge> slots
                then ''Waiting for a free worker (all are busy)''
                else ''Waiting for a worker'' @ ellipsis)"

definition prune_lint_jobs :: "time \<Rightarrow> database \<Rightarrow> database \<times> int" where
  "prune_lint_jobs now db =
     (let old = (\<lambda>l. case finished_at l of None \<Rightarrow> False
                     | Some t \<Rightarrow> t < now - secs LINT_RETENTION_SECONDS)
      in (db\<lparr>lints := delete_rows old (lints db)\<rparr>, int (length (filter old (lints db)))))"

section \<open>One queued check per person\<close>

lemma end_lint_columns [simp]:
  "row_id (end_lint now st err res l) = row_id l" "status (end_lint now st err res l) = st"
  "l_requested_by_user_id (end_lint now st err res l) = l_requested_by_user_id l"
  "claim_token_hash (end_lint now st err res l) = None" "job_token_hash (end_lint now st err res l) = None"
  "finished_at (end_lint now st err res l) = Some now" "l_content (end_lint now st err res l) = None"
  "lease_expires_at (end_lint now st err res l) = None"
  by (simp_all add: end_lint_def Let_def split: option.split)

lemma enqueue_lint_frame [simp]:
  "runs (fst (enqueue_lint e now u n p t c pb s g db)) = runs db"
  "refreshes (fst (enqueue_lint e now u n p t c pb s g db)) = refreshes db"
  "scans (fst (enqueue_lint e now u n p t c pb s g db)) = scans db"
  "installs (fst (enqueue_lint e now u n p t c pb s g db)) = installs db"
  by (simp_all add: enqueue_lint_def Let_def)

text \<open>The sequence is ahead of every id it handed out.\<close>

definition lint_ids_fresh :: "database \<Rightarrow> bool" where
  "lint_ids_fresh db = (\<forall>l \<in> set (lints db). row_id l < next_lint_id db)"

lemma unique_running_snoc_queued:
  assumes "unique_running owner tbl" and "status r \<noteq> RUNNING"
  shows "unique_running owner (tbl @ [r])"
  using assms by (auto simp: unique_running_def running_conflict_def)

lemma unique_ids_snoc:
  assumes "unique_ids tbl" and "row_id r \<notin> row_id ` set tbl"
  shows "unique_ids (tbl @ [r])"
  using assms by (simp add: unique_ids_def)

lemma enqueue_lint_inv:
  assumes "queue_inv db" and "lint_ids_fresh db"
  shows "queue_inv (fst (enqueue_lint e now u n p t c pb s g db)) \<and>
    lint_ids_fresh (fst (enqueue_lint e now u n p t c pb s g db))"
proof -
  define rep where "rep = update_rows (\<lambda>l. l_requested_by_user_id l = u \<and> status l = QUEUED)
    (\<lambda>l. l\<lparr>status := CANCELLED, l_error := Some ''replaced by a newer check'', l_content := None,
           finished_at := Some now\<rparr>) (lints db)"
  let ?new = "snd (enqueue_lint e now u n p t c pb s g db)"
  have new: "row_id ?new = next_lint_id db" "status ?new = QUEUED"
    by (simp_all add: enqueue_lint_def Let_def)
  have lints': "lints (fst (enqueue_lint e now u n p t c pb s g db)) = rep @ [?new]"
    by (simp add: enqueue_lint_def Let_def rep_def)
  have ids2: "map row_id rep = map row_id (lints db)" unfolding rep_def by (rule map_update_rows) simp
  have ids: "row_id ` set rep = row_id ` set (lints db)" "map row_id rep = map row_id (lints db)"
    using ids2 by (metis list.set_map) (rule ids2)
  have "unique_running (\<lambda>l. Some (l_requested_by_user_id l)) rep"
    unfolding rep_def by (rule unique_running_update) (use assms in \<open>auto simp: queue_inv_defs\<close>)
  moreover have "busy rep \<longrightarrow> busy (lints db)"
    by (auto simp: rep_def busy_def set_update_rows split: if_splits)
  moreover have "next_lint_id db \<notin> row_id ` set (lints db)"
    using assms(2) by (auto simp: lint_ids_fresh_def)
  ultimately have "queue_inv (fst (enqueue_lint e now u n p t c pb s g db))"
    using assms(1) new ids
    by (auto simp: queue_inv_defs lints' unique_ids_def busy_def intro!: unique_running_snoc_queued)
  moreover have "lint_ids_fresh (fst (enqueue_lint e now u n p t c pb s g db))"
  proof -
    have "next_lint_id (fst (enqueue_lint e now u n p t c pb s g db)) = next_lint_id db + 1"
      by (simp add: enqueue_lint_def Let_def)
    moreover have "row_id x < next_lint_id db" if "x \<in> set rep" for x
      using that assms(2) ids(1) by (force simp: lint_ids_fresh_def)
    ultimately show ?thesis using new(1) unfolding lint_ids_fresh_def lints' by force
  qed
  ultimately show ?thesis by blast
qed

text \<open>
  After a check is queued, the person has exactly one queued check, the new one, with the
  text they sent; whatever check of theirs was queued has ended as cancelled and its text is
  gone; and no one else's check changed.
\<close>

theorem enqueue_lint_replaces:
  assumes "enqueue_lint e now u n p t content pb s g db = (db', l)"
  shows "(\<forall>x \<in> set (lints db'). l_requested_by_user_id x = u \<and> status x = QUEUED \<longleftrightarrow> x = l) \<and>
    l_content l = content \<and>
    (\<forall>x \<in> set (lints db). l_requested_by_user_id x \<noteq> u \<longrightarrow> x \<in> set (lints db')) \<and>
    (\<forall>x \<in> set (lints db). l_requested_by_user_id x = u \<and> status x = QUEUED \<longrightarrow>
       (\<exists>y \<in> set (lints db'). row_id y = row_id x \<and> status y = CANCELLED \<and> l_content y = None))"
proof -
  have l: "l_requested_by_user_id l = u" "status l = QUEUED" "l_content l = content"
    and db': "lints db' = update_rows (\<lambda>l. l_requested_by_user_id l = u \<and> status l = QUEUED)
            (\<lambda>l. l\<lparr>status := CANCELLED, l_error := Some ''replaced by a newer check'',
                   l_content := None, finished_at := Some now\<rparr>) (lints db) @ [l]"
    using assms by (auto simp: enqueue_lint_def Let_def)
  have "\<forall>x \<in> set (lints db'). l_requested_by_user_id x = u \<and> status x = QUEUED \<longleftrightarrow> x = l"
    using l unfolding db' by (auto simp: set_update_rows)
  moreover have "x \<in> set (lints db')" if "x \<in> set (lints db)" "l_requested_by_user_id x \<noteq> u" for x
    using that unfolding db' by (auto simp: set_update_rows)
  moreover have "\<exists>y \<in> set (lints db'). row_id y = row_id x \<and> status y = CANCELLED \<and> l_content y = None"
    if "x \<in> set (lints db)" "l_requested_by_user_id x = u" "status x = QUEUED" for x
    using that unfolding db' set_append set_update_rows
    by (intro bexI [of _ "x\<lparr>status := CANCELLED, l_error := Some ''replaced by a newer check'',
          l_content := None, finished_at := Some now\<rparr>"]) (auto intro!: image_eqI [of _ _ x])
  ultimately show ?thesis using l(3) by blast
qed

theorem enqueue_lint_replaces_witness:
  "\<exists>db' l. enqueue_lint sample_env 5 4 ''mel'' 1 ''playbook.yml'' (Some ''x'') None None None empty_db =
     (db', l) \<and> l_content l = Some ''x''"
  using enqueue_lint_replaces [of sample_env 5 4 "''mel''" 1 "''playbook.yml''" "Some ''x''" None None
      None empty_db] by (metis prod.collapse)

end
