(* ===== verification/Host_Key_Scans.thy ===== *)
theory Host_Key_Scans
  imports Host_Keys Lint
begin

text \<open>
  Host key scans, \<open>app/host_key_scans.py\<close>: which addresses a scan covers, queueing one per
  inventory, and what is kept of the untrusted output of ssh-keyscan.
\<close>

definition MAX_TARGETS :: nat where "MAX_TARGETS = 500"
definition MAX_EXTRA :: nat where "MAX_EXTRA = 20"
definition SCAN_TIMEOUT_SECONDS :: int where "SCAN_TIMEOUT_SECONDS = 90"
definition SCAN_QUEUE_TIMEOUT_SECONDS :: int where "SCAN_QUEUE_TIMEOUT_SECONDS = 120"
definition SCAN_RETENTION_SECONDS :: int where "SCAN_RETENTION_SECONDS = 3600"
definition SCAN_TIMEOUT_GRACE_SECONDS :: int where "SCAN_TIMEOUT_GRACE_SECONDS = 30"
definition MAX_RESULTS :: nat where "MAX_RESULTS = 3 * MAX_TARGETS"

text \<open>
  \<open>name[1:].rsplit(']:', 1)\<close>, on the last occurrence; \<open>None\<close> where the unpacking or \<open>int\<close> raises
  (every caller passes a stored name, for which they do not).
\<close>

fun rsplit_bracket :: "string \<Rightarrow> (string \<times> string) option" where
  "rsplit_bracket [] = None"
| "rsplit_bracket (c # cs) =
     (case rsplit_bracket cs of
        Some (h, t) \<Rightarrow> Some (c # h, t)
      | None \<Rightarrow> if startswith (c # cs) '']:'' then Some ([], drop 1 cs) else None)"

definition split_name :: "string \<Rightarrow> (string \<times> int) option" where
  "split_name name =
     (if startswith name ''[''
      then (case rsplit_bracket (drop 1 name) of
              None \<Rightarrow> None
            | Some (host, port) \<Rightarrow>
                if port \<noteq> [] \<and> list_all is_digit port then Some (host, int (read_nat 0 port)) else None)
      else Some (name, 22))"

text \<open>The errors are \<open>ScanError\<close>s; \<open>names\<close> is a dict used as an ordered set.\<close>

fun wanted_names ::
  "(string \<times> host_address) list \<Rightarrow> string list \<Rightarrow> string list \<Rightarrow> string + string list" where
  "wanted_names addresses [] names = Inr names"
| "wanted_names addresses (host # hosts) names =
     (case map_of addresses host of
        None \<Rightarrow> Inl (take 100 host @ '' is not a host of this inventory'')
      | Some a \<Rightarrow> wanted_names addresses hosts
                    (case ha_name a of None \<Rightarrow> names | Some n \<Rightarrow> List.insert n names))"

fun extra_names :: "string list \<Rightarrow> string list \<Rightarrow> string + string list" where
  "extra_names [] names = Inr names"
| "extra_names (raw # raws) names =
     (case normalise_name raw of
        None \<Rightarrow> Inl (py_repr (take 100 raw) @ '' is not a host name or [host]:port'')
      | Some n \<Rightarrow> extra_names raws (List.insert n names))"

definition scan_targets ::
  "(string \<times> host_address) list \<Rightarrow> string list option \<Rightarrow> string list \<Rightarrow> string + scan_target list" where
  "scan_targets addresses hosts extra =
     res_bind (wanted_names addresses (case hosts of None \<Rightarrow> map fst addresses | Some hs \<Rightarrow> hs) [])
       (\<lambda>names.
         if length extra > MAX_EXTRA then Inl (''at most '' @ show_nat MAX_EXTRA @ '' extra names'')
         else res_bind (extra_names extra names)
           (\<lambda>names.
             if names = [] then Inl ''none of these hosts has an address known before a run''
             else if length names > MAX_TARGETS
             then Inl (''at most '' @ show_nat MAX_TARGETS @ '' addresses per scan; scan fewer hosts'')
             else Inr (map (\<lambda>n. case split_name n of
                              None \<Rightarrow> \<lparr>t_name = n, t_host = n, t_port = 22\<rparr>
                            | Some (h, p) \<Rightarrow> \<lparr>t_name = n, t_host = h, t_port = p\<rparr>) (rev names))))"

definition enqueue_scan ::
  "time \<Rightarrow> key_id \<Rightarrow> key_id option \<Rightarrow> string \<Rightarrow> scan_target list \<Rightarrow> database \<Rightarrow>
   database \<times> host_key_scan \<times> bool" where
  "enqueue_scan now iid uid uname targets db =
     (case find (\<lambda>s. s_inventory_id s = iid \<and> is_active_status (status s)) (scans db) of
        Some scan \<Rightarrow> (db, scan, False)
      | None \<Rightarrow>
          let scan = \<lparr>row_id = next_scan_id db, status = QUEUED, queued_at = now, claimed_at = None,
                      started_at = None, finished_at = None, timeout_seconds = SCAN_TIMEOUT_SECONDS,
                      worker_id = None, lease_expires_at = None, heartbeat_at = None,
                      claim_token_hash = None, job_token_hash = None, job_token_expires_at = None,
                      s_inventory_id = iid, s_requested_by_user_id = uid, s_requested_by = uname,
                      s_targets = targets, s_results = None, s_error = None\<rparr>
          in (db\<lparr>scans := scans db @ [scan], next_scan_id := next_scan_id db + 1\<rparr>, scan, True))"

definition build_scan_job :: "host_key_scan \<Rightarrow> val" where
  "build_scan_job s = VDict
     [(vkey ''kind'', Str ''keyscan''),
      (vkey ''targets'', VList (map (\<lambda>t. VDict [(vkey ''host'', Str (t_host t)),
                                                (vkey ''port'', VInt (t_port t))]) (s_targets s))),
      (vkey ''timeout_seconds'', VInt (timeout_seconds s))]"

definition key_val :: "known_host \<Rightarrow> val" where
  "key_val k = VDict
     [(vkey ''name'', Str (kh_name k)), (vkey ''key_type'', Str (kh_key_type k)),
      (vkey ''key_b64'', Str (kh_key_b64 k)), (vkey ''fingerprint'', Str (kh_fingerprint k))]"

definition scanned_hosts :: "(string \<Rightarrow> string) \<Rightarrow> host_key_scan \<Rightarrow> string list \<Rightarrow> known_host list" where
  "scanned_hosts fp s lines =
     filter (\<lambda>k. kh_name k \<in> t_name ` set (s_targets s))
       (fst (parse_known_hosts fp (join [CHR 0x0A] lines) MAX_RESULTS))"

definition scanned_keys :: "(string \<Rightarrow> string) \<Rightarrow> host_key_scan \<Rightarrow> string list \<Rightarrow> val list" where
  "scanned_keys fp s lines = map key_val (scanned_hosts fp s lines)"

definition end_scan ::
  "time \<Rightarrow> run_status \<Rightarrow> string option \<Rightarrow> val list option \<Rightarrow> host_key_scan \<Rightarrow> host_key_scan" where
  "end_scan now st error results s =
     (let s1 = s\<lparr>status := st, finished_at := Some now, lease_expires_at := None,
                 claim_token_hash := None, job_token_hash := None, job_token_expires_at := None,
                 s_error := error_column error\<rparr>
      in case results of None \<Rightarrow> s1 | Some res \<Rightarrow> s1\<lparr>s_results := Some res\<rparr>)"

definition scan_wait_reason :: "time \<Rightarrow> database \<Rightarrow> string" where
  "scan_wait_reason now db =
     (if online_slots now db False False False = 0
      then ''No worker is online: start one to scan host keys''
      else ''Waiting for a worker that can scan host keys'' @ ellipsis)"

definition prune_scans :: "time \<Rightarrow> database \<Rightarrow> database \<times> int" where
  "prune_scans now db =
     (let old = (\<lambda>s. case finished_at s of None \<Rightarrow> False
                     | Some t \<Rightarrow> t < now - secs SCAN_RETENTION_SECONDS)
      in (db\<lparr>scans := delete_rows old (scans db)\<rparr>, int (length (filter old (scans db)))))"

section \<open>Facts\<close>

lemma end_scan_columns [simp]:
  "row_id (end_scan now st err res s) = row_id s" "status (end_scan now st err res s) = st"
  "s_inventory_id (end_scan now st err res s) = s_inventory_id s"
  "claim_token_hash (end_scan now st err res s) = None" "job_token_hash (end_scan now st err res s) = None"
  "finished_at (end_scan now st err res s) = Some now" "lease_expires_at (end_scan now st err res s) = None"
  by (simp_all add: end_scan_def Let_def split: option.split)

lemma rsplit_bracket_none: "CHR '']'' \<notin> set s \<Longrightarrow> rsplit_bracket s = None"
  by (induction s) (auto simp: startswith_def)

lemma rsplit_bracket_unique:
  assumes "CHR '']'' \<notin> set h" "CHR '']'' \<notin> set d"
  shows "rsplit_bracket (h @ '']:'' @ d) = Some (h, d)"
  using assms
proof (induction h)
  case Nil
  then have "rsplit_bracket (CHR '':'' # d) = None" by (intro rsplit_bracket_none) simp
  then show ?case by (simp add: startswith_def)
qed simp

lemma host_no_bracket: "is_host h \<Longrightarrow> CHR '']'' \<notin> set h \<and> \<not> startswith h ''[''"
  using is_host_chars [of h] host_char_plain(3) host_char_plain(4)
  by (cases h) (auto simp: list_all_iff startswith_def)

text \<open>
  The name a key is stored under and the place a scan connects to are inverse to each other:
  for a plain host and a valid port, the name is stored as it is and splits back into that host
  and port.
\<close>

theorem split_name_alias:
  assumes "is_host h" and "length h \<le> 292" and "1 \<le> p" "p \<le> 65535"
  shows "normalise_name (host_alias h (Some p)) = Some (host_alias h (Some p)) \<and>
    split_name (host_alias h (Some p)) = Some (h, p)"
proof
  show "normalise_name (host_alias h (Some p)) = Some (host_alias h (Some p))"
    using host_alias_canonical [OF assms] by (simp add: canonical_name_def)
  have low: "lower h = h" using plain_host [OF assms(1)] by simp
  have d: "list_all is_digit (show_nat (nat p))" by (rule show_nat_digits)
  then have "CHR '']'' \<notin> set (show_nat (nat p))" using is_digit_plain(3) by (auto simp: list_all_iff)
  then have "rsplit_bracket (h @ '']:'' @ show_nat (nat p)) = Some (h, show_nat (nat p))"
    using host_no_bracket [OF assms(1)] by (intro rsplit_bracket_unique) auto
  then show "split_name (host_alias h (Some p)) = Some (h, p)"
    using host_no_bracket [OF assms(1)] assms d low
    by (auto simp: split_name_def host_alias_def show_int_def read_show_nat startswith_def)
qed

theorem split_name_alias_witness:
  "split_name (host_alias ''web1'' (Some 2222)) = Some (''web1'', 2222)"
  by (rule split_name_alias [THEN conjunct2])
     (simp_all add: is_host_def host_start_def host_char_def)

text \<open>
  Whatever a worker reports as the output of a scan, the keys kept are well-formed and only
  for addresses the scan was asked about.
\<close>

theorem scanned_keys_own_targets:
  "\<exists>ks. scanned_keys fp s lines = map key_val ks \<and>
     list_all (\<lambda>k. key_ok fp k \<and> kh_name k \<in> t_name ` set (s_targets s)) ks \<and>
     distinct (map (\<lambda>k. (kh_name k, kh_key_type k)) ks)"
proof -
  define ks where "ks = fst (parse_known_hosts fp (join [CHR 0x0A] lines) MAX_RESULTS)"
  obtain d where d: "ks = map snd d" "keys_inv fp (d, [])"
    using parse_known_hosts_inv unfolding ks_def by blast
  have "map (\<lambda>k. (kh_name k, kh_key_type k)) (map snd d) = map fst d"
    using d(2) by (auto simp: keys_inv_def)
  then have "distinct (map (\<lambda>k. (kh_name k, kh_key_type k)) ks)"
    using d by (simp only: keys_inv_def fst_conv)
  moreover have "list_all (key_ok fp) ks" using d by (auto simp: keys_inv_def list_all_iff)
  ultimately show ?thesis
    by (intro exI [of _ "scanned_hosts fp s lines"])
       (auto simp: scanned_keys_def scanned_hosts_def ks_def [symmetric] list_all_iff distinct_map_filter)
qed

section \<open>One scan per inventory\<close>

definition scan_ids_fresh :: "database \<Rightarrow> bool" where
  "scan_ids_fresh db = (\<forall>s \<in> set (scans db). row_id s < next_scan_id db)"

lemma enqueue_scan_frame [simp]:
  "runs (fst (enqueue_scan now iid u n t db)) = runs db"
  "refreshes (fst (enqueue_scan now iid u n t db)) = refreshes db"
  "lints (fst (enqueue_scan now iid u n t db)) = lints db"
  "installs (fst (enqueue_scan now iid u n t db)) = installs db"
  by (simp_all add: enqueue_scan_def Let_def split: option.split)

lemma enqueue_scan_inv:
  assumes "queue_inv db" and "scan_ids_fresh db"
  shows "queue_inv (fst (enqueue_scan now iid u n t db)) \<and> scan_ids_fresh (fst (enqueue_scan now iid u n t db))"
  using assms
  by (auto simp: queue_inv_defs scan_ids_fresh_def unique_ids_def enqueue_scan_def Let_def split: option.split)

end
