(* ===== verification/Host_Key_Store.thy ===== *)
theory Host_Key_Store
  imports Host_Keys "HOL-Library.List_Lexorder" "HOL-Library.Char_ord"
begin

text \<open>
  An inventory's trusted SSH host keys, \<open>app/host_key_store.py\<close>: what a run's job carries, what a
  run learned or had refused, and the keys an admin trusts. The addresses of the run's hosts come
  from Ansible's merge of its inventory and are an argument.
\<close>

definition MAX_KEYS :: nat where "MAX_KEYS = 2000"

definition inventory_keys :: "database \<Rightarrow> key_id \<Rightarrow> inventory_host_key list" where
  "inventory_keys db iid = filter (\<lambda>k. hk_inventory_id k = iid) (trusted_keys db)"

definition known_hosts_text :: "database \<Rightarrow> key_id \<Rightarrow> bool \<Rightarrow> string" where
  "known_hosts_text db iid confirmed_only =
     concat (map (\<lambda>k. hk_name k @ '' '' @ hk_key_type k @ '' '' @ hk_key_b64 k @ [CHR 0x0A])
       (sort_key (\<lambda>k. (hk_name k, hk_key_type k))
          (filter (\<lambda>k. confirmed_only \<longrightarrow> hk_confirmed k) (inventory_keys db iid))))"

definition job_host_keys :: "database \<Rightarrow> run \<Rightarrow> (string \<times> string) option" where
  "job_host_keys db r =
     (case (host_key_checking r, inventory_id r) of
        (Some mode, Some iid) \<Rightarrow>
          if mode \<noteq> ''accept_new'' \<and> mode \<noteq> ''strict'' then None
          else Some (mode, known_hosts_text db iid (mode = ''strict''))
      | _ \<Rightarrow> None)"

record learned_key =
  lk_name :: string
  lk_host :: string
  lk_fingerprint :: string

text \<open>\<open>owners.setdefault(address.name, host)\<close>: the first host that connects to an address.\<close>

definition address_owner :: "(string \<times> host_address) list \<Rightarrow> string \<Rightarrow> string option" where
  "address_owner addresses name =
     map_option fst (find (\<lambda>(host, a). ha_name a = Some name) addresses)"

definition learn_key ::
  "time \<Rightarrow> key_id \<Rightarrow> key_id \<Rightarrow> (string \<times> host_address) list \<Rightarrow> known_host \<Rightarrow>
   inventory_host_key list \<times> learned_key list \<Rightarrow> inventory_host_key list \<times> learned_key list" where
  "learn_key now rid iid addresses k = (\<lambda>(table, stored).
     let mine = filter (\<lambda>x. hk_inventory_id x = iid) table in
     case address_owner addresses (kh_name k) of
       None \<Rightarrow> (table, stored)
     | Some host \<Rightarrow>
         if kh_name k \<in> hk_name ` set mine \<or> length mine \<ge> MAX_KEYS then (table, stored)
         else (table @ [\<lparr>hk_inventory_id = iid, hk_name = kh_name k, hk_key_type = kh_key_type k,
                         hk_key_b64 = kh_key_b64 k, hk_fingerprint = kh_fingerprint k,
                         hk_source = ''learned'', hk_confirmed = False, hk_run_id = Some rid,
                         hk_created_by = Some (''run #'' @ show_int rid), hk_created_at = now,
                         hk_confirmed_by = None, hk_confirmed_at = None\<rparr>],
               stored @ [\<lparr>lk_name = kh_name k, lk_host = host, lk_fingerprint = kh_fingerprint k\<rparr>]))"

text \<open>\<open>addresses\<close> is \<open>None\<close> where \<open>run_graph\<close> raises \<open>RuntimeError\<close>.\<close>

definition record_learned ::
  "(string \<Rightarrow> string) \<Rightarrow> (string \<times> host_address) list option \<Rightarrow> time \<Rightarrow> run \<Rightarrow> string list \<Rightarrow>
   database \<Rightarrow> database \<times> run \<times> learned_key list" where
  "record_learned fp addresses now r lines db =
     (case (host_key_checking r, inventory_id r) of
        (Some mode, Some iid) \<Rightarrow>
          if mode \<noteq> ''accept_new'' then (db, r, [])
          else let r0 = r\<lparr>host_keys_learned := Some 0\<rparr> in
               (case get_row i_id (inventories db) iid of
                  None \<Rightarrow> (db, r0, [])
                | Some inventory \<Rightarrow>
                    if lines = [] \<or> i_project_id inventory \<noteq> project_id r then (db, r0, [])
                    else let (learned, _) = parse_known_hosts fp
                               (join [CHR 0x0A] (take MAX_LEARNED_LINES lines)) MAX_LEARNED_LINES in
                         (case addresses of
                            None \<Rightarrow> (db, r0, [])
                          | Some addrs \<Rightarrow>
                              let (table, stored) = fold (learn_key now (row_id r) iid addrs) learned
                                    (trusted_keys db, [])
                              in (db\<lparr>trusted_keys := table\<rparr>,
                                  r\<lparr>host_keys_learned := Some (int (length stored))\<rparr>, stored)))
      | _ \<Rightarrow> (db, r, []))"

record key_problem =
  kp_host :: string
  kp_problem :: string
  kp_name :: "string option"
  kp_key_type :: "string option"
  kp_presented :: "string option"

definition problem_val :: "key_problem \<Rightarrow> val" where
  "problem_val p = VDict
     [(vkey ''host'', Str (kp_host p)), (vkey ''problem'', Str (kp_problem p)),
      (vkey ''name'', opt_str (kp_name p)), (vkey ''key_type'', opt_str (kp_key_type p)),
      (vkey ''presented'', opt_str (kp_presented p))]"

definition record_problems :: "key_problem list \<Rightarrow> run \<Rightarrow> run" where
  "record_problems all r =
     (if all = [] then r
      else let problems = take MAX_PROBLEMS all;
               r1 = r\<lparr>host_key_problems := Some (map problem_val problems)\<rparr> in
           if status_reason r1 \<noteq> None \<and> status_reason r1 \<noteq> Some [] then r1
           else let hosts = sort (remdups (map kp_host problems));
                    shown = join '', '' (take 5 hosts) @
                      (if length hosts > 5 then '' and '' @ show_nat (length hosts - 5) @ '' more'' else []);
                    changed = list_ex (\<lambda>p. kp_problem p = ''changed'') problems;
                    what = (if changed then ''changed for'' else ''verification failed for'')
                in r1\<lparr>status_reason := Some (take 500 (''SSH host key '' @ what @ '' '' @ shown))\<rparr>)"

section \<open>Trusting keys\<close>

record key_change =
  kc_name :: string
  kc_key_type :: string
  kc_fingerprint :: string
  kc_previous :: "string option"

definition same_slot :: "key_id \<Rightarrow> known_host \<Rightarrow> inventory_host_key \<Rightarrow> bool" where
  "same_slot iid k row = (hk_inventory_id row = iid \<and> hk_name row = kh_name k \<and> hk_key_type row = kh_key_type k)"

definition trusted_row ::
  "time \<Rightarrow> string \<Rightarrow> string \<Rightarrow> key_id \<Rightarrow> known_host \<Rightarrow> inventory_host_key" where
  "trusted_row now src user iid k =
     \<lparr>hk_inventory_id = iid, hk_name = kh_name k, hk_key_type = kh_key_type k,
      hk_key_b64 = kh_key_b64 k, hk_fingerprint = kh_fingerprint k, hk_source = src,
      hk_confirmed = True, hk_run_id = None, hk_created_by = Some user, hk_created_at = now,
      hk_confirmed_by = Some user, hk_confirmed_at = Some now\<rparr>"

definition trust_key ::
  "time \<Rightarrow> string \<Rightarrow> string \<Rightarrow> key_id \<Rightarrow> known_host \<Rightarrow>
   inventory_host_key list \<times> key_change list \<Rightarrow> inventory_host_key list \<times> key_change list" where
  "trust_key now src user iid k = (\<lambda>(table, changes).
     let change = (\<lambda>prev. \<lparr>kc_name = kh_name k, kc_key_type = kh_key_type k,
                           kc_fingerprint = kh_fingerprint k, kc_previous = prev\<rparr>) in
     case find (same_slot iid k) table of
       Some row \<Rightarrow>
         if hk_key_b64 row = kh_key_b64 k
         then (if hk_confirmed row then (table, changes)
               else (update_rows (same_slot iid k)
                       (\<lambda>x. x\<lparr>hk_confirmed := True, hk_confirmed_by := Some user,
                              hk_confirmed_at := Some now\<rparr>) table,
                     changes @ [change None]))
         else (update_rows (same_slot iid k) (\<lambda>_. trusted_row now src user iid k) table,
               changes @ [change (Some (hk_fingerprint row))])
     | None \<Rightarrow> (table @ [trusted_row now src user iid k], changes @ [change None]))"

text \<open>\<open>None\<close> is \<open>TooManyKeys\<close>.\<close>

definition trust ::
  "time \<Rightarrow> key_id \<Rightarrow> known_host list \<Rightarrow> string \<Rightarrow> string \<Rightarrow> database \<Rightarrow> (database \<times> key_change list) option"
where
  "trust now iid keys src user db =
     (let existing = map (\<lambda>k. (hk_name k, hk_key_type k)) (inventory_keys db iid);
          new = remdups (filter (\<lambda>nt. nt \<notin> set existing) (map (\<lambda>k. (kh_name k, kh_key_type k)) keys))
      in if length existing + length new > MAX_KEYS then None
         else let (table, changes) = fold (trust_key now src user iid) keys (trusted_keys db, [])
              in Some (db\<lparr>trusted_keys := table\<rparr>, changes))"

section \<open>Learned keys\<close>

definition learned_ok ::
  "inventory_host_key list \<Rightarrow> key_id \<Rightarrow> (string \<times> host_address) list \<Rightarrow>
   inventory_host_key list \<times> learned_key list \<Rightarrow> bool" where
  "learned_ok before iid addrs st =
     (\<exists>new. fst st = before @ new \<and> length new = length (snd st) \<and> distinct (map hk_name new) \<and>
       (\<forall>k \<in> set new. \<not> hk_confirmed k \<and> hk_inventory_id k = iid \<and>
          hk_name k \<notin> hk_name ` set (filter (\<lambda>x. hk_inventory_id x = iid) before) \<and>
          Some (hk_name k) \<in> ha_name ` snd ` set addrs))"

lemma address_owner_Some:
  "address_owner addrs n = Some h \<Longrightarrow> Some n \<in> ha_name ` snd ` set addrs"
  unfolding address_owner_def by (force dest: find_SomeD)

lemma learn_key_ok:
  assumes "learned_ok before iid addrs st"
  shows "learned_ok before iid addrs (learn_key now rid iid addrs k st)"
proof -
  obtain table stored where st: "st = (table, stored)" by (cases st)
  obtain new where new: "table = before @ new" "length new = length stored" "distinct (map hk_name new)"
    "\<And>x. x \<in> set new \<Longrightarrow> \<not> hk_confirmed x \<and> hk_inventory_id x = iid \<and>
          hk_name x \<notin> hk_name ` set (filter (\<lambda>x. hk_inventory_id x = iid) before) \<and>
          Some (hk_name x) \<in> ha_name ` snd ` set addrs"
    using assms by (auto simp: learned_ok_def st)
  show ?thesis
  proof (cases "learn_key now rid iid addrs k st = st")
    case False
    then obtain row host where step: "learn_key now rid iid addrs k st =
        (table @ [row], stored @ [\<lparr>lk_name = kh_name k, lk_host = host, lk_fingerprint = kh_fingerprint k\<rparr>])"
      and row: "\<not> hk_confirmed row" "hk_inventory_id row = iid" "hk_name row = kh_name k"
      and host: "address_owner addrs (kh_name k) = Some host"
      and fresh: "kh_name k \<notin> hk_name ` set (filter (\<lambda>x. hk_inventory_id x = iid) table)"
      by (auto simp: learn_key_def st Let_def split: option.splits if_splits)
    have "kh_name k \<notin> hk_name ` set new" using fresh new(1,4) by auto
    moreover have "kh_name k \<notin> hk_name ` set (filter (\<lambda>x. hk_inventory_id x = iid) before)"
      using fresh new(1) by auto
    ultimately show ?thesis
      unfolding learned_ok_def step
      using new row address_owner_Some [OF host] by (intro exI [of _ "new @ [row]"]) auto
  qed (use assms in simp)
qed

lemma record_learned_keys:
  assumes "record_learned fp addresses now r lines db = (db', r', stored)"
  shows "\<exists>addrs iid. learned_ok (trusted_keys db) iid addrs (trusted_keys db', stored) \<and>
    (stored \<noteq> [] \<longrightarrow> addresses = Some addrs \<and> inventory_id r = Some iid \<and>
       host_key_checking r = Some ''accept_new'') \<and>
    (\<exists>t. db' = db\<lparr>trusted_keys := t\<rparr>)"
proof -
  let ?fold = "\<lambda>iid addrs ks. fold (learn_key now (row_id r) iid addrs) ks (trusted_keys db, [])"
  consider (same) "db' = db" "stored = []"
    | (learn) iid addrs ks where "inventory_id r = Some iid" "addresses = Some addrs"
        "host_key_checking r = Some ''accept_new''"
        "db' = db\<lparr>trusted_keys := fst (?fold iid addrs ks)\<rparr>" "stored = snd (?fold iid addrs ks)"
  proof (cases "\<exists>iid addrs i. host_key_checking r = Some ''accept_new'' \<and> inventory_id r = Some iid \<and>
      addresses = Some addrs \<and> get_row i_id (inventories db) iid = Some i \<and> lines \<noteq> [] \<and>
      i_project_id i = project_id r")
    case True
    then obtain iid addrs i where c: "host_key_checking r = Some ''accept_new''" "inventory_id r = Some iid"
      "addresses = Some addrs" "get_row i_id (inventories db) iid = Some i" "lines \<noteq> []"
      "i_project_id i = project_id r" by blast
    have "\<exists>ks. record_learned fp addresses now r lines db =
        (db\<lparr>trusted_keys := fst (?fold iid addrs ks)\<rparr>,
         r\<lparr>host_keys_learned := Some (int (length (snd (?fold iid addrs ks))))\<rparr>, snd (?fold iid addrs ks))"
      unfolding record_learned_def by (simp add: c Let_def case_prod_beta) blast
    then show ?thesis using assms c(1-3) learn by (metis fst_conv snd_conv)
  next
    case False
    then have "fst (record_learned fp addresses now r lines db) = db"
      "snd (snd (record_learned fp addresses now r lines db)) = []"
      unfolding record_learned_def Let_def by (auto split: option.split)
    then show ?thesis using assms same by simp
  qed
  then show ?thesis
  proof cases
    case same
    have "learned_ok (trusted_keys db) 0 [] (trusted_keys db, [])" by (simp add: learned_ok_def)
    moreover have "\<exists>t. db' = db\<lparr>trusted_keys := t\<rparr>"
      using same by (intro exI [of _ "trusted_keys db"]) simp
    ultimately show ?thesis using same by (intro exI [of _ "[]"] exI [of _ 0]) simp
  next
    case learn
    have "learned_ok (trusted_keys db) iid addrs (trusted_keys db, [])" by (simp add: learned_ok_def)
    then have "learned_ok (trusted_keys db) iid addrs (?fold iid addrs ks)"
      by (intro fold_invariant [where Q = "\<lambda>_. True" and P = "learned_ok (trusted_keys db) iid addrs"])
         (auto intro: learn_key_ok)
    with learn show ?thesis by (intro exI [of _ addrs] exI [of _ iid]) auto
  qed
qed

text \<open>
  C27. What a run says it learned never weakens what is trusted: only an \<open>accept_new\<close> run stores
  anything, no stored key changes, every new key is unconfirmed, for an address that a host of the
  run's own inventory connects to and that had no key at all, one per address; and the known_hosts
  a strict run of any inventory gets is exactly what it was.
\<close>

theorem learned_keys_unconfirmed:
  assumes "record_learned fp addresses now r lines db = (db', r', stored)"
  shows "\<exists>new. trusted_keys db' = trusted_keys db @ new \<and> length new = length stored \<and>
    distinct (map hk_name new) \<and>
    (\<forall>k \<in> set new. \<not> hk_confirmed k \<and> host_key_checking r = Some ''accept_new'' \<and>
       inventory_id r = Some (hk_inventory_id k) \<and>
       hk_name k \<notin> hk_name ` set (inventory_keys db (hk_inventory_id k)) \<and>
       (\<exists>addrs. addresses = Some addrs \<and> Some (hk_name k) \<in> ha_name ` snd ` set addrs)) \<and>
    (\<forall>i. known_hosts_text db' i True = known_hosts_text db i True)"
proof -
  obtain addrs iid new where new: "trusted_keys db' = trusted_keys db @ new" "length new = length stored"
    "distinct (map hk_name new)"
    and each: "\<forall>k \<in> set new. \<not> hk_confirmed k \<and> hk_inventory_id k = iid \<and>
          hk_name k \<notin> hk_name ` set (filter (\<lambda>x. hk_inventory_id x = iid) (trusted_keys db)) \<and>
          Some (hk_name k) \<in> ha_name ` snd ` set addrs"
    and src: "stored \<noteq> [] \<longrightarrow> addresses = Some addrs \<and> inventory_id r = Some iid \<and>
       host_key_checking r = Some ''accept_new''"
    using record_learned_keys [OF assms] by (auto simp: learned_ok_def)
  have "filter hk_confirmed (filter (\<lambda>k. hk_inventory_id k = i) new) = []" for i
    using each by (auto simp: filter_empty_conv)
  then have "known_hosts_text db' i True = known_hosts_text db i True" for i
    by (simp add: known_hosts_text_def inventory_keys_def new(1))
  moreover have "stored \<noteq> []" if "k \<in> set new" for k using new(2) that by auto
  ultimately show ?thesis
    using new each src by (intro exI [of _ new]) (auto simp: inventory_keys_def)
qed

theorem learned_keys_unconfirmed_witness:
  "\<forall>i. known_hosts_text (fst (record_learned (\<lambda>_. ''f'') None 5
     ((blank_run 1 0)\<lparr>host_key_checking := Some ''accept_new'', inventory_id := Some 2\<rparr>) [''x''] empty_db)) i True =
   known_hosts_text empty_db i True"
proof -
  let ?r = "(blank_run 1 0)\<lparr>host_key_checking := Some ''accept_new'', inventory_id := Some 2\<rparr>"
  obtain db' r' stored where
    "record_learned (\<lambda>_. ''f'') None 5 ?r [''x''] empty_db = (db', r', stored)" by (metis prod_cases3)
  then show ?thesis using learned_keys_unconfirmed by fastforce
qed

section \<open>Trusted keys\<close>

definition slot :: "inventory_host_key \<Rightarrow> key_id \<times> string \<times> string" where
  "slot k = (hk_inventory_id k, hk_name k, hk_key_type k)"

definition key_slot :: "key_id \<Rightarrow> known_host \<Rightarrow> key_id \<times> string \<times> string" where
  "key_slot iid k = (iid, kh_name k, kh_key_type k)"

definition slots_unique :: "inventory_host_key list \<Rightarrow> bool" where
  "slots_unique table = distinct (map slot table)"

lemma same_slot_iff: "same_slot iid k = (\<lambda>row. slot row = key_slot iid k)"
  by (auto simp: fun_eq_iff same_slot_def slot_def key_slot_def)

lemma trusted_row_slot [simp]:
  "slot (trusted_row now src user iid k) = key_slot iid k"
  "hk_key_b64 (trusted_row now src user iid k) = kh_key_b64 k"
  "hk_confirmed (trusted_row now src user iid k)"
  by (simp_all add: trusted_row_def slot_def key_slot_def)

definition holds_key :: "key_id \<Rightarrow> known_host \<Rightarrow> inventory_host_key list \<Rightarrow> bool" where
  "holds_key iid k table =
     (\<exists>row \<in> set table. slot row = key_slot iid k \<and> hk_key_b64 row = kh_key_b64 k \<and> hk_confirmed row)"

lemma update_slots:
  assumes "\<And>x. slot x = s \<Longrightarrow> slot (f x) = s"
  shows "map slot (update_rows (\<lambda>x. slot x = s) f table) = map slot table"
  using assms by (induction table) (auto simp: update_rows_def)

lemma trust_key_spec:
  assumes u: "slots_unique table" and t: "trust_key now src user iid k (table, ch) = (table', ch')"
  shows "slots_unique table' \<and> slot ` set table' = insert (key_slot iid k) (slot ` set table) \<and>
    holds_key iid k table' \<and>
    (\<forall>row. slot row \<noteq> key_slot iid k \<longrightarrow> (row \<in> set table' \<longleftrightarrow> row \<in> set table))"
proof (cases "find (\<lambda>x. slot x = key_slot iid k) table")
  case None
  then have "key_slot iid k \<notin> slot ` set table" by (auto simp: find_None_iff)
  moreover have "table' = table @ [trusted_row now src user iid k]"
    using t None by (simp add: trust_key_def same_slot_iff Let_def)
  ultimately show ?thesis
    using u by (auto simp: slots_unique_def holds_key_def)
next
  case (Some row)
  then have row: "row \<in> set table" "slot row = key_slot iid k" by (auto simp: find_Some_iff)
  have only: "x = row" if "x \<in> set table" "slot x = key_slot iid k" for x
    using that row u unfolding slots_unique_def by (metis get_row_unique option.inject)
  define f where "f = (\<lambda>x. if hk_key_b64 row = kh_key_b64 k
    then (if hk_confirmed row then x
          else x\<lparr>hk_confirmed := True, hk_confirmed_by := Some user, hk_confirmed_at := Some now\<rparr>)
    else trusted_row now src user iid k)"
  have keep: "update_rows p (\<lambda>x. x) t = t" for p :: "inventory_host_key \<Rightarrow> bool" and t
    by (simp add: update_rows_def)
  have table': "table' = update_rows (\<lambda>x. slot x = key_slot iid k) f table"
    using t Some by (auto simp: trust_key_def same_slot_iff Let_def f_def keep split: if_splits)
  have fs: "slot (f x) = key_slot iid k" if "slot x = key_slot iid k" for x
    using that by (auto simp: f_def slot_def key_slot_def trusted_row_def)
  have slots: "map slot table' = map slot table" unfolding table' by (rule update_slots) (rule fs)
  have "f row \<in> set table'" using row by (force simp: table' set_update_rows)
  moreover have "hk_key_b64 (f row) = kh_key_b64 k \<and> hk_confirmed (f row)"
    by (auto simp: f_def)
  ultimately have "holds_key iid k table'" using fs [OF row(2)] by (auto simp: holds_key_def)
  moreover have "slot ` set table' = slot ` set table" using slots by (metis list.set_map)
  moreover have "slot x \<noteq> key_slot iid k \<longrightarrow> (x \<in> set table' \<longleftrightarrow> x \<in> set table)" for x
    using fs by (auto simp: table' set_update_rows)
  moreover have "key_slot iid k \<in> slot ` set table" using row by (metis image_eqI)
  ultimately show ?thesis using u slots by (simp add: slots_unique_def insert_absorb)
qed

lemma trust_fold_spec:
  assumes "slots_unique table" and "distinct (map (key_slot iid) keys)"
    and "fold (trust_key now src user iid) keys (table, ch) = (table', ch')"
  shows "slots_unique table' \<and> slot ` set table' = key_slot iid ` set keys \<union> slot ` set table \<and>
    (\<forall>k \<in> set keys. holds_key iid k table') \<and>
    (\<forall>row. slot row \<notin> key_slot iid ` set keys \<longrightarrow> (row \<in> set table' \<longleftrightarrow> row \<in> set table))"
  using assms
proof (induction keys arbitrary: table ch)
  case (Cons k keys)
  obtain t1 c1 where 1: "trust_key now src user iid k (table, ch) = (t1, c1)"
    by (cases "trust_key now src user iid k (table, ch)")
  note one = trust_key_spec [OF Cons.prems(1) 1]
  have rest: "slots_unique table' \<and> slot ` set table' = key_slot iid ` set keys \<union> slot ` set t1 \<and>
    (\<forall>k \<in> set keys. holds_key iid k table') \<and>
    (\<forall>row. slot row \<notin> key_slot iid ` set keys \<longrightarrow> (row \<in> set table' \<longleftrightarrow> row \<in> set t1))"
    using Cons.IH [of t1 c1] Cons.prems 1 one by simp
  have "holds_key iid k table'"
    using one rest Cons.prems(2) by (auto simp: holds_key_def)
  with one rest show ?case by auto
qed simp

text \<open>
  Trusting keys stores each of them, confirmed, under its name and type, replaces a different
  key there and leaves every other key of every inventory as it was; an inventory never ends up
  with more than the maximum, and never with two keys of one name and type.
\<close>

theorem trust_stores_keys:
  assumes "trust now iid keys src user db = Some (db', changes)"
    and "slots_unique (trusted_keys db)" and "distinct (map (\<lambda>k. (kh_name k, kh_key_type k)) keys)"
  shows "(\<forall>k \<in> set keys. holds_key iid k (trusted_keys db')) \<and> slots_unique (trusted_keys db') \<and>
    (\<forall>row. slot row \<notin> key_slot iid ` set keys \<longrightarrow>
       (row \<in> set (trusted_keys db') \<longleftrightarrow> row \<in> set (trusted_keys db))) \<and>
    length (inventory_keys db' iid) \<le> MAX_KEYS"
proof -
  let ?nt = "\<lambda>k. (hk_name k, hk_key_type k)" and ?kt = "\<lambda>k. (kh_name k, kh_key_type k)"
  let ?old = "map ?nt (inventory_keys db iid)"
  let ?new = "remdups (filter (\<lambda>nt. nt \<notin> set ?old) (map ?kt keys))"
  obtain table where f: "fold (trust_key now src user iid) keys (trusted_keys db, []) = (table, changes)"
    and db': "db' = db\<lparr>trusted_keys := table\<rparr>" and small: "length ?old + length ?new \<le> MAX_KEYS"
    using assms(1) by (auto simp: trust_def Let_def split: if_splits prod.splits)
  have ks: "map (key_slot iid) keys = map (Pair iid) (map ?kt keys)" by (simp add: key_slot_def)
  have "distinct (map (key_slot iid) keys)"
    unfolding ks using assms(3) by (simp only: distinct_map) (auto simp: inj_on_def)
  note spec = trust_fold_spec [OF assms(2) this f]
  have sub: "?nt ` set (inventory_keys db' iid) \<subseteq> set ?old \<union> set ?new"
  proof
    fix nt assume "nt \<in> ?nt ` set (inventory_keys db' iid)"
    then have "Pair iid nt \<in> slot ` set table" by (force simp: db' inventory_keys_def slot_def)
    then have "Pair iid nt \<in> key_slot iid ` set keys \<union> slot ` set (trusted_keys db)" using spec by blast
    then show "nt \<in> set ?old \<union> set ?new"
      by (auto simp: key_slot_def slot_def inventory_keys_def image_iff)
  qed
  have "distinct (map ?nt (inventory_keys db' iid))"
    using spec by (auto simp: slots_unique_def db' inventory_keys_def distinct_map inj_on_def slot_def)
  then have "length (inventory_keys db' iid) = card (?nt ` set (inventory_keys db' iid))"
    by (metis distinct_card length_map list.set_map)
  also have "\<dots> \<le> card (set ?old \<union> set ?new)" using sub by (intro card_mono) auto
  also have "\<dots> \<le> length ?old + length ?new"
    by (meson add_mono card_Un_le card_length order_trans)
  finally show ?thesis using spec small by (simp add: db')
qed

theorem trust_stores_keys_witness:
  "\<exists>db' changes. trust 5 2 [\<lparr>kh_name = ''web1'', kh_key_type = ''ssh-rsa'', kh_key_b64 = ''AA'',
       kh_fingerprint = ''f''\<rparr>] ''scanned'' ''mel'' empty_db = Some (db', changes) \<and>
     holds_key 2 \<lparr>kh_name = ''web1'', kh_key_type = ''ssh-rsa'', kh_key_b64 = ''AA'',
       kh_fingerprint = ''f''\<rparr> (trusted_keys db')"
proof -
  let ?k = "\<lparr>kh_name = ''web1'', kh_key_type = ''ssh-rsa'', kh_key_b64 = ''AA'', kh_fingerprint = ''f''\<rparr>"
  obtain db' changes where t: "trust 5 2 [?k] ''scanned'' ''mel'' empty_db = Some (db', changes)"
    by (simp add: trust_def Let_def inventory_keys_def empty_db_def MAX_KEYS_def case_prod_beta)
  then have "holds_key 2 ?k (trusted_keys db')"
    using trust_stores_keys [OF t] by (simp add: slots_unique_def empty_db_def)
  with t show ?thesis by blast
qed

end
