(* ===== verification/Internal_Api.thy ===== *)
theory Internal_Api
  imports Galaxy Host_Key_Scans Host_Key_Store
begin

text \<open>
  The internal API workers talk to, \<open>app/internal_api.py\<close>: claiming, handing a job out once,
  receiving events, heartbeats, the end of a run, its artifacts, and the handlers of playbook
  checks and host key scans. A handler is a function from the database to the database and the
  reply; each locks its row first, so it is one step with respect to the others on that row.
  Building a job (secrets, rendering) is the argument \<open>build\<close>; Ansible's view of the addresses of
  a run's hosts is the argument \<open>addresses\<close>.
\<close>

section \<open>Replies and locked rows\<close>

text \<open>\<open>_gone\<close> (410), \<open>_behind\<close> (409 with a sequence number), a 409 with an offset, another error.\<close>

datatype 'a reply = Gone | Behind int | Expected_offset int | Refused int string | Answer 'a

text \<open>\<open>_locked_run\<close>, \<open>_locked_refresh\<close>, \<open>_locked_lint\<close>, \<open>_locked_scan\<close>: the row if the claim owns it.\<close>

definition locked_row ::
  "env \<Rightarrow> 'a job_scheme list \<Rightarrow> key_id \<Rightarrow> string \<Rightarrow> 'a job_scheme option" where
  "locked_row e tbl i token =
     (case get_row row_id tbl i of
        None \<Rightarrow> None
      | Some r \<Rightarrow>
          if status r \<noteq> RUNNING \<or> claim_token_hash r = None \<or>
             claim_token_hash r \<noteq> Some (hash_token e token)
          then None else Some r)"

text \<open>The one-time job token: present, right and not expired.\<close>

definition job_token_ok :: "env \<Rightarrow> time \<Rightarrow> string \<Rightarrow> 'a job_scheme \<Rightarrow> bool" where
  "job_token_ok e now token r =
     (case (job_token_hash r, job_token_expires_at r) of
        (Some h, Some expires) \<Rightarrow> h = hash_token e token \<and> \<not> expires \<le> now
      | _ \<Rightarrow> False)"

definition take_job_token :: "'a job_scheme \<Rightarrow> 'a job_scheme" where
  "take_job_token r = r\<lparr>job_token_hash := None, job_token_expires_at := None\<rparr>"

text \<open>\<open>_finished\<close>: a waiting galaxy install may start.\<close>

definition finished :: "env \<Rightarrow> time \<Rightarrow> database \<Rightarrow> database" where
  "finished e now db = fst (try_start_install e now db)"

section \<open>Claiming\<close>

record claim_in =
  ci_worker_id :: string
  ci_slots :: int
  ci_isolated :: "bool option"
  ci_egress_filtered :: "bool option"
  ci_kinds :: "string list"
  ci_host_keys :: bool
  ci_egress_allowlist :: bool
  ci_ssh_certificates :: bool
  ci_partial_refreshes :: bool

definition can_restrict :: "claim_in \<Rightarrow> bool" where
  "can_restrict b = (ci_egress_allowlist b \<and> ci_egress_filtered b = Some True)"

definition seen_worker :: "time \<Rightarrow> claim_in \<Rightarrow> database \<Rightarrow> database" where
  "seen_worker now b db =
     record_worker now (ci_worker_id b) (ci_slots b) (ci_isolated b) (ci_egress_filtered b)
       (Some (ci_host_keys b)) (Some (can_restrict b)) (Some (ci_ssh_certificates b)) db"

record poll =
  po_lint :: claim_try
  po_scan :: claim_try
  po_refresh :: "nat \<Rightarrow> claim_try"
  po_run :: "nat \<Rightarrow> claim_try"

definition claim_once :: "env \<Rightarrow> claim_in \<Rightarrow> poll \<Rightarrow> database \<Rightarrow> database \<times> claim option" where
  "claim_once e b p db =
     (let kinds = (if ci_partial_refreshes b then ci_kinds b
                   else filter (\<lambda>k. k \<noteq> ''refresh'') (ci_kinds b));
          req = \<lparr>cr_worker = ci_worker_id b, cr_host_keys = ci_host_keys b,
                 cr_egress_allowlist = can_restrict b, cr_ssh_certificates = ci_ssh_certificates b\<rparr>
      in claim_next e req kinds (po_lint p) (po_scan p) (po_refresh p) (po_run p) db)"

text \<open>The long poll: one try per wake-up; the list ends when the wait is over.\<close>

fun claim_polls :: "env \<Rightarrow> claim_in \<Rightarrow> poll list \<Rightarrow> database \<Rightarrow> database \<times> claim option" where
  "claim_polls e b [] db = (db, None)"
| "claim_polls e b (p # ps) db =
     (case claim_once e b p db of
        (db', Some c) \<Rightarrow> (db', Some c)
      | (db', None) \<Rightarrow> claim_polls e b ps db')"

definition claim_handler ::
  "env \<Rightarrow> time \<Rightarrow> claim_in \<Rightarrow> poll list \<Rightarrow> database \<Rightarrow> database \<times> claim option http" where
  "claim_handler e now b ps db =
     (let db1 = seen_worker now b db in
      if ci_isolated b \<noteq> Some True \<and> lower (environment e) = ''production''
      then (db1, Inl (HTTPException 403
              ''this API hands work only to workers that isolate runs (ENVIRONMENT=production)''))
      else (case claim_polls e b ps db1 of (db2, c) \<Rightarrow> (db2, Inr c)))"

section \<open>The job\<close>

record 'p job_build =
  jb_sha256 :: "string option"
  jb_certificate :: "val option"
  jb_reads :: "val list option"
  jb_result :: "job_failure + 'p"

definition store_alert :: "env \<Rightarrow> time \<Rightarrow> string \<Rightarrow> database \<Rightarrow> database" where
  "store_alert e now kind db = secret_store_failed now kind (secrets_store_label e) db"

definition wait_over :: "env \<Rightarrow> time \<Rightarrow> time \<Rightarrow> time \<Rightarrow> string option" where
  "wait_over e now queued since =
     (let minutes = wait_minutes e in
      if minutes \<noteq> 0 \<and> now < deadline e queued since then None
      else if minutes \<noteq> 0
      then Some ('' (still unavailable after waiting '' @ show_int minutes @ '' minutes)'')
      else Some [])"

definition store_down ::
  "env \<Rightarrow> time \<Rightarrow> string \<Rightarrow> key_id \<Rightarrow> string \<Rightarrow> string \<Rightarrow> string \<Rightarrow> database \<Rightarrow> database \<times> 'a reply" where
  "store_down e now clock i token kind reason db =
     (case locked_row e (runs db) i token of
        None \<Rightarrow> (db, Gone)
      | Some r \<Rightarrow>
          let (db1, since) = seen now kind db; db2 = store_alert e now kind db1 in
          if cancel_requested_at r \<noteq> None
          then (finished e now (fail_run e now clock CANCELLED ''cancelled before it started'' r db2), Gone)
          else (case wait_over e now (queued_at r) since of
            Some over \<Rightarrow> (finished e now (fail_run e now clock FAILED (reason @ over) r db2), Gone)
          | None \<Rightarrow> (put_run (requeue_run r) db2, Gone)))"

definition audit_certificate :: "time \<Rightarrow> run \<Rightarrow> database \<Rightarrow> database" where
  "audit_certificate now r db =
     (case ssh_certificate r of
        Some (VDict (x # d)) \<Rightarrow>
          let get = detail_get (Some (x # d)) in
          audit_record now
            ((audit_call ''credential.certificate_issued'')
               \<lparr>au_actor_username := Some (''run #'' @ show_int (row_id r)),
                au_target_type := Some ''credential'', au_target_id := credential_id r,
                au_target_name := Some (credential_name r), au_project_id := Some (project_id r),
                au_detail := Some
                  [(vkey ''run_id'', VInt (row_id r)), (vkey ''serial'', get ''serial''),
                   (vkey ''principals'', get ''principals''), (vkey ''valid_before'', get ''valid_before''),
                   (vkey ''location'', get ''location''), (vkey ''capped'', get ''capped'')]\<rparr>) db
      | _ \<Rightarrow> db)"

definition job_handler ::
  "env \<Rightarrow> (database \<Rightarrow> run \<Rightarrow> 'p job_build) \<Rightarrow> time \<Rightarrow> string \<Rightarrow> key_id \<Rightarrow> string \<Rightarrow> string \<Rightarrow>
   database \<Rightarrow> database \<times> 'p reply" where
  "job_handler e build now clock i claim_token job_token db =
     (case locked_row e (runs db) i claim_token of
        None \<Rightarrow> (db, Gone)
      | Some r0 \<Rightarrow>
          if \<not> job_token_ok e now job_token r0 then (db, Gone)
          else let r1 = take_job_token r0 in
          if cancel_requested_at r1 \<noteq> None
          then (finished e now (fail_run e now clock CANCELLED ''cancelled before it started'' r1 db), Gone)
          else let b = build db r1;
                   r2 = r1\<lparr>inventory_sha256 := jb_sha256 b, ssh_certificate := jb_certificate b,
                           secret_reads := jb_reads b\<rparr>;
                   label = secrets_store_label e in
          (case jb_result b of
             Inl (StoreError kind verb subject) \<Rightarrow>
               let reason = ''not run: could not '' @ verb @ '' '' @ subject @ '' from '' @ label @ '': '' @
                              explain kind in
               if kind \<in> set OUTAGE_KINDS then store_down e now clock i claim_token kind reason db
               else (finished e now (fail_run e now clock FAILED reason r2 db), Gone)
           | Inl (JobError t) \<Rightarrow>
               (finished e now (fail_run e now clock FAILED (''not run: '' @ t) r2 db), Gone)
           | Inl (RuntimeError t) \<Rightarrow>
               (finished e now (audit_certificate now r2
                  (fail_run e now clock FAILED ''could not prepare the job (see the server log)'' r2 db)), Gone)
           | Inr payload \<Rightarrow>
               let r3 = r2\<lparr>started_at := Some now\<rparr>;
                   db1 = audit_certificate now r3 (put_run r3 db);
                   db2 = (if (secret_reads r3 \<noteq> None \<and> secret_reads r3 \<noteq> Some []) \<or>
                             (case ssh_certificate r3 of None \<Rightarrow> False | Some c \<Rightarrow> truthy c)
                          then fst (cleared db1) else db1)
               in (db2, Answer payload)))"

section \<open>Events and heartbeats\<close>

definition events_handler ::
  "env \<Rightarrow> key_id \<Rightarrow> string \<Rightarrow> int \<Rightarrow> vars list \<Rightarrow> database \<Rightarrow> database \<times> (int \<times> bool) reply" where
  "events_handler e i token first_seq evs db =
     (case locked_row e (runs db) i token of
        None \<Rightarrow> (db, Gone)
      | Some r \<Rightarrow>
          let expected = log_seq r + 1 in
          if first_seq > expected then (db, Behind expected)
          else let fresh = drop (nat (expected - first_seq)) evs;
                   (r1, logs) = (if fresh \<noteq> [] then append_events e fresh r (run_logs db)
                                 else (r, run_logs db));
                   r2 = (if fresh \<noteq> [] then r1\<lparr>log_seq := first_seq + int (length evs) - 1\<rparr> else r1)
               in (put_run r2 (db\<lparr>run_logs := logs\<rparr>),
                   Answer (log_seq r2, cancel_requested_at r2 \<noteq> None)))"

definition owned_by :: "env \<Rightarrow> key_id \<times> string \<Rightarrow> 'a job_scheme \<Rightarrow> bool" where
  "owned_by e item r =
     (row_id r = fst item \<and> status r = RUNNING \<and> claim_token_hash r = Some (hash_token e (snd item)))"

definition renew :: "env \<Rightarrow> time \<Rightarrow> 'a job_scheme \<Rightarrow> 'a job_scheme" where
  "renew e now r =
     r\<lparr>heartbeat_at := Some now, lease_expires_at := Some (now + secs (run_lease_seconds e))\<rparr>"

definition renew_all ::
  "env \<Rightarrow> time \<Rightarrow> (key_id \<times> string) list \<Rightarrow> 'a job_scheme list \<Rightarrow> 'a job_scheme list" where
  "renew_all e now items tbl = fold (\<lambda>item. update_rows (owned_by e item) (renew e now)) items tbl"

definition renew_states ::
  "env \<Rightarrow> (key_id \<times> string) list \<Rightarrow> 'a job_scheme list \<Rightarrow> (key_id \<times> string) list" where
  "renew_states e items tbl =
     map (\<lambda>item. (fst item, if \<exists>r \<in> set tbl. owned_by e item r then ''ok'' else ''gone'')) items"

record heartbeat_in =
  hb_worker :: claim_in
  hb_runs :: "(key_id \<times> string) list"
  hb_refreshes :: "(key_id \<times> string) list"
  hb_lints :: "(key_id \<times> string) list"
  hb_keyscans :: "(key_id \<times> string) list"

record heartbeat_out =
  ho_runs :: "(key_id \<times> string) list"
  ho_refreshes :: "(key_id \<times> string) list"
  ho_lints :: "(key_id \<times> string) list"
  ho_keyscans :: "(key_id \<times> string) list"

definition heartbeat :: "env \<Rightarrow> time \<Rightarrow> heartbeat_in \<Rightarrow> database \<Rightarrow> database \<times> heartbeat_out" where
  "heartbeat e now b db =
     (let db1 = seen_worker now (hb_worker b) db;
          run_state = (\<lambda>item. case find (owned_by e item) (runs db1) of
                         None \<Rightarrow> ''gone''
                       | Some r \<Rightarrow> if cancel_requested_at r \<noteq> None then ''cancel'' else ''ok'')
      in (db1\<lparr>runs := renew_all e now (hb_runs b) (runs db1),
              refreshes := renew_all e now (hb_refreshes b) (refreshes db1),
              lints := renew_all e now (hb_lints b) (lints db1),
              scans := renew_all e now (hb_keyscans b) (scans db1)\<rparr>,
          \<lparr>ho_runs = map (\<lambda>item. (fst item, run_state item)) (hb_runs b),
           ho_refreshes = renew_states e (hb_refreshes b) (refreshes db1),
           ho_lints = renew_states e (hb_lints b) (lints db1),
           ho_keyscans = renew_states e (hb_keyscans b) (scans db1)\<rparr>))"

definition egress_report ::
  "env \<Rightarrow> key_id \<Rightarrow> string \<Rightarrow> val \<Rightarrow> database \<Rightarrow> database \<times> unit reply" where
  "egress_report e i token body db =
     (case locked_row e (runs db) i token of
        None \<Rightarrow> (db, Gone)
      | Some r \<Rightarrow> (put_run (r\<lparr>egress_allowlist := Some body\<rparr>) db, Answer ()))"

section \<open>The end of a run\<close>

record artifacts_in =
  ai_files :: "(string \<times> int) list"
  ai_bytes :: int
  ai_tar_bytes :: int
  ai_sha256 :: "string option"
  ai_error :: "string option"

record complete_in =
  co_last_seq :: int
  co_status :: run_status
  co_return_code :: "int option"
  co_reason :: "string option"
  co_host_counts :: "(string \<times> int) list option"
  co_learned_host_keys :: "string list option"
  co_host_key_problems :: "key_problem list option"
  co_artifacts :: "artifacts_in option"
  co_egress_refused :: "val list option"

definition file_val :: "string \<times> int \<Rightarrow> val" where
  "file_val f = VDict [(vkey ''path'', Str (fst f)), (vkey ''size'', VInt (snd f))]"

definition keep_artifacts :: "env \<Rightarrow> artifacts_in \<Rightarrow> run \<Rightarrow> database \<Rightarrow> run \<times> database" where
  "keep_artifacts e a r db =
     (let i = row_id r; part = artifact_parts db i;
          size = (case part of None \<Rightarrow> -1 | Some s \<Rightarrow> int (length s));
          digest = map_option (sha256_hex e) part;
          error = (case ai_error a of
                     Some t \<Rightarrow> Some t
                   | None \<Rightarrow>
                       if size \<noteq> ai_tar_bytes a \<or> digest \<noteq> ai_sha256 a
                       then Some ''the artifacts didn't arrive intact''
                       else if int (length (ai_files a)) > run_artifact_max_files e \<or>
                               ai_bytes a > run_artifact_max_mb e * 1024 * 1024
                       then Some ''the artifacts are over this server's limits''
                       else None)
      in case error of
           Some t \<Rightarrow> (r\<lparr>artifacts_error := Some (take 300 t)\<rparr>,
                      db\<lparr>artifact_parts := (artifact_parts db)(i := None)\<rparr>)
         | None \<Rightarrow>
             (r\<lparr>artifacts_files := Some (map file_val (ai_files a)), artifacts_bytes := Some (ai_bytes a),
                artifacts_tar_bytes := Some (ai_tar_bytes a), artifacts_sha256 := ai_sha256 a\<rparr>,
              db\<lparr>artifact_files := (artifact_files db)(i := part),
                 artifact_parts := (artifact_parts db)(i := None)\<rparr>))"

definition append_artifacts ::
  "env \<Rightarrow> key_id \<Rightarrow> string \<Rightarrow> int \<Rightarrow> string \<Rightarrow> database \<Rightarrow> database \<times> int reply" where
  "append_artifacts e i token offset chunk db =
     (case locked_row e (runs db) i token of
        None \<Rightarrow> (db, Gone)
      | Some r \<Rightarrow>
          let staged = file_text (artifact_parts db) (row_id r); size = int (length staged) in
          if offset > size then (db, Expected_offset size)
          else if offset + int (length chunk) > run_artifact_max_mb e * 2 * 1024 * 1024 + 2 ^ 20
          then (db, Refused 413 ''The artifacts are too large'')
          else (db\<lparr>artifact_parts := (artifact_parts db)(row_id r \<mapsto> take (nat offset) staged @ chunk)\<rparr>,
                Answer (offset + int (length chunk))))"

definition host_key_changed :: "time \<Rightarrow> run \<Rightarrow> key_problem list \<Rightarrow> database \<Rightarrow> database" where
  "host_key_changed now r problems db =
     emit_known now HOST_KEY_CHANGED (Some (project_id r))
       [(vkey ''inventory_id'', opt_int (inventory_id r)), (vkey ''inventory'', Str (inventory_name r)),
        (vkey ''project'', opt_str (project_name db (project_id r))), (vkey ''run_id'', VInt (row_id r)),
        (vkey ''hosts'', VList (map (\<lambda>p. VDict
           [(vkey ''host'', Str (kp_host p)), (vkey ''name'', opt_str (kp_name p)),
            (vkey ''key_type'', opt_str (kp_key_type p)), (vkey ''presented'', opt_str (kp_presented p))])
           (take 10 problems))),
        (vkey ''count'', VInt (int (length problems)))]
       (Some (HOST_KEY_CHANGED @ '':run:'' @ show_int (row_id r))) db"

definition host_keys_of ::
  "(string \<Rightarrow> string) \<Rightarrow> (database \<Rightarrow> run \<Rightarrow> (string \<times> host_address) list option) \<Rightarrow> time \<Rightarrow>
   complete_in \<Rightarrow> run \<Rightarrow> database \<Rightarrow> database \<times> run \<times> learned_key list" where
  "host_keys_of fp addresses now b r db =
     (let problems = (case co_host_key_problems b of None \<Rightarrow> [] | Some ps \<Rightarrow> ps);
          (db1, r1, learned) = record_learned fp (addresses db r) now r
             (case co_learned_host_keys b of None \<Rightarrow> [] | Some ls \<Rightarrow> ls) db;
          r2 = record_problems problems r1;
          changed = filter (\<lambda>p. kp_problem p = ''changed'') problems
      in (if changed \<noteq> [] \<and> inventory_id r \<noteq> None then host_key_changed now r2 changed db1 else db1,
          r2, learned))"

definition learned_val :: "learned_key \<Rightarrow> val" where
  "learned_val k = VDict [(vkey ''name'', Str (lk_name k)), (vkey ''host'', Str (lk_host k)),
                          (vkey ''fingerprint'', Str (lk_fingerprint k))]"

definition audit_host_keys ::
  "time \<Rightarrow> run \<Rightarrow> string \<Rightarrow> string \<Rightarrow> val list \<Rightarrow> database \<Rightarrow> database" where
  "audit_host_keys now r action outcome items db =
     (if items = [] then db
      else audit_record now
        ((audit_call action)
           \<lparr>au_outcome := outcome, au_actor_username := Some (''run #'' @ show_int (row_id r)),
            au_target_type := Some ''inventory'', au_target_id := inventory_id r,
            au_target_name := Some (inventory_name r), au_project_id := Some (project_id r),
            au_detail := Some [(vkey ''run_id'', VInt (row_id r)), (vkey ''keys'', VList (take 20 items)),
                               (vkey ''count'', VInt (int (length items)))]\<rparr>) db)"

definition set_host_counts :: "(string \<times> int) list option \<Rightarrow> run \<Rightarrow> run" where
  "set_host_counts counts r =
     (case counts of
        None \<Rightarrow> r
      | Some c \<Rightarrow>
          let pick = (\<lambda>k old. case map_of c k of None \<Rightarrow> old | Some n \<Rightarrow> Some n)
          in r\<lparr>hosts_total := pick ''hosts_total'' (hosts_total r),
               hosts_ok := pick ''hosts_ok'' (hosts_ok r),
               hosts_changed := pick ''hosts_changed'' (hosts_changed r),
               hosts_failed := pick ''hosts_failed'' (hosts_failed r),
               hosts_unreachable := pick ''hosts_unreachable'' (hosts_unreachable r)\<rparr>)"

definition end_run :: "time \<Rightarrow> complete_in \<Rightarrow> run \<Rightarrow> run" where
  "end_run now b r =
     (let reason = (if co_status b = CANCELLED \<and> nonempty (cancel_requested_by r)
                    then Some (''cancelled by '' @ the (cancel_requested_by r)) else co_reason b)
      in (set_host_counts (co_host_counts b) r)
           \<lparr>status := co_status b, status_reason := reason, return_code := co_return_code b,
            finished_at := Some now, lease_expires_at := None, claim_token_hash := None\<rparr>)"

definition set_refused :: "complete_in \<Rightarrow> run \<Rightarrow> run" where
  "set_refused b r =
     (case co_egress_refused b of
        None \<Rightarrow> r
      | Some refused \<Rightarrow> if refused = [] then r else r\<lparr>egress_refused := Some refused\<rparr>)"

definition reported_artifacts :: "env \<Rightarrow> complete_in \<Rightarrow> run \<Rightarrow> database \<Rightarrow> run \<times> database" where
  "reported_artifacts e b r db =
     (case co_artifacts b of None \<Rightarrow> (r, db) | Some a \<Rightarrow> keep_artifacts e a r db)"

definition complete ::
  "env \<Rightarrow> (string \<Rightarrow> string) \<Rightarrow> (database \<Rightarrow> run \<Rightarrow> (string \<times> host_address) list option) \<Rightarrow>
   time \<Rightarrow> string \<Rightarrow> key_id \<Rightarrow> string \<Rightarrow> complete_in \<Rightarrow> database \<Rightarrow> database \<times> unit reply" where
  "complete e fp addresses now clock i token b db =
     (case locked_row e (runs db) i token of
        None \<Rightarrow> (db, Gone)
      | Some r0 \<Rightarrow>
          if co_last_seq b \<noteq> log_seq r0 then (db, Behind (log_seq r0 + 1))
          else let (db1, r2, learned) = host_keys_of fp addresses now b (end_run now b r0) db;
                   (r4, db2) = reported_artifacts e b (set_refused b r2) db1;
                   db3 = run_finished now clock r4 (put_run r4 db2);
                   db4 = (if co_status b = TIMED_OUT
                          then audit_record now
                            ((audit_call ''run.timed_out'')
                               \<lparr>au_outcome := ''failure'', au_actor_username := worker_id r0,
                                au_target_type := Some ''run'', au_target_id := Some i,
                                au_project_id := Some (project_id r0)\<rparr>) db3
                          else db3);
                   db5 = audit_host_keys now r4 ''inventory.host_key_learned'' ''success''
                           (map learned_val learned) db4;
                   db6 = audit_host_keys now r4 ''inventory.host_key_refused'' ''failure''
                           (map problem_val
                              (case co_host_key_problems b of None \<Rightarrow> [] | Some ps \<Rightarrow> ps)) db5
               in (finished e now db6, Answer ()))"

section \<open>Playbook checks and host key scans\<close>

definition put_lint :: "lint_job \<Rightarrow> database \<Rightarrow> database" where
  "put_lint l db = db\<lparr>lints := update_rows (\<lambda>x. row_id x = row_id l) (\<lambda>_. l) (lints db)\<rparr>"

definition put_scan :: "host_key_scan \<Rightarrow> database \<Rightarrow> database" where
  "put_scan s db = db\<lparr>scans := update_rows (\<lambda>x. row_id x = row_id s) (\<lambda>_. s) (scans db)\<rparr>"

text \<open>\<open>_end_lint\<close>: commits the end and lets a waiting install start.\<close>

definition finish_lint ::
  "env \<Rightarrow> time \<Rightarrow> run_status \<Rightarrow> string option \<Rightarrow> lint_result option \<Rightarrow> lint_job \<Rightarrow> database \<Rightarrow> database" where
  "finish_lint e now st error result l db = finished e now (put_lint (end_lint now st error result l) db)"

text \<open>\<open>build\<close> gives the payload, or (\<open>Inl\<close>) the text of a \<open>LintJobError\<close>, or \<open>None\<close> for any other error.\<close>

definition lint_job_handler ::
  "env \<Rightarrow> (database \<Rightarrow> lint_job \<Rightarrow> (string option + 'p)) \<Rightarrow> time \<Rightarrow> key_id \<Rightarrow> string \<Rightarrow> string \<Rightarrow>
   database \<Rightarrow> database \<times> 'p reply" where
  "lint_job_handler e build now i claim_token job_token db =
     (case locked_row e (lints db) i claim_token of
        None \<Rightarrow> (db, Gone)
      | Some l0 \<Rightarrow>
          if \<not> job_token_ok e now job_token l0 then (db, Gone)
          else let l1 = take_job_token l0 in
          (case build db l1 of
             Inl (Some t) \<Rightarrow> (finish_lint e now FAILED (Some t) None l1 db, Gone)
           | Inl None \<Rightarrow>
               (finish_lint e now FAILED (Some ''could not prepare the check (see the server log)'') None l1 db,
                Gone)
           | Inr payload \<Rightarrow> (put_lint (l1\<lparr>started_at := Some now\<rparr>) db, Answer payload)))"

text \<open>\<open>status.replace('_', ' ')\<close> of a status the schema allows.\<close>

definition lint_complete ::
  "env \<Rightarrow> time \<Rightarrow> key_id \<Rightarrow> string \<Rightarrow> run_status \<Rightarrow> string option \<Rightarrow> lint_result \<Rightarrow> database \<Rightarrow>
   database \<times> unit reply" where
  "lint_complete e now i token st error body db =
     (case locked_row e (lints db) i token of
        None \<Rightarrow> (db, Gone)
      | Some l \<Rightarrow>
          if st \<noteq> SUCCESS
          then (finish_lint e now st (Some (error_or error (status_words st))) None l db, Answer ())
          else (finish_lint e now SUCCESS None
                  (Some (body\<lparr>lr_total := max (lr_total body) (int (length (lr_findings body)))\<rparr>)) l db,
                Answer ()))"

definition keyscan_job_handler ::
  "env \<Rightarrow> time \<Rightarrow> key_id \<Rightarrow> string \<Rightarrow> string \<Rightarrow> database \<Rightarrow> database \<times> val reply" where
  "keyscan_job_handler e now i claim_token job_token db =
     (case locked_row e (scans db) i claim_token of
        None \<Rightarrow> (db, Gone)
      | Some s \<Rightarrow>
          if \<not> job_token_ok e now job_token s then (db, Gone)
          else (put_scan ((take_job_token s)\<lparr>started_at := Some now\<rparr>) db, Answer (build_scan_job s)))"

definition keyscan_complete ::
  "env \<Rightarrow> (string \<Rightarrow> string) \<Rightarrow> time \<Rightarrow> key_id \<Rightarrow> string \<Rightarrow> run_status \<Rightarrow> string list \<Rightarrow> string option \<Rightarrow>
   database \<Rightarrow> database \<times> unit reply" where
  "keyscan_complete e fp now i token st lines error db =
     (case locked_row e (scans db) i token of
        None \<Rightarrow> (db, Gone)
      | Some s \<Rightarrow>
          if st \<noteq> SUCCESS
          then (put_scan (end_scan now st (Some (error_or error (status_words st))) None s) db, Answer ())
          else let results = scanned_keys fp s lines;
                   err = (if results = [] then Some (error_or error ''no host answered with a key'') else None)
               in (put_scan (end_scan now SUCCESS err (Some results) s) db, Answer ()))"

end
