(* ===== verification/Internal_Facts.thy ===== *)
theory Internal_Facts
  imports Internal_Api
begin

text \<open>
  What the internal API promises a worker and the user: a claim that ended is void, a job is
  handed out once, the log holds every event exactly once whatever is resent, a finished run's
  output is complete, and an upload of artifacts is a prefix of what the worker sends.
\<close>

section \<open>Owned rows\<close>

lemma locked_row_Some:
  "locked_row e tbl i token = Some r \<longleftrightarrow>
   get_row row_id tbl i = Some r \<and> status r = RUNNING \<and> claim_token_hash r = Some (hash_token e token)"
  by (auto simp: locked_row_def split: option.splits)

lemma locked_row_id: "locked_row e tbl i token = Some r \<Longrightarrow> row_id r = i \<and> r \<in> set tbl"
  by (auto simp: locked_row_Some dest: get_row_Some)

lemma locked_run_get: "locked_row e (runs db) i token = Some r \<Longrightarrow> get_run db i = Some r"
  by (simp add: locked_row_Some get_run_def)

text \<open>A row that is not running, or has no claim, is owned by no token.\<close>

lemma locked_row_void:
  assumes "get_row row_id tbl i = Some r" and "status r \<noteq> RUNNING \<or> claim_token_hash r = None"
  shows "locked_row e tbl i token = None"
  using assms by (auto simp: locked_row_def)

lemma get_run_logs [simp]: "get_run (db\<lparr>run_logs := l\<rparr>) i = get_run db i"
  by (simp add: get_run_def)

lemma get_run_of_runs: "runs db' = runs db \<Longrightarrow> get_run db' i = get_run db i"
  by (simp add: get_run_def)

lemma finished_frame [simp]:
  "runs (finished e now db) = runs db" "refreshes (finished e now db) = refreshes db"
  "lints (finished e now db) = lints db" "scans (finished e now db) = scans db"
  "run_logs (finished e now db) = run_logs db" "static_part (finished e now db) = static_part db"
  by (simp_all add: finished_def)

lemma audit_certificate_frame [simp]:
  "runs (audit_certificate now r db) = runs db" "refreshes (audit_certificate now r db) = refreshes db"
  "lints (audit_certificate now r db) = lints db" "scans (audit_certificate now r db) = scans db"
  "installs (audit_certificate now r db) = installs db" "run_logs (audit_certificate now r db) = run_logs db"
  by (auto simp: audit_certificate_def Let_def split: option.splits val.splits list.splits)

lemma audit_host_keys_frame [simp]:
  "runs (audit_host_keys now r a oc items db) = runs db"
  "refreshes (audit_host_keys now r a oc items db) = refreshes db"
  "lints (audit_host_keys now r a oc items db) = lints db"
  "scans (audit_host_keys now r a oc items db) = scans db"
  "installs (audit_host_keys now r a oc items db) = installs db"
  "run_logs (audit_host_keys now r a oc items db) = run_logs db"
  by (simp_all add: audit_host_keys_def)

lemma store_alert_frame [simp]:
  "runs (store_alert e now k db) = runs db" "refreshes (store_alert e now k db) = refreshes db"
  "lints (store_alert e now k db) = lints db" "scans (store_alert e now k db) = scans db"
  "installs (store_alert e now k db) = installs db" "run_logs (store_alert e now k db) = run_logs db"
  "outage (store_alert e now k db) = outage db"
  by (simp_all add: store_alert_def)

lemma seen_worker_frame [simp]:
  "runs (seen_worker now b db) = runs db" "refreshes (seen_worker now b db) = refreshes db"
  "lints (seen_worker now b db) = lints db" "scans (seen_worker now b db) = scans db"
  "installs (seen_worker now b db) = installs db" "run_logs (seen_worker now b db) = run_logs db"
  by (simp_all add: seen_worker_def)

lemma fail_run_get:
  assumes "get_run db (row_id r) = Some x"
  shows "\<exists>r2. get_run (fail_run e now clock st reason r db) (row_id r) = Some r2 \<and> status r2 = st \<and>
    claim_token_hash r2 = None \<and> job_token_hash r2 = None \<and> finished_at r2 = Some now \<and>
    status_reason r2 = Some (take 500 reason) \<and> queued_at r2 = queued_at r"
proof -
  obtain r2 where r2: "runs (fail_run e now clock st reason r db) = runs (put_run r2 db)"
    "row_id r2 = row_id r" "status r2 = st" "claim_token_hash r2 = None" "job_token_hash r2 = None"
    "finished_at r2 = Some now" "status_reason r2 = Some (take 500 reason)" "queued_at r2 = queued_at r"
    using fail_run_runs by blast
  then have "get_run (fail_run e now clock st reason r db) (row_id r) = Some r2"
    using assms get_put_run [of r2 db "row_id r"] get_run_of_runs [OF r2(1)] by simp
  with r2 show ?thesis by blast
qed

section \<open>Events\<close>

text \<open>
  The events a worker reports, numbered from 1, are \<open>stream\<close>; the log holds exactly the first
  \<open>log_seq\<close> of them.
\<close>

definition log_holds :: "env \<Rightarrow> vars list \<Rightarrow> key_id \<Rightarrow> database \<Rightarrow> bool" where
  "log_holds e stream i db =
     (\<exists>r. get_run db i = Some r \<and> row_id r = i \<and> 0 \<le> log_seq r \<and> nat (log_seq r) \<le> length stream \<and>
        log_ok r (run_logs db) \<and>
        committed_log r (run_logs db) = log_data e (take (nat (log_seq r)) stream))"

text \<open>A batch is a piece of the stream at its own number.\<close>

definition batch_of :: "vars list \<Rightarrow> int \<times> vars list \<Rightarrow> bool" where
  "batch_of stream b =
     (1 \<le> fst b \<and> (\<exists>n. snd b = take n (drop (nat (fst b) - 1) stream)))"

lemma log_data_append: "log_data e (xs @ ys) = log_data e xs @ log_data e ys"
  by (simp add: log_data_def)

lemma batch_extends:
  assumes "batch_of stream (f, evs)" and "f \<le> s + 1" and "0 \<le> s" "nat s \<le> length stream"
    and "drop (nat (s + 1 - f)) evs \<noteq> []"
  shows "take (nat s) stream @ drop (nat (s + 1 - f)) evs = take (nat (f + int (length evs) - 1)) stream"
    and "nat (f + int (length evs) - 1) \<le> length stream" and "s < f + int (length evs) - 1"
proof -
  define k where "k = nat f - 1"
  define m where "m = nat s - k"
  obtain n where evs: "evs = take n (drop k stream)" and f: "1 \<le> f"
    using assms(1) by (auto simp: batch_of_def k_def)
  have s: "nat s = k + m" "nat (s + 1 - f) = m" using assms(2,3) f by (auto simp: k_def m_def)
  have m: "m < length evs" using assms(5) s(2) by simp
  have e: "nat (f + int (length evs) - 1) = k + length evs" using f by (auto simp: k_def)
  show "take (nat s) stream @ drop (nat (s + 1 - f)) evs = take (nat (f + int (length evs) - 1)) stream"
    unfolding s e
  proof -
    have mn: "m \<le> n" using m by (simp add: evs)
    have "take (k + length evs) stream = take k stream @ evs"
      unfolding take_add using evs by (simp add: min_def)
    moreover have "take (k + m) stream = take k stream @ take m evs"
      unfolding take_add using mn by (simp add: evs min_def)
    ultimately show "take (k + m) stream @ drop m evs = take (k + length evs) stream" by simp
  qed
  have "length evs \<le> length stream - k" by (simp add: evs)
  then show "nat (f + int (length evs) - 1) \<le> length stream" using m unfolding e by simp
  show "s < f + int (length evs) - 1" using m s(2) assms(2) f by simp
qed

lemma events_holds:
  assumes h: "log_holds e stream i db" and b: "batch_of stream (first, evs)"
    and step: "events_handler e i token first evs db = (db', reply)"
  shows "log_holds e stream i db'"
proof (cases "locked_row e (runs db) i token")
  case None
  then show ?thesis using h step by (simp add: events_handler_def)
next
  case (Some r)
  note get = locked_run_get [OF Some]
  have r: "row_id r = i" "0 \<le> log_seq r" "nat (log_seq r) \<le> length stream" "log_ok r (run_logs db)"
    "committed_log r (run_logs db) = log_data e (take (nat (log_seq r)) stream)"
    using h get by (auto simp: log_holds_def)
  let ?fresh = "drop (nat (log_seq r + 1 - first)) evs"
  show ?thesis
  proof (cases "first > log_seq r + 1 \<or> ?fresh = []")
    case True
    then have "runs db' = runs (put_run r db) \<or> runs db' = runs db" "run_logs db' = run_logs db"
      using step Some by (auto simp: events_handler_def Let_def runs_put_run split: if_splits)
    moreover have "get_run (put_run r db) i = get_run db i" using get r(1) by (simp add: get_put_run)
    ultimately have "get_run db' i = get_run db i" by (auto simp: get_run_def)
    with h show ?thesis by (simp add: log_holds_def \<open>run_logs db' = run_logs db\<close>)
  next
    case False
    then have f: "first \<le> log_seq r + 1" "?fresh \<noteq> []" by auto
    obtain r1 logs where app: "append_events e ?fresh r (run_logs db) = (r1, logs)"
      by (cases "append_events e ?fresh r (run_logs db)")
    define r2 where "r2 = r1\<lparr>log_seq := first + int (length evs) - 1\<rparr>"
    have db': "db' = put_run r2 (db\<lparr>run_logs := logs\<rparr>)"
      using step Some f app by (auto simp: events_handler_def Let_def r2_def)
    have id: "row_id r1 = i" using app append_events_columns(1) [of e ?fresh r "run_logs db"] r(1) by simp
    then have got: "get_run db' i = Some r2" using get by (simp add: db' get_put_run r2_def)
    note ext = batch_extends [OF b f(1) r(2,3) f(2)]
    have ok: "log_ok r1 logs" "committed_log r1 logs = log_data e (take (nat (log_seq r)) stream) @ log_data e ?fresh"
      using append_events_log [OF r(4) app] r(5) by auto
    have "log_ok r2 logs" "committed_log r2 logs = committed_log r1 logs"
      using ok(1) by (simp_all add: log_ok_def committed_log_def r2_def)
    moreover have "committed_log r1 logs = log_data e (take (nat (first + int (length evs) - 1)) stream)"
      unfolding ok(2) ext(1) [symmetric] by (simp add: log_data_append)
    ultimately show ?thesis
      unfolding log_holds_def using got id ext(2,3) r(2) by (simp add: r2_def db')
  qed
qed

text \<open>
  C1. The log of a run holds every event a worker sent exactly once and in order, however often,
  in whatever overlapping pieces and in whatever order batches of its stream arrive, and whichever
  of them carry a claim token that is no longer valid: after any sequence of calls the log is the
  first \<open>log_seq\<close> events of the stream, nothing missing, nothing twice.
\<close>

theorem events_exactly_once:
  assumes "log_holds e stream i db" and "\<forall>(token, b) \<in> set calls. batch_of stream b"
  shows "log_holds e stream i
    (fold (\<lambda>(token, first, evs) db. fst (events_handler e i token first evs db)) calls db)"
  using assms
proof (induction calls arbitrary: db)
  case (Cons c calls)
  obtain token first evs where c: "c = (token, first, evs)" by (cases c) auto
  have "batch_of stream (first, evs)" using Cons.prems(2) c by auto
  then have "log_holds e stream i (fst (events_handler e i token first evs db))"
    using events_holds [OF Cons.prems(1)] by (metis prod.collapse)
  with Cons c show ?case by simp
qed simp

text \<open>A running run owned by the claim token \<open>tok\<close>, and two events, for the examples.\<close>

definition owned_run :: run where
  "owned_run = (blank_run 5 0)\<lparr>status := RUNNING, claim_token_hash := Some ''#tok'',
     job_token_hash := Some ''#job'', job_token_expires_at := Some 60, project_id := 1\<rparr>"

definition owned_db :: database where
  "owned_db = empty_db\<lparr>runs := [owned_run]\<rparr>"

definition two_events :: "vars list" where
  "two_events = [[(vkey ''a'', Str ''x'')], [(vkey ''a'', Str ''y'')]]"

lemma owned_locked: "locked_row sample_env (runs owned_db) 5 ''tok'' = Some owned_run"
  by (simp add: locked_row_def owned_db_def owned_run_def get_row_def hash_token_def sample_env_def
      blank_run_def)

lemma owned_log: "log_holds sample_env two_events 5 owned_db"
  by (simp add: log_holds_def owned_db_def owned_run_def get_run_def get_row_def blank_run_def
      log_ok_def committed_log_def log_data_def)

theorem events_exactly_once_witness:
  "log_holds sample_env two_events 5
     (fold (\<lambda>(token, first, evs) db. fst (events_handler sample_env 5 token first evs db))
        [(''tok'', 1, [[(vkey ''a'', Str ''x'')]]), (''tok'', 1, two_events), (''old'', 2, [])] owned_db)"
proof (rule events_exactly_once [OF owned_log])
  have "\<exists>n. [[(vkey ''a'', Str ''x'')]] = take n two_events" "\<exists>n. two_events = take n two_events"
    "\<exists>n. [] = take n (drop 1 two_events)"
    by (rule exI [of _ 1], simp add: two_events_def) (rule exI [of _ 2], simp add: two_events_def,
      rule exI [of _ 0], simp)
  then show "\<forall>(token, b) \<in> set [(''tok'', 1, [[(vkey ''a'', Str ''x'')]]), (''tok'', 1, two_events),
      (''old'', 2, [])]. batch_of two_events b"
    by (simp add: batch_of_def)
qed

section \<open>The job is handed out once\<close>

lemma job_answer:
  assumes "job_handler e build now clock i ct jt db = (db', Answer p)"
  shows "\<exists>r0 r3. locked_row e (runs db) i ct = Some r0 \<and> job_token_ok e now jt r0 \<and>
    cancel_requested_at r0 = None \<and> runs db' = runs (put_run r3 db) \<and> row_id r3 = i \<and>
    job_token_hash r3 = None \<and> status r3 = RUNNING \<and> inventory_id r3 = inventory_id r0 \<and>
    claim_token_hash r3 = claim_token_hash r0 \<and> started_at r3 = Some now \<and>
    jb_result (build db (take_job_token r0)) = Inr p"
proof -
  obtain r0 where r0: "locked_row e (runs db) i ct = Some r0" "job_token_ok e now jt r0"
    "cancel_requested_at r0 = None"
    using assms by (auto simp: job_handler_def Let_def take_job_token_def split: option.splits if_splits)
  let ?b = "build db (take_job_token r0)"
  let ?r3 = "(take_job_token r0)\<lparr>inventory_sha256 := jb_sha256 ?b, ssh_certificate := jb_certificate ?b,
    secret_reads := jb_reads ?b, started_at := Some now\<rparr>"
  have "jb_result ?b = Inr p" "runs db' = runs (put_run ?r3 db)"
    using assms r0
    by (auto simp: job_handler_def Let_def take_job_token_def store_down_def case_prod_beta
        split: sum.splits job_failure.splits if_splits option.splits)
  moreover have "row_id r0 = i" "status r0 = RUNNING"
    using locked_row_id [OF r0(1)] r0(1) by (simp_all add: locked_row_Some)
  ultimately show ?thesis using r0 by (intro exI [of _ r0] exI [of _ ?r3]) (simp add: take_job_token_def)
qed

text \<open>
  C2. A job, with its decrypted secrets, is handed out at most once: once a call got it, no later
  call for that run gets it again, whatever tokens it carries and however late it comes, and such
  a call changes nothing; and it was handed to a caller that owns the running claim and presented
  its unexpired one-time token for a run nobody had asked to cancel.
\<close>

theorem job_handed_out_once:
  assumes "job_handler e build now clock i ct jt db = (db', Answer p)"
  shows "(\<forall>build' now' clock' ct' jt'. job_handler e build' now' clock' i ct' jt' db' = (db', Gone)) \<and>
    (\<exists>r. get_run db i = Some r \<and> status r = RUNNING \<and> cancel_requested_at r = None \<and>
       claim_token_hash r = Some (hash_token e ct) \<and> job_token_hash r = Some (hash_token e jt) \<and>
       (\<exists>t. job_token_expires_at r = Some t \<and> now < t))"
proof -
  obtain r0 r3 where r: "locked_row e (runs db) i ct = Some r0" "job_token_ok e now jt r0"
    "cancel_requested_at r0 = None" "runs db' = runs (put_run r3 db)" "row_id r3 = i" "job_token_hash r3 = None"
    using job_answer [OF assms] by blast
  have "get_run db' i = Some r3"
    using locked_run_get [OF r(1)] get_put_run [of r3 db i] get_run_of_runs [OF r(4)] r(5) by simp
  then have "locked_row e (runs db') i ct' = None \<or> locked_row e (runs db') i ct' = Some r3" for ct'
    by (auto simp: locked_row_def get_run_def)
  then have "job_handler e build' now' clock' i ct' jt' db' = (db', Gone)" for build' now' clock' ct' jt'
  proof (cases "locked_row e (runs db') i ct'")
    case (Some x)
    with \<open>\<And>ct'. locked_row e (runs db') i ct' = None \<or> locked_row e (runs db') i ct' = Some r3\<close> [of ct']
    have "x = r3" by simp
    with Some r(6) show ?thesis by (simp add: job_handler_def job_token_ok_def)
  qed (simp add: job_handler_def)
  moreover have "\<exists>t. job_token_hash r0 = Some (hash_token e jt) \<and> job_token_expires_at r0 = Some t \<and> now < t"
    using r(2) by (auto simp: job_token_ok_def split: option.splits)
  moreover have "get_run db i = Some r0 \<and> status r0 = RUNNING \<and> claim_token_hash r0 = Some (hash_token e ct)"
    using r(1) by (simp add: locked_row_Some get_run_def)
  ultimately show ?thesis using r(3) by blast
qed

theorem job_handed_out_once_witness:
  "\<exists>db'. job_handler sample_env (\<lambda>_ _. \<lparr>jb_sha256 = None, jb_certificate = None, jb_reads = None,
       jb_result = Inr True\<rparr>) 9 ''t'' 5 ''tok'' ''job'' owned_db = (db', Answer True) \<and>
     job_handler sample_env (\<lambda>_ _. \<lparr>jb_sha256 = None, jb_certificate = None, jb_reads = None,
       jb_result = Inr True\<rparr>) 9 ''t'' 5 ''tok'' ''job'' db' = (db', Gone)"
proof -
  let ?build = "\<lambda>_ _. \<lparr>jb_sha256 = None, jb_certificate = None, jb_reads = None, jb_result = Inr True\<rparr>"
  have "job_token_ok sample_env 9 ''job'' owned_run" "cancel_requested_at owned_run = None"
    by (simp_all add: job_token_ok_def owned_run_def hash_token_def sample_env_def blank_run_def)
  then obtain db' where "job_handler sample_env ?build 9 ''t'' 5 ''tok'' ''job'' owned_db = (db', Answer True)"
    by (simp add: job_handler_def owned_locked take_job_token_def Let_def)
  with job_handed_out_once [OF this] show ?thesis by blast
qed

section \<open>The end of a run\<close>

lemma record_problems_columns [simp]:
  "row_id (record_problems ps r) = row_id r" "status (record_problems ps r) = status r"
  "claim_token_hash (record_problems ps r) = claim_token_hash r"
  "inventory_id (record_problems ps r) = inventory_id r" "log_seq (record_problems ps r) = log_seq r"
  "log_bytes (record_problems ps r) = log_bytes r" "finished_at (record_problems ps r) = finished_at r"
  by (simp_all add: record_problems_def Let_def)

lemma record_learned_columns [simp]:
  fixes fp addrs now r lines db
  defines "r' \<equiv> fst (snd (record_learned fp addrs now r lines db))"
  shows "row_id r' = row_id r" "status r' = status r" "claim_token_hash r' = claim_token_hash r"
    "inventory_id r' = inventory_id r" "log_seq r' = log_seq r" "log_bytes r' = log_bytes r"
    "finished_at r' = finished_at r"
  unfolding r'_def record_learned_def Let_def case_prod_beta
  by (simp_all split: option.split)

lemma host_keys_of_runs:
  assumes "host_keys_of fp addresses now b r db = (db1, r2, learned)"
  shows "runs db1 = runs db \<and> refreshes db1 = refreshes db \<and> lints db1 = lints db \<and>
    scans db1 = scans db \<and> installs db1 = installs db \<and> run_logs db1 = run_logs db \<and>
    row_id r2 = row_id r \<and> status r2 = status r \<and> claim_token_hash r2 = claim_token_hash r \<and>
    inventory_id r2 = inventory_id r \<and> log_seq r2 = log_seq r \<and> log_bytes r2 = log_bytes r \<and>
    finished_at r2 = finished_at r"
proof -
  let ?p = "case co_host_key_problems b of None \<Rightarrow> [] | Some ps \<Rightarrow> ps"
  let ?l = "case co_learned_host_keys b of None \<Rightarrow> [] | Some ls \<Rightarrow> ls"
  obtain d1 r1 l1 where rl: "record_learned fp (addresses db r) now r ?l db = (d1, r1, l1)"
    by (metis prod_cases3)
  have eq: "(if filter (\<lambda>p. kp_problem p = ''changed'') ?p \<noteq> [] \<and> inventory_id r \<noteq> None
      then host_key_changed now (record_problems ?p r1) (filter (\<lambda>p. kp_problem p = ''changed'') ?p) d1
      else d1) = db1 \<and> record_problems ?p r1 = r2"
    using assms unfolding host_keys_of_def Let_def rl prod.case prod.inject by blast
  then have r2: "r2 = record_problems ?p r1" by blast
  have db1: "db1 = d1 \<or> (\<exists>c. db1 = host_key_changed now r2 c d1)"
    using eq by metis
  obtain t where d1: "d1 = db\<lparr>trusted_keys := t\<rparr>" using record_learned_keys [OF rl] by blast
  have "r1 = fst (snd (record_learned fp (addresses db r) now r ?l db))" by (simp add: rl)
  then have "row_id r2 = row_id r \<and> status r2 = status r \<and> claim_token_hash r2 = claim_token_hash r \<and>
    inventory_id r2 = inventory_id r \<and> log_seq r2 = log_seq r \<and> log_bytes r2 = log_bytes r \<and>
    finished_at r2 = finished_at r" unfolding r2 by simp
  then show ?thesis using db1 d1 by (auto simp: host_key_changed_def)
qed

lemma end_run_columns [simp]:
  "row_id (end_run now b r) = row_id r" "status (end_run now b r) = co_status b"
  "claim_token_hash (end_run now b r) = None" "inventory_id (end_run now b r) = inventory_id r"
  "log_seq (end_run now b r) = log_seq r" "log_bytes (end_run now b r) = log_bytes r"
  "finished_at (end_run now b r) = Some now"
  by (simp_all add: end_run_def set_host_counts_def Let_def split: option.split)

lemma keep_artifacts_columns:
  assumes "keep_artifacts e a r db = (r', db')"
  shows "row_id r' = row_id r \<and> status r' = status r \<and> claim_token_hash r' = claim_token_hash r \<and>
    inventory_id r' = inventory_id r \<and> log_seq r' = log_seq r \<and> log_bytes r' = log_bytes r \<and>
    finished_at r' = finished_at r \<and> runs db' = runs db \<and> refreshes db' = refreshes db \<and>
    lints db' = lints db \<and> scans db' = scans db \<and> installs db' = installs db \<and> run_logs db' = run_logs db"
proof -
  have "r' = fst (keep_artifacts e a r db)" "db' = snd (keep_artifacts e a r db)" using assms by simp_all
  then show ?thesis by (simp add: keep_artifacts_def Let_def split: option.split)
qed

lemma complete_answer:
  assumes "complete e fp addresses now clock i token b db = (db', Answer u)"
  shows "\<exists>r0 r4. locked_row e (runs db) i token = Some r0 \<and> co_last_seq b = log_seq r0 \<and>
    runs db' = runs (put_run r4 db) \<and> run_logs db' = run_logs db \<and> row_id r4 = i \<and>
    status r4 = co_status b \<and> claim_token_hash r4 = None \<and> inventory_id r4 = inventory_id r0 \<and>
    log_seq r4 = log_seq r0 \<and> log_bytes r4 = log_bytes r0 \<and> finished_at r4 = Some now \<and>
    refreshes db' = refreshes db \<and> lints db' = lints db \<and> scans db' = scans db"
proof -
  obtain r0 where r0: "locked_row e (runs db) i token = Some r0" "co_last_seq b = log_seq r0"
    using assms by (auto simp: complete_def split: option.splits if_splits)
  obtain db1 r2 learned where hk: "host_keys_of fp addresses now b (end_run now b r0) db = (db1, r2, learned)"
    by (metis prod_cases3)
  define r3 where "r3 = set_refused b r2"
  obtain r4 db2 where art: "reported_artifacts e b r3 db1 = (r4, db2)"
    by (metis prod.exhaust)
  have r3: "row_id r3 = row_id r2 \<and> status r3 = status r2 \<and> claim_token_hash r3 = claim_token_hash r2 \<and>
    inventory_id r3 = inventory_id r2 \<and> log_seq r3 = log_seq r2 \<and> log_bytes r3 = log_bytes r2 \<and>
    finished_at r3 = finished_at r2"
    by (simp add: r3_def set_refused_def split: option.split)
  have r4: "row_id r4 = row_id r3 \<and> status r4 = status r3 \<and> claim_token_hash r4 = claim_token_hash r3 \<and>
    inventory_id r4 = inventory_id r3 \<and> log_seq r4 = log_seq r3 \<and> log_bytes r4 = log_bytes r3 \<and>
    finished_at r4 = finished_at r3 \<and> runs db2 = runs db1 \<and> refreshes db2 = refreshes db1 \<and>
    lints db2 = lints db1 \<and> scans db2 = scans db1 \<and> run_logs db2 = run_logs db1"
    using art keep_artifacts_columns [of e _ r3 db1 r4 db2] by (cases "co_artifacts b") (auto simp: reported_artifacts_def)
  note hk' = host_keys_of_runs [OF hk]
  have "runs db' = runs (put_run r4 db2)" "run_logs db' = run_logs db2" "refreshes db' = refreshes db2"
    "lints db' = lints db2" "scans db' = scans db2"
    using assms r0 unfolding complete_def
    by (auto simp: Let_def hk r3_def [symmetric] art)
  moreover have "runs (put_run r4 db2) = runs (put_run r4 db)" using hk' r4 by (simp add: runs_put_run)
  moreover have "row_id r0 = i" using locked_row_id [OF r0(1)] by simp
  ultimately show ?thesis
    using r0 r3 r4 hk' by (intro exI [of _ r0] exI [of _ r4]) simp
qed

text \<open>
  C3. A run ends only when its output is complete: when the report of its end is accepted, the
  log holds every event up to the number the worker says was its last. From then on the claim is
  void: whatever token they carry, further events, reports, artifacts and job requests for the
  run are answered as gone and change nothing.
\<close>

theorem complete_log_and_final:
  assumes "log_holds e stream i db"
    and "complete e fp addresses now clock i token b db = (db', Answer u)"
  shows "(\<exists>r. get_run db' i = Some r \<and> status r = co_status b \<and> finished_at r = Some now \<and>
      committed_log r (run_logs db') = log_data e (take (nat (co_last_seq b)) stream) \<and>
      nat (co_last_seq b) \<le> length stream) \<and>
    (\<forall>t f evs. events_handler e i t f evs db' = (db', Gone)) \<and>
    (\<forall>t b' n c. complete e fp addresses n c i t b' db' = (db', Gone)) \<and>
    (\<forall>t off chunk. append_artifacts e i t off chunk db' = (db', Gone)) \<and>
    (\<forall>t body. egress_report e i t body db' = (db', Gone)) \<and>
    (\<forall>t jt n c (build :: database \<Rightarrow> run \<Rightarrow> 'p job_build). job_handler e build n c i t jt db' = (db', Gone))"
proof -
  obtain r0 r4 where r: "locked_row e (runs db) i token = Some r0" "co_last_seq b = log_seq r0"
    "runs db' = runs (put_run r4 db)" "run_logs db' = run_logs db" "row_id r4 = i" "status r4 = co_status b"
    "claim_token_hash r4 = None" "log_bytes r4 = log_bytes r0" "finished_at r4 = Some now"
    using complete_answer [OF assms(2)] by blast
  note get = locked_run_get [OF r(1)]
  have got: "get_run db' i = Some r4"
    using get get_put_run [of r4 db i] get_run_of_runs [OF r(3)] r(5) by simp
  have void: "locked_row e (runs db') i t = None" for t
    using got r(7) by (intro locked_row_void [of _ _ r4]) (simp_all add: get_run_def)
  have "committed_log r4 (run_logs db') = log_data e (take (nat (co_last_seq b)) stream) \<and>
      nat (co_last_seq b) \<le> length stream"
    using assms(1) get r by (auto simp: log_holds_def committed_log_def)
  with got r(6,9) show ?thesis
    by (simp add: events_handler_def complete_def append_artifacts_def egress_report_def job_handler_def void)
qed

definition sample_report :: complete_in where
  "sample_report =
     \<lparr>co_last_seq = 0, co_status = SUCCESS, co_return_code = Some 0, co_reason = None,
      co_host_counts = None, co_learned_host_keys = None, co_host_key_problems = None,
      co_artifacts = None, co_egress_refused = None\<rparr>"

theorem complete_log_and_final_witness:
  "\<exists>db'. complete sample_env (\<lambda>_. ''f'') (\<lambda>_ _. None) 9 ''t'' 5 ''tok'' sample_report owned_db = (db', Answer ()) \<and>
     complete sample_env (\<lambda>_. ''f'') (\<lambda>_ _. None) 9 ''t'' 5 ''tok'' sample_report db' = (db', Gone)"
proof -
  have "log_seq owned_run = 0" by (simp add: owned_run_def blank_run_def)
  then obtain db' where c: "complete sample_env (\<lambda>_. ''f'') (\<lambda>_ _. None) 9 ''t'' 5 ''tok'' sample_report owned_db =
      (db', Answer ())"
    by (simp add: complete_def owned_locked sample_report_def Let_def case_prod_beta)
  show ?thesis
    using complete_log_and_final [OF owned_log c, where ?'p = unit] c by blast
qed

section \<open>While the secret store is down\<close>

text \<open>
  When the secret store is down, a run whose job cannot be built is neither lost nor stuck:
  it goes back to the queue in its old place and with its log untouched while its wait (from the
  later of its queueing and the start of the outage) is not over, fails once it is, or is
  cancelled if that was asked for; its claim is void in each case, and the outage stays on record
  with its first start.
\<close>

theorem store_down_requeues:
  assumes "locked_row e (runs db) i token = Some r"
    and "since = (case outage db of None \<Rightarrow> now | Some o' \<Rightarrow> o_since o')"
  shows "\<exists>db' r'. store_down e now clock i token kind reason db = (db', Gone) \<and>
    get_run db' i = Some r' \<and> queued_at r' = queued_at r \<and> claim_token_hash r' = None \<and>
    job_token_hash r' = None \<and>
    (if cancel_requested_at r \<noteq> None then status r' = CANCELLED
     else if wait_minutes e \<noteq> 0 \<and> now < max (queued_at r) since + mins (wait_minutes e)
     then status r' = QUEUED \<and> log_seq r' = log_seq r \<and> run_logs db' = run_logs db
     else status r' = FAILED)"
proof -
  define db2 where "db2 = store_alert e now kind (fst (seen now kind db))"
  have sighted: "seen now kind db = (fst (seen now kind db), since)"
    using assms(2) by (simp add: seen_def Let_def)
  have same: "runs db2 = runs db" "run_logs db2 = run_logs db" by (simp_all add: db2_def)
  note get = locked_run_get [OF assms(1)]
  have id: "row_id r = i" using locked_row_id [OF assms(1)] by simp
  have get2: "get_run db2 (row_id r) = Some r" using get same(1) id by (simp add: get_run_def)
  have ended: "\<exists>r'. get_run (finished e now (fail_run e now clock st t r db2)) i = Some r' \<and>
    queued_at r' = queued_at r \<and> claim_token_hash r' = None \<and> job_token_hash r' = None \<and> status r' = st" for st t
    using fail_run_get [OF get2, of e now clock st t] id by (auto simp: get_run_def)
  have requeued: "get_run (put_run (requeue_run r) db2) i = Some (requeue_run r)"
    using get2 id by (simp add: get_put_run)
  have sd: "store_down e now clock i token kind reason db =
    (if cancel_requested_at r \<noteq> None
     then (finished e now (fail_run e now clock CANCELLED ''cancelled before it started'' r db2), Gone)
     else (case wait_over e now (queued_at r) since of
        Some over \<Rightarrow> (finished e now (fail_run e now clock FAILED (reason @ over) r db2), Gone)
      | None \<Rightarrow> (put_run (requeue_run r) db2, Gone)))"
    unfolding store_down_def assms(1) option.case Let_def db2_def
    by (subst sighted) (simp only: prod.case)
  show ?thesis
  proof (cases "cancel_requested_at r")
    case None
    show ?thesis
    proof (cases "wait_minutes e \<noteq> 0 \<and> now < max (queued_at r) since + mins (wait_minutes e)")
      case True
      then have "wait_over e now (queued_at r) since = None" by (simp add: wait_over_def deadline_def)
      then show ?thesis using None True requeued same by (simp add: sd)
    next
      case False
      then obtain over where "wait_over e now (queued_at r) since = Some over"
        by (cases "wait_minutes e = 0") (auto simp: wait_over_def deadline_def Let_def)
      then show ?thesis using None False ended [of FAILED "reason @ over"] by (simp add: sd) blast
    qed
  next
    case (Some t)
    then show ?thesis using ended [of CANCELLED "''cancelled before it started''"] by (simp add: sd)
  qed
qed

theorem store_down_requeues_witness:
  "\<exists>db' r'. store_down sample_env 9 ''t'' 5 ''tok'' ''sealed'' ''x'' owned_db = (db', Gone) \<and>
     get_run db' 5 = Some r' \<and> status r' = QUEUED"
  using store_down_requeues [OF owned_locked, of 9 9 "''t''" "''sealed''" "''x''"]
  by (auto simp: owned_run_def blank_run_def owned_db_def empty_db_def wait_minutes_def sample_env_def
      mins_def secs_def)

section \<open>Artifacts\<close>

text \<open>What is staged is a piece of the tar from its start.\<close>

definition staged_ok :: "string \<Rightarrow> key_id \<Rightarrow> database \<Rightarrow> bool" where
  "staged_ok tar i db = (\<exists>n. file_text (artifact_parts db) i = take n tar)"

lemma append_artifacts_staged:
  assumes "staged_ok tar i db" and "0 \<le> off" and "\<exists>n. chunk = take n (drop (nat off) tar)"
    and "append_artifacts e i token off chunk db = (db', reply)"
  shows "staged_ok tar i db' \<and>
    (\<forall>k. reply = Answer k \<longrightarrow> file_text (artifact_parts db') i = take (nat k) tar \<and> nat k \<le> length tar)"
proof -
  obtain n m where n: "file_text (artifact_parts db) i = take n tar" and m: "chunk = take m (drop (nat off) tar)"
    using assms(1,3) by (auto simp: staged_ok_def)
  consider "db' = db" "\<forall>k. reply \<noteq> Answer k"
    | "artifact_parts db' = (artifact_parts db)(i \<mapsto> take (nat off) (take n tar) @ chunk)"
      "reply = Answer (off + int (length chunk))" "off \<le> int (length (take n tar))"
    using assms(4) n
    by (auto simp: append_artifacts_def Let_def dest: locked_row_id split: option.splits if_splits)
  then show ?thesis
  proof cases
    case 1
    then show ?thesis using assms(1) by simp
  next
    case 2
    have off: "nat off \<le> n" "nat off \<le> length tar" using 2(3) assms(2) by auto
    have len: "nat (off + int (length chunk)) = nat off + length chunk" using assms(2) by simp
    have "take (nat off) (take n tar) @ chunk = take (nat off + length chunk) tar"
      unfolding take_add using off(1) m by (auto simp: min_def)
    moreover have "nat off + length chunk \<le> length tar" using off m by simp
    ultimately show ?thesis using 2 len by (auto simp: staged_ok_def file_text_def)
  qed
qed

text \<open>
  The artifacts kept for a run are exactly the tar its worker uploaded: after any sequence of
  chunks of it, resent or not, out of order or too far ahead, what is staged is a piece of the tar
  from its start, and it is kept only when it has the size the worker reports for the whole tar
  and the digest it reports.
\<close>

theorem artifacts_intact:
  assumes "staged_ok tar i db"
    and "\<forall>(token, off, chunk) \<in> set calls. 0 \<le> off \<and> (\<exists>n. chunk = take n (drop (nat off) tar))"
    and "db1 = fold (\<lambda>(token, off, chunk) db. fst (append_artifacts e i token off chunk db)) calls db"
    and "row_id r = i" and "ai_tar_bytes a = int (length tar)"
    and "keep_artifacts e a r db1 = (r', db2)"
  shows "staged_ok tar i db1 \<and>
    (if ai_error a = None \<and> file_text (artifact_parts db1) i = tar \<and> artifact_parts db1 i \<noteq> None \<and>
        Some (sha256_hex e tar) = ai_sha256 a \<and> int (length (ai_files a)) \<le> run_artifact_max_files e \<and>
        ai_bytes a \<le> run_artifact_max_mb e * 1024 * 1024
     then artifact_files db2 i = Some tar \<and> artifacts_sha256 r' = ai_sha256 a
     else artifact_files db2 = artifact_files db1 \<and> artifacts_error r' \<noteq> None)"
proof -
  have "staged_ok tar i (fold (\<lambda>(token, off, chunk) db. fst (append_artifacts e i token off chunk db)) calls db)"
    using assms(1,2)
  proof (induction calls arbitrary: db)
    case (Cons c calls)
    obtain token off chunk where c: "c = (token, off, chunk)" by (metis prod_cases3)
    have "0 \<le> off \<and> (\<exists>n. chunk = take n (drop (nat off) tar))"
      using Cons.prems(2) unfolding c by simp
    then have "staged_ok tar i (fst (append_artifacts e i token off chunk db))"
      using append_artifacts_staged [OF Cons.prems(1), of off chunk e token
          "fst (append_artifacts e i token off chunk db)" "snd (append_artifacts e i token off chunk db)"]
      by simp
    with Cons c show ?case by simp
  qed simp
  then have st: "staged_ok tar i db1" using assms(3) by simp
  then obtain n where n: "file_text (artifact_parts db1) i = take n tar" by (auto simp: staged_ok_def)
  have "keep_artifacts e a r db1 = (r', db2)" by fact
  then have kept: "(if ai_error a = None \<and> file_text (artifact_parts db1) i = tar \<and> artifact_parts db1 i \<noteq> None \<and>
        Some (sha256_hex e tar) = ai_sha256 a \<and> int (length (ai_files a)) \<le> run_artifact_max_files e \<and>
        ai_bytes a \<le> run_artifact_max_mb e * 1024 * 1024
     then artifact_files db2 i = Some tar \<and> artifacts_sha256 r' = ai_sha256 a
     else artifact_files db2 = artifact_files db1 \<and> artifacts_error r' \<noteq> None)"
    using n assms(4,5)
    by (cases "artifact_parts db1 i"; cases "ai_error a")
       (auto simp: keep_artifacts_def Let_def file_text_def not_less min_def split: if_splits)
  with st show ?thesis by blast
qed

theorem artifacts_intact_witness:
  "artifact_files (snd (keep_artifacts sample_env
      \<lparr>ai_files = [], ai_bytes = 0, ai_tar_bytes = 2, ai_sha256 = Some ''#ab'', ai_error = None\<rparr> owned_run
      (fold (\<lambda>(token, off, chunk) db. fst (append_artifacts sample_env 5 token off chunk db))
         [(''tok'', 0, ''a''), (''tok'', 0, ''ab'')] owned_db))) 5 = Some ''ab''"
proof -
  let ?a = "\<lparr>ai_files = [], ai_bytes = 0, ai_tar_bytes = 2, ai_sha256 = Some ''#ab'', ai_error = None\<rparr>"
  let ?calls = "[(''tok'', 0, ''a''), (''tok'', 0, ''ab'')] :: (string \<times> int \<times> string) list"
  let ?db1 = "fold (\<lambda>(token, off, chunk) db. fst (append_artifacts sample_env 5 token off chunk db)) ?calls owned_db"
  have id: "row_id owned_run = 5" by (simp add: owned_run_def blank_run_def)
  have none: "artifact_parts owned_db 5 = None" by (simp add: owned_db_def empty_db_def)
  have db1: "?db1 = owned_db\<lparr>artifact_parts := (artifact_parts owned_db)(5 \<mapsto> ''ab'')\<rparr>"
    using owned_locked by (simp add: append_artifacts_def id none Let_def file_text_def sample_env_def)
  have "\<exists>n. ''a'' = take n ''ab''" by (rule exI [of _ 1]) simp
  moreover have "\<exists>n. ''ab'' = take n ''ab''" by (rule exI [of _ 2]) simp
  moreover have "staged_ok ''ab'' 5 owned_db"
    unfolding staged_ok_def by (rule exI [of _ 0]) (simp add: file_text_def none)
  moreover have env: "sha256_hex sample_env ''ab'' = ''#ab''" "run_artifact_max_files sample_env = 200"
    "run_artifact_max_mb sample_env = 50"
    by (simp_all add: sample_env_def)
  ultimately show ?thesis
    unfolding db1
    using artifacts_intact [OF _ _ db1 [symmetric] id, of "''ab''" ?a]
    by (simp add: file_text_def split: prod.splits) (metis prod.collapse)
qed

end
