(* ===== verification/Inventory_Render.thy ===== *)
theory Inventory_Render
  imports Models
begin

text \<open>
  \<open>app/inventory_render.py\<close>: the inventory a run sees, its own (static) hosts and groups merged with
  the latest snapshot of its sources. Strings of a source are marked unsafe, so that a template in
  them is never evaluated. Two functions of Ansible (\<open>parse_address\<close> and \<open>detect_range\<close>) and the
  YAML dumper are arguments of the definitions that use them.
\<close>

section \<open>Names and variables of a source\<close>

definition INV_MAX_NAME :: nat where "INV_MAX_NAME = 255"

definition RESERVED_GROUPS :: "string list" where
  "RESERVED_GROUPS = [''all'', ''ungrouped'']"

definition word_char :: "char \<Rightarrow> bool" where
  "word_char c =
     (let n = of_char c :: nat in
      (48 \<le> n \<and> n \<le> 57) \<or> (65 \<le> n \<and> n \<le> 90) \<or> n = 95 \<or> (97 \<le> n \<and> n \<le> 122))"

text \<open>\<open>^[A-Za-z0-9_][A-Za-z0-9_.-]*$\<close> and \<open>^[A-Za-z0-9_][A-Za-z0-9_.:%-]*$\<close>, as full matches.\<close>

definition name_match :: "string \<Rightarrow> string \<Rightarrow> bool" where
  "name_match extra s =
     (case s of [] \<Rightarrow> False | c # cs \<Rightarrow> word_char c \<and> list_all (\<lambda>x. word_char x \<or> x \<in> set extra) cs)"

definition GROUP_NAME :: "string \<Rightarrow> bool" where
  "GROUP_NAME = name_match ''.-''"

definition HOSTNAME :: "string \<Rightarrow> bool" where
  "HOSTNAME = name_match ''.:%-''"

definition SOURCE_CONNECTION_VARS :: "string list" where
  "SOURCE_CONNECTION_VARS =
     [''ansible_host'', ''ansible_port'', ''ansible_user'', ''ansible_ssh_host'', ''ansible_ssh_port'',
      ''ansible_ssh_user'', ''ansible_network_os'', ''ansible_connection'']"

text \<open>In the order \<open>sorted\<close> gives, which is the one the message shows.\<close>

definition SOURCE_CONNECTIONS :: "string list" where
  "SOURCE_CONNECTIONS = [''httpapi'', ''netconf'', ''network_cli'', ''psrp'', ''ssh'', ''winrm'']"

text \<open>Testing membership in a frozenset raises \<open>TypeError\<close> on a list or a dict.\<close>

datatype py_error = TypeError | KeyError string | NoResultFound

fun hashable :: "val \<Rightarrow> bool" where
  "hashable (VList xs) = False"
| "hashable (VDict d) = False"
| "hashable v = True"

fun is_str_in :: "string list \<Rightarrow> val \<Rightarrow> bool" where
  "is_str_in ss (VStr u s) = (s \<in> set ss)"
| "is_str_in ss v = False"

definition source_var_problem :: "string \<Rightarrow> val \<Rightarrow> py_error + string option" where
  "source_var_problem key v =
     (if \<not> startswith (lower key) ''ansible_'' then Inr None
      else if key \<notin> set SOURCE_CONNECTION_VARS
      then Inr (Some ''is an Ansible setting sources may not set'')
      else if key = ''ansible_connection''
      then (if \<not> hashable v then Inl TypeError
            else if is_str_in SOURCE_CONNECTIONS v then Inr None
            else Inr (Some (''may only be one of '' @ join '', '' SOURCE_CONNECTIONS)))
      else Inr None)"

text \<open>\<open>parse_address\<close> is \<open>None\<close> where it raises.\<close>

record ansible_names =
  parse_address :: "string \<Rightarrow> (string \<times> int option) option"
  detect_range :: "string \<Rightarrow> bool"

definition hostname_problem :: "ansible_names \<Rightarrow> string \<Rightarrow> string option" where
  "hostname_problem a name =
     (if name = [] \<or> length name > INV_MAX_NAME then Some ''must be 1-255 characters''
      else if \<not> HOSTNAME name then Some ''may hold only letters, digits and . _ - : %''
      else let (pattern, port) = (case parse_address a name of None \<Rightarrow> (name, None) | Some r \<Rightarrow> r) in
           if port \<noteq> None then Some ''must not include a port (set ansible_port instead)''
           else if pattern \<noteq> name \<or> detect_range a pattern
           then Some ''would not be read as a single host name''
           else None)"

definition group_problem :: "string \<Rightarrow> string option" where
  "group_problem name =
     (if name = [] \<or> length name > INV_MAX_NAME then Some ''must be 1-255 characters''
      else if name \<in> set RESERVED_GROUPS
      then Some ([CHR 0x27] @ name @ [CHR 0x27] @ '' is reserved by ansible'')
      else if \<not> GROUP_NAME name
      then Some ''may hold only letters, digits and . _ - (not starting with . or -)''
      else None)"

section \<open>Unsafe strings\<close>

fun mark_unsafe :: "val \<Rightarrow> val" where
  "mark_unsafe (VStr u s) = VStr True s"
| "mark_unsafe (VDict d) = VDict (map (\<lambda>(k, v). ((True, snd k), mark_unsafe v)) d)"
| "mark_unsafe (VList xs) = VList (map mark_unsafe xs)"
| "mark_unsafe v = v"

definition mark_vars :: "vars \<Rightarrow> vars" where
  "mark_vars d = map (\<lambda>(k, v). ((True, snd k), mark_unsafe v)) d"

text \<open>A dictionary's keys are compared as strings; an assignment keeps the key object that is there.\<close>

fun vset :: "bool \<times> string \<Rightarrow> val \<Rightarrow> vars \<Rightarrow> vars" where
  "vset k v [] = [(k, v)]"
| "vset k v ((k', v') # d) = (if snd k' = snd k then (k', v) # d else (k', v') # vset k v d)"

definition vupdate :: "vars \<Rightarrow> vars \<Rightarrow> vars" where
  "vupdate d new = fold (\<lambda>(k, v). vset k v) new d"

fun vget :: "string \<Rightarrow> vars \<Rightarrow> val option" where
  "vget k [] = None"
| "vget k ((k', v) # d) = (if snd k' = k then Some v else vget k d)"

text \<open>A dictionary used as an ordered set of names.\<close>

definition add_names :: "string list \<Rightarrow> string list \<Rightarrow> string list" where
  "add_names = fold (\<lambda>y acc. if y \<in> set acc then acc else acc @ [y])"

section \<open>Merging\<close>

definition static_data :: "inventory \<Rightarrow> static_inv" where
  "static_data i =
     \<lparr>st_hosts = i_hosts i, st_groups = map (\<lambda>g. (ig_name g, ig_hosts g)) (i_groups i)\<rparr>"

definition quoted :: "string \<Rightarrow> string" where
  "quoted s = [CHR 0x27] @ s @ [CHR 0x27]"

definition static_problems :: "ansible_names \<Rightarrow> static_inv \<Rightarrow> string list" where
  "static_problems a st =
     concat (map (\<lambda>(h, _). case hostname_problem a h of None \<Rightarrow> []
                   | Some p \<Rightarrow> [''host '' @ quoted h @ '' '' @ p]) (st_hosts st)) @
     concat (map (\<lambda>(g, _). case group_problem g of None \<Rightarrow> []
                   | Some p \<Rightarrow> [''group '' @ quoted g @ '' '' @ p]) (st_groups st))"

fun source_vars :: "vars \<Rightarrow> py_error + vars" where
  "source_vars [] = Inr []"
| "source_vars ((k, v) # d) =
     res_bind (source_var_problem (snd k) v)
       (\<lambda>p. res_bind (source_vars d) (\<lambda>d'. Inr (if p = None then (k, v) # d' else d')))"

definition merge_host :: "string \<times> vars \<Rightarrow> py_error + (string \<times> vars)" where
  "merge_host = (\<lambda>(name, vs). res_bind (source_vars vs) (\<lambda>d. Inr (name, mark_vars d)))"

definition merge_group ::
  "static_inv \<Rightarrow> string list \<Rightarrow> string list \<Rightarrow> string \<times> graph_group \<Rightarrow> py_error + (string \<times> graph_group)" where
  "merge_group st was_static gone = (\<lambda>(name, g).
     let skip = gone @ (if name \<in> fst ` set (st_groups st) then was_static else []) in
     res_bind (source_vars (gg_vars g))
       (\<lambda>d. Inr (name, \<lparr>gg_hosts = add_names (filter (\<lambda>h. h \<notin> set skip) (gg_hosts g)) [],
                        gg_children = gg_children g, gg_vars = mark_vars d\<rparr>)))"

text \<open>What a snapshot contributes.\<close>

definition merge_snapshot :: "static_inv \<Rightarrow> snapshot_data \<Rightarrow> py_error + graph" where
  "merge_snapshot st sd =
     (let was_static = sd_static_hosts sd;
          gone = filter (\<lambda>h. h \<notin> fst ` set (st_hosts st)) was_static in
      res_bind (source_vars (gr_vars sd)) (\<lambda>vs.
      res_bind (map_res merge_host (filter (\<lambda>(n, _). n \<notin> set gone) (gr_hosts sd))) (\<lambda>hs.
      res_bind (map_res (merge_group st was_static gone) (gr_groups sd)) (\<lambda>gs.
      Inr \<lparr>gr_vars = mark_vars vs, gr_hosts = hs, gr_groups = gs\<rparr>))))"

definition static_host ::
  "string \<times> vars \<Rightarrow> (string \<times> vars) list \<Rightarrow> (string \<times> vars) list" where
  "static_host = (\<lambda>(name, vs) hosts.
     dict_set name (vupdate (case map_of hosts name of None \<Rightarrow> [] | Some d \<Rightarrow> d) vs) hosts)"

definition static_group ::
  "string \<times> string list \<Rightarrow> (string \<times> graph_group) list \<Rightarrow> (string \<times> graph_group) list" where
  "static_group = (\<lambda>(name, members) groups.
     let g = (case map_of groups name of None \<Rightarrow> \<lparr>gg_hosts = [], gg_children = [], gg_vars = []\<rparr> | Some g \<Rightarrow> g)
     in dict_set name (g\<lparr>gg_hosts := add_names members (gg_hosts g)\<rparr>) groups)"

definition merge_static :: "static_inv \<Rightarrow> graph \<Rightarrow> graph" where
  "merge_static st g =
     g\<lparr>gr_hosts := fold static_host (st_hosts st) (gr_hosts g),
       gr_groups := fold static_group (st_groups st) (gr_groups g)\<rparr>"

definition empty_graph :: graph where
  "empty_graph = \<lparr>gr_vars = [], gr_hosts = [], gr_groups = []\<rparr>"

definition merge :: "static_inv \<Rightarrow> snapshot_data option \<Rightarrow> py_error + graph" where
  "merge st snap =
     res_bind (case snap of None \<Rightarrow> Inr empty_graph | Some sd \<Rightarrow> merge_snapshot st sd)
       (\<lambda>g. Inr (merge_static st g))"

section \<open>The hosts of a group, and the rendered inventory\<close>

text \<open>The worklist of \<open>target_hosts\<close>: the top of the stack \<open>pending\<close> is the head of the list.\<close>

function target_loop :: "graph \<Rightarrow> string list \<Rightarrow> string set \<Rightarrow> string set \<Rightarrow> string set" where
  "target_loop g [] seen found = found"
| "target_loop g (name # pending) seen found =
     (if name \<in> seen then target_loop g pending seen found
      else case map_of (gr_groups g) name of
        None \<Rightarrow> target_loop g pending seen found
      | Some grp \<Rightarrow>
          target_loop g (rev (gg_children grp) @ pending) (insert name seen)
            (found \<union> set (gg_hosts grp)))"
  by pat_completeness auto

termination
proof (relation "measures [\<lambda>(g, p, s, f). card (fst ` set (gr_groups g) - s), \<lambda>(g, p, s, f). length p]")
  fix g :: graph and name pending seen found grp
  assume "name \<notin> seen" and "map_of (gr_groups g) name = Some grp"
  then have "name \<in> fst ` set (gr_groups g) - seen" by (force dest: map_of_SomeD)
  then have "fst ` set (gr_groups g) - insert name seen \<subset> fst ` set (gr_groups g) - seen" by auto
  then have "card (fst ` set (gr_groups g) - insert name seen) < card (fst ` set (gr_groups g) - seen)"
    by (intro psubset_card_mono) auto
  then show "((g, rev (gg_children grp) @ pending, insert name seen, found \<union> set (gg_hosts grp)),
      (g, name # pending, seen, found))
    \<in> measures [\<lambda>(g, p, s, f). card (fst ` set (gr_groups g) - s), \<lambda>(g, p, s, f). length p]"
    by simp
qed auto

definition target_hosts :: "graph \<Rightarrow> string \<Rightarrow> py_error + string set" where
  "target_hosts g root =
     (if root \<notin> fst ` set (gr_groups g) then Inl (KeyError root) else Inr (target_loop g [root] {} {}))"

text \<open>\<open>{name: None for name in names}\<close>, and a key left out when its value is empty.\<close>

definition names_dict :: "string list \<Rightarrow> val" where
  "names_dict names = VDict (map (\<lambda>h. (vkey h, VNone)) (add_names names []))"

definition entry_unless :: "bool \<Rightarrow> string \<Rightarrow> val \<Rightarrow> vars" where
  "entry_unless blank k v = (if blank then [] else [(vkey k, v)])"

definition dict_or_none :: "vars \<Rightarrow> val" where
  "dict_or_none d = (if d = [] then VNone else VDict d)"

definition render_group :: "(string \<Rightarrow> bool) \<Rightarrow> string \<times> graph_group \<Rightarrow> (bool \<times> string) \<times> val" where
  "render_group wanted = (\<lambda>(name, g).
     let hosts = filter wanted (gg_hosts g) in
     (vkey name, dict_or_none
        (entry_unless (hosts = []) ''hosts'' (names_dict hosts) @
         entry_unless (gg_children g = []) ''children'' (names_dict (gg_children g)) @
         entry_unless (gg_vars g = []) ''vars'' (VDict (gg_vars g)))))"

definition render_block :: "graph \<Rightarrow> (string \<Rightarrow> bool) \<Rightarrow> val" where
  "render_block g wanted =
     (let hosts = filter (\<lambda>(h, _). wanted h) (gr_hosts g) in
      VDict [(vkey ''all'', dict_or_none
        (entry_unless (gr_vars g = []) ''vars'' (VDict (gr_vars g)) @
         entry_unless (hosts = []) ''hosts'' (VDict (map (\<lambda>(h, vs). (vkey h, dict_or_none vs)) hosts)) @
         entry_unless (gr_groups g = []) ''children'' (VDict (map (render_group wanted) (gr_groups g)))))])"

definition render :: "(val \<Rightarrow> string) \<Rightarrow> graph \<Rightarrow> string option \<Rightarrow> py_error + string" where
  "render dump g target =
     (case target of
        None \<Rightarrow> Inr (dump (render_block g (\<lambda>_. True)))
      | Some t \<Rightarrow> res_bind (target_hosts g t) (\<lambda>keep. Inr (dump (render_block g (\<lambda>h. h \<in> keep)))))"

definition all_vars_dicts :: "graph \<Rightarrow> vars list" where
  "all_vars_dicts g = gr_vars g # map snd (gr_hosts g) @ map (gg_vars \<circ> snd) (gr_groups g)"

end
