(* ===== verification/Json_Limits.thy ===== *)
theory Json_Limits
  imports Prelude
begin

text \<open>
  \<open>app/json_limits.py\<close>: how deeply a JSON text nests, found by a linear scan before the parser runs.
  The parser itself (\<open>json.loads\<close>) is the argument \<open>loads\<close>, \<open>None\<close> where it raises.
\<close>

text \<open>
  \<open>_STRINGS\<close>: the rest of the text after the string whose opening quote was just read. A backslash
  takes the next character with it; an unterminated string runs to the end.
\<close>

fun skip_string :: "string \<Rightarrow> string" where
  "skip_string [] = []"
| "skip_string (c # cs) =
     (if c = CHR 0x22 then cs
      else if c = CHR 0x5C then (case cs of [] \<Rightarrow> [] | _ # rest \<Rightarrow> skip_string rest)
      else skip_string cs)"

lemma length_skip_string: "length (skip_string s) \<le> length s"
proof (induction s rule: skip_string.induct)
  case (2 c cs)
  show ?case
  proof (cases "c = CHR 0x22 \<or> c \<noteq> CHR 0x5C")
    case True
    then show ?thesis using 2(2) by (auto intro: le_SucI)
  next
    case False
    then show ?thesis using 2(1) by (cases cs) (auto intro: le_SucI simp del: skip_string.simps(2) simp: skip_string.simps(2) [of "CHR 0x5C"])
  qed
qed simp

function strip_strings :: "string \<Rightarrow> string" where
  "strip_strings [] = []"
| "strip_strings (c # cs) =
     (if c = CHR 0x22 then strip_strings (skip_string cs) else c # strip_strings cs)"
  by pat_completeness auto

termination
  by (relation "measure length") (auto simp: le_imp_less_Suc length_skip_string)

definition bracket_delta :: "char \<Rightarrow> int" where
  "bracket_delta c =
     (if c = CHR ''['' \<or> c = CHR ''{'' then 1 else if c = CHR '']'' \<or> c = CHR ''}'' then -1 else 0)"

text \<open>The maximum of the running sums, starting with 0 (characters other than brackets add nothing).\<close>

fun deepest :: "int \<Rightarrow> int \<Rightarrow> string \<Rightarrow> int" where
  "deepest best level [] = best"
| "deepest best level (c # cs) =
     (let level' = level + bracket_delta c in deepest (max best level') level' cs)"

definition nesting_depth :: "string \<Rightarrow> int" where
  "nesting_depth raw = deepest 0 0 (strip_strings raw)"

datatype 'a loaded = TooDeep | NotJson | Loaded 'a

definition loads_bounded :: "(string \<Rightarrow> 'a option) \<Rightarrow> string \<Rightarrow> int \<Rightarrow> 'a loaded" where
  "loads_bounded loads raw max_depth =
     (if nesting_depth raw > max_depth then TooDeep
      else case loads raw of None \<Rightarrow> NotJson | Some v \<Rightarrow> Loaded v)"

section \<open>The depth of a text is the depth of its value\<close>

text \<open>
  A JSON text of a value, the way \<open>json.dumps\<close> writes it up to the escapes it uses: \<open>esc\<close> gives what
  stands for a character inside a string, and \<open>num\<close> the text of a number.
\<close>

fun json_text :: "(char \<Rightarrow> string) \<Rightarrow> (val \<Rightarrow> string) \<Rightarrow> val \<Rightarrow> string" where
  "json_text esc num VNone = ''null''"
| "json_text esc num (VBool b) = (if b then ''true'' else ''false'')"
| "json_text esc num (VInt i) = num (VInt i)"
| "json_text esc num (VFloat t) = num (VFloat t)"
| "json_text esc num (VStr u s) = CHR 0x22 # concat (map esc s) @ [CHR 0x22]"
| "json_text esc num (VList xs) = CHR ''['' # join '', '' (map (json_text esc num) xs) @ '']''"
| "json_text esc num (VDict d) =
     CHR ''{'' # join '', '' (map (\<lambda>(k, v). CHR 0x22 # concat (map esc (snd k)) @ CHR 0x22 # '': '' @
        json_text esc num v) d) @ ''}''"

fun depth_of :: "val \<Rightarrow> int" where
  "depth_of (VList xs) = 1 + foldr max (map depth_of xs) 0"
| "depth_of (VDict d) = 1 + foldr max (map (\<lambda>(k, v). depth_of v) d) 0"
| "depth_of v = 0"

text \<open>An escape: a backslash and one character, or characters that end no string.\<close>

definition escapes :: "(char \<Rightarrow> string) \<Rightarrow> bool" where
  "escapes esc = (\<forall>c. (\<exists>x t. esc c = CHR 0x5C # x # t \<and> CHR 0x22 \<notin> set t \<and> CHR 0x5C \<notin> set t) \<or>
     (CHR 0x22 \<notin> set (esc c) \<and> CHR 0x5C \<notin> set (esc c)))"

lemma skip_plain:
  "CHR 0x22 \<notin> set t \<Longrightarrow> CHR 0x5C \<notin> set t \<Longrightarrow> skip_string (t @ s) = skip_string s"
  by (induction t) auto

lemma skip_escaped: "escapes esc \<Longrightarrow> skip_string (concat (map esc s) @ CHR 0x22 # r) = r"
proof (induction s)
  case (Cons c s)
  from Cons.prems consider (esc) x t where "esc c = CHR 0x5C # x # t" "CHR 0x22 \<notin> set t" "CHR 0x5C \<notin> set t"
    | (plain) "CHR 0x22 \<notin> set (esc c)" "CHR 0x5C \<notin> set (esc c)"
    unfolding escapes_def by blast
  then show ?case using Cons by cases (simp_all add: skip_plain)
qed simp

text \<open>How a piece of text changes the level and the deepest level.\<close>

definition flat :: "string \<Rightarrow> bool" where
  "flat t = (CHR 0x22 \<notin> set t \<and> list_all (\<lambda>c. bracket_delta c = 0) t)"

lemma strip_flat: "flat t \<Longrightarrow> strip_strings (t @ s) = t @ strip_strings s"
  by (induction t) (auto simp: flat_def)

lemma deepest_flat: "flat t \<Longrightarrow> level \<le> best \<Longrightarrow> deepest best level (t @ s) = deepest best level s"
  by (induction t) (auto simp: flat_def)

definition balanced :: "string \<Rightarrow> int \<Rightarrow> bool" where
  "balanced t d = (\<forall>best level s. level \<le> best \<longrightarrow>
     deepest best level (strip_strings (t @ s)) = deepest (max best (level + d)) level (strip_strings s))"

lemma balancedD:
  "balanced t d \<Longrightarrow> level \<le> best \<Longrightarrow>
   deepest best level (strip_strings (t @ s)) = deepest (max best (level + d)) level (strip_strings s)"
  by (simp add: balanced_def)

lemma balanced_flat: "flat t \<Longrightarrow> balanced t 0"
  by (simp add: balanced_def strip_flat deepest_flat max_absorb1)

lemma balanced_append: "balanced s a \<Longrightarrow> balanced t b \<Longrightarrow> balanced (s @ t) (max a b)"
  by (simp add: balanced_def max.assoc) (simp add: max_add_distrib_right max.assoc)

lemma balanced_string: "escapes esc \<Longrightarrow> balanced (CHR 0x22 # concat (map esc s) @ [CHR 0x22]) 0"
  by (simp add: balanced_def skip_escaped max_absorb1)

lemma flat_sep: "flat '', ''" "flat '': ''" "flat ''null''" "flat ''true''" "flat ''false''"
  by (auto simp: flat_def bracket_delta_def)

lemma foldr_max_nonneg: "0 \<le> foldr max (map g xs) (0 :: int)"
  by (induction xs) auto

lemma balanced_join:
  assumes "\<And>x. x \<in> set xs \<Longrightarrow> balanced (f x) (g x)" and "\<And>x. x \<in> set xs \<Longrightarrow> 0 \<le> g x"
  shows "balanced (join '', '' (map f xs)) (foldr max (map g xs) 0)"
  using assms
proof (induction xs rule: induct_list012)
  case (2 x)
  then show ?case by (simp add: max_absorb1)
next
  case (3 x y zs)
  let ?rest = "foldr max (map g (y # zs)) 0"
  have "balanced (f x @ '', '' @ join '', '' (map f (y # zs))) (max (g x) (max 0 ?rest))"
    using 3 by (intro balanced_append balanced_flat flat_sep) auto
  moreover have "max 0 ?rest = ?rest" by (rule max_absorb2) (rule foldr_max_nonneg)
  ultimately show ?case by simp
qed (simp add: balanced_flat flat_def)

lemma balanced_bracket:
  assumes "balanced t d" and "0 \<le> d" and "bracket_delta a = 1" "bracket_delta z = -1" "a \<noteq> CHR 0x22" "z \<noteq> CHR 0x22"
  shows "balanced (a # t @ [z]) (1 + d)"
  unfolding balanced_def
proof (intro allI impI)
  fix best level :: int and s
  assume "level \<le> best"
  have "deepest best level (strip_strings ((a # t @ [z]) @ s)) =
      deepest (max best (level + 1)) (level + 1) (strip_strings (t @ z # s))"
    using assms(3,5) by (simp add: Let_def)
  also have "\<dots> = deepest (max (max best (level + 1)) (level + 1 + d)) (level + 1) (strip_strings (z # s))"
    by (rule balancedD [OF assms(1)]) simp
  also have "\<dots> = deepest (max best (level + (1 + d))) level (strip_strings s)"
    using assms(2,4,6) \<open>level \<le> best\<close> by (simp add: Let_def max_def add.assoc)
  finally show "deepest best level (strip_strings ((a # t @ [z]) @ s)) =
      deepest (max best (level + (1 + d))) level (strip_strings s)" .
qed

lemma depth_nonneg: "0 \<le> depth_of v"
  by (cases v) (simp_all add: foldr_max_nonneg)

lemma balanced_json:
  assumes "escapes esc" and "\<And>i. flat (num i)"
  shows "balanced (json_text esc num v) (depth_of v)"
proof (induction v)
  case (VList xs)
  then have "balanced (join '', '' (map (json_text esc num) xs)) (foldr max (map depth_of xs) 0)"
    by (intro balanced_join depth_nonneg)
  then show ?case
    using balanced_bracket [of "join '', '' (map (json_text esc num) xs)"] by (simp add: bracket_delta_def foldr_max_nonneg)
next
  case (VDict d)
  let ?text = "\<lambda>kv. CHR 0x22 # concat (map esc (snd (fst kv))) @ CHR 0x22 # '': '' @ json_text esc num (snd kv)"
  have "balanced (?text kv) (depth_of (snd kv))" if kv: "kv \<in> set d" for kv
  proof -
    have "balanced (json_text esc num (snd kv)) (depth_of (snd kv))"
      using VDict [of kv "snd kv"] kv by (cases kv) auto
    then have "balanced ((CHR 0x22 # concat (map esc (snd (fst kv))) @ [CHR 0x22]) @ '': '' @ json_text esc num (snd kv))
        (max 0 (max 0 (depth_of (snd kv))))"
      by (intro balanced_append balanced_string balanced_flat flat_sep assms(1))
    then show ?thesis by (simp add: max_absorb2 depth_nonneg)
  qed
  then have "balanced (join '', '' (map ?text d)) (foldr max (map (\<lambda>kv. depth_of (snd kv)) d) 0)"
    by (intro balanced_join depth_nonneg)
  then have "balanced (CHR ''{'' # join '', '' (map ?text d) @ [CHR ''}''])
      (1 + foldr max (map (\<lambda>kv. depth_of (snd kv)) d) 0)"
    by (rule balanced_bracket) (simp_all add: bracket_delta_def foldr_max_nonneg)
  then show ?case by (simp add: case_prod_unfold)
qed (use assms balanced_flat flat_sep balanced_string in \<open>auto\<close>)

text \<open>
  C34. The scan finds exactly how deeply a JSON text nests: for a text written from a value (with any
  escaping of strings and any spelling of numbers without brackets or quotes), brackets inside
  strings not counting, it is the depth of the value. So the parser is reached only for values within
  the bound.
\<close>

theorem nesting_depth_exact:
  assumes "escapes esc" and "\<forall>i. flat (num i)"
  shows "nesting_depth (json_text esc num v) = depth_of v \<and>
    (loads_bounded loads (json_text esc num v) n = TooDeep \<longleftrightarrow> n < depth_of v)"
proof -
  have "balanced (json_text esc num v) (depth_of v)" using assms by (intro balanced_json) auto
  from balancedD [OF this, of 0 0 "[]"]
  have "nesting_depth (json_text esc num v) = depth_of v"
    by (simp add: nesting_depth_def max_absorb2 depth_nonneg)
  then show ?thesis by (simp add: loads_bounded_def split: option.split)
qed

definition sample_esc :: "char \<Rightarrow> string" where
  "sample_esc c = (if c = CHR 0x22 \<or> c = CHR 0x5C then [CHR 0x5C, c] else [c])"

theorem nesting_depth_exact_witness:
  "nesting_depth (json_text sample_esc (\<lambda>_. ''7'') (VList [VInt 7, VDict [(vkey ''a'', Str ''[[['')]])) = 2"
proof -
  let ?v = "VList [VInt 7, VDict [(vkey ''a'', Str ''[[['')]]"
  have e: "escapes sample_esc" by (auto simp: escapes_def sample_esc_def)
  have f: "\<forall>i :: val. flat ''7''" by (simp add: flat_def bracket_delta_def)
  have d: "depth_of ?v = 2" by simp
  show ?thesis using conjunct1 [OF nesting_depth_exact [OF e f, of ?v]] by (simp only: d)
qed

end
