(* ===== verification/Inventory_Output.thy ===== *)
theory Inventory_Output
  imports Inventory_Render Host_Keys Json_Limits
begin

text \<open>
  The output of an inventory plugin (\<open>ansible-inventory --list --export\<close>) as data: the section
  \<open>the output\<close> of \<open>app/inventory_sources.py\<close>. A failure is either a \<open>SourceError\<close>, which the callers
  turn into the refresh's error, or an exception they do not catch.
\<close>

definition MAX_VARS_DEPTH :: nat where "MAX_VARS_DEPTH = 32"
definition MAX_EDGES :: nat where "MAX_EDGES = 200000"
definition MAX_WARNINGS :: nat where "MAX_WARNINGS = 20"

datatype source_failure = SourceError string | Crash py_error

definition unexpected :: string where
  "unexpected = ''unexpected output from ansible-inventory''"

definition warn :: "string \<Rightarrow> string list \<Rightarrow> string list" where
  "warn message warnings =
     (if length warnings < MAX_WARNINGS then warnings @ [take 300 message]
      else if length warnings = MAX_WARNINGS then warnings @ [ellipsis @ '' more warnings not shown'']
      else warnings)"

section \<open>Variables\<close>

datatype unwrap_failure = Vaulted | Bad string

definition too_deep_message :: string where
  "too_deep_message = ''a value is nested deeper than '' @ show_nat MAX_VARS_DEPTH @ '' levels''"

fun unwrap :: "nat \<Rightarrow> val \<Rightarrow> unwrap_failure + val" where
  "unwrap depth (VDict d) =
     (if depth > MAX_VARS_DEPTH then Inl (Bad too_deep_message)
      else if vget ''__ansible_vault'' d \<noteq> None then Inl Vaulted
      else if length d = 1 \<and> vget ''__ansible_unsafe'' d \<noteq> None
      then (case vget ''__ansible_unsafe'' d of Some (VStr u s) \<Rightarrow> Inr (VStr u s) | _ \<Rightarrow> Inl (Bad unexpected))
      else res_bind (map_res (\<lambda>(k, v). res_bind (unwrap (Suc depth) v) (\<lambda>w. Inr (k, w))) d)
             (\<lambda>d'. Inr (VDict d')))"
| "unwrap depth (VList xs) =
     (if depth > MAX_VARS_DEPTH then Inl (Bad too_deep_message)
      else res_bind (map_res (unwrap (Suc depth)) xs) (\<lambda>ys. Inr (VList ys)))"
| "unwrap depth v = (if depth > MAX_VARS_DEPTH then Inl (Bad too_deep_message) else Inr v)"

fun parse_items :: "string \<Rightarrow> vars \<Rightarrow> vars \<Rightarrow> string list \<Rightarrow> source_failure + (vars \<times> string list)" where
  "parse_items place [] out warnings = Inr (out, warnings)"
| "parse_items place ((k, item) # d) out warnings =
     (case unwrap 1 item of
        Inl (Bad m) \<Rightarrow> Inl (SourceError m)
      | Inl Vaulted \<Rightarrow>
          parse_items place d out
            (warn (place @ '': dropped '' @ snd k @ '', a vault-encrypted value'') warnings)
      | Inr v \<Rightarrow> parse_items place d (vset k v out) warnings)"

fun parse_vars :: "val \<Rightarrow> string \<Rightarrow> string list \<Rightarrow> source_failure + (vars \<times> string list)" where
  "parse_vars (VDict d) place warnings = parse_items place d [] warnings"
| "parse_vars v place warnings = Inl (SourceError (place @ '': vars must be a mapping''))"

fun filter_vars ::
  "string \<Rightarrow> bool \<Rightarrow> vars \<Rightarrow> string list \<Rightarrow> source_failure + (vars \<times> string list)" where
  "filter_vars place quiet [] warnings = Inr ([], warnings)"
| "filter_vars place quiet ((k, item) # d) warnings =
     (case source_var_problem (snd k) item of
        Inl e \<Rightarrow> Inl (Crash e)
      | Inr (Some problem) \<Rightarrow>
          filter_vars place quiet d
            (if quiet then warnings
             else warn (place @ '': dropped '' @ take 100 (snd k) @ '': it '' @ problem) warnings)
      | Inr None \<Rightarrow>
          res_bind (filter_vars place quiet d warnings) (\<lambda>(out, w). Inr ((k, item) # out, w)))"

section \<open>Names\<close>

fun string_list :: "val list \<Rightarrow> string list option" where
  "string_list [] = Some []"
| "string_list (VStr u s # xs) = map_option ((#) s) (string_list xs)"
| "string_list _ = None"

fun names_of :: "val \<Rightarrow> source_failure + string list" where
  "names_of VNone = Inr []"
| "names_of (VList xs) =
     (case string_list xs of None \<Rightarrow> Inl (SourceError unexpected) | Some ns \<Rightarrow> Inr ns)"
| "names_of v = Inl (SourceError unexpected)"

section \<open>Cycles of groups\<close>

definition children_of :: "(string \<times> graph_group) list \<Rightarrow> string \<Rightarrow> string list" where
  "children_of gs n = (case map_of gs n of None \<Rightarrow> [] | Some g \<Rightarrow> gg_children g)"

text \<open>
  The depth-first search of \<open>_refuse_cycles\<close> from one root: \<open>state\<close> maps a name on the current path
  to 1 and a finished one to 2, a frame of the stack holds the children still to visit.
\<close>

function visit ::
  "(string \<times> graph_group) list \<Rightarrow> (string \<rightharpoonup> nat) \<Rightarrow> (string \<times> string list) list \<Rightarrow>
   source_failure + (string \<rightharpoonup> nat)" where
  "visit gs state [] = Inr state"
| "visit gs state ((name, []) # stack) = visit gs (state(name \<mapsto> 2)) stack"
| "visit gs state ((name, child # rest) # stack) =
     (if state child = Some 1
      then Inl (SourceError (''group '' @ py_repr child @ '' contains itself''))
      else if state child \<noteq> None then visit gs state ((name, rest) # stack)
      else case map_of gs child of
        None \<Rightarrow> Inl (Crash (KeyError child))
      | Some g \<Rightarrow>
          visit gs (state(child \<mapsto> 1)) ((child, gg_children g) # (name, rest) # stack))"
  by pat_completeness auto

termination
proof (relation "measures [\<lambda>(gs, st, stack). card (fst ` set gs - dom st),
    \<lambda>(gs, st, stack). sum_list (map (\<lambda>f. Suc (length (snd f))) stack)]")
  fix gs :: "(string \<times> graph_group) list" and st :: "string \<rightharpoonup> nat" and name stack
  have "fst ` set gs - dom (st(name \<mapsto> 2)) \<subseteq> fst ` set gs - dom st" by auto
  then have "card (fst ` set gs - dom (st(name \<mapsto> 2))) \<le> card (fst ` set gs - dom st)"
    by (rule card_mono [rotated]) simp
  then show "((gs, st(name \<mapsto> 2), stack), gs, st, (name, []) # stack) \<in>
    measures [\<lambda>(gs, st, stack). card (fst ` set gs - dom st),
      \<lambda>(gs, st, stack). sum_list (map (\<lambda>f. Suc (length (snd f))) stack)]"
    by (auto simp: le_less)
next
  fix gs :: "(string \<times> graph_group) list" and st :: "string \<rightharpoonup> nat" and name child rest stack g
  assume "\<not> st child \<noteq> None" and "map_of gs child = Some g"
  then have "child \<in> fst ` set gs - dom st" by (force dest: map_of_SomeD)
  then have "fst ` set gs - dom (st(child \<mapsto> 1)) \<subset> fst ` set gs - dom st" by auto
  then have "card (fst ` set gs - dom (st(child \<mapsto> 1))) < card (fst ` set gs - dom st)"
    by (rule psubset_card_mono [rotated]) simp
  then show "((gs, st(child \<mapsto> 1), (child, gg_children g) # (name, rest) # stack),
      gs, st, (name, child # rest) # stack) \<in>
    measures [\<lambda>(gs, st, stack). card (fst ` set gs - dom st),
      \<lambda>(gs, st, stack). sum_list (map (\<lambda>f. Suc (length (snd f))) stack)]"
    by simp
qed auto

fun visit_roots ::
  "(string \<times> graph_group) list \<Rightarrow> string list \<Rightarrow> (string \<rightharpoonup> nat) \<Rightarrow> source_failure + (string \<rightharpoonup> nat)" where
  "visit_roots gs [] state = Inr state"
| "visit_roots gs (root # roots) state =
     (if state root \<noteq> None then visit_roots gs roots state
      else res_bind (visit gs (state(root \<mapsto> 1)) [(root, children_of gs root)]) (visit_roots gs roots))"

definition refuse_cycles :: "(string \<times> graph_group) list \<Rightarrow> source_failure + unit" where
  "refuse_cycles gs = res_bind (visit_roots gs (map fst gs) Map.empty) (\<lambda>_. Inr ())"

section \<open>The output\<close>

record parse_state =
  ps_hosts :: "(string \<times> vars) list"
  ps_skipped :: "string list"
  ps_warnings :: "string list"

definition add_host ::
  "env \<Rightarrow> ansible_names \<Rightarrow> string \<Rightarrow> parse_state \<Rightarrow> source_failure + (bool \<times> parse_state)" where
  "add_host e a name ps =
     (if name \<in> fst ` set (ps_hosts ps) then Inr (True, ps)
      else if name \<in> set (ps_skipped ps) then Inr (False, ps)
      else case hostname_problem a name of
        Some problem \<Rightarrow>
          Inr (False, ps\<lparr>ps_skipped := name # ps_skipped ps,
            ps_warnings := warn (''skipped host '' @ py_repr (take 100 name) @ '': its name '' @ problem) (ps_warnings ps)\<rparr>)
      | None \<Rightarrow>
          if int (length (ps_hosts ps)) \<ge> inventory_max_hosts e
          then Inl (SourceError (''more than '' @ show_int (inventory_max_hosts e) @ '' hosts''))
          else Inr (True, ps\<lparr>ps_hosts := ps_hosts ps @ [(name, [])]\<rparr>))"

fun add_hosts ::
  "env \<Rightarrow> ansible_names \<Rightarrow> string list \<Rightarrow> parse_state \<Rightarrow> source_failure + (string list \<times> parse_state)" where
  "add_hosts e a [] ps = Inr ([], ps)"
| "add_hosts e a (n # ns) ps =
     res_bind (add_host e a n ps) (\<lambda>(ok, ps1).
     res_bind (add_hosts e a ns ps1) (\<lambda>(kept, ps2). Inr (if ok then n # kept else kept, ps2)))"

fun parse_hostvars ::
  "env \<Rightarrow> ansible_names \<Rightarrow> vars \<Rightarrow> parse_state \<Rightarrow> source_failure + parse_state" where
  "parse_hostvars e a [] ps = Inr ps"
| "parse_hostvars e a ((k, vs) # d) ps =
     res_bind (add_host e a (snd k) ps) (\<lambda>(ok, ps1).
       if ok then res_bind (parse_vars vs (''host '' @ snd k) (ps_warnings ps1)) (\<lambda>(out, w).
            parse_hostvars e a d (ps1\<lparr>ps_hosts := dict_set (snd k) out (ps_hosts ps1), ps_warnings := w\<rparr>))
       else parse_hostvars e a d ps1)"

text \<open>\<open>group.get(key)\<close> and \<open>group.get("vars") or {}\<close>.\<close>

definition get_or_none :: "string \<Rightarrow> vars \<Rightarrow> val" where
  "get_or_none k d = (case vget k d of None \<Rightarrow> VNone | Some v \<Rightarrow> v)"

definition get_or_dict :: "string \<Rightarrow> vars \<Rightarrow> val" where
  "get_or_dict k d = (if truthy (get_or_none k d) then get_or_none k d else VDict [])"

fun collect_groups ::
  "env \<Rightarrow> ansible_names \<Rightarrow> vars \<Rightarrow> vars \<Rightarrow> (string \<times> vars) list \<Rightarrow> parse_state \<Rightarrow>
   source_failure + (vars \<times> (string \<times> vars) list \<times> parse_state)" where
  "collect_groups e a [] all_vars raw ps = Inr (all_vars, raw, ps)"
| "collect_groups e a ((k, VDict grp) # d) all_vars raw ps =
     (if snd k = ''all''
      then res_bind (parse_vars (get_or_dict ''vars'' grp) ''group all'' (ps_warnings ps)) (\<lambda>(vs, w).
             collect_groups e a d vs raw (ps\<lparr>ps_warnings := w\<rparr>))
      else if snd k = ''ungrouped''
      then res_bind (names_of (get_or_none ''hosts'' grp)) (\<lambda>ns.
           res_bind (add_hosts e a ns ps) (\<lambda>(_, ps1). collect_groups e a d all_vars raw ps1))
      else case group_problem (snd k) of
        Some problem \<Rightarrow>
          collect_groups e a d all_vars raw
            (ps\<lparr>ps_warnings := warn (''skipped group '' @ py_repr (take 100 (snd k)) @ '': its name '' @ problem)
                                (ps_warnings ps)\<rparr>)
      | None \<Rightarrow> collect_groups e a d all_vars (raw @ [(snd k, grp)]) ps)"
| "collect_groups e a (_ # d) all_vars raw ps = Inl (SourceError unexpected)"

fun parse_groups ::
  "env \<Rightarrow> ansible_names \<Rightarrow> string list \<Rightarrow> (string \<times> vars) list \<Rightarrow> nat \<Rightarrow> (string \<times> graph_group) list \<Rightarrow>
   parse_state \<Rightarrow> source_failure + ((string \<times> graph_group) list \<times> parse_state)" where
  "parse_groups e a known [] edges groups ps = Inr (groups, ps)"
| "parse_groups e a known ((name, grp) # raw) edges groups ps =
     res_bind (names_of (get_or_none ''hosts'' grp)) (\<lambda>ns.
     res_bind (add_hosts e a ns ps) (\<lambda>(members, ps1).
     res_bind (names_of (get_or_none ''children'' grp)) (\<lambda>cs.
       let children = filter (\<lambda>c. c \<in> set known) cs;
           edges' = edges + length members + length children in
       if edges' > MAX_EDGES
       then Inl (SourceError (''more than '' @ show_nat MAX_EDGES @ '' group memberships''))
       else res_bind (parse_vars (get_or_dict ''vars'' grp) (''group '' @ name) (ps_warnings ps1)) (\<lambda>(vs, w).
         parse_groups e a known raw edges'
           (groups @ [(name, \<lparr>gg_hosts = add_names members [], gg_children = add_names children [], gg_vars = vs\<rparr>)])
           (ps1\<lparr>ps_warnings := w\<rparr>)))))"

text \<open>The body of \<open>parse_output\<close> after the text was loaded.\<close>

definition parse_data ::
  "env \<Rightarrow> ansible_names \<Rightarrow> vars \<Rightarrow> source_failure + (graph \<times> string list)" where
  "parse_data e a data =
     (case vget ''_meta'' data of
        Some (VDict meta) \<Rightarrow>
          if \<not> is_str_in [''inventory_legacy''] (get_or_none ''profile'' meta)
          then Inl (SourceError ''unexpected output format from ansible-inventory'')
          else (case get_or_dict ''hostvars'' meta of
            VDict hostvars \<Rightarrow>
              res_bind (parse_hostvars e a hostvars \<lparr>ps_hosts = [], ps_skipped = [], ps_warnings = []\<rparr>) (\<lambda>ps1.
              res_bind (collect_groups e a (filter (\<lambda>kv. snd (fst kv) \<noteq> ''_meta'') data) [] [] ps1)
                (\<lambda>(all_vars, raw, ps2).
                  if int (length raw) > inventory_max_groups e
                  then Inl (SourceError (''more than '' @ show_int (inventory_max_groups e) @ '' groups''))
                  else res_bind (parse_groups e a (map fst raw) raw 0 [] ps2) (\<lambda>(groups, ps3).
                       res_bind (refuse_cycles groups) (\<lambda>_.
                         Inr (\<lparr>gr_vars = all_vars, gr_hosts = ps_hosts ps3, gr_groups = groups\<rparr>, ps_warnings ps3)))))
          | _ \<Rightarrow> Inl (SourceError unexpected))
      | Some _ \<Rightarrow> Inl (SourceError unexpected)
      | None \<Rightarrow> Inl (SourceError ''unexpected output format from ansible-inventory''))"

definition parse_output ::
  "env \<Rightarrow> ansible_names \<Rightarrow> (string \<Rightarrow> val option) \<Rightarrow> string \<Rightarrow> source_failure + (graph \<times> string list)" where
  "parse_output e a loads raw =
     (if int (length raw) > inventory_max_output_mb e * 1024 * 1024
      then Inl (SourceError (''the output is larger than '' @ show_int (inventory_max_output_mb e) @ '' MiB''))
      else case loads_bounded loads raw (int MAX_VARS_DEPTH + 8) of
        TooDeep \<Rightarrow> Inl (SourceError too_deep_message)
      | NotJson \<Rightarrow> Inl (SourceError ''the output is not valid JSON'')
      | Loaded (VDict data) \<Rightarrow> parse_data e a data
      | Loaded _ \<Rightarrow> Inl (SourceError unexpected))"

section \<open>The snapshot\<close>

fun filter_hosts ::
  "string list \<Rightarrow> (string \<times> vars) list \<Rightarrow> string list \<Rightarrow> source_failure + ((string \<times> vars) list \<times> string list)" where
  "filter_hosts static [] w = Inr ([], w)"
| "filter_hosts static ((n, vs) # hs) w =
     res_bind (filter_vars (''host '' @ n) (n \<in> set static) vs w) (\<lambda>(out, w1).
     res_bind (filter_hosts static hs w1) (\<lambda>(rest, w2). Inr ((n, out) # rest, w2)))"

fun filter_groups ::
  "(string \<times> graph_group) list \<Rightarrow> string list \<Rightarrow> source_failure + ((string \<times> graph_group) list \<times> string list)" where
  "filter_groups [] w = Inr ([], w)"
| "filter_groups ((n, g) # gs) w =
     res_bind (filter_vars (''group '' @ n) False (gg_vars g) w) (\<lambda>(out, w1).
     res_bind (filter_groups gs w1) (\<lambda>(rest, w2). Inr ((n, g\<lparr>gg_vars := out\<rparr>) # rest, w2)))"

definition filter_graph ::
  "graph \<Rightarrow> string list \<Rightarrow> string list \<Rightarrow> source_failure + (snapshot_data \<times> string list)" where
  "filter_graph g static w =
     res_bind (filter_vars ''group all'' False (gr_vars g) w) (\<lambda>(vs, w1).
     res_bind (filter_hosts static (gr_hosts g) w1) (\<lambda>(hs, w2).
     res_bind (filter_groups (gr_groups g) w2) (\<lambda>(gs, w3).
       Inr (\<lparr>gr_vars = vs, gr_hosts = hs, gr_groups = gs, sd_static_hosts = static\<rparr>, w3))))"

definition normalise ::
  "env \<Rightarrow> ansible_names \<Rightarrow> (string \<Rightarrow> val option) \<Rightarrow> string \<Rightarrow> string list \<Rightarrow>
   source_failure + (snapshot_data \<times> string list)" where
  "normalise e a loads raw static =
     res_bind (parse_output e a loads raw) (\<lambda>(g, w). filter_graph g static w)"

end
