(* ===== verification/Inventory_Facts.thy ===== *)
theory Inventory_Facts
  imports Inventory_Render
begin

text \<open>
  What the merged inventory guarantees: nothing a source wrote is ever templated or sets an Ansible
  setting beyond the connection variables, the inventory's own data wins, and a target group's hosts
  are those of the groups below it.
\<close>

section \<open>Unsafe values\<close>

text \<open>Every string in the value is marked.\<close>

fun all_unsafe :: "val \<Rightarrow> bool" where
  "all_unsafe (VStr u s) = u"
| "all_unsafe (VDict d) = list_all (\<lambda>(k, v). fst k \<and> all_unsafe v) d"
| "all_unsafe (VList xs) = list_all all_unsafe xs"
| "all_unsafe v = True"

lemma all_unsafe_mark [simp]: "all_unsafe (mark_unsafe v)"
proof (induction v rule: mark_unsafe.induct)
  case (2 d)
  then show ?case by (auto simp: list_all_iff)
qed (auto simp: list_all_iff)

text \<open>A variable a source may contribute.\<close>

definition source_var_ok :: "(bool \<times> string) \<times> val \<Rightarrow> bool" where
  "source_var_ok kv =
     (fst (fst kv) \<and> all_unsafe (snd kv) \<and>
      (startswith (lower (snd (fst kv))) ''ansible_'' \<longrightarrow>
         snd (fst kv) \<in> set SOURCE_CONNECTION_VARS \<and>
         (snd (fst kv) = ''ansible_connection'' \<longrightarrow> is_str_in SOURCE_CONNECTIONS (snd kv))))"

lemma is_str_in_mark [simp]: "is_str_in ss (mark_unsafe v) = is_str_in ss v"
  by (cases v) auto

lemma source_var_problem_None:
  assumes "source_var_problem (snd k) v = Inr None"
  shows "source_var_ok ((True, snd k), mark_unsafe v)"
  using assms by (auto simp: source_var_problem_def source_var_ok_def split: if_splits)

lemma source_vars_ok:
  assumes "source_vars d = Inr d'"
  shows "list_all source_var_ok (mark_vars d')"
  using assms
proof (induction d arbitrary: d' rule: source_vars.induct)
  case (2 k v d)
  then show ?case
    by (auto simp: res_bind_Inr_iff mark_vars_def source_var_problem_None split: if_splits)
qed (simp add: mark_vars_def)

section \<open>Dictionaries of variables\<close>

lemma vget_vset: "vget k (vset k' v d) = (if snd k' = k then Some v else vget k d)"
  by (induction d) auto

lemma vget_vupdate:
  assumes "distinct (map (snd \<circ> fst) new)"
  shows "vget k (vupdate d new) = (case vget k new of None \<Rightarrow> vget k d | Some v \<Rightarrow> Some v)"
  using assms
proof (induction new arbitrary: d)
  case (Cons kv new)
  have fresh: "vget (snd (fst kv)) new = None"
  proof -
    have "vget x ys = None" if "x \<notin> set (map (snd \<circ> fst) ys)" for x and ys :: vars
      using that by (induction ys) auto
    then show ?thesis using Cons.prems by simp
  qed
  show ?case
    using Cons fresh by (cases kv) (auto simp: vupdate_def vget_vset split: option.split)
qed (simp add: vupdate_def)

lemma vset_source:
  assumes "kv \<in> set (vset k v d)"
  shows "kv \<in> set d \<or> (snd (fst kv) = snd k \<and> snd kv = v)"
  using assms
proof (induction d)
  case (Cons x d)
  then show ?case by (cases x) (auto split: if_splits)
qed simp

text \<open>Every entry of an update comes from the old dictionary or, up to the mark of its key, the new.\<close>

lemma vupdate_source:
  assumes "kv \<in> set (vupdate d new)"
  shows "kv \<in> set d \<or> (\<exists>k'. (k', snd kv) \<in> set new \<and> snd k' = snd (fst kv))"
  using assms
proof (induction new arbitrary: d)
  case (Cons x new)
  obtain k v where x: "x = (k, v)" by (cases x)
  from Cons.prems have "kv \<in> set (vupdate (vset k v d) new)" by (simp add: vupdate_def x)
  from Cons.IH [OF this] show ?case
  proof
    assume "kv \<in> set (vset k v d)"
    from vset_source [OF this] show ?thesis unfolding x by (metis list.set_intros(1))
  next
    assume "\<exists>k'. (k', snd kv) \<in> set new \<and> snd k' = snd (fst kv)"
    then show ?thesis by (auto simp: x)
  qed
qed (simp add: vupdate_def)

lemma set_dict_set_sub: "(h, x) \<in> set (dict_set k v d) \<Longrightarrow> (h, x) \<in> set d \<or> (h = k \<and> x = v)"
  by (induction d) (auto split: if_splits)

section \<open>Where a variable comes from\<close>

definition from_static :: "static_inv \<Rightarrow> string \<Rightarrow> (bool \<times> string) \<times> val \<Rightarrow> bool" where
  "from_static st h kv =
     (\<exists>vs k'. (h, vs) \<in> set (st_hosts st) \<and> (k', snd kv) \<in> set vs \<and> snd k' = snd (fst kv))"

definition hosts_traced :: "static_inv \<Rightarrow> (string \<times> vars) list \<Rightarrow> bool" where
  "hosts_traced st hs =
     (\<forall>h vs kv. (h, vs) \<in> set hs \<longrightarrow> kv \<in> set vs \<longrightarrow> source_var_ok kv \<or> from_static st h kv)"

lemma static_host_traced:
  assumes "hosts_traced st hs" and "hv \<in> set (st_hosts st)"
  shows "hosts_traced st (static_host hv hs)"
proof -
  obtain h vs where hv: "hv = (h, vs)" by (cases hv)
  define old where "old = (case map_of hs h of None \<Rightarrow> [] | Some d \<Rightarrow> d)"
  have old: "source_var_ok kv \<or> from_static st h kv" if "kv \<in> set old" for kv
  proof (cases "map_of hs h")
    case (Some d)
    from map_of_SomeD [OF this] assms(1) that Some show ?thesis
      unfolding hosts_traced_def old_def by (metis option.simps(5))
  qed (use that in \<open>simp add: old_def\<close>)
  have new: "source_var_ok kv \<or> from_static st h kv" if "kv \<in> set (vupdate old vs)" for kv
    using vupdate_source [OF that] old assms(2) unfolding from_static_def hv by blast
  show ?thesis
    unfolding hosts_traced_def
  proof (intro allI impI)
    fix g xs kv
    assume "(g, xs) \<in> set (static_host hv hs)" and kv: "kv \<in> set xs"
    then have "(g, xs) \<in> set hs \<or> (g = h \<and> xs = vupdate old vs)"
      using set_dict_set_sub [of g xs h "vupdate old vs" hs] by (simp add: static_host_def hv old_def)
    then show "source_var_ok kv \<or> from_static st g kv"
      using assms(1) kv new unfolding hosts_traced_def by blast
  qed
qed

lemma static_hosts_traced:
  assumes "hosts_traced st hs" and "set xs \<subseteq> set (st_hosts st)"
  shows "hosts_traced st (fold static_host xs hs)"
  using assms by (induction xs arbitrary: hs) (auto intro: static_host_traced)

definition groups_traced :: "(string \<times> graph_group) list \<Rightarrow> bool" where
  "groups_traced gs = (\<forall>n g. (n, g) \<in> set gs \<longrightarrow> list_all source_var_ok (gg_vars g))"

lemma static_group_traced: "groups_traced gs \<Longrightarrow> groups_traced (static_group nm gs)"
  unfolding groups_traced_def static_group_def Let_def case_prod_beta
proof (intro allI impI)
  fix n g
  assume old: "\<forall>n g. (n, g) \<in> set gs \<longrightarrow> list_all source_var_ok (gg_vars g)"
  let ?g = "case map_of gs (fst nm) of None \<Rightarrow> \<lparr>gg_hosts = [], gg_children = [], gg_vars = []\<rparr> | Some g \<Rightarrow> g"
  assume "(n, g) \<in> set (dict_set (fst nm) (?g\<lparr>gg_hosts := add_names (snd nm) (gg_hosts ?g)\<rparr>) gs)"
  then have "(n, g) \<in> set gs \<or> g = ?g\<lparr>gg_hosts := add_names (snd nm) (gg_hosts ?g)\<rparr>"
    using set_dict_set_sub by metis
  moreover have "list_all source_var_ok (gg_vars ?g)"
    using old by (auto split: option.split dest: map_of_SomeD)
  ultimately show "list_all source_var_ok (gg_vars g)" using old by auto
qed

lemma static_groups_traced: "groups_traced gs \<Longrightarrow> groups_traced (fold static_group xs gs)"
  by (induction xs arbitrary: gs) (auto intro: static_group_traced)

lemma map_res_each: "map_res f xs = Inr ys \<Longrightarrow> y \<in> set ys \<Longrightarrow> \<exists>x \<in> set xs. f x = Inr y"
  by (induction xs arbitrary: ys) (auto simp: res_bind_Inr_iff)

lemma merge_snapshot_traced:
  assumes "merge_snapshot st sd = Inr g"
  shows "list_all source_var_ok (gr_vars g)" "hosts_traced st (gr_hosts g)" "groups_traced (gr_groups g)"
proof -
  let ?ws = "sd_static_hosts sd"
  let ?gone = "filter (\<lambda>h. h \<notin> fst ` set (st_hosts st)) ?ws"
  obtain vs hs gs where vs: "source_vars (gr_vars sd) = Inr vs"
    and hs: "map_res merge_host (filter (\<lambda>(n, _). n \<notin> set ?gone) (gr_hosts sd)) = Inr hs"
    and gs: "map_res (merge_group st ?ws ?gone) (gr_groups sd) = Inr gs"
    and g: "g = \<lparr>gr_vars = mark_vars vs, gr_hosts = hs, gr_groups = gs\<rparr>"
    using assms unfolding merge_snapshot_def Let_def res_bind_Inr_iff by blast
  show "list_all source_var_ok (gr_vars g)" using source_vars_ok [OF vs] by (simp add: g)
  show "hosts_traced st (gr_hosts g)"
    unfolding hosts_traced_def g graph.simps
  proof (intro allI impI)
    fix h xs kv assume "(h, xs) \<in> set hs" "kv \<in> set xs"
    then obtain x where "merge_host x = Inr (h, xs)" using map_res_each [OF hs] by blast
    then obtain d d' where "source_vars d = Inr d'" "xs = mark_vars d'"
      by (cases x) (auto simp: merge_host_def res_bind_Inr_iff)
    then show "source_var_ok kv \<or> from_static st h kv"
      using source_vars_ok \<open>kv \<in> set xs\<close> by (auto simp: list_all_iff)
  qed
  show "groups_traced (gr_groups g)"
    unfolding groups_traced_def g graph.simps
  proof (intro allI impI)
    fix n grp assume "(n, grp) \<in> set gs"
    then obtain x where "merge_group st ?ws ?gone x = Inr (n, grp)" using map_res_each [OF gs] by blast
    then obtain d d' where "source_vars d = Inr d'" "gg_vars grp = mark_vars d'"
      by (cases x) (auto simp: merge_group_def res_bind_Inr_iff Let_def)
    then show "list_all source_var_ok (gg_vars grp)" using source_vars_ok by simp
  qed
qed

text \<open>
  C30. Nothing a source wrote is evaluated as a template in a run, and no source changes how Ansible
  connects or escalates: in the merged inventory every variable of \<open>all\<close> and of a group, and every
  host variable the inventory's own data does not set, has all its strings marked unsafe and is no
  Ansible setting except the allowed connection variables (with an allowed connection plugin).
\<close>

theorem merge_untrusted:
  assumes "merge st snap = Inr g"
  shows "list_all source_var_ok (gr_vars g) \<and>
    (\<forall>n grp. (n, grp) \<in> set (gr_groups g) \<longrightarrow> list_all source_var_ok (gg_vars grp)) \<and>
    (\<forall>h vs kv. (h, vs) \<in> set (gr_hosts g) \<longrightarrow> kv \<in> set vs \<longrightarrow>
       source_var_ok kv \<or> from_static st h kv)"
proof -
  obtain g0 where g0: "(case snap of None \<Rightarrow> Inr empty_graph | Some sd \<Rightarrow> merge_snapshot st sd) = Inr g0"
    and g: "g = merge_static st g0"
    using assms by (auto simp: merge_def res_bind_Inr_iff)
  have "list_all source_var_ok (gr_vars g0) \<and> hosts_traced st (gr_hosts g0) \<and> groups_traced (gr_groups g0)"
    using g0 merge_snapshot_traced
    by (cases snap) (auto simp: empty_graph_def hosts_traced_def groups_traced_def)
  then show ?thesis
    using static_hosts_traced [of st "gr_hosts g0" "st_hosts st"] static_groups_traced [of "gr_groups g0" "st_groups st"]
    by (simp add: g merge_static_def hosts_traced_def groups_traced_def)
qed

definition sample_static :: static_inv where
  "sample_static = \<lparr>st_hosts = [(''db1'', [(vkey ''x'', Str ''{{ y }}'')])], st_groups = [(''db'', [''db1''])]\<rparr>"

definition sample_snapshot :: snapshot_data where
  "sample_snapshot =
     \<lparr>gr_vars = [(vkey ''ansible_become'', VBool True), (vkey ''site'', Str ''{{ z }}'')],
      gr_hosts = [(''db1'', [(vkey ''x'', Str ''a'')]), (''web1'', []), (''old1'', [])],
      gr_groups = [(''top'', \<lparr>gg_hosts = [''web1''], gg_children = [''db'', ''top''], gg_vars = []\<rparr>),
                   (''db'', \<lparr>gg_hosts = [''db1'', ''old1''], gg_children = [], gg_vars = []\<rparr>)],
      sd_static_hosts = [''db1'', ''old1'']\<rparr>"

definition sample_graph :: graph where
  "sample_graph =
     \<lparr>gr_vars = [((True, ''site''), VStr True ''{{ z }}'')],
      gr_hosts = [(''db1'', [((True, ''x''), Str ''{{ y }}'')]), (''web1'', [])],
      gr_groups = [(''top'', \<lparr>gg_hosts = [''web1''], gg_children = [''db'', ''top''], gg_vars = []\<rparr>),
                   (''db'', \<lparr>gg_hosts = [''db1''], gg_children = [], gg_vars = []\<rparr>)]\<rparr>"

lemma sample_merge: "merge sample_static (Some sample_snapshot) = Inr sample_graph"
  by code_simp

theorem merge_untrusted_witness:
  "merge sample_static (Some sample_snapshot) = Inr sample_graph \<and>
   list_all source_var_ok (gr_vars sample_graph)"
  using merge_untrusted [OF sample_merge] sample_merge by blast

section \<open>The inventory's own data wins\<close>

lemma set_add_names [simp]: "set (add_names ys xs) = set xs \<union> set ys"
proof -
  have "set (fold (\<lambda>y acc. if y \<in> set acc then acc else acc @ [y]) ys xs) = set xs \<union> set ys"
    by (induction ys arbitrary: xs) auto
  then show ?thesis by (simp add: add_names_def)
qed

lemma map_of_fold_static_host:
  assumes "distinct (map fst xs)"
  shows "map_of (fold static_host xs hs) h =
    (case map_of xs h of None \<Rightarrow> map_of hs h
     | Some vs \<Rightarrow> Some (vupdate (case map_of hs h of None \<Rightarrow> [] | Some d \<Rightarrow> d) vs))"
  using assms
proof (induction xs arbitrary: hs)
  case (Cons x xs)
  obtain n vs where x: "x = (n, vs)" by (cases x)
  with Cons.prems have fresh: "map_of xs n = None" by (simp add: map_of_eq_None_iff)
  have step: "map_of (static_host x hs) =
      (map_of hs)(n \<mapsto> vupdate (case map_of hs n of None \<Rightarrow> [] | Some d \<Rightarrow> d) vs)"
    by (simp add: x static_host_def map_of_dict_set)
  show ?case
    using Cons fresh by (cases "h = n") (auto simp: x step [unfolded x] split: option.split)
qed simp

lemma map_of_fold_static_group:
  assumes "distinct (map fst xs)"
  shows "map_of (fold static_group xs gs) n =
    (case map_of xs n of None \<Rightarrow> map_of gs n
     | Some ms \<Rightarrow> (let g = (case map_of gs n of None \<Rightarrow> \<lparr>gg_hosts = [], gg_children = [], gg_vars = []\<rparr>
                            | Some g \<Rightarrow> g)
                   in Some (g\<lparr>gg_hosts := add_names ms (gg_hosts g)\<rparr>)))"
  using assms
proof (induction xs arbitrary: gs)
  case (Cons x xs)
  obtain m ms where x: "x = (m, ms)" by (cases x)
  with Cons.prems have fresh: "map_of xs m = None" by (simp add: map_of_eq_None_iff)
  let ?g = "case map_of gs m of None \<Rightarrow> \<lparr>gg_hosts = [], gg_children = [], gg_vars = []\<rparr> | Some g \<Rightarrow> g"
  have step: "map_of (static_group x gs) = (map_of gs)(m \<mapsto> ?g\<lparr>gg_hosts := add_names ms (gg_hosts ?g)\<rparr>)"
    by (simp add: x static_group_def map_of_dict_set Let_def)
  show ?case
    using Cons fresh by (cases "n = m") (auto simp: x step [unfolded x] Let_def split: option.split)
qed simp

lemma map_res_fst:
  assumes "map_res f xs = Inr ys" and "\<And>x y. f x = Inr y \<Longrightarrow> fst y = fst x"
  shows "map fst ys = map fst xs"
  using assms(1) by (induction xs arbitrary: ys) (auto simp: res_bind_Inr_iff dest: assms(2))

text \<open>What the snapshot contributes names no host that is gone, and no own host in an own group.\<close>

lemma merge_snapshot_names:
  assumes "merge_snapshot st sd = Inr g"
  shows "\<forall>h \<in> set (sd_static_hosts sd). h \<notin> fst ` set (st_hosts st) \<longrightarrow> h \<notin> fst ` set (gr_hosts g)"
    and "\<forall>n grp. (n, grp) \<in> set (gr_groups g) \<longrightarrow>
      (\<forall>h \<in> set (sd_static_hosts sd).
         h \<notin> fst ` set (st_hosts st) \<or> n \<in> fst ` set (st_groups st) \<longrightarrow> h \<notin> set (gg_hosts grp))"
proof -
  let ?ws = "sd_static_hosts sd"
  let ?gone = "filter (\<lambda>h. h \<notin> fst ` set (st_hosts st)) ?ws"
  obtain vs hs gs where hs: "map_res merge_host (filter (\<lambda>(n, _). n \<notin> set ?gone) (gr_hosts sd)) = Inr hs"
    and gs: "map_res (merge_group st ?ws ?gone) (gr_groups sd) = Inr gs"
    and g: "g = \<lparr>gr_vars = mark_vars vs, gr_hosts = hs, gr_groups = gs\<rparr>"
    using assms unfolding merge_snapshot_def Let_def res_bind_Inr_iff by blast
  have "map fst hs = map fst (filter (\<lambda>(n, _). n \<notin> set ?gone) (gr_hosts sd))"
    by (rule map_res_fst [OF hs]) (auto simp: merge_host_def res_bind_Inr_iff)
  then have "fst ` set hs = fst ` set (filter (\<lambda>(n, _). n \<notin> set ?gone) (gr_hosts sd))"
    by (metis set_map)
  then have "h \<notin> set ?gone" if "h \<in> fst ` set hs" for h using that by (auto intro: rev_image_eqI)
  then show "\<forall>h \<in> set ?ws. h \<notin> fst ` set (st_hosts st) \<longrightarrow> h \<notin> fst ` set (gr_hosts g)"
    unfolding g graph.simps set_filter by blast
  show "\<forall>n grp. (n, grp) \<in> set (gr_groups g) \<longrightarrow> (\<forall>h \<in> set ?ws.
      h \<notin> fst ` set (st_hosts st) \<or> n \<in> fst ` set (st_groups st) \<longrightarrow> h \<notin> set (gg_hosts grp))"
  proof (intro allI impI)
    fix n grp assume "(n, grp) \<in> set (gr_groups g)"
    then have "(n, grp) \<in> set gs" by (simp add: g)
    then obtain x where "merge_group st ?ws ?gone x = Inr (n, grp)" using map_res_each [OF gs] by blast
    then have "gg_hosts grp = add_names (filter (\<lambda>h. h \<notin> set (?gone @
        (if n \<in> fst ` set (st_groups st) then ?ws else []))) (gg_hosts (snd x))) []"
      by (cases x) (auto simp only: merge_group_def res_bind_Inr_iff Let_def graph_group.simps prod.case sum.inject prod.inject snd_conv)
    then show "\<forall>h \<in> set ?ws.
      h \<notin> fst ` set (st_hosts st) \<or> n \<in> fst ` set (st_groups st) \<longrightarrow> h \<notin> set (gg_hosts grp)"
      by simp
  qed
qed

text \<open>
  The inventory's own data wins over its sources: each of its hosts is in the merged inventory
  with every variable it sets there; a host that was its own when the snapshot was made and is no
  longer is dropped; and which of its own hosts are in one of its own groups is what its own data says.
\<close>

theorem merge_static_wins:
  assumes "merge st (Some sd) = Inr g"
    and "distinct (map fst (st_hosts st))" and "distinct (map fst (st_groups st))"
    and "\<forall>(h, vs) \<in> set (st_hosts st). distinct (map (snd \<circ> fst) vs)"
  shows "(\<forall>h vs k v. (h, vs) \<in> set (st_hosts st) \<longrightarrow> vget k vs = Some v \<longrightarrow>
       (\<exists>vs'. map_of (gr_hosts g) h = Some vs' \<and> vget k vs' = Some v)) \<and>
    (\<forall>h \<in> set (sd_static_hosts sd). h \<notin> fst ` set (st_hosts st) \<longrightarrow> map_of (gr_hosts g) h = None) \<and>
    (\<forall>n members h. (n, members) \<in> set (st_groups st) \<longrightarrow> h \<in> set (sd_static_hosts sd) \<longrightarrow>
       (\<exists>grp. map_of (gr_groups g) n = Some grp \<and> (h \<in> set (gg_hosts grp) \<longleftrightarrow> h \<in> set members)))"
proof -
  obtain g0 where g0: "merge_snapshot st sd = Inr g0" and g: "g = merge_static st g0"
    using assms(1) by (auto simp: merge_def res_bind_Inr_iff)
  note names = merge_snapshot_names [OF g0]
  note host = map_of_fold_static_host [OF assms(2), of "gr_hosts g0"]
  note grp = map_of_fold_static_group [OF assms(3), of "gr_groups g0"]
  have own: "map_of (st_hosts st) h = Some vs" if "(h, vs) \<in> set (st_hosts st)" for h vs
    using that assms(2) by simp
  have 1: "\<exists>vs'. map_of (gr_hosts g) h = Some vs' \<and> vget k vs' = Some v"
    if "(h, vs) \<in> set (st_hosts st)" "vget k vs = Some v" for h vs k v
    using that assms(4) vget_vupdate [of vs k] by (auto simp: g merge_static_def host own split: prod.splits)
  have 2: "map_of (gr_hosts g) h = None"
    if "h \<in> set (sd_static_hosts sd)" "h \<notin> fst ` set (st_hosts st)" for h
    using that names(1) by (simp add: g merge_static_def host map_of_eq_None_iff split: option.split)
  have 3: "\<exists>grp. map_of (gr_groups g) n = Some grp \<and> (h \<in> set (gg_hosts grp) \<longleftrightarrow> h \<in> set members)"
    if "(n, members) \<in> set (st_groups st)" "h \<in> set (sd_static_hosts sd)" for n members h
  proof -
    have n: "map_of (st_groups st) n = Some members" "n \<in> fst ` set (st_groups st)"
      using that(1) assms(3) by (simp, force)
    have "h \<notin> set (gg_hosts grp)" if "map_of (gr_groups g0) n = Some grp" for grp
      using names(2) n(2) \<open>h \<in> set (sd_static_hosts sd)\<close> map_of_SomeD [OF that] by blast
    then show ?thesis by (auto simp: g merge_static_def grp n(1) Let_def split: option.split)
  qed
  show ?thesis using 1 2 3 by blast
qed

theorem merge_static_wins_witness:
  "map_of (gr_hosts sample_graph) ''old1'' = None \<and>
   (\<exists>vs. map_of (gr_hosts sample_graph) ''db1'' = Some vs \<and> vget ''x'' vs = Some (Str ''{{ y }}''))"
proof -
  have d: "distinct (map fst (st_hosts sample_static))" "distinct (map fst (st_groups sample_static))"
    "\<forall>(h, vs) \<in> set (st_hosts sample_static). distinct (map (snd \<circ> fst) vs)"
    by (simp_all add: sample_static_def)
  have m: "''old1'' \<in> set (sd_static_hosts sample_snapshot)" "''old1'' \<notin> fst ` set (st_hosts sample_static)"
    "(''db1'', [(vkey ''x'', Str ''{{ y }}'')]) \<in> set (st_hosts sample_static)"
    "vget ''x'' [(vkey ''x'', Str ''{{ y }}'')] = Some (Str ''{{ y }}'')"
    by (simp_all add: sample_static_def sample_snapshot_def)
  show ?thesis using merge_static_wins [OF sample_merge d] m by blast
qed

section \<open>The hosts of a target group\<close>

definition child_of :: "graph \<Rightarrow> (string \<times> string) set" where
  "child_of g = {(a, b). \<exists>grp. map_of (gr_groups g) a = Some grp \<and> b \<in> set (gg_children grp)}"

definition hosts_of :: "graph \<Rightarrow> string set \<Rightarrow> string set" where
  "hosts_of g names = {h. \<exists>n \<in> names. \<exists>grp. map_of (gr_groups g) n = Some grp \<and> h \<in> set (gg_hosts grp)}"

lemma target_loop_sound:
  "target_loop g pending seen found \<subseteq> found \<union> hosts_of g ((child_of g)\<^sup>* `` set pending)"
proof (induction g pending seen found rule: target_loop.induct)
  case (2 g name pending seen found)
  show ?case
  proof (cases "name \<notin> seen \<and> map_of (gr_groups g) name \<noteq> None")
    case True
    then obtain grp where grp: "map_of (gr_groups g) name = Some grp" "name \<notin> seen" by auto
    have "(name, c) \<in> child_of g" if "c \<in> set (gg_children grp)" for c
      using that grp(1) by (simp add: child_of_def)
    then have "(child_of g)\<^sup>* `` set (rev (gg_children grp) @ pending) \<subseteq> (child_of g)\<^sup>* `` set (name # pending)"
      by (auto intro: converse_rtrancl_into_rtrancl)
    then have "hosts_of g ((child_of g)\<^sup>* `` set (rev (gg_children grp) @ pending)) \<subseteq>
        hosts_of g ((child_of g)\<^sup>* `` set (name # pending))"
      unfolding hosts_of_def by blast
    moreover have "set (gg_hosts grp) \<subseteq> hosts_of g ((child_of g)\<^sup>* `` set (name # pending))"
      using grp(1) unfolding hosts_of_def by auto
    ultimately show ?thesis using 2(3) [OF grp(2,1)] grp by auto
  next
    case False
    have "hosts_of g ((child_of g)\<^sup>* `` set pending) \<subseteq> hosts_of g ((child_of g)\<^sup>* `` set (name # pending))"
      unfolding hosts_of_def by auto
    then show ?thesis using False 2(1,2) by (auto split: option.split)
  qed
qed simp

text \<open>What the loop has seen is closed up to what is pending, and so is its result.\<close>

definition closed_upto :: "graph \<Rightarrow> string set \<Rightarrow> string set \<Rightarrow> string set \<Rightarrow> bool" where
  "closed_upto g seen pending found =
     (\<forall>n \<in> seen. \<forall>grp. map_of (gr_groups g) n = Some grp \<longrightarrow>
        set (gg_children grp) \<subseteq> seen \<union> pending \<union> {x. map_of (gr_groups g) x = None} \<and>
        set (gg_hosts grp) \<subseteq> found)"

lemma target_loop_complete:
  assumes "closed_upto g seen (set pending) found"
  shows "found \<subseteq> target_loop g pending seen found \<and>
    (\<exists>S. seen \<union> set pending \<subseteq> S \<union> {x. map_of (gr_groups g) x = None} \<and>
       closed_upto g S {} (target_loop g pending seen found))"
  using assms
proof (induction g pending seen found rule: target_loop.induct)
  case (1 g seen found)
  then show ?case by (intro conjI exI [of _ seen]) auto
next
  case (2 g name pending seen found)
  consider (seen) "name \<in> seen" | (none) "name \<notin> seen" "map_of (gr_groups g) name = None"
    | (group) grp where "name \<notin> seen" "map_of (gr_groups g) name = Some grp" by fastforce
  then show ?case
  proof cases
    case seen
    then have same: "seen \<union> set (name # pending) = seen \<union> set pending" by auto
    then have "closed_upto g seen (set pending) found"
      using 2(4) unfolding closed_upto_def by simp
    moreover have "target_loop g (name # pending) seen found = target_loop g pending seen found"
      using seen by simp
    ultimately show ?thesis using 2(1) [OF seen] same by simp
  next
    case none
    let ?none = "{x. map_of (gr_groups g) x = None}"
    have "seen \<union> set (name # pending) \<union> ?none = seen \<union> set pending \<union> ?none" using none by auto
    then have "closed_upto g seen (set pending) found"
      using 2(4) unfolding closed_upto_def by simp
    from 2(2) [OF none this] obtain S where S: "found \<subseteq> target_loop g pending seen found"
      "seen \<union> set pending \<subseteq> S \<union> ?none" "closed_upto g S {} (target_loop g pending seen found)" by blast
    have loop: "target_loop g (name # pending) seen found = target_loop g pending seen found"
      using none by simp
    have "seen \<union> set (name # pending) \<subseteq> S \<union> ?none" using S(2) none by auto
    then show ?thesis unfolding loop using S(1,3) by blast
  next
    case group
    have "closed_upto g (insert name seen) (set (rev (gg_children grp) @ pending)) (found \<union> set (gg_hosts grp))"
      unfolding closed_upto_def
    proof (intro ballI allI impI)
      fix n x assume n: "n \<in> insert name seen" and x: "map_of (gr_groups g) n = Some x"
      show "set (gg_children x) \<subseteq> insert name seen \<union> set (rev (gg_children grp) @ pending) \<union>
          {x. map_of (gr_groups g) x = None} \<and> set (gg_hosts x) \<subseteq> found \<union> set (gg_hosts grp)"
      proof (cases "n = name")
        case False
        then have "set (gg_children x) \<subseteq> seen \<union> set (name # pending) \<union> {x. map_of (gr_groups g) x = None} \<and>
            set (gg_hosts x) \<subseteq> found"
          using n x 2(4) unfolding closed_upto_def by blast
        then show ?thesis by auto
      qed (use x group in auto)
    qed
    note step = 2(3) [OF group this]
    let ?loop = "target_loop g (rev (gg_children grp) @ pending) (insert name seen) (found \<union> set (gg_hosts grp))"
    have loop: "target_loop g (name # pending) seen found = ?loop" using group by simp
    obtain S where S: "found \<union> set (gg_hosts grp) \<subseteq> ?loop" "closed_upto g S {} ?loop"
      "insert name seen \<union> set (rev (gg_children grp) @ pending) \<subseteq> S \<union> {x. map_of (gr_groups g) x = None}"
      using step by blast
    have "seen \<union> set (name # pending) \<subseteq> S \<union> {x. map_of (gr_groups g) x = None}" using S(3) by auto
    then show ?thesis unfolding loop using S(1,2) by blast
  qed
qed

lemma target_loop_reachable: "target_loop g [t] {} {} = hosts_of g ((child_of g)\<^sup>* `` {t})"
proof
  show "target_loop g [t] {} {} \<subseteq> hosts_of g ((child_of g)\<^sup>* `` {t})"
    using target_loop_sound [of g "[t]" "{}" "{}"] by simp
  have "closed_upto g {} (set [t]) {}" by (simp add: closed_upto_def)
  from target_loop_complete [OF this] obtain S where
    S: "t \<in> S \<union> {x. map_of (gr_groups g) x = None}" "closed_upto g S {} (target_loop g [t] {} {})"
    by auto
  have "n \<in> S \<or> map_of (gr_groups g) n = None" if "(t, n) \<in> (child_of g)\<^sup>*" for n
    using that
  proof induction
    case (step a b)
    then obtain grp where "map_of (gr_groups g) a = Some grp" "b \<in> set (gg_children grp)" "a \<in> S"
      by (auto simp: child_of_def)
    then show ?case using S(2) unfolding closed_upto_def by fastforce
  qed (use S(1) in simp)
  then show "hosts_of g ((child_of g)\<^sup>* `` {t}) \<subseteq> target_loop g [t] {} {}"
    using S(2) unfolding hosts_of_def closed_upto_def by fastforce
qed

section \<open>The rendered inventory\<close>

text \<open>The hosts named in a rendered block: in \<open>all\<close> and in any group.\<close>

fun dget :: "string \<Rightarrow> val \<Rightarrow> val" where
  "dget k (VDict d) = (case vget k d of None \<Rightarrow> VNone | Some v \<Rightarrow> v)"
| "dget k v = VNone"

fun items :: "val \<Rightarrow> vars" where
  "items (VDict d) = d"
| "items v = []"

definition keys :: "val \<Rightarrow> string set" where
  "keys v = (\<lambda>kv. snd (fst kv)) ` set (items v)"

definition block_hosts :: "val \<Rightarrow> string set" where
  "block_hosts v =
     (let a = dget ''all'' v in
      keys (dget ''hosts'' a) \<union> (\<Union>kv \<in> set (items (dget ''children'' a)). keys (dget ''hosts'' (snd kv))))"

lemma dget_entries:
  "dget ''vars'' (dict_or_none (entry_unless a ''vars'' x @ entry_unless b ''hosts'' y @ entry_unless c ''children'' z)) =
     (if a then VNone else x)"
  "dget ''hosts'' (dict_or_none (entry_unless a ''vars'' x @ entry_unless b ''hosts'' y @ entry_unless c ''children'' z)) =
     (if b then VNone else y)"
  "dget ''children'' (dict_or_none (entry_unless a ''vars'' x @ entry_unless b ''hosts'' y @ entry_unless c ''children'' z)) =
     (if c then VNone else z)"
  "dget ''hosts'' (dict_or_none (entry_unless b ''hosts'' y @ entry_unless c ''children'' z @ entry_unless a ''vars'' x)) =
     (if b then VNone else y)"
  by (auto simp: dict_or_none_def entry_unless_def)

lemma keys_names_dict [simp]: "keys (names_dict ns) = set ns"
  by (auto simp: keys_def names_dict_def image_def)

lemma keys_hosts: "keys (VDict (map (\<lambda>(h, vs). (vkey h, dict_or_none vs)) hs)) = fst ` set hs"
  by (induction hs) (auto simp: keys_def)

lemma block_hosts_render:
  "block_hosts (render_block g wanted) =
     {h. wanted h \<and> h \<in> fst ` set (gr_hosts g)} \<union>
     {h. wanted h \<and> (\<exists>ng \<in> set (gr_groups g). h \<in> set (gg_hosts (snd ng)))}"
proof -
  let ?hosts = "filter (\<lambda>(h, _). wanted h) (gr_hosts g)"
  let ?a = "dget ''all'' (render_block g wanted)"
  have "dget ''hosts'' ?a =
      (if ?hosts = [] then VNone else VDict (map (\<lambda>(h, vs). (vkey h, dict_or_none vs)) ?hosts))"
    by (simp add: render_block_def dget_entries Let_def)
  then have hosts: "keys (dget ''hosts'' ?a) = fst ` set ?hosts"
    by (cases "?hosts = []") (simp add: keys_def, simp only: keys_hosts if_False)
  have grp: "keys (dget ''hosts'' (snd (render_group wanted ng))) = {h. wanted h \<and> h \<in> set (gg_hosts (snd ng))}" for ng
  proof (cases "filter wanted (gg_hosts (snd ng)) = []")
    case True
    then show ?thesis
      by (simp add: render_group_def dget_entries Let_def case_prod_beta keys_def) (auto simp: filter_empty_conv)
  next
    case False
    then show ?thesis by (simp add: render_group_def dget_entries Let_def case_prod_beta) auto
  qed
  have children: "items (dget ''children'' ?a) = map (render_group wanted) (gr_groups g)"
    by (simp add: render_block_def dget_entries Let_def)
  show ?thesis
    unfolding block_hosts_def Let_def hosts children set_map image_image grp by auto
qed

text \<open>
  C31. A run limited to a group reaches only that group's hosts: the worklist ends with the hosts of
  the groups reachable from it by child links (cycles and unknown children do no harm), every host
  the rendered inventory names is one of them, and an unknown group is an error.
\<close>

theorem render_target_confined:
  "(t \<notin> fst ` set (gr_groups g) \<longrightarrow> render dump g (Some t) = Inl (KeyError t)) \<and>
   (t \<in> fst ` set (gr_groups g) \<longrightarrow>
      target_hosts g t = Inr (hosts_of g ((child_of g)\<^sup>* `` {t})) \<and>
      (\<exists>block. render dump g (Some t) = Inr (dump block) \<and>
         block_hosts block = hosts_of g ((child_of g)\<^sup>* `` {t})))"
proof (intro conjI impI)
  let ?reach = "hosts_of g ((child_of g)\<^sup>* `` {t})"
  show "render dump g (Some t) = Inl (KeyError t)" if "t \<notin> fst ` set (gr_groups g)"
    using that by (simp add: render_def target_hosts_def)
  assume t: "t \<in> fst ` set (gr_groups g)"
  then show th: "target_hosts g t = Inr ?reach"
    by (simp add: target_hosts_def target_loop_reachable del: target_loop.simps)
  have "\<exists>ng \<in> set (gr_groups g). h \<in> set (gg_hosts (snd ng))" if reach: "h \<in> ?reach" for h
  proof -
    obtain n grp where "map_of (gr_groups g) n = Some grp" "h \<in> set (gg_hosts grp)"
      using reach unfolding hosts_of_def by blast
    then show ?thesis by (metis map_of_SomeD snd_conv)
  qed
  then have "block_hosts (render_block g (\<lambda>h. h \<in> ?reach)) = ?reach"
    unfolding block_hosts_render by blast
  then show "\<exists>block. render dump g (Some t) = Inr (dump block) \<and> block_hosts block = ?reach"
    using th by (intro exI [of _ "render_block g (\<lambda>h. h \<in> ?reach)"]) (simp add: render_def)
qed

theorem render_target_confined_witness:
  "target_hosts sample_graph ''top'' = Inr (hosts_of sample_graph ((child_of sample_graph)\<^sup>* `` {''top''})) \<and>
   target_hosts sample_graph ''top'' = Inr {''web1'', ''db1''}"
proof
  have "''top'' \<in> fst ` set (gr_groups sample_graph)" by (simp add: sample_graph_def)
  then show "target_hosts sample_graph ''top'' = Inr (hosts_of sample_graph ((child_of sample_graph)\<^sup>* `` {''top''}))"
    using render_target_confined [of "''top''" sample_graph] by blast
  show "target_hosts sample_graph ''top'' = Inr {''web1'', ''db1''}"
    by (simp add: target_hosts_def sample_graph_def insert_commute)
qed

end
