(* ===== verification/Output_Facts.thy ===== *)
theory Output_Facts
  imports Inventory_Output Inventory_Facts Run_Log
begin

text \<open>
  What is known of a source's output once it was accepted: the names are ones Ansible reads as
  they are, the limits hold, the groups form no cycle; and what of it reaches a run.
\<close>

section \<open>The search for cycles\<close>

definition edges :: "(string \<times> graph_group) list \<Rightarrow> (string \<times> string) set" where
  "edges gs = {(a, b). b \<in> set (children_of gs a)}"

definition finished_nodes :: "(string \<rightharpoonup> nat) \<Rightarrow> string set" where
  "finished_nodes st = {n. st n = Some 2}"

text \<open>
  A frame's children are those still to visit, finished ones, and the one the frame above it visits;
  a name on the stack reaches the names above it.
\<close>

fun frames_ok :: "(string \<times> graph_group) list \<Rightarrow> string set \<Rightarrow> string list \<Rightarrow> (string \<times> string list) list \<Rightarrow> bool" where
  "frames_ok gs B over [] = True"
| "frames_ok gs B over ((n, cs) # stack) =
     (set cs \<subseteq> set (children_of gs n) \<and> set (children_of gs n) \<subseteq> set cs \<union> B \<union> set over \<and>
      (\<forall>a \<in> set over. (n, a) \<in> edges gs) \<and> frames_ok gs B [n] stack)"

definition search_ok ::
  "(string \<times> graph_group) list \<Rightarrow> (string \<rightharpoonup> nat) \<Rightarrow> (string \<times> string list) list \<Rightarrow> bool" where
  "search_ok gs st stack =
     (frames_ok gs (finished_nodes st) [] stack \<and> distinct (map fst stack) \<and>
      (\<forall>n. st n = Some 1 \<longleftrightarrow> n \<in> fst ` set stack) \<and> ran st \<subseteq> {1, 2} \<and>
      edges gs `` finished_nodes st \<subseteq> finished_nodes st \<and>
      (\<forall>n \<in> finished_nodes st. (n, n) \<notin> (edges gs)\<^sup>+))"

lemma frames_mono: "frames_ok gs d over stack \<Longrightarrow> d \<subseteq> d' \<Longrightarrow> frames_ok gs d' over stack"
proof (induction stack arbitrary: over)
  case (Cons f stack)
  obtain n cs where f: "f = (n, cs)" by (cases f)
  show ?case using Cons by (simp add: f) blast
qed simp

lemma frames_reach:
  assumes "frames_ok gs d over stack" and "n \<in> fst ` set stack" and "\<And>a. a \<in> set over \<Longrightarrow> (a, t) \<in> (edges gs)\<^sup>*"
    and "over \<noteq> []"
  shows "(n, t) \<in> (edges gs)\<^sup>*"
  using assms
proof (induction stack arbitrary: over)
  case (Cons f stack)
  obtain m cs where f: "f = (m, cs)" by (cases f)
  obtain a where "a \<in> set over" using Cons.prems(4) by (cases over) auto
  then have m: "(m, t) \<in> (edges gs)\<^sup>*"
    using Cons.prems(1,3) by (auto simp: f intro: converse_rtrancl_into_rtrancl)
  show ?case
    using Cons.IH [of "[m]"] Cons.prems(1,2) m by (auto simp: f)
qed simp

lemma stack_reaches_top:
  assumes "frames_ok gs d [] ((t, cs) # stack)" and "n \<in> fst ` set ((t, cs) # stack)"
  shows "(n, t) \<in> (edges gs)\<^sup>*"
  using assms frames_reach [of gs d "[t]" stack n t] by auto

lemma closed_trancl: "(a, b) \<in> E\<^sup>+ \<Longrightarrow> E `` B \<subseteq> B \<Longrightarrow> a \<in> B \<Longrightarrow> b \<in> B"
  by (induction rule: trancl_induct) auto

lemma finish_top:
  assumes "search_ok gs st ((n, []) # stack)"
  shows "search_ok gs (st(n \<mapsto> 2)) stack"
proof -
  let ?B = "finished_nodes st" and ?E = "edges gs"
  have top: "set (children_of gs n) \<subseteq> ?B" "n \<notin> fst ` set stack" "frames_ok gs ?B [n] stack" "distinct (map fst stack)"
    "ran st \<subseteq> {1, 2}" "?E `` ?B \<subseteq> ?B" and gray: "\<And>m. st m = Some 1 \<longleftrightarrow> m \<in> insert n (fst ` set stack)"
    and acyc: "\<And>m. m \<in> ?B \<Longrightarrow> (m, m) \<notin> ?E\<^sup>+"
    using assms by (auto simp: search_ok_def)
  have fin: "finished_nodes (st(n \<mapsto> 2)) = insert n ?B" by (auto simp: finished_nodes_def)
  have new: "n \<notin> ?B" using gray [of n] by (simp add: finished_nodes_def)
  have "frames_ok gs (insert n ?B) [] stack"
  proof (cases stack)
    case (Cons f fs)
    then show ?thesis using top(3) frames_mono [of gs ?B "[fst f]" fs "insert n ?B"] by (cases f) auto
  qed simp
  moreover have kids: "?E `` {n} \<subseteq> ?B" using top(1) by (auto simp: edges_def)
  then have "?E `` insert n ?B \<subseteq> insert n ?B" using top(6) by auto
  moreover have "(n, n) \<notin> ?E\<^sup>+"
  proof
    assume "(n, n) \<in> ?E\<^sup>+"
    then obtain c where c: "(n, c) \<in> ?E" "(c, n) \<in> ?E\<^sup>*" by (meson tranclD)
    then have "c \<in> ?B" using kids by auto
    moreover have "c = n \<or> (c, n) \<in> ?E\<^sup>+" using c(2) by (meson rtranclD)
    ultimately show False using new closed_trancl [of c n ?E ?B] top(6) by auto
  qed
  moreover have "ran (st(n \<mapsto> 2)) \<subseteq> {1, 2}" using top(5) by (auto simp: ran_def split: if_splits)
  moreover have "(st(n \<mapsto> 2)) m = Some 1 \<longleftrightarrow> m \<in> fst ` set stack" for m
    using gray [of m] top(2) by auto
  ultimately show ?thesis using top(4) acyc by (auto simp: search_ok_def fin)
qed

lemma drop_child:
  assumes "search_ok gs st ((n, c # rest) # stack)" and "st c \<noteq> None" "st c \<noteq> Some 1"
  shows "search_ok gs st ((n, rest) # stack)"
proof -
  have "c \<in> finished_nodes st"
    using assms by (auto simp: search_ok_def finished_nodes_def ran_def)
  then show ?thesis using assms(1) by (auto simp: search_ok_def)
qed

lemma push_child:
  assumes "search_ok gs st ((n, c # rest) # stack)" and "st c = None" and "map_of gs c = Some g"
  shows "search_ok gs (st(c \<mapsto> 1)) ((c, gg_children g) # (n, rest) # stack)"
proof -
  have fin: "finished_nodes (st(c \<mapsto> 1)) = finished_nodes st" using assms(2) by (auto simp: finished_nodes_def)
  have old: "frames_ok gs (finished_nodes st) [] ((n, c # rest) # stack)" "distinct (n # map fst stack)"
    "ran st \<subseteq> {1, 2}" "edges gs `` finished_nodes st \<subseteq> finished_nodes st"
    "\<forall>n \<in> finished_nodes st. (n, n) \<notin> (edges gs)\<^sup>+"
    and gray: "\<And>m. st m = Some 1 \<longleftrightarrow> m \<in> insert n (fst ` set stack)"
    using assms(1) by (simp_all add: search_ok_def)
  have "c \<notin> insert n (fst ` set stack)" using gray [of c] assms(2) by simp
  moreover have "frames_ok gs (finished_nodes st) [] ((c, gg_children g) # (n, rest) # stack)"
    using old(1) assms(3) by (auto simp: children_of_def edges_def)
  moreover have "ran (st(c \<mapsto> 1)) \<subseteq> {1, 2}" using old(3) by (auto simp: ran_def split: if_splits)
  moreover have "(st(c \<mapsto> 1)) m = Some 1 \<longleftrightarrow> m \<in> fst ` set ((c, gg_children g) # (n, rest) # stack)" for m
    using gray [of m] by simp
  ultimately show ?thesis using old(2,4,5) unfolding search_ok_def fin by auto
qed

text \<open>Every child named is a group.\<close>

definition children_known :: "(string \<times> graph_group) list \<Rightarrow> bool" where
  "children_known gs = (\<forall>n. set (children_of gs n) \<subseteq> fst ` set gs)"

definition outcome_ok ::
  "(string \<times> graph_group) list \<Rightarrow> string set \<Rightarrow> source_failure + (string \<rightharpoonup> nat) \<Rightarrow> bool" where
  "outcome_ok gs seen r =
     (case r of
        Inr st \<Rightarrow> search_ok gs st [] \<and> seen \<subseteq> dom st
      | Inl f \<Rightarrow> (\<exists>m. f = SourceError m) \<and> (\<exists>n. (n, n) \<in> (edges gs)\<^sup>+))"

lemma outcome_mono: "outcome_ok gs seen r \<Longrightarrow> seen' \<subseteq> seen \<Longrightarrow> outcome_ok gs seen' r"
  by (auto simp: outcome_ok_def split: sum.splits)

lemma visit_correct:
  assumes "search_ok gs st stack" and "children_known gs"
  shows "outcome_ok gs (dom st \<union> fst ` set stack) (visit gs st stack)"
  using assms
proof (induction gs st stack rule: visit.induct)
  case (1 gs state)
  then show ?case by (simp add: outcome_ok_def)
next
  case (2 gs state name stack)
  have "dom state \<union> fst ` set ((name, []) # stack) = dom (state(name \<mapsto> 2)) \<union> fst ` set stack" by auto
  then show ?case using 2(1) [OF finish_top [OF 2(2)] 2(3)] by (simp only: visit.simps)
next
  case (3 gs state name child rest stack)
  have frame: "child \<in> set (children_of gs name)" using 3(3) by (simp add: search_ok_def)
  consider (cycle) "state child = Some 1" | (old) "state child \<noteq> Some 1" "state child \<noteq> None"
    | (new) g where "state child = None" "map_of gs child = Some g"
  proof -
    have "map_of gs child \<noteq> None"
      using frame 3(4) by (auto simp: children_known_def map_of_eq_None_iff)
    then show ?thesis using that by fastforce
  qed
  then show ?case
  proof cases
    case cycle
    then have "(child, name) \<in> (edges gs)\<^sup>*"
      using 3(3) stack_reaches_top [of gs "finished_nodes state" name "child # rest" stack child]
      unfolding search_ok_def by blast
    moreover have "(name, child) \<in> edges gs" using frame by (simp add: edges_def)
    ultimately have "(name, name) \<in> (edges gs)\<^sup>+" by (rule rtrancl_into_trancl2 [rotated])
    then show ?thesis using cycle by (auto simp: outcome_ok_def)
  next
    case old
    then have "search_ok gs state ((name, rest) # stack)" using drop_child [OF 3(3)] by blast
    from 3(1) [OF old this 3(4)] show ?thesis using old by simp
  next
    case new
    have "dom state \<union> fst ` set ((name, child # rest) # stack) \<subseteq>
        dom (state(child \<mapsto> 1)) \<union> fst ` set ((child, gg_children g) # (name, rest) # stack)" by auto
    moreover have "outcome_ok gs (dom (state(child \<mapsto> 1)) \<union> fst ` set ((child, gg_children g) # (name, rest) # stack))
        (visit gs (state(child \<mapsto> 1)) ((child, gg_children g) # (name, rest) # stack))"
      by (rule 3(2) [OF _ _ new(2) push_child [OF 3(3) new] 3(4)]) (simp_all add: new(1))
    ultimately have "outcome_ok gs (dom state \<union> fst ` set ((name, child # rest) # stack))
        (visit gs (state(child \<mapsto> 1)) ((child, gg_children g) # (name, rest) # stack))"
      by (rule outcome_mono [rotated])
    then show ?thesis using new by simp
  qed
qed

lemma visit_roots_correct:
  assumes "search_ok gs st []" and "children_known gs" and "set roots \<subseteq> fst ` set gs"
  shows "outcome_ok gs (dom st \<union> set roots) (visit_roots gs roots st)"
  using assms
proof (induction roots arbitrary: st)
  case (Cons root roots)
  show ?case
  proof (cases "st root = None")
    case True
    have "finished_nodes (st(root \<mapsto> 1)) = finished_nodes st" using True by (auto simp: finished_nodes_def)
    then have "search_ok gs (st(root \<mapsto> 1)) [(root, children_of gs root)]"
      using Cons.prems(1) True by (auto simp: search_ok_def ran_def split: if_splits)
    note visited = visit_correct [OF this Cons.prems(2)]
    show ?thesis
    proof (cases "visit gs (st(root \<mapsto> 1)) [(root, children_of gs root)]")
      case (Inl e)
      then show ?thesis using visited True by (simp add: outcome_ok_def)
    next
      case (Inr st')
      then have st': "search_ok gs st' []" "dom st \<union> {root} \<subseteq> dom st'"
        using visited by (auto simp: outcome_ok_def)
      have "outcome_ok gs (dom st' \<union> set roots) (visit_roots gs roots st')"
        using Cons.IH [OF st'(1) Cons.prems(2)] Cons.prems(3) by simp
      then have "outcome_ok gs (dom st \<union> set (root # roots)) (visit_roots gs roots st')"
        by (rule outcome_mono) (use st'(2) in auto)
      then show ?thesis using Inr True by simp
    qed
  next
    case False
    then have "dom st \<union> set (root # roots) = dom st \<union> set roots" by auto
    then show ?thesis using Cons.IH [OF Cons.prems(1,2)] Cons.prems(3) False by simp
  qed
qed (simp add: outcome_ok_def)

lemma refuse_cycles_search:
  assumes "children_known gs"
  shows "refuse_cycles gs = Inr () \<longleftrightarrow> (\<forall>n. (n, n) \<notin> (edges gs)\<^sup>+)"
proof -
  have "search_ok gs Map.empty []" by (simp add: search_ok_def finished_nodes_def)
  note r = visit_roots_correct [OF this assms, of "map fst gs"]
  show ?thesis
  proof (cases "visit_roots gs (map fst gs) Map.empty")
    case (Inl f)
    then show ?thesis using r by (auto simp: refuse_cycles_def outcome_ok_def)
  next
    case (Inr st)
    then have st: "search_ok gs st []" "fst ` set gs \<subseteq> dom st" using r by (auto simp: outcome_ok_def)
    have "(n, n) \<notin> (edges gs)\<^sup>+" for n
    proof
      assume cyc: "(n, n) \<in> (edges gs)\<^sup>+"
      then obtain c where "(n, c) \<in> edges gs" by (meson tranclD)
      then have "map_of gs n \<noteq> None" by (cases "map_of gs n") (auto simp: edges_def children_of_def)
      then have "n \<in> fst ` set gs" by (simp add: map_of_eq_None_iff)
      then obtain v where "st n = Some v" using st(2) by auto
      then have "n \<in> finished_nodes st" using st(1) by (auto simp: search_ok_def finished_nodes_def ran_def)
      then show False using cyc st(1) by (simp add: search_ok_def)
    qed
    then show ?thesis using Inr by (simp add: refuse_cycles_def)
  qed
qed

lemma refuse_cycles_failure:
  assumes "children_known gs" and "refuse_cycles gs = Inl f"
  shows "\<exists>m. f = SourceError m"
  using visit_roots_correct [OF _ assms(1), of Map.empty "map fst gs"] assms(2)
  by (cases "visit_roots gs (map fst gs) Map.empty")
    (auto simp: refuse_cycles_def outcome_ok_def search_ok_def finished_nodes_def)

text \<open>
  C32. The search finds every cycle and nothing else: groups whose children are all groups are
  accepted exactly when no group contains itself, directly or through others; a refusal is always
  a \<open>SourceError\<close>, and the search ends whatever the groups are.
\<close>

theorem refuse_cycles_exact:
  assumes "children_known gs"
  shows "(refuse_cycles gs = Inr () \<longleftrightarrow> (\<forall>n. (n, n) \<notin> (edges gs)\<^sup>+)) \<and>
    (\<forall>f. refuse_cycles gs = Inl f \<longrightarrow> (\<exists>m. f = SourceError m))"
  using refuse_cycles_search [OF assms] refuse_cycles_failure [OF assms] by blast

definition sample_groups :: "(string \<times> graph_group) list" where
  "sample_groups =
     [(''a'', \<lparr>gg_hosts = [], gg_children = [''b''], gg_vars = []\<rparr>),
      (''b'', \<lparr>gg_hosts = [], gg_children = [], gg_vars = []\<rparr>)]"

theorem refuse_cycles_exact_witness:
  "refuse_cycles sample_groups = Inr () \<and> (\<forall>n. (n, n) \<notin> (edges sample_groups)\<^sup>+)"
proof -
  have "children_known sample_groups"
    by (simp add: children_known_def children_of_def sample_groups_def)
  moreover have "refuse_cycles sample_groups = Inr ()"
    by (simp add: refuse_cycles_def sample_groups_def children_of_def)
  ultimately show ?thesis using refuse_cycles_exact [of sample_groups] by blast
qed

section \<open>An accepted output\<close>

definition host_names :: "parse_state \<Rightarrow> string set" where
  "host_names ps = fst ` set (ps_hosts ps)"

definition state_ok :: "env \<Rightarrow> ansible_names \<Rightarrow> parse_state \<Rightarrow> bool" where
  "state_ok e a ps =
     ((\<forall>n \<in> host_names ps. hostname_problem a n = None) \<and>
      int (length (ps_hosts ps)) \<le> max 0 (inventory_max_hosts e) \<and>
      length (ps_warnings ps) \<le> Suc MAX_WARNINGS)"

lemma length_warn: "length w \<le> Suc MAX_WARNINGS \<Longrightarrow> length (warn m w) \<le> Suc MAX_WARNINGS"
  by (simp add: warn_def)

lemma parse_items_warnings:
  "parse_items place d out w = Inr (out', w') \<Longrightarrow> length w \<le> Suc MAX_WARNINGS \<Longrightarrow> length w' \<le> Suc MAX_WARNINGS"
proof (induction d arbitrary: out w)
  case (Cons kv d)
  obtain k item where kv: "kv = (k, item)" by (cases kv)
  show ?case using Cons length_warn by (auto simp: kv split: sum.splits unwrap_failure.splits)
qed simp

lemma parse_vars_warnings:
  "parse_vars v place w = Inr (out, w') \<Longrightarrow> length w \<le> Suc MAX_WARNINGS \<Longrightarrow> length w' \<le> Suc MAX_WARNINGS"
  by (cases v) (auto dest: parse_items_warnings)

lemma add_host_ok:
  assumes "add_host e a n ps = Inr (ok, ps')" and "state_ok e a ps"
  shows "state_ok e a ps'" "ok \<Longrightarrow> n \<in> host_names ps'" "host_names ps \<subseteq> host_names ps'"
  using assms
  by (auto simp: add_host_def state_ok_def host_names_def length_warn split: if_splits option.splits)

lemma add_hosts_ok:
  assumes "add_hosts e a ns ps = Inr (kept, ps')" and "state_ok e a ps"
  shows "state_ok e a ps' \<and> set kept \<subseteq> host_names ps' \<and> host_names ps \<subseteq> host_names ps'"
  using assms
proof (induction ns arbitrary: ps kept)
  case (Cons n ns)
  obtain ok ps1 kept1 where 1: "add_host e a n ps = Inr (ok, ps1)" "add_hosts e a ns ps1 = Inr (kept1, ps')"
    "kept = (if ok then n # kept1 else kept1)"
    using Cons.prems(1) by (auto simp: res_bind_Inr_iff)
  note h = add_host_ok [OF 1(1) Cons.prems(2)]
  show ?case using Cons.IH [OF 1(2) h(1)] h(2,3) by (auto simp: 1(3))
qed simp

lemma host_names_dict_set: "n \<in> host_names ps \<Longrightarrow>
    host_names (ps\<lparr>ps_hosts := dict_set n v (ps_hosts ps), ps_warnings := w\<rparr>) = host_names ps \<and>
    length (dict_set n v (ps_hosts ps)) = length (ps_hosts ps)"
proof -
  have "length (dict_set n v d) = length d" if "n \<in> fst ` set d" for d :: "(string \<times> vars) list"
    using that by (induction d) force+
  then show "n \<in> host_names ps \<Longrightarrow>
    host_names (ps\<lparr>ps_hosts := dict_set n v (ps_hosts ps), ps_warnings := w\<rparr>) = host_names ps \<and>
    length (dict_set n v (ps_hosts ps)) = length (ps_hosts ps)"
    by (auto simp: host_names_def keys_dict_set)
qed

lemma parse_hostvars_ok:
  assumes "parse_hostvars e a d ps = Inr ps'" and "state_ok e a ps"
  shows "state_ok e a ps'"
  using assms
proof (induction d arbitrary: ps)
  case (Cons kv d)
  obtain k vs where kv: "kv = (k, vs)" by (cases kv)
  obtain ok ps1 where 1: "add_host e a (snd k) ps = Inr (ok, ps1)"
    using Cons.prems(1) by (auto simp: kv res_bind_Inr_iff)
  note h = add_host_ok [OF 1 Cons.prems(2)]
  show ?case
  proof (cases ok)
    case True
    then obtain out w where 2: "parse_vars vs (''host '' @ snd k) (ps_warnings ps1) = Inr (out, w)"
      "parse_hostvars e a d (ps1\<lparr>ps_hosts := dict_set (snd k) out (ps_hosts ps1), ps_warnings := w\<rparr>) = Inr ps'"
      using Cons.prems(1) 1 by (auto simp: kv res_bind_Inr_iff)
    have "state_ok e a (ps1\<lparr>ps_hosts := dict_set (snd k) out (ps_hosts ps1), ps_warnings := w\<rparr>)"
      using h(1) parse_vars_warnings [OF 2(1)] host_names_dict_set [OF h(2) [OF True], where v = out and w = w]
      by (simp add: state_ok_def)
    then show ?thesis by (rule Cons.IH [OF 2(2)])
  next
    case False
    then show ?thesis using Cons.prems(1) 1 Cons.IH [OF _ h(1)] by (simp add: kv)
  qed
qed simp

lemma collect_groups_ok:
  assumes "collect_groups e a d av raw ps = Inr (av', raw', ps')" and "state_ok e a ps"
    and "\<forall>n \<in> fst ` set raw. group_problem n = None"
  shows "state_ok e a ps' \<and> (\<forall>n \<in> fst ` set raw'. group_problem n = None)"
  using assms
proof (induction e a d av raw ps rule: collect_groups.induct)
  case (2 e a k grp d all_vars raw ps)
  consider (all) "snd k = ''all''" | (un) "snd k \<noteq> ''all''" "snd k = ''ungrouped''"
    | (bad) p where "snd k \<noteq> ''all''" "snd k \<noteq> ''ungrouped''" "group_problem (snd k) = Some p"
    | (good) "snd k \<noteq> ''all''" "snd k \<noteq> ''ungrouped''" "group_problem (snd k) = None" by fastforce
  then show ?case
  proof cases
    case all
    then obtain vs w where 1: "parse_vars (get_or_dict ''vars'' grp) ''group all'' (ps_warnings ps) = Inr (vs, w)"
      "collect_groups e a d vs raw (ps\<lparr>ps_warnings := w\<rparr>) = Inr (av', raw', ps')"
      using 2(5) by (auto simp: res_bind_Inr_iff)
    have "state_ok e a (ps\<lparr>ps_warnings := w\<rparr>)"
      using 2(6) parse_vars_warnings [OF 1(1)] by (simp add: state_ok_def host_names_def)
    then show ?thesis using 2(1) [OF all 1(2)] 2(7) by auto
  next
    case un
    then obtain ns kept ps1 where 1: "add_hosts e a ns ps = Inr (kept, ps1)"
      "collect_groups e a d all_vars raw ps1 = Inr (av', raw', ps')"
      using 2(5) by (auto simp: res_bind_Inr_iff)
    then show ?thesis using 2(2) [OF un 1(2)] add_hosts_ok [OF 1(1) 2(6)] 2(7) by auto
  next
    case bad
    then show ?thesis using 2(4) [OF bad] 2(5-7) length_warn by (auto simp: state_ok_def host_names_def)
  next
    case good
    then show ?thesis using 2(3) [OF good] 2(5-7) by auto
  qed
qed auto

lemma parse_groups_ok:
  assumes "parse_groups e a known raw n groups ps = Inr (groups', ps')" and "state_ok e a ps"
    and "\<forall>(g, grp) \<in> set groups. set (gg_hosts grp) \<subseteq> host_names ps \<and> set (gg_children grp) \<subseteq> set known"
  shows "state_ok e a ps' \<and> map fst groups' = map fst groups @ map fst raw \<and>
    (\<forall>(g, grp) \<in> set groups'. set (gg_hosts grp) \<subseteq> host_names ps' \<and> set (gg_children grp) \<subseteq> set known)"
  using assms
proof (induction raw arbitrary: n groups ps)
  case (Cons r raw)
  obtain name grp where r: "r = (name, grp)" by (cases r)
  from Cons.prems(1) obtain ns members ps1 cs vs w n' where
    1: "add_hosts e a ns ps = Inr (members, ps1)"
      "parse_vars (get_or_dict ''vars'' grp) (''group '' @ name) (ps_warnings ps1) = Inr (vs, w)"
      "parse_groups e a known raw n' (groups @ [(name, \<lparr>gg_hosts = add_names members [],
         gg_children = add_names (filter (\<lambda>c. c \<in> set known) cs) [], gg_vars = vs\<rparr>)])
         (ps1\<lparr>ps_warnings := w\<rparr>) = Inr (groups', ps')"
    by (auto simp: r res_bind_Inr_iff Let_def split: if_splits)
  note h = add_hosts_ok [OF 1(1) Cons.prems(2)]
  have "state_ok e a (ps1\<lparr>ps_warnings := w\<rparr>)"
    using h parse_vars_warnings [OF 1(2)] by (simp add: state_ok_def host_names_def)
  moreover have "host_names (ps1\<lparr>ps_warnings := w\<rparr>) = host_names ps1" by (simp add: host_names_def)
  ultimately show ?case
    using Cons.IH [OF 1(3)] h Cons.prems(3) by (fastforce simp: r)
qed simp

text \<open>What an accepted output is known to be.\<close>

definition graph_ok :: "env \<Rightarrow> ansible_names \<Rightarrow> graph \<Rightarrow> bool" where
  "graph_ok e a g =
     ((\<forall>n \<in> fst ` set (gr_hosts g). hostname_problem a n = None) \<and>
      int (length (gr_hosts g)) \<le> max 0 (inventory_max_hosts e) \<and>
      (\<forall>n \<in> fst ` set (gr_groups g). group_problem n = None) \<and>
      int (length (gr_groups g)) \<le> inventory_max_groups e \<and>
      (\<forall>(n, grp) \<in> set (gr_groups g). set (gg_hosts grp) \<subseteq> fst ` set (gr_hosts g) \<and>
         set (gg_children grp) \<subseteq> fst ` set (gr_groups g)) \<and>
      (\<forall>n. (n, n) \<notin> (edges (gr_groups g))\<^sup>+))"

lemma parse_data_ok:
  assumes "parse_data e a data = Inr (g, w)"
  shows "graph_ok e a g \<and> length w \<le> Suc MAX_WARNINGS"
proof -
  obtain hostvars ps1 av raw ps2 groups ps3 where
    1: "parse_hostvars e a hostvars \<lparr>ps_hosts = [], ps_skipped = [], ps_warnings = []\<rparr> = Inr ps1"
    and 2: "collect_groups e a (filter (\<lambda>kv. snd (fst kv) \<noteq> ''_meta'') data) [] [] ps1 = Inr (av, raw, ps2)"
    and small: "int (length raw) \<le> inventory_max_groups e"
    and 3: "parse_groups e a (map fst raw) raw 0 [] ps2 = Inr (groups, ps3)"
    and 4: "refuse_cycles groups = Inr ()"
    and g: "g = \<lparr>gr_vars = av, gr_hosts = ps_hosts ps3, gr_groups = groups\<rparr>" "w = ps_warnings ps3"
    using assms
    by (auto simp: parse_data_def res_bind_Inr_iff split: option.splits val.splits if_splits)
  have "state_ok e a ps1" by (rule parse_hostvars_ok [OF 1]) (simp add: state_ok_def host_names_def)
  note ok2 = collect_groups_ok [OF 2 this]
  have 5: "state_ok e a ps3" "map fst groups = map fst raw"
    "\<forall>(g, grp) \<in> set groups. set (gg_hosts grp) \<subseteq> host_names ps3 \<and> set (gg_children grp) \<subseteq> fst ` set raw"
    using parse_groups_ok [OF 3] ok2 by auto
  have names: "fst ` set groups = fst ` set raw" "length groups = length raw"
    using 5(2) by (metis set_map, metis length_map)
  have "children_known groups"
    unfolding children_known_def children_of_def
  proof (intro allI)
    fix n
    show "set (case map_of groups n of None \<Rightarrow> [] | Some g \<Rightarrow> gg_children g) \<subseteq> fst ` set groups"
    proof (cases "map_of groups n")
      case (Some grp)
      from map_of_SomeD [OF this] 5(3) have "set (gg_children grp) \<subseteq> fst ` set raw" by blast
      then show ?thesis by (simp add: Some names(1))
    qed simp
  qed
  then have "\<forall>n. (n, n) \<notin> (edges groups)\<^sup>+" using refuse_cycles_search 4 by blast
  then show ?thesis
    using 5(1,3) ok2 names small by (auto simp: graph_ok_def g state_ok_def host_names_def)
qed

text \<open>
  C33. Whatever a plugin printed, an output that is accepted is a sound inventory: at most the allowed
  number of hosts and groups, every name one that Ansible reads as that single host or group, every
  member of a group a host and every child a group, no group inside itself; and at most 21 warnings
  are kept. A text over the size limit is refused unread.
\<close>

theorem parse_output_sound:
  assumes "parse_output e a loads raw = Inr (g, w)"
  shows "graph_ok e a g \<and> length w \<le> 21 \<and> int (length raw) \<le> inventory_max_output_mb e * 1024 * 1024"
proof -
  obtain data where "parse_data e a data = Inr (g, w)"
    and "int (length raw) \<le> inventory_max_output_mb e * 1024 * 1024"
    using assms by (auto simp: parse_output_def split: if_splits loaded.splits val.splits)
  then show ?thesis using parse_data_ok by (fastforce simp: MAX_WARNINGS_def)
qed

definition sample_names :: ansible_names where
  "sample_names = \<lparr>parse_address = (\<lambda>_. None), detect_range = (\<lambda>_. False)\<rparr>"

definition sample_output :: val where
  "sample_output = VDict
     [(vkey ''_meta'', VDict [(vkey ''profile'', Str ''inventory_legacy''),
        (vkey ''hostvars'', VDict [(vkey ''web1'', VDict [(vkey ''x'', VInt 1)])])]),
      (vkey ''web'', VDict [(vkey ''hosts'', VList [Str ''web1'', Str ''web2''])])]"

definition sample_parsed :: graph where
  "sample_parsed =
     \<lparr>gr_vars = [], gr_hosts = [(''web1'', [(vkey ''x'', VInt 1)]), (''web2'', [])],
      gr_groups = [(''web'', \<lparr>gg_hosts = [''web1'', ''web2''], gg_children = [], gg_vars = []\<rparr>)]\<rparr>"

lemma sample_parse: "parse_output sample_env sample_names (\<lambda>_. Some sample_output) ''{}'' = Inr (sample_parsed, [])"
proof -
  have n: "hostname_problem sample_names ''web1'' = None" "hostname_problem sample_names ''web2'' = None"
    "group_problem ''web'' = None" "nesting_depth ''{}'' = 1" by code_simp+
  have "refuse_cycles [(''web'', \<lparr>gg_hosts = [''web1'', ''web2''], gg_children = [], gg_vars = []\<rparr>)] = Inr ()"
    by (simp add: refuse_cycles_def children_of_def)
  then show ?thesis
    by (simp add: parse_output_def loads_bounded_def n sample_output_def parse_data_def get_or_none_def
        get_or_dict_def add_host_def sample_env_def MAX_EDGES_def MAX_VARS_DEPTH_def add_names_def
        sample_parsed_def)
qed

theorem parse_output_sound_witness:
  "parse_output sample_env sample_names (\<lambda>_. Some sample_output) ''{}'' = Inr (sample_parsed, []) \<and>
   graph_ok sample_env sample_names sample_parsed"
  using parse_output_sound [OF sample_parse] sample_parse by blast

section \<open>The filter\<close>

definition bad_connection :: "(bool \<times> string) \<times> val \<Rightarrow> bool" where
  "bad_connection kv = (snd (fst kv) = ''ansible_connection'' \<and> \<not> hashable (snd kv))"

lemma ansible_connection_allowed:
  "startswith (lower ''ansible_connection'') ''ansible_''" "''ansible_connection'' \<in> set SOURCE_CONNECTION_VARS"
  by code_simp+

lemma source_var_problem_Inl:
  "source_var_problem (snd k) v = Inl f \<longleftrightarrow> f = TypeError \<and> bad_connection (k, v)"
  using ansible_connection_allowed by (auto simp: source_var_problem_def bad_connection_def)

lemma filter_vars_outcome:
  "if list_ex bad_connection vs then filter_vars place quiet vs w = Inl (Crash TypeError)
   else \<exists>out w'. filter_vars place quiet vs w = Inr (out, w') \<and>
     list_all (\<lambda>kv. source_var_problem (snd (fst kv)) (snd kv) = Inr None) out"
proof (induction vs arbitrary: w)
  case (Cons kv vs)
  obtain k v where kv: "kv = (k, v)" by (cases kv)
  show ?case
  proof (cases "source_var_problem (snd k) v")
    case (Inl f)
    then have "f = TypeError" "bad_connection kv" using source_var_problem_Inl [of k v f] by (simp_all add: kv)
    then show ?thesis using Inl by (simp add: kv)
  next
    case (Inr p)
    then have ok: "\<not> bad_connection kv" using source_var_problem_Inl [of k v TypeError] by (simp add: kv)
    show ?thesis
    proof (cases p)
      case None
      show ?thesis using Cons.IH [of w] ok Inr None by (cases "list_ex bad_connection vs") (auto simp: kv)
    next
      case (Some m)
      let ?w = "if quiet then w else warn (place @ '': dropped '' @ take 100 (snd k) @ '': it '' @ m) w"
      show ?thesis using Cons.IH [of ?w] ok Inr Some by (cases "list_ex bad_connection vs") (auto simp: kv)
    qed
  qed
qed simp

definition vars_clean :: "vars \<Rightarrow> bool" where
  "vars_clean vs = list_all (\<lambda>kv. source_var_problem (snd (fst kv)) (snd kv) = Inr None) vs"

lemma filter_hosts_outcome:
  "if list_ex (\<lambda>h. list_ex bad_connection (snd h)) hs then filter_hosts static hs w = Inl (Crash TypeError)
   else \<exists>out w'. filter_hosts static hs w = Inr (out, w') \<and> list_all (\<lambda>h. vars_clean (snd h)) out"
proof (induction hs arbitrary: w)
  case (Cons h hs)
  obtain n vs where h: "h = (n, vs)" by (cases h)
  note f = filter_vars_outcome [of vs "''host '' @ n" "n \<in> set static" w]
  show ?case
  proof (cases "list_ex bad_connection vs")
    case True
    then show ?thesis using f by (simp add: h)
  next
    case False
    then obtain out w1 where 1: "filter_vars (''host '' @ n) (n \<in> set static) vs w = Inr (out, w1)" "vars_clean out"
      using f by (auto simp: vars_clean_def)
    show ?thesis
      using Cons.IH [of w1] 1 False by (cases "list_ex (\<lambda>h. list_ex bad_connection (snd h)) hs") (auto simp: h)
  qed
qed simp

lemma filter_groups_outcome:
  "if list_ex (\<lambda>g. list_ex bad_connection (gg_vars (snd g))) gs then filter_groups gs w = Inl (Crash TypeError)
   else \<exists>out w'. filter_groups gs w = Inr (out, w') \<and> list_all (\<lambda>g. vars_clean (gg_vars (snd g))) out"
proof (induction gs arbitrary: w)
  case (Cons g gs)
  obtain n grp where g: "g = (n, grp)" by (cases g)
  note f = filter_vars_outcome [of "gg_vars grp" "''group '' @ n" False w]
  show ?case
  proof (cases "list_ex bad_connection (gg_vars grp)")
    case True
    then show ?thesis using f by (simp add: g)
  next
    case False
    then obtain out w1 where 1: "filter_vars (''group '' @ n) False (gg_vars grp) w = Inr (out, w1)" "vars_clean out"
      using f by (auto simp: vars_clean_def)
    show ?thesis
      using Cons.IH [of w1] 1 False
      by (cases "list_ex (\<lambda>g. list_ex bad_connection (gg_vars (snd g))) gs") (auto simp: g)
  qed
qed simp

lemma source_vars_clean: "vars_clean vs \<Longrightarrow> source_vars vs = Inr vs"
proof (induction vs)
  case (Cons kv vs)
  then show ?case by (cases kv) (simp add: vars_clean_def)
qed simp

lemma map_res_total: "(\<And>x. x \<in> set xs \<Longrightarrow> \<exists>y. f x = Inr y) \<Longrightarrow> \<exists>ys. map_res f xs = Inr ys"
proof (induction xs)
  case (Cons x xs)
  obtain y ys where "f x = Inr y" "map_res f xs = Inr ys" using Cons by force
  then show ?case by simp
qed simp

lemma merge_clean_total:
  assumes "vars_clean (gr_vars sd)" and "list_all (\<lambda>h. vars_clean (snd h)) (gr_hosts sd)"
    and "list_all (\<lambda>g. vars_clean (gg_vars (snd g))) (gr_groups sd)"
  shows "\<exists>g. merge st (Some sd) = Inr g"
proof -
  define gone where "gone = filter (\<lambda>h. h \<notin> fst ` set (st_hosts st)) (sd_static_hosts sd)"
  have "\<exists>ys. map_res merge_host (filter (\<lambda>(n, _). n \<notin> set gone) (gr_hosts sd)) = Inr ys"
    using assms(2) by (intro map_res_total) (auto simp: merge_host_def source_vars_clean list_all_iff)
  then obtain hs where hs: "map_res merge_host (filter (\<lambda>(n, _). n \<notin> set gone) (gr_hosts sd)) = Inr hs" by blast
  have "\<exists>ys. map_res (merge_group st (sd_static_hosts sd) gone) (gr_groups sd) = Inr ys"
    using assms(3) by (intro map_res_total) (auto simp: merge_group_def source_vars_clean list_all_iff Let_def)
  then obtain gs where gs: "map_res (merge_group st (sd_static_hosts sd) gone) (gr_groups sd) = Inr gs" by blast
  show ?thesis
    using hs gs source_vars_clean [OF assms(1)] by (simp add: merge_def merge_snapshot_def Let_def gone_def)
qed

text \<open>
  C35. Filtering an accepted output fails in exactly one way, which no caller handles: a variable
  \<open>ansible_connection\<close> whose value is a list or a mapping raises \<open>TypeError\<close> (a set membership test on an
  unhashable value) instead of being dropped with a warning. Otherwise the snapshot is made, and
  merging it into any inventory succeeds.
\<close>

theorem filter_graph_outcome:
  "if \<exists>vs \<in> set (all_vars_dicts g). list_ex bad_connection vs
   then filter_graph g static w = Inl (Crash TypeError)
   else \<exists>sd w'. filter_graph g static w = Inr (sd, w') \<and> (\<forall>st. \<exists>m. merge st (Some sd) = Inr m)"
proof -
  have ex: "(\<exists>vs \<in> set (all_vars_dicts g). list_ex bad_connection vs) \<longleftrightarrow>
      list_ex bad_connection (gr_vars g) \<or> list_ex (\<lambda>h. list_ex bad_connection (snd h)) (gr_hosts g) \<or>
      list_ex (\<lambda>g. list_ex bad_connection (gg_vars (snd g))) (gr_groups g)"
    by (auto simp: all_vars_dicts_def list_ex_iff)
  note v = filter_vars_outcome [of "gr_vars g" "''group all''" False w]
  show ?thesis
  proof (cases "list_ex bad_connection (gr_vars g)")
    case True
    then show ?thesis using v ex by (simp add: filter_graph_def)
  next
    case False
    then obtain vs w1 where 1: "filter_vars ''group all'' False (gr_vars g) w = Inr (vs, w1)" "vars_clean vs"
      using v by (auto simp: vars_clean_def)
    note h = filter_hosts_outcome [of "gr_hosts g" static w1]
    show ?thesis
    proof (cases "list_ex (\<lambda>h. list_ex bad_connection (snd h)) (gr_hosts g)")
      case True
      then show ?thesis using h ex 1 by (simp add: filter_graph_def)
    next
      case noh: False
      then obtain hs w2 where 2: "filter_hosts static (gr_hosts g) w1 = Inr (hs, w2)" "list_all (\<lambda>h. vars_clean (snd h)) hs"
        using h by auto
      note gr = filter_groups_outcome [of "gr_groups g" w2]
      show ?thesis
      proof (cases "list_ex (\<lambda>g. list_ex bad_connection (gg_vars (snd g))) (gr_groups g)")
        case True
        then show ?thesis using gr ex 1 2 by (simp add: filter_graph_def)
      next
        case nog: False
        then obtain gs w3 where 3: "filter_groups (gr_groups g) w2 = Inr (gs, w3)"
          "list_all (\<lambda>g. vars_clean (gg_vars (snd g))) gs" using gr by auto
        let ?sd = "\<lparr>gr_vars = vs, gr_hosts = hs, gr_groups = gs, sd_static_hosts = static\<rparr>"
        have "filter_graph g static w = Inr (?sd, w3)" using 1 2 3 by (simp add: filter_graph_def)
        moreover have "\<forall>st. \<exists>m. merge st (Some ?sd) = Inr m"
          using merge_clean_total [of ?sd] 1(2) 2(2) 3(2) by simp
        ultimately show ?thesis using ex False noh nog by auto
      qed
    qed
  qed
qed

end
