(* ===== verification/Refreshes.thy ===== *)
theory Refreshes
  imports Lint Inventory_Output "HOL-Library.List_Lexorder" "HOL-Library.Char_ord"
begin

text \<open>
  Refreshing an inventory's dynamic sources: \<open>app/inventory_sources.py\<close> from the queue to the
  snapshot. A refresh runs some of the sources; each source's output is kept on its own, and the
  outputs of all of them are combined into the snapshot that runs use. Parsing and rendering are in
  \<open>Inventory_Output\<close> and \<open>Inventory_Render\<close>. Reading a source's credential and its files is the
  argument of the job's construction (\<open>Refresh_Api\<close>).
\<close>

definition KEEP_SNAPSHOTS :: nat where "KEEP_SNAPSHOTS = 5"

definition is_constructed :: "inventory_source \<Rightarrow> bool" where
  "is_constructed s = (src_plugin s \<in> {''constructed'', ''ansible.builtin.constructed''})"

text \<open>\<open>inventory.sources\<close> is ordered by position.\<close>

definition sources_of :: "database \<Rightarrow> key_id \<Rightarrow> inventory_source list" where
  "sources_of db iid = sort_key src_position (filter (\<lambda>s. src_inventory_id s = iid) (sources db))"

definition ordered_sources :: "database \<Rightarrow> key_id \<Rightarrow> inventory_source list" where
  "ordered_sources db iid =
     (let enabled = filter src_enabled (sources_of db iid)
      in filter (\<lambda>s. \<not> is_constructed s) enabled @ filter is_constructed enabled)"

section \<open>Queueing\<close>

definition has_sources :: "database \<Rightarrow> key_id \<Rightarrow> bool" where
  "has_sources db iid = (\<exists>s \<in> set (sources db). src_inventory_id s = iid \<and> src_enabled s)"

text \<open>\<open>sorted(set(ids))\<close>, and a scope widened by another (\<open>None\<close> is every source).\<close>

definition sorted_ids :: "key_id list \<Rightarrow> key_id list" where
  "sorted_ids ids = sort (remdups ids)"

definition widen :: "key_id list option \<Rightarrow> key_id list option \<Rightarrow> key_id list option" where
  "widen a b = (case (a, b) of (Some x, Some y) \<Rightarrow> Some (sorted_ids (x @ y)) | _ \<Rightarrow> None)"

definition queued_for :: "key_id \<Rightarrow> refresh \<Rightarrow> bool" where
  "queued_for iid f = (f_inventory_id f = iid \<and> status f = QUEUED)"

text \<open>The insert, which does nothing when the inventory has a queued refresh.\<close>

definition insert_refresh ::
  "env \<Rightarrow> time \<Rightarrow> inventory \<Rightarrow> string \<Rightarrow> string option \<Rightarrow> key_id list option \<Rightarrow> database \<Rightarrow>
   database \<times> key_id option" where
  "insert_refresh e now iv trigger who scope db =
     (if \<exists>f \<in> set (refreshes db). queued_for (i_id iv) f then (db, None)
      else let f = \<lparr>row_id = next_refresh_id db, status = QUEUED, queued_at = now, claimed_at = None,
                    started_at = None, finished_at = None,
                    timeout_seconds = inventory_refresh_timeout_seconds e, worker_id = None,
                    lease_expires_at = None, heartbeat_at = None, claim_token_hash = None,
                    job_token_hash = None, job_token_expires_at = None, f_inventory_id = i_id iv,
                    f_project_id = i_project_id iv, f_trigger = trigger, f_requested_by = who,
                    f_sources = None, f_output_bytes = None, f_error = None, f_snapshot_id = None,
                    f_scope = scope, f_stage = None\<rparr>
           in (db\<lparr>refreshes := refreshes db @ [f], next_refresh_id := next_refresh_id db + 1\<rparr>,
               Some (row_id f)))"

definition put_refresh :: "refresh \<Rightarrow> database \<Rightarrow> database" where
  "put_refresh f db = db\<lparr>refreshes := update_rows (\<lambda>x. row_id x = row_id f) (\<lambda>_. f) (refreshes db)\<rparr>"

definition touch_sources :: "time \<Rightarrow> key_id \<Rightarrow> key_id list option \<Rightarrow> database \<Rightarrow> database" where
  "touch_sources now iid scope db =
     db\<lparr>sources := update_rows
          (\<lambda>s. src_inventory_id s = iid \<and>
               (case scope of Some ids \<Rightarrow> src_id s \<in> set ids | None \<Rightarrow> src_enabled s))
          (\<lambda>s. s\<lparr>src_last_queued_at := Some now\<rparr>) (sources db)\<rparr>"

text \<open>\<open>mid\<close> is what others commit between the insert and the look at the queued refresh.\<close>

definition enqueue_refresh ::
  "env \<Rightarrow> time \<Rightarrow> (database \<Rightarrow> database) \<Rightarrow> inventory \<Rightarrow> string \<Rightarrow> string option \<Rightarrow> key_id list option \<Rightarrow>
   database \<Rightarrow> database \<times> key_id option" where
  "enqueue_refresh e now mid iv trigger who source_ids db =
     (if \<not> has_sources db (i_id iv) then (db, None)
      else let scope = map_option sorted_ids source_ids;
               (db1, rid) = insert_refresh e now iv trigger who scope db;
               (db2, rid2) =
                 (if rid \<noteq> None then (db1, rid)
                  else let dbm = mid db1 in
                       case find (queued_for (i_id iv)) (refreshes dbm) of
                         None \<Rightarrow> insert_refresh e now iv trigger who scope dbm
                       | Some q \<Rightarrow>
                           (if f_scope q \<noteq> None
                            then put_refresh (q\<lparr>f_scope := widen (f_scope q) scope\<rparr>) dbm else dbm, None))
           in (touch_sources now (i_id iv) scope db2, rid2))"

definition effective_interval :: "inventory_source \<Rightarrow> inventory \<Rightarrow> int" where
  "effective_interval s i =
     (if is_constructed s then 0
      else case src_refresh_interval_seconds s of Some n \<Rightarrow> n | None \<Rightarrow> i_refresh_interval_seconds i)"

definition source_due :: "time \<Rightarrow> database \<Rightarrow> inventory_source \<Rightarrow> bool" where
  "source_due now db s =
     (case get_row i_id (inventories db) (src_inventory_id s) of
        None \<Rightarrow> False
      | Some i \<Rightarrow>
          let interval = (case src_refresh_interval_seconds s of Some n \<Rightarrow> n | None \<Rightarrow> i_refresh_interval_seconds i)
          in src_enabled s \<and> interval > 0 \<and>
             (case src_last_queued_at s of None \<Rightarrow> True | Some t \<Rightarrow> t + secs interval \<le> now))"

definition due_sources :: "time \<Rightarrow> database \<Rightarrow> (key_id \<times> key_id list) list" where
  "due_sources now db =
     fold (\<lambda>s due. if is_constructed s then due
                   else dict_set (src_inventory_id s)
                     ((case map_of due (src_inventory_id s) of None \<Rightarrow> [] | Some ids \<Rightarrow> ids) @ [src_id s]) due)
       (sort_key (\<lambda>s. (src_inventory_id s, src_id s)) (filter (source_due now db) (sources db))) []"

section \<open>What each source did\<close>

definition nullable :: "string option \<Rightarrow> val" where
  "nullable t = (case t of None \<Rightarrow> VNone | Some s \<Rightarrow> Str s)"

definition input_sha256 :: "env \<Rightarrow> inventory_source \<Rightarrow> string" where
  "input_sha256 e s =
     sha256_hex e (json_dumps e (VList
       [Str (src_kind s), Str (src_plugin s), nullable (src_config s),
        opt_int (src_credential_id s), opt_int (src_git_source_id s), nullable (src_path s)]))"

definition put_row :: "refresh_source \<Rightarrow> database \<Rightarrow> database" where
  "put_row row db = db\<lparr>refresh_sources := update_rows (\<lambda>x. rs_id x = rs_id row) (\<lambda>_. row) (refresh_sources db)\<rparr>"

definition source_of_row :: "database \<Rightarrow> refresh_source \<Rightarrow> inventory_source option" where
  "source_of_row db row = Option.bind (rs_source_id row) (get_row src_id (sources db))"

definition set_source :: "key_id \<Rightarrow> (inventory_source \<Rightarrow> inventory_source) \<Rightarrow> database \<Rightarrow> database" where
  "set_source i f db = db\<lparr>sources := update_rows (\<lambda>s. src_id s = i) f (sources db)\<rparr>"

definition record_source_failure :: "env \<Rightarrow> time \<Rightarrow> refresh_source \<Rightarrow> string \<Rightarrow> database \<Rightarrow> database" where
  "record_source_failure e now row error db =
     (let err = take 1000 error;
          db1 = put_row (row\<lparr>rs_status := Some ''failed'', rs_error := Some err\<rparr>) db in
      case source_of_row db row of
        Some s \<Rightarrow>
          if Some (input_sha256 e s) = rs_input_sha256 row
          then set_source (src_id s)
                 (\<lambda>s. s\<lparr>src_last_error := Some err, src_last_finished_at := Some now\<rparr>) db1
          else db1
      | None \<Rightarrow> db1)"

definition SCRUBBED :: string where
  "SCRUBBED = ''a credential'' @ [CHR 0x27] @ ''s value appeared in the output and was redacted''"

definition shrunk_message :: "int \<Rightarrow> int \<Rightarrow> string \<Rightarrow> string" where
  "shrunk_message found before advice =
     show_int found @ '' hosts, down from '' @ show_int before @ '' last time: '' @ advice"

definition shrunk :: "int \<Rightarrow> int \<Rightarrow> bool" where
  "shrunk found before = (before \<noteq> 0 \<and> 2 * found < before)"

definition put_output :: "source_output \<Rightarrow> database \<Rightarrow> database" where
  "put_output o' db =
     db\<lparr>source_outputs :=
          (if so_source_id o' \<in> so_source_id ` set (source_outputs db)
           then update_rows (\<lambda>x. so_source_id x = so_source_id o') (\<lambda>_. o') (source_outputs db)
           else source_outputs db @ [o'])\<rparr>"

definition store_source_output ::
  "env \<Rightarrow> ansible_names \<Rightarrow> (string \<Rightarrow> val option) \<Rightarrow> time \<Rightarrow> refresh \<Rightarrow> refresh_source \<Rightarrow> string \<Rightarrow> bool \<Rightarrow>
   database \<Rightarrow> py_error + database" where
  "store_source_output e a loads now f row raw scrubbed db =
     (case parse_output e a loads raw of
        Inl (Crash x) \<Rightarrow> Inl x
      | Inl (SourceError m) \<Rightarrow> Inr (record_source_failure e now row m db)
      | Inr (g, w0) \<Rightarrow>
          let w1 = (if scrubbed then SCRUBBED # w0 else w0); found = int (length (gr_hosts g)) in
          (case source_of_row db row of
             Some s \<Rightarrow>
               if Some (input_sha256 e s) \<noteq> rs_input_sha256 row
               then Inr (put_row (row\<lparr>rs_status := Some ''stale''\<rparr>) db)
               else let previous = get_row so_source_id (source_outputs db) (src_id s);
                        w2 = (case previous of
                                Some p \<Rightarrow> if shrunk found (so_host_count p)
                                          then warn (shrunk_message found (so_host_count p) ''check its filters and credential'') w1
                                          else w1
                              | None \<Rightarrow> w1);
                        db1 = put_output
                          \<lparr>so_source_id = src_id s, so_inventory_id = src_inventory_id s, so_refresh_id = Some (row_id f),
                           so_data = g, so_host_count = found, so_group_count = int (length (gr_groups g)),
                           so_output_bytes = int (length raw), so_warnings = w2,
                           so_input_sha256 = the (rs_input_sha256 row), so_git_commit = rs_git_commit row,
                           so_refreshed_at = now\<rparr> db;
                        db2 = put_row (row\<lparr>rs_status := Some ''success'', rs_error := None, rs_host_count := Some found\<rparr>) db1
                    in Inr (set_source (src_id s) (\<lambda>s. s\<lparr>src_last_error := None, src_last_finished_at := Some now\<rparr>) db2)
           | None \<Rightarrow> Inr (put_row (row\<lparr>rs_status := Some ''stale''\<rparr>) db)))"

definition refresh_rows :: "database \<Rightarrow> refresh \<Rightarrow> refresh_source list" where
  "refresh_rows db f = sort_key rs_id (filter (\<lambda>r. rs_refresh_id r = row_id f) (refresh_sources db))"

section \<open>Combining\<close>

definition contributing :: "database \<Rightarrow> key_id \<Rightarrow> (inventory_source \<times> source_output) list" where
  "contributing db iid =
     List.map_filter (\<lambda>s. map_option (Pair s) (get_row so_source_id (source_outputs db) (src_id s)))
       (filter (\<lambda>s. \<not> is_constructed s) (ordered_sources db iid))"

definition source_warnings :: "(inventory_source \<times> source_output) list \<Rightarrow> string list" where
  "source_warnings pairs =
     fold (\<lambda>(s, o') w. fold (\<lambda>m. warn (''source '' @ quoted (src_name s) @ '': '' @ m)) (so_warnings o') w) pairs []"

definition layer_group :: "string \<times> graph_group \<Rightarrow> (string \<times> graph_group) list \<Rightarrow> (string \<times> graph_group) list" where
  "layer_group = (\<lambda>(n, g) groups.
     let into = (case map_of groups n of None \<Rightarrow> \<lparr>gg_hosts = [], gg_children = [], gg_vars = []\<rparr> | Some x \<Rightarrow> x)
     in dict_set n \<lparr>gg_hosts = add_names (gg_hosts g) (gg_hosts into),
                    gg_children = add_names (gg_children g) (gg_children into),
                    gg_vars = vupdate (gg_vars into) (gg_vars g)\<rparr> groups)"

definition layer :: "graph list \<Rightarrow> graph" where
  "layer graphs =
     fold (\<lambda>g acc. \<lparr>gr_vars = vupdate (gr_vars acc) (gr_vars g),
                    gr_hosts = fold static_host (gr_hosts g) (gr_hosts acc),
                    gr_groups = fold layer_group (gr_groups g) (gr_groups acc)\<rparr>) graphs empty_graph"

definition str_list :: "string list \<Rightarrow> val" where
  "str_list ns = VList (map Str ns)"

definition legacy_group :: "graph_group \<Rightarrow> val" where
  "legacy_group g = VDict
     (entry_unless (gg_hosts g = []) ''hosts'' (str_list (gg_hosts g)) @
      entry_unless (gg_children g = []) ''children'' (str_list (gg_children g)) @
      entry_unless (gg_vars g = []) ''vars'' (VDict (gg_vars g)))"

text \<open>\<open>_legacy_json\<close>, before it is dumped.\<close>

definition legacy_val :: "graph \<Rightarrow> val" where
  "legacy_val g =
     (let grouped = (\<Union>(n, grp) \<in> set (gr_groups g). set (gg_hosts grp));
          named = sort_key fst (gr_hosts g) in
      VDict
       ([(vkey ''_meta'', VDict
           [(vkey ''profile'', Str ''inventory_legacy''),
            (vkey ''hostvars'', VDict (map (\<lambda>(h, vs). (vkey h, VDict vs)) (filter (\<lambda>(h, vs). vs \<noteq> []) named)))]),
         (vkey ''all'', VDict (entry_unless (gr_vars g = []) ''vars'' (VDict (gr_vars g)))),
         (vkey ''ungrouped'', VDict [(vkey ''hosts'', str_list (filter (\<lambda>h. h \<notin> grouped) (map fst (gr_hosts g))))])] @
        map (\<lambda>(n, grp). (vkey n, legacy_group grp)) (sort_key fst (gr_groups g))))"

definition needs_combine_job :: "database \<Rightarrow> key_id \<Rightarrow> bool" where
  "needs_combine_job db iid = list_ex is_constructed (ordered_sources db iid)"

definition set_static_hosts :: "string list \<Rightarrow> refresh \<Rightarrow> refresh" where
  "set_static_hosts hs f =
     f\<lparr>f_sources := Some (case f_sources f of
          None \<Rightarrow> \<lparr>ri_sources = [], ri_static_hosts = hs\<rparr>
        | Some r \<Rightarrow> r\<lparr>ri_static_hosts := hs\<rparr>)\<rparr>"

text \<open>Without a snapshot the merge cannot fail, so its value is the graph of the static data.\<close>

definition combine_here ::
  "env \<Rightarrow> ansible_names \<Rightarrow> (string \<Rightarrow> val option) \<Rightarrow> inventory \<Rightarrow> database \<Rightarrow> source_failure + (snapshot_data \<times> string list)" where
  "combine_here e a loads iv db =
     (let static = static_data iv;
          pairs = contributing db (i_id iv);
          g = layer (map (\<lambda>(s, o'). so_data o') pairs @ [merge_static static empty_graph]) in
      res_bind (normalise e a loads (json_dumps e (legacy_val g)) (map fst (st_hosts static)))
        (\<lambda>(sd, w). Inr (sd, source_warnings pairs @ w)))"

definition sources_outcome :: "refresh_source list \<Rightarrow> run_status \<times> string option" where
  "sources_outcome rows =
     (let errors = map (\<lambda>r. ''source '' @ quoted (rs_name r) @ '': '' @
                            (case rs_error r of None \<Rightarrow> ''failed'' | Some t \<Rightarrow> if t = [] then ''failed'' else t))
                     (filter (\<lambda>r. rs_status r = Some ''failed'') rows)
      in if errors \<noteq> [] then (FAILED, Some (take 1000 (join [CHR 0x0A] errors))) else (SUCCESS, None))"

definition keep_current_snapshot :: "database \<Rightarrow> inventory \<Rightarrow> refresh_source list \<Rightarrow> bool" where
  "keep_current_snapshot db iv rows =
     (let ran = filter rs_ran rows in
      if ran \<noteq> [] \<and> \<not> list_ex (\<lambda>r. rs_status r \<in> {Some ''success'', Some ''stale''}) ran then True
      else case Option.bind (i_current_snapshot_id iv) (get_row sn_id (snapshots db)) of
        None \<Rightarrow> False
      | Some cur \<Rightarrow>
          let in_current = map se_id (sn_sources cur);
              with_output = map so_source_id (filter (\<lambda>o'. so_inventory_id o' = i_id iv) (source_outputs db))
          in list_ex (\<lambda>r. rs_status r = Some ''failed'' \<and>
                          (\<exists>i \<in> set in_current. rs_source_id r = Some i \<and> i \<notin> set with_output)) rows)"

definition store_snapshot ::
  "time \<Rightarrow> refresh \<Rightarrow> snapshot_data \<Rightarrow> string list \<Rightarrow> database \<Rightarrow> py_error + (database \<times> refresh)" where
  "store_snapshot now f sd warnings db =
     (case get_row i_id (inventories db) (f_inventory_id f) of
        None \<Rightarrow> Inl NoResultFound
      | Some iv \<Rightarrow>
          let previous = Option.bind (i_current_snapshot_id iv) (get_row sn_id (snapshots db));
              found = int (length (gr_hosts sd));
              w = (case previous of
                     Some p \<Rightarrow> if shrunk found (sn_host_count p)
                               then warnings @ [shrunk_message found (sn_host_count p) (''check the sources'' @ [CHR 0x27] @ '' filters and credentials'')]
                               else warnings
                   | None \<Rightarrow> warnings);
              row = \<lparr>sn_id = next_snapshot_id db, sn_inventory_id = i_id iv, sn_refresh_id = Some (row_id f),
                     sn_data = sd, sn_host_count = found, sn_group_count = int (length (gr_groups sd)),
                     sn_warnings = w, sn_sources = (case f_sources f of None \<Rightarrow> [] | Some r \<Rightarrow> ri_sources r),
                     sn_created_at = now, sn_superseded_at = None\<rparr>;
              old = (case previous of None \<Rightarrow> snapshots db
                     | Some p \<Rightarrow> update_rows (\<lambda>x. sn_id x = sn_id p) (\<lambda>x. x\<lparr>sn_superseded_at := Some now\<rparr>) (snapshots db));
              f' = f\<lparr>f_snapshot_id := Some (sn_id row)\<rparr>
          in Inr (put_refresh f' (db\<lparr>snapshots := old @ [row], next_snapshot_id := next_snapshot_id db + 1,
                     inventories := update_rows (\<lambda>x. i_id x = i_id iv)
                       (\<lambda>x. x\<lparr>i_current_snapshot_id := Some (sn_id row)\<rparr>) (inventories db)\<rparr>), f'))"

text \<open>A superseded snapshot's place among those of its inventory, newest first, from 1.\<close>

definition superseded_rank :: "database \<Rightarrow> snapshot \<Rightarrow> nat" where
  "superseded_rank db s =
     Suc (length (filter (\<lambda>x. sn_superseded_at x \<noteq> None \<and> sn_inventory_id x = sn_inventory_id s \<and> sn_id x > sn_id s)
                    (snapshots db)))"

definition snapshot_doomed :: "database \<Rightarrow> snapshot \<Rightarrow> bool" where
  "snapshot_doomed db s =
     (sn_superseded_at s \<noteq> None \<and> superseded_rank db s \<ge> KEEP_SNAPSHOTS \<and>
      \<not> (\<exists>r \<in> set (runs db). is_active_status (status r) \<and> inventory_snapshot_id r = Some (sn_id s)))"

text \<open>Deleting a snapshot clears the reference of a run to it (\<open>ON DELETE SET NULL\<close>).\<close>

definition prune_snapshots :: "database \<Rightarrow> database \<times> nat" where
  "prune_snapshots db =
     (let doomed = map sn_id (filter (snapshot_doomed db) (snapshots db)) in
      (if doomed = [] then db
       else db\<lparr>refreshes := update_rows (\<lambda>f. \<exists>i \<in> set doomed. f_snapshot_id f = Some i)
                 (\<lambda>f. f\<lparr>f_snapshot_id := None\<rparr>) (refreshes db),
               runs := update_rows (\<lambda>r. \<exists>i \<in> set doomed. inventory_snapshot_id r = Some i)
                 (\<lambda>r. r\<lparr>inventory_snapshot_id := None\<rparr>) (runs db),
               snapshots := delete_rows (\<lambda>s. sn_id s \<in> set doomed) (snapshots db)\<rparr>,
       length doomed))"

section \<open>The end of a refresh\<close>

text \<open>One run that waited: it gets the snapshot, or fails.\<close>

definition release_run ::
  "env \<Rightarrow> time \<Rightarrow> string \<Rightarrow> run_status \<Rightarrow> string option \<Rightarrow> snapshot option \<Rightarrow> run \<Rightarrow> database \<Rightarrow> py_error + database" where
  "release_run e now clock st error snap r db =
     (case snap of
        None \<Rightarrow>
          let why = take 300 (hd (splitlines (error_or error (status_words st))))
          in Inr (fail_run e now clock FAILED (''not run: the inventory refresh failed: '' @ why) r db)
      | Some s \<Rightarrow>
          res_bind (merge (case inventory_static r of None \<Rightarrow> \<lparr>st_hosts = [], st_groups = []\<rparr> | Some st \<Rightarrow> st)
                      (Some (sn_data s)))
            (\<lambda>g. Inr (
               if group_name r \<noteq> None \<and> the (group_name r) \<notin> fst ` set (gr_groups g)
               then fail_run e now clock FAILED
                      (''not run: its target group '' @ py_repr (the (group_name r)) @ '' is not in the refreshed inventory'') r db
               else put_run (r\<lparr>inventory_snapshot_id := Some (sn_id s), inventory_snapshot_at := Some (sn_created_at s),
                               inventory_snapshot_hosts := Some (sn_host_count s)\<rparr>) db)))"

fun release_runs ::
  "env \<Rightarrow> time \<Rightarrow> string \<Rightarrow> run_status \<Rightarrow> string option \<Rightarrow> snapshot option \<Rightarrow> run list \<Rightarrow> database \<Rightarrow> py_error + database" where
  "release_runs e now clock st error snap [] db = Inr db"
| "release_runs e now clock st error snap (r # rs) db =
     res_bind (release_run e now clock st error snap r db) (release_runs e now clock st error snap rs)"

definition waiting_for :: "key_id \<Rightarrow> run \<Rightarrow> bool" where
  "waiting_for i r = (waiting_refresh_id r = Some i \<and> status r = QUEUED)"

definition release_waiting_runs ::
  "env \<Rightarrow> time \<Rightarrow> string \<Rightarrow> refresh \<Rightarrow> run_status \<Rightarrow> string option \<Rightarrow> database \<Rightarrow> py_error + database" where
  "release_waiting_runs e now clock f st error db =
     release_runs e now clock st error
       (if st = SUCCESS then Option.bind (f_snapshot_id f) (get_row sn_id (snapshots db)) else None)
       (sort_key row_id (filter (waiting_for (row_id f)) (runs db))) db"

definition unclaim :: "refresh \<Rightarrow> refresh" where
  "unclaim f =
     f\<lparr>claimed_at := None, worker_id := None, heartbeat_at := None, lease_expires_at := None,
       claim_token_hash := None, job_token_hash := None, job_token_expires_at := None, f_stage := None\<rparr>"

definition requeue_refresh :: "time \<Rightarrow> refresh \<Rightarrow> string \<Rightarrow> database \<Rightarrow> database" where
  "requeue_refresh now f label db =
     (case find (queued_for (f_inventory_id f)) (refreshes db) of
        None \<Rightarrow> put_refresh ((unclaim f)\<lparr>status := QUEUED\<rparr>) db
      | Some other \<Rightarrow>
          let other' = other\<lparr>f_scope := widen (f_scope other) (f_scope f),
                             queued_at := min (queued_at other) (queued_at f)\<rparr>;
              db1 = put_refresh other' db;
              db2 = db1\<lparr>runs := update_rows (\<lambda>r. waiting_refresh_id r = Some (row_id f))
                            (\<lambda>r. r\<lparr>waiting_refresh_id := Some (row_id other)\<rparr>) (runs db1)\<rparr>
          in put_refresh ((unclaim f)\<lparr>status := CANCELLED,
               f_error := Some (''merged into refresh #'' @ show_int (row_id other) @ '' while waiting for '' @ label),
               finished_at := Some now\<rparr>) db2)"

definition inventory_data :: "database \<Rightarrow> inventory \<Rightarrow> vars" where
  "inventory_data db iv =
     [(vkey ''inventory_id'', VInt (i_id iv)), (vkey ''inventory'', Str (i_name iv)),
      (vkey ''project'', opt_str (project_name db (i_project_id iv)))]"

definition refresh_alert :: "inventory \<Rightarrow> string" where
  "refresh_alert iv = INVENTORY_REFRESH_FAILED @ '':'' @ show_int (i_id iv)"

definition inventory_refresh_failed :: "time \<Rightarrow> inventory \<Rightarrow> string \<Rightarrow> database \<Rightarrow> database \<times> bool" where
  "inventory_refresh_failed now iv error db =
     (let data = inventory_data db iv @ [(vkey ''error'', Str (take 300 error))];
          (db1, raised) = raise_alert now (refresh_alert iv) (Some data) db
      in if raised
         then (emit_known now INVENTORY_REFRESH_FAILED (Some (i_project_id iv)) data None db1, True)
         else (db1, False))"

definition inventory_refresh_ok :: "time \<Rightarrow> inventory \<Rightarrow> database \<Rightarrow> database" where
  "inventory_refresh_ok now iv db =
     all_clear_event now (refresh_alert iv) INVENTORY_REFRESH_FAILED (Some (i_project_id iv))
       (inventory_data db iv @ [(vkey ''state'', Str RESOLVED)]) db"

definition end_refresh ::
  "env \<Rightarrow> time \<Rightarrow> string \<Rightarrow> refresh \<Rightarrow> run_status \<Rightarrow> string option \<Rightarrow> database \<Rightarrow>
   py_error + (database \<times> audit_args option)" where
  "end_refresh e now clock f st error db =
     (let f1 = f\<lparr>status := st, f_error := error_column error, finished_at := Some now,
                 lease_expires_at := None, claim_token_hash := None, job_token_hash := None\<rparr> in
      res_bind (release_waiting_runs e now clock f1 st error (put_refresh f1 db)) (\<lambda>db1.
        case get_row i_id (inventories db1) (f_inventory_id f) of
          None \<Rightarrow> Inr (db1, None)
        | Some iv \<Rightarrow>
            if st = SUCCESS
            then Inr (if list_ex (\<lambda>s. src_enabled s \<and> nonempty (src_last_error s)) (sources_of db1 (i_id iv)) then db1
                      else inventory_refresh_ok now iv db1, None)
            else let text = error_or error (status_text st) in
                 (case inventory_refresh_failed now iv text db1 of (db2, raised) \<Rightarrow>
                    Inr (db2, if raised
                      then Some ((audit_call ''inventory.refresh'')
                        \<lparr>au_outcome := ''failure'', au_actor_username := worker_id f,
                         au_target_type := Some ''inventory'', au_target_id := Some (i_id iv),
                         au_target_name := Some (i_name iv), au_project_id := Some (i_project_id iv),
                         au_detail := Some [(vkey ''refresh_id'', VInt (row_id f)), (vkey ''error'', Str (take 300 text))]\<rparr>)
                      else None))))"

end
