(* ===== verification/Netguard.thy ===== *)
theory Netguard
  imports Models "HOL-Library.Word"
begin

text \<open>
  Where the API may connect to on a user's behalf: \<open>app/netguard.py\<close>, with the part of Python's
  \<open>ipaddress\<close> it uses (addresses as words of 32 and 128 bits, networks as an address and a prefix
  length, the special-purpose registries of Python 3.12). A scope id is dropped: no test reads it.
  Resolving a name is an argument, and so is how an address is printed in an error.
\<close>

unbundle bit_operations_syntax

section \<open>Addresses and networks\<close>

datatype address = V4 "32 word" | V6 "128 word"

datatype network = N4 "32 word" nat | N6 "128 word" nat

text \<open>\<open>address in network\<close>: \<open>other._ip & netmask == network_address\<close>; never across versions.\<close>

fun in_net :: "address \<Rightarrow> network \<Rightarrow> bool" where
  "in_net (V4 w) (N4 n p) = (w AND NOT (mask (32 - p)) = n)"
| "in_net (V6 w) (N6 n p) = (w AND NOT (mask (128 - p)) = n)"
| "in_net _ _ = False"

definition quad :: "nat \<Rightarrow> nat \<Rightarrow> nat \<Rightarrow> nat \<Rightarrow> 32 word" where
  "quad a b c d = ((of_nat a * 256 + of_nat b) * 256 + of_nat c) * 256 + of_nat d"

definition hextets :: "nat list \<Rightarrow> 128 word" where
  "hextets hs = fold (\<lambda>h acc. acc * 65536 + of_nat h) hs 0"

definition private4 :: "network list" where
  "private4 =
     [N4 (quad 0 0 0 0) 8, N4 (quad 10 0 0 0) 8, N4 (quad 127 0 0 0) 8, N4 (quad 169 254 0 0) 16,
      N4 (quad 172 16 0 0) 12, N4 (quad 192 0 0 0) 24, N4 (quad 192 0 0 170) 31, N4 (quad 192 0 2 0) 24,
      N4 (quad 192 168 0 0) 16, N4 (quad 198 18 0 0) 15, N4 (quad 198 51 100 0) 24, N4 (quad 203 0 113 0) 24,
      N4 (quad 240 0 0 0) 4, N4 (quad 255 255 255 255) 32]"

definition private4_exceptions :: "network list" where
  "private4_exceptions = [N4 (quad 192 0 0 9) 32, N4 (quad 192 0 0 10) 32]"

definition private6 :: "network list" where
  "private6 =
     [N6 (hextets [0, 0, 0, 0, 0, 0, 0, 1]) 128, N6 0 128, N6 (hextets [0, 0, 0, 0, 0, 0xffff, 0, 0]) 96,
      N6 (hextets [0x64, 0xff9b, 1, 0, 0, 0, 0, 0]) 48, N6 (hextets [0x100, 0, 0, 0, 0, 0, 0, 0]) 64,
      N6 (hextets [0x2001, 0, 0, 0, 0, 0, 0, 0]) 23, N6 (hextets [0x2001, 0xdb8, 0, 0, 0, 0, 0, 0]) 32,
      N6 (hextets [0x2002, 0, 0, 0, 0, 0, 0, 0]) 16, N6 (hextets [0xfc00, 0, 0, 0, 0, 0, 0, 0]) 7,
      N6 (hextets [0xfe80, 0, 0, 0, 0, 0, 0, 0]) 10]"

definition private6_exceptions :: "network list" where
  "private6_exceptions =
     [N6 (hextets [0x2001, 1, 0, 0, 0, 0, 0, 1]) 128, N6 (hextets [0x2001, 1, 0, 0, 0, 0, 0, 2]) 128,
      N6 (hextets [0x2001, 3, 0, 0, 0, 0, 0, 0]) 32, N6 (hextets [0x2001, 4, 0x112, 0, 0, 0, 0, 0]) 48,
      N6 (hextets [0x2001, 0x20, 0, 0, 0, 0, 0, 0]) 28, N6 (hextets [0x2001, 0x30, 0, 0, 0, 0, 0, 0]) 28]"

text \<open>\<open>ipv4_mapped\<close>: the address under \<open>::ffff:0:0/96\<close>.\<close>

definition ipv4_mapped :: "128 word \<Rightarrow> (32 word) option" where
  "ipv4_mapped w = (if drop_bit 32 w = 0xFFFF then Some (ucast w) else None)"

definition is_private4 :: "32 word \<Rightarrow> bool" where
  "is_private4 w =
     (list_ex (in_net (V4 w)) private4 \<and> \<not> list_ex (in_net (V4 w)) private4_exceptions)"

fun is_private :: "address \<Rightarrow> bool" where
  "is_private (V4 w) = is_private4 w"
| "is_private (V6 w) =
     (case ipv4_mapped w of
        Some m \<Rightarrow> is_private4 m
      | None \<Rightarrow> list_ex (in_net (V6 w)) private6 \<and> \<not> list_ex (in_net (V6 w)) private6_exceptions)"

fun is_global :: "address \<Rightarrow> bool" where
  "is_global (V4 w) = (\<not> in_net (V4 w) (N4 (quad 100 64 0 0) 10) \<and> \<not> is_private (V4 w))"
| "is_global (V6 w) = (\<not> is_private (V6 w))"

fun is_multicast :: "address \<Rightarrow> bool" where
  "is_multicast (V4 w) = in_net (V4 w) (N4 (quad 224 0 0 0) 4)"
| "is_multicast (V6 w) = in_net (V6 w) (N6 (hextets [0xff00, 0, 0, 0, 0, 0, 0, 0]) 8)"

section \<open>Reading addresses\<close>

definition parse_octet :: "string \<Rightarrow> nat option" where
  "parse_octet s =
     (if s \<noteq> [] \<and> list_all is_digit s \<and> length s \<le> 3 \<and> (s = ''0'' \<or> hd s \<noteq> CHR ''0'') \<and> read_nat 0 s \<le> 255
      then Some (read_nat 0 s) else None)"

definition parse4 :: "string \<Rightarrow> (32 word) option" where
  "parse4 s =
     (case map parse_octet (split_char (CHR ''.'') s) of
        [Some a, Some b, Some c, Some d] \<Rightarrow> Some (quad a b c d)
      | _ \<Rightarrow> None)"

definition hex_value :: "char \<Rightarrow> nat option" where
  "hex_value c =
     (let n = of_char c :: nat in
      if 48 \<le> n \<and> n \<le> 57 then Some (n - 48)
      else if 65 \<le> n \<and> n \<le> 70 then Some (n - 55)
      else if 97 \<le> n \<and> n \<le> 102 then Some (n - 87) else None)"

definition parse_hextet :: "string \<Rightarrow> nat option" where
  "parse_hextet s =
     (if s \<noteq> [] \<and> length s \<le> 4 \<and> list_all (\<lambda>c. hex_value c \<noteq> None) s
      then Some (fold (\<lambda>c acc. acc * 16 + the (hex_value c)) s 0) else None)"

definition all_hextets :: "string list \<Rightarrow> nat list option" where
  "all_hextets ps = (if list_all (\<lambda>p. parse_hextet p \<noteq> None) ps then Some (map (\<lambda>p. the (parse_hextet p)) ps) else None)"

text \<open>A dotted IPv4 suffix is two hextets; \<open>Inr\<close> holds numbers that were read already.\<close>

definition v4_suffix :: "string list \<Rightarrow> (string list \<times> nat list) option" where
  "v4_suffix ps =
     (if CHR ''.'' \<in> set (last ps)
      then map_option (\<lambda>w. (butlast ps, [unat w div 65536, unat w mod 65536])) (parse4 (last ps))
      else Some (ps, []))"

text \<open>
  The parts around the one empty inner part (\<open>::\<close>) and what it stands for. \<open>tail\<close> are the numbers of a
  dotted suffix, so that the parts number \<open>length ps + length tail\<close>.
\<close>

definition parse_parts :: "string list \<Rightarrow> nat list \<Rightarrow> nat list option" where
  "parse_parts ps tail =
     (let n = length ps + length tail;
          inner = filter (\<lambda>i. i < length ps \<and> ps ! i = []) [1..<n - 1];
          ends_empty = (tail = [] \<and> last ps = []) in
      if n > 9 then None
      else case inner of
        [] \<Rightarrow>
          if n \<noteq> 8 \<or> hd ps = [] \<or> ends_empty then None
          else map_option (\<lambda>hs. hs @ tail) (all_hextets ps)
      | [i] \<Rightarrow>
          (let hi = (if hd ps = [] then i - 1 else i);
               lo = (if ends_empty then n - i - 2 else n - i - 1) in
           if (hd ps = [] \<and> hi \<noteq> 0) \<or> (ends_empty \<and> lo \<noteq> 0) \<or> hi + lo \<ge> 8 then None
           else case (all_hextets (take hi ps), all_hextets (drop (length ps + length tail - lo) ps)) of
                  (Some a, Some b) \<Rightarrow> Some (a @ replicate (8 - (hi + lo)) 0 @ b @ tail)
                | _ \<Rightarrow> None)
      | _ \<Rightarrow> None)"

definition parse6 :: "string \<Rightarrow> (128 word) option" where
  "parse6 s =
     (case partition_char (CHR ''%'') s of (addr, sep, scope) \<Rightarrow>
        if CHR ''/'' \<in> set s \<or> (sep \<and> (scope = [] \<or> CHR ''%'' \<in> set scope)) then None
        else let ps = split_char (CHR '':'') addr in
             if length ps < 3 then None
             else Option.bind (v4_suffix ps) (\<lambda>(qs, tail). map_option hextets (parse_parts qs tail)))"

definition ip_address :: "string \<Rightarrow> address option" where
  "ip_address s = (case parse4 s of Some w \<Rightarrow> Some (V4 w) | None \<Rightarrow> map_option V6 (parse6 s))"

definition parse_prefix :: "nat \<Rightarrow> string \<Rightarrow> nat option" where
  "parse_prefix limit s = (if s \<noteq> [] \<and> list_all is_digit s \<and> read_nat 0 s \<le> limit then Some (read_nat 0 s) else None)"

text \<open>A prefix length, a netmask, or a hostmask (in this order).\<close>

definition prefix_of_mask :: "32 word \<Rightarrow> nat option" where
  "prefix_of_mask w = find (\<lambda>p. w = NOT (mask (32 - p))) [0..<33]"

definition make_netmask4 :: "string \<Rightarrow> nat option" where
  "make_netmask4 s =
     (case parse_prefix 32 s of
        Some p \<Rightarrow> Some p
      | None \<Rightarrow> Option.bind (parse4 s) (\<lambda>w. case prefix_of_mask w of Some p \<Rightarrow> Some p | None \<Rightarrow> prefix_of_mask (NOT w)))"

text \<open>\<open>ip_network(entry, strict=False)\<close>; more than one slash is an error.\<close>

definition ip_network :: "string \<Rightarrow> network option" where
  "ip_network s =
     (case split_char (CHR ''/'') s of
        [a] \<Rightarrow> (case ip_address a of Some (V4 w) \<Rightarrow> Some (N4 w 32) | Some (V6 w) \<Rightarrow> Some (N6 w 128) | None \<Rightarrow> None)
      | [a, m] \<Rightarrow>
          (case (parse4 a, make_netmask4 m) of
             (Some w, Some p) \<Rightarrow> Some (N4 (w AND NOT (mask (32 - p))) p)
           | _ \<Rightarrow>
             (case (parse6 a, parse_prefix 128 m) of
                (Some w, Some p) \<Rightarrow> Some (N6 (w AND NOT (mask (128 - p))) p)
              | _ \<Rightarrow> None))
      | _ \<Rightarrow> None)"

section \<open>What may be connected to\<close>

definition EMBEDS_IPV4 :: "network list" where
  "EMBEDS_IPV4 = [N6 (hextets [0x64, 0xff9b, 0, 0, 0, 0, 0, 0]) 96, N6 0 96]"

definition public :: "address \<Rightarrow> bool" where
  "public a =
     (let a' = (case a of
                  V4 w \<Rightarrow> V4 w
                | V6 w \<Rightarrow>
                    (case ipv4_mapped w of
                       Some m \<Rightarrow> V4 m
                     | None \<Rightarrow> if list_ex (in_net (V6 w)) EMBEDS_IPV4 then V4 (ucast w) else V6 w))
      in is_global a' \<and> \<not> is_multicast a')"

definition allowlisted :: "string \<Rightarrow> address \<Rightarrow> string list \<Rightarrow> bool" where
  "allowlisted host a allowlist =
     (\<exists>raw \<in> set allowlist. let entry = lower (strip raw) in
        entry \<noteq> [] \<and> (case ip_network entry of Some n \<Rightarrow> in_net a n | None \<Rightarrow> host = entry))"

text \<open>A destination error carries whether it may be retried.\<close>

datatype destination_error = DestinationError string bool

text \<open>\<open>getaddrinfo\<close> gives the addresses, or nothing on a \<open>gaierror\<close>.\<close>

definition resolve :: "(string \<Rightarrow> int \<Rightarrow> address list option) \<Rightarrow> string \<Rightarrow> int \<Rightarrow> destination_error + address list" where
  "resolve getaddrinfo host port =
     (case getaddrinfo host port of
        None \<Rightarrow> Inl (DestinationError (''cannot resolve '' @ host) True) | Some as \<Rightarrow> Inr as)"

definition vet ::
  "(address \<Rightarrow> string) \<Rightarrow> string \<Rightarrow> address list \<Rightarrow> string list \<Rightarrow> string \<Rightarrow> destination_error + (address \<times> bool)" where
  "vet addr_text host addresses allowlist setting =
     (let private = filter (\<lambda>a. \<not> public a) addresses in
      if addresses = [] then Inl (DestinationError (''cannot resolve '' @ host) True)
      else if private \<noteq> [] \<and> \<not> list_all (\<lambda>a. allowlisted host a allowlist) private
      then Inl (DestinationError (host @ '' resolves to a non-public address ('' @ addr_text (hd private) @
                  ''); allow it with '' @ setting) False)
      else Inr (hd addresses, private \<noteq> []))"

definition literal :: "string \<Rightarrow> address list option" where
  "literal host = map_option (\<lambda>a. [a]) (ip_address host)"

section \<open>Internal addresses\<close>

text \<open>A network test by mask is a test of the leading bits, and on IPv4 an interval.\<close>

lemma masked_iff:
  fixes w n :: "'a::len word"
  shows "(w AND NOT (mask k) = n) \<longleftrightarrow> (take_bit k n = 0 \<and> drop_bit k w = drop_bit k n)"
proof
  assume n: "w AND NOT (mask k) = n"
  have "take_bit k (w AND NOT (mask k)) = 0" by (rule bit_eqI) (simp add: bit_simps)
  moreover have "drop_bit k w = drop_bit k (w AND NOT (mask k))"
    by (rule bit_eqI) (auto simp: bit_simps dest: bit_imp_le_length)
  ultimately show "take_bit k n = 0 \<and> drop_bit k w = drop_bit k n" by (simp add: n)
next
  assume a: "take_bit k n = 0 \<and> drop_bit k w = drop_bit k n"
  show "w AND NOT (mask k) = n"
  proof (rule bit_eqI)
    fix i assume "possible_bit TYPE('a word) i"
    show "bit (w AND NOT (mask k)) i = bit n i"
    proof (cases "i < k")
      case True
      then have "\<not> bit n i" using a by (metis bit_0_eq bit_take_bit_iff bot_apply bot_bool_def)
      with True show ?thesis by (simp add: bit_simps)
    next
      case False
      then have "bit w i = bit (drop_bit k w) (i - k)" "bit n i = bit (drop_bit k n) (i - k)"
        by (simp_all add: bit_simps)
      moreover have "bit (w AND NOT (mask k)) i = bit w i"
        using False by (auto simp: bit_simps dest: bit_imp_le_length)
      ultimately show ?thesis using a by (simp only:)
    qed
  qed
qed

lemma div_eq_interval:
  fixes x n m :: nat
  assumes "n mod m = 0" and "0 < m"
  shows "x div m = n div m \<longleftrightarrow> n \<le> x \<and> x < n + m"
proof -
  obtain q where n: "n = m * q" using assms(1) by (auto simp: mod_eq_0_iff_dvd elim: dvdE)
  have x: "x = m * (x div m) + x mod m" "x mod m < m" using assms(2) by simp_all
  show ?thesis
  proof
    assume "x div m = n div m"
    then have "m * (x div m) = n" using n assms(2) by simp
    then show "n \<le> x \<and> x < n + m" using x by linarith
  next
    assume "n \<le> x \<and> x < n + m"
    then have "m * q \<le> x" "x < m * Suc q" using n by simp_all
    then show "x div m = n div m" using n assms(2) by (simp add: div_nat_eqI)
  qed
qed

lemma in_net4_iff:
  assumes "unat n mod 2 ^ (32 - p) = 0"
  shows "in_net (V4 w) (N4 n p) \<longleftrightarrow> unat n \<le> unat w \<and> unat w < unat n + 2 ^ (32 - p)"
proof -
  let ?k = "32 - p"
  have "unat (take_bit ?k n) = take_bit ?k (unat n)" by (rule unsigned_take_bit_eq)
  then have "unat (take_bit ?k n) = 0" using assms by (simp only: take_bit_eq_mod [of _ "unat n"])
  then have "take_bit ?k n = 0" by (simp only: unat_eq_zero)
  then have "in_net (V4 w) (N4 n p) \<longleftrightarrow> unat w div 2 ^ ?k = unat n div 2 ^ ?k"
    by (simp only: in_net.simps masked_iff simp_thms word_unat_eq_iff [of "drop_bit ?k w"] unat_drop_bit_eq
        drop_bit_eq_div [of _ "unat _"])
  then show ?thesis using div_eq_interval [OF assms] by simp
qed

text \<open>
  The addresses that are not public, as the ranges an operator would write down: loopback,
  private, link-local, carrier-grade NAT, benchmarking, documentation, protocol assignments (but for the
  two that are global), multicast and reserved.
\<close>

definition INTERNAL4 :: "(32 word \<times> 32 word) list" where
  "INTERNAL4 =
     [(quad 0 0 0 0, quad 0 255 255 255), (quad 10 0 0 0, quad 10 255 255 255),
      (quad 100 64 0 0, quad 100 127 255 255), (quad 127 0 0 0, quad 127 255 255 255),
      (quad 169 254 0 0, quad 169 254 255 255), (quad 172 16 0 0, quad 172 31 255 255),
      (quad 192 0 0 0, quad 192 0 0 8), (quad 192 0 0 11, quad 192 0 0 255), (quad 192 0 2 0, quad 192 0 2 255),
      (quad 192 168 0 0, quad 192 168 255 255), (quad 198 18 0 0, quad 198 19 255 255),
      (quad 198 51 100 0, quad 198 51 100 255), (quad 203 0 113 0, quad 203 0 113 255),
      (quad 224 0 0 0, quad 255 255 255 255)]"

definition internal4 :: "32 word \<Rightarrow> bool" where
  "internal4 w = list_ex (\<lambda>(lo, hi). lo \<le> w \<and> w \<le> hi) INTERNAL4"

text \<open>The IPv4 address a connection to an address ends up at, if it does.\<close>

definition reaches :: "address \<Rightarrow> (32 word) option" where
  "reaches a =
     (case a of
        V4 w \<Rightarrow> Some w
      | V6 w \<Rightarrow> if drop_bit 32 w \<in> {0xFFFF, 0x64ff9b0000000000000000, 0} then Some (ucast w) else None)"

text \<open>Not internal: by the IPv4 address it reaches, or not unique-local, link-local, multicast, 6to4 or Teredo.\<close>

definition outside :: "address \<Rightarrow> bool" where
  "outside a =
     (case reaches a of
        Some w \<Rightarrow> \<not> internal4 w
      | None \<Rightarrow>
          (case a of
             V4 w \<Rightarrow> True
           | V6 w \<Rightarrow> drop_bit 121 w \<noteq> 0x7E \<and> drop_bit 118 w \<noteq> 0x3FA \<and> drop_bit 120 w \<noteq> 0xFF \<and>
                     drop_bit 112 w \<noteq> 0x2002 \<and> drop_bit 96 w \<noteq> 0x20010000))"

lemma public4_iff: "public (V4 w) \<longleftrightarrow> \<not> internal4 w"
proof -
  have "unat w < 2 ^ 32" using unsigned_less [of w] by simp
  then show ?thesis
    unfolding public_def internal4_def INTERNAL4_def private4_def private4_exceptions_def quad_def
    by (simp add: is_private4_def private4_def private4_exceptions_def quad_def in_net4_iff word_le_nat_alt
        del: in_net.simps) presburger
qed

lemma in_net6_iff:
  assumes "take_bit (128 - p) n = 0"
  shows "in_net (V6 w) (N6 n p) \<longleftrightarrow> drop_bit (128 - p) w = drop_bit (128 - p) n"
  using assms by (simp add: masked_iff)

lemma in_EMBEDS_iff:
  "list_ex (in_net (V6 w)) EMBEDS_IPV4 \<longleftrightarrow> drop_bit 32 w \<in> {0x64ff9b0000000000000000, 0}"
proof -
  let ?n = "hextets [0x64, 0xff9b, 0, 0, 0, 0, 0, 0]"
  have n: "take_bit 32 ?n = 0" "drop_bit 32 ?n = 0x64ff9b0000000000000000" by (simp_all add: hextets_def)
  show ?thesis using in_net6_iff [of 96 ?n w] in_net6_iff [of 96 0 w] n
    by (auto simp: EMBEDS_IPV4_def simp del: in_net.simps)
qed

text \<open>The exceptions among the private IPv6 networks are all under \<open>2001::/16\<close>, and none is under \<open>2001::/32\<close>.\<close>

lemma net6_lead: "in_net (V6 w) (N6 n p) \<Longrightarrow> drop_bit (128 - p) w = drop_bit (128 - p) n"
  by (simp add: masked_iff)

lemma drop_lead:
  fixes w c :: "128 word"
  shows "drop_bit m w = c \<Longrightarrow> drop_bit (k + m) w = drop_bit k c"
  by (auto simp: drop_bit_drop_bit)

lemma exceptions6:
  assumes "list_ex (in_net (V6 w)) private6_exceptions"
  shows "drop_bit 112 w = 0x2001 \<and> drop_bit 96 w \<noteq> 0x20010000"
proof -
  from assms consider "in_net (V6 w) (N6 (hextets [0x2001, 1, 0, 0, 0, 0, 0, 1]) 128)"
    | "in_net (V6 w) (N6 (hextets [0x2001, 1, 0, 0, 0, 0, 0, 2]) 128)"
    | "in_net (V6 w) (N6 (hextets [0x2001, 3, 0, 0, 0, 0, 0, 0]) 32)"
    | "in_net (V6 w) (N6 (hextets [0x2001, 4, 0x112, 0, 0, 0, 0, 0]) 48)"
    | "in_net (V6 w) (N6 (hextets [0x2001, 0x20, 0, 0, 0, 0, 0, 0]) 28)"
    | "in_net (V6 w) (N6 (hextets [0x2001, 0x30, 0, 0, 0, 0, 0, 0]) 28)"
    unfolding private6_exceptions_def list_ex_iff list.set insert_iff bex_simps ball_simps empty_iff by blast
  then show ?thesis
  proof cases
    case 1
    from net6_lead [OF this] have "w = 0x20010001000000000000000000000001" by (simp add: hextets_def)
    then show ?thesis by simp
  next
    case 2
    from net6_lead [OF this] have "w = 0x20010001000000000000000000000002" by (simp add: hextets_def)
    then show ?thesis by simp
  next
    case 3
    from net6_lead [OF this] have w: "drop_bit 96 w = 0x20010003" by (simp add: hextets_def)
    then show ?thesis using drop_lead [OF w, of 16] by simp
  next
    case 4
    from net6_lead [OF this] have w: "drop_bit 80 w = 0x200100040112" by (simp add: hextets_def)
    then show ?thesis using drop_lead [OF w, of 16] drop_lead [OF w, of 32] by simp
  next
    case 5
    from net6_lead [OF this] have w: "drop_bit 100 w = 0x2001002" by (simp add: hextets_def)
    then show ?thesis using drop_lead [OF w, of 12] drop_lead [of 96 w "0x20010000" 4] by auto
  next
    case 6
    from net6_lead [OF this] have w: "drop_bit 100 w = 0x2001003" by (simp add: hextets_def)
    then show ?thesis using drop_lead [OF w, of 12] drop_lead [of 96 w "0x20010000" 4] by auto
  qed
qed

lemma public_outside:
  assumes "public a"
  shows "outside a"
proof (cases a)
  case (V4 w)
  then show ?thesis using assms public4_iff by (simp add: outside_def reaches_def)
next
  case (V6 w)
  show ?thesis
  proof (cases "drop_bit 32 w \<in> {0xFFFF, 0x64ff9b0000000000000000, 0}")
    case True
    then have "public (V4 (ucast w))"
      using assms V6 in_EMBEDS_iff [of w] by (auto simp: public_def ipv4_mapped_def Let_def simp del: in_net.simps)
    then show ?thesis using public4_iff True V6 by (simp add: outside_def reaches_def)
  next
    case False
    then have none: "ipv4_mapped w = None" and a: "is_global a" "\<not> is_multicast a"
      using assms V6 in_EMBEDS_iff [of w] by (auto simp: public_def ipv4_mapped_def Let_def simp del: in_net.simps)
    have *: "\<not> list_ex (in_net (V6 w)) private6 \<or> (drop_bit 112 w = 0x2001 \<and> drop_bit 96 w \<noteq> 0x20010000)"
      using a(1) V6 none exceptions6 [of w] by auto
    have top: "drop_bit 112 w = 0x2001 \<Longrightarrow> drop_bit 121 w = 0x10 \<and> drop_bit 118 w = 0x80"
      using drop_lead [of 112 w "0x2001" 9] drop_lead [of 112 w "0x2001" 6] by simp
    have teredo: "drop_bit 96 w = 0x20010000 \<Longrightarrow> drop_bit 105 w = 0x100080"
      using drop_lead [of 96 w "0x20010000" 9] by simp
    have nets: "in_net (V6 w) (N6 (hextets [0xfc00, 0, 0, 0, 0, 0, 0, 0]) 7) \<longleftrightarrow> drop_bit 121 w = 0x7E"
      "in_net (V6 w) (N6 (hextets [0xfe80, 0, 0, 0, 0, 0, 0, 0]) 10) \<longleftrightarrow> drop_bit 118 w = 0x3FA"
      "in_net (V6 w) (N6 (hextets [0x2002, 0, 0, 0, 0, 0, 0, 0]) 16) \<longleftrightarrow> drop_bit 112 w = 0x2002"
      "in_net (V6 w) (N6 (hextets [0x2001, 0, 0, 0, 0, 0, 0, 0]) 23) \<longleftrightarrow> drop_bit 105 w = 0x100080"
      by (simp_all add: masked_iff hextets_def)
    have "list_ex (in_net (V6 w)) private6"
      if "drop_bit 121 w = 0x7E \<or> drop_bit 118 w = 0x3FA \<or> drop_bit 112 w = 0x2002 \<or> drop_bit 105 w = 0x100080"
      using that unfolding private6_def list_ex_iff list.set insert_iff bex_simps ball_simps empty_iff nets by blast
    then have priv: "drop_bit 112 w = 0x2001 \<and> drop_bit 96 w \<noteq> 0x20010000"
      if "drop_bit 121 w = 0x7E \<or> drop_bit 118 w = 0x3FA \<or> drop_bit 112 w = 0x2002 \<or> drop_bit 105 w = 0x100080"
      using * that by blast
    have ne: "(0x7E :: 128 word) \<noteq> 0x10" "(0x3FA :: 128 word) \<noteq> 0x80" "(0x2002 :: 128 word) \<noteq> 0x2001" by simp_all
    have "drop_bit 121 w \<noteq> 0x7E" using priv top ne(1) by metis
    moreover have "drop_bit 118 w \<noteq> 0x3FA" using priv top ne(2) by metis
    moreover have "drop_bit 112 w \<noteq> 0x2002" using priv ne(3) by metis
    moreover have "drop_bit 96 w \<noteq> 0x20010000" using priv teredo by blast
    moreover have "drop_bit 120 w \<noteq> 0xFF" using a(2) V6 by (simp add: masked_iff hextets_def)
    ultimately show ?thesis using False V6 by (simp add: outside_def reaches_def)
  qed
qed

text \<open>
  C29. The API connects only to addresses outside: an address that passes \<open>vet\<close> is the first the name
  resolved to, and every address it resolved to is either allowlisted or not internal - also not
  through an IPv4-mapped, NAT64 or IPv4-compatible IPv6 address. One that is reported as public
  resolved to outside addresses alone.
\<close>

theorem vet_outside:
  assumes "vet addr_text host as allowlist setting = Inr (a, private)"
  shows "a = hd as \<and> as \<noteq> [] \<and> (\<forall>b \<in> set as. outside b \<or> allowlisted host b allowlist) \<and>
    (\<not> private \<longrightarrow> (\<forall>b \<in> set as. outside b))"
  using assms public_outside
  by (auto simp: vet_def Let_def list_all_iff filter_empty_conv split: if_splits)

theorem vet_outside_witness:
  "outside (V4 (quad 8 8 8 8))"
proof -
  have "public (V4 (quad 8 8 8 8))"
    unfolding public4_iff by (simp add: internal4_def INTERNAL4_def quad_def)
  then have "vet (\<lambda>_. []) ''dns.google'' [V4 (quad 8 8 8 8)] [] ''X'' = Inr (V4 (quad 8 8 8 8), False)"
    by (simp add: vet_def)
  from vet_outside [OF this] show ?thesis by simp
qed

end
