(* ===== verification/Git_Trees.thy ===== *)
theory Git_Trees
  imports Netguard Inventory_Render Host_Keys Run_Log
begin

text \<open>
  What a git source may name and what its commits may hold: the checks of \<open>app/git_sync.py\<close> on URLs,
  branches, directories and patterns, and on a commit's tree before it becomes current. What git
  prints is an argument: the listing of \<open>ls-tree\<close> and the contents of blobs.
\<close>

datatype sync_failure = SyncError string | Sync_other

section \<open>Settings of a source\<close>

record remote =
  rm_kind :: string
  rm_url :: string
  rm_host :: string
  rm_port :: int
  rm_user :: "string option"

definition host_key_alias :: "remote \<Rightarrow> string" where
  "host_key_alias r =
     (if rm_port r = 22 then rm_host r else ''['' @ rm_host r @ '']:'' @ show_int (rm_port r))"

definition is_alnum :: "char \<Rightarrow> bool" where
  "is_alnum c =
     (let n = of_char c :: nat in (48 \<le> n \<and> n \<le> 57) \<or> (65 \<le> n \<and> n \<le> 90) \<or> (97 \<le> n \<and> n \<le> 122))"

text \<open>\<open>_HOST\<close>: labels of letters, digits and inner hyphens.\<close>

definition is_label :: "string \<Rightarrow> bool" where
  "is_label l =
     (l \<noteq> [] \<and> length l \<le> 63 \<and> is_alnum (hd l) \<and> is_alnum (last l) \<and>
      list_all (\<lambda>c. is_alnum c \<or> c = CHR ''-'') l)"

definition git_host_name :: "string \<Rightarrow> bool" where
  "git_host_name h = (h \<noteq> [] \<and> length h \<le> 253 \<and> list_all is_label (split_char (CHR ''.'') h))"

definition git_user_name :: "string \<Rightarrow> bool" where
  "git_user_name u =
     (u \<noteq> [] \<and> length u \<le> 64 \<and> (is_alnum (hd u) \<or> hd u \<in> {CHR ''.'', CHR ''_''}) \<and>
      list_all (\<lambda>c. is_alnum c \<or> c \<in> {CHR ''.'', CHR ''_'', CHR ''-''}) u)"

definition host_of :: "string \<Rightarrow> sync_failure + string" where
  "host_of raw =
     (let host = (if raw \<noteq> [] \<and> hd raw = CHR ''['' \<and> last raw = CHR '']'' then butlast (tl raw) else raw) in
      if literal host = None \<and> \<not> git_host_name host
      then Inl (SyncError (''invalid host name in the URL: '' @ py_repr raw))
      else Inr (lower host))"

definition hex_or_dot :: "char \<Rightarrow> bool" where
  "hex_or_dot c = (hex_value c \<noteq> None \<or> c \<in> {CHR '':'', CHR ''.''})"

text \<open>\<open>[...]\<close> of hexadecimal digits, colons and dots at the start, and what follows.\<close>

definition bracketed :: "string \<Rightarrow> (string \<times> string) option" where
  "bracketed s =
     (case s of
        c # r \<Rightarrow>
          (let ds = takeWhile hex_or_dot r; rest = dropWhile hex_or_dot r in
           if c = CHR ''['' \<and> ds \<noteq> [] \<and> rest \<noteq> [] \<and> hd rest = CHR '']''
           then Some (''['' @ ds @ '']'', tl rest) else None)
      | [] \<Rightarrow> None)"

text \<open>The optional port at the end of an authority: \<open>None\<close> is no match.\<close>

definition port_part :: "string \<Rightarrow> string option option" where
  "port_part s =
     (case s of
        [] \<Rightarrow> Some None
      | c # ds \<Rightarrow>
          if c = CHR '':'' \<and> ds \<noteq> [] \<and> length ds \<le> 5 \<and> list_all is_digit ds then Some (Some ds) else None)"

definition host_port :: "string \<Rightarrow> (string \<times> string option) option" where
  "host_port s =
     (case Option.bind (bracketed s) (\<lambda>(h, r). map_option (Pair h) (port_part r)) of
        Some hp \<Rightarrow> Some hp
      | None \<Rightarrow>
          (let h = takeWhile (\<lambda>c. c \<noteq> CHR '':'') s
           in map_option (Pair h) (port_part (dropWhile (\<lambda>c. c \<noteq> CHR '':'') s))))"

text \<open>\<open>_URL\<close>: scheme, user, host, port, path.\<close>

definition url_match :: "string \<Rightarrow> (string \<times> string option \<times> string \<times> string option \<times> string) option" where
  "url_match url =
     Option.bind (find (\<lambda>s. startswith url (s @ ''://'')) [''https'', ''http'', ''ssh'', ''file''])
       (\<lambda>scheme.
         let rest = drop (length scheme + 3) url;
             authority = takeWhile (\<lambda>c. c \<noteq> CHR ''/'') rest;
             path = dropWhile (\<lambda>c. c \<noteq> CHR ''/'') rest in
         case split_char (CHR ''@'') authority of
           [hp] \<Rightarrow> map_option (\<lambda>(h, p). (scheme, None, h, p, path)) (host_port hp)
         | [u, hp] \<Rightarrow>
             if u = [] then None else map_option (\<lambda>(h, p). (scheme, Some u, h, p, path)) (host_port hp)
         | _ \<Rightarrow> None)"

text \<open>\<open>_SCP\<close>: user, host, path.\<close>

definition scp_match :: "string \<Rightarrow> (string option \<times> string \<times> string) option" where
  "scp_match url =
     (let pre = takeWhile (\<lambda>c. c \<notin> {CHR ''@'', CHR ''/'', CHR '':''}) url;
          after = drop (length pre) url;
          (user, rest) = (if pre \<noteq> [] \<and> after \<noteq> [] \<and> hd after = CHR ''@'' then (Some pre, tl after) else (None, url)) in
      case (case bracketed rest of
              Some hr \<Rightarrow> Some hr
            | None \<Rightarrow>
                (let h = takeWhile (\<lambda>c. c \<notin> {CHR ''@'', CHR ''/'', CHR '':'', CHR ''['', CHR '']''}) rest
                 in if h = [] then None else Some (h, drop (length h) rest))) of
        None \<Rightarrow> None
      | Some (h, r) \<Rightarrow> if r \<noteq> [] \<and> hd r = CHR '':'' \<and> tl r \<noteq> [] then Some (user, h, tl r) else None)"

definition bad_user :: "string option \<Rightarrow> bool" where
  "bad_user u = (case u of None \<Rightarrow> False | Some n \<Rightarrow> \<not> git_user_name n)"

definition default_port :: "string \<Rightarrow> int" where
  "default_port scheme = (if scheme = ''https'' then 443 else if scheme = ''http'' then 80 else 22)"

definition UNSUPPORTED_URL :: string where
  "UNSUPPORTED_URL = ''unsupported URL (use https://, ssh:// or user@host:path)''"

definition parse_url :: "bool \<Rightarrow> string \<Rightarrow> sync_failure + remote" where
  "parse_url allow_local raw =
     (let url = strip raw in
      if url = [] \<or> length url > 500 then Inl (SyncError ''the URL must be 1 to 500 characters'')
      else if list_ex (\<lambda>c. is_space c \<or> (of_char c :: nat) < 32 \<or> (of_char c :: nat) = 127) url
      then Inl (SyncError ''the URL must not contain spaces or control characters'')
      else if startswith url ''-'' \<or> contains (takeWhile (\<lambda>c. c \<noteq> CHR ''/'') url) ''::''
      then Inl (SyncError UNSUPPORTED_URL)
      else case url_match url of
        Some (scheme, user, h, p, path) \<Rightarrow>
          if scheme = ''file''
          then if \<not> allow_local then Inl (SyncError ''file:// sources are not allowed'')
               else Inr \<lparr>rm_kind = ''file'', rm_url = url, rm_host = [], rm_port = 0, rm_user = None\<rparr>
          else if scheme \<in> {''https'', ''http''} \<and> user \<noteq> None
          then Inl (SyncError ''put the user name and token in the source's settings, not the URL'')
          else res_bind (host_of h) (\<lambda>host.
            let port = (case p of None \<Rightarrow> default_port scheme | Some ds \<Rightarrow> int (read_nat 0 ds)) in
            if \<not> (0 < port \<and> port < 65536) then Inl (SyncError ''invalid port in the URL'')
            else if length path < 2 \<or> startswith path ''/-'' then Inl (SyncError ''the URL needs a repository path'')
            else if bad_user user then Inl (SyncError ''invalid user name in the URL'')
            else Inr \<lparr>rm_kind = scheme, rm_url = url, rm_host = host, rm_port = port, rm_user = user\<rparr>)
      | None \<Rightarrow>
          (case scp_match url of
             Some (user, h, path) \<Rightarrow>
               if contains url ''://'' then Inl (SyncError UNSUPPORTED_URL)
               else if bad_user user then Inl (SyncError ''invalid user name in the URL'')
               else if startswith path ''-'' then Inl (SyncError ''the URL needs a repository path'')
               else res_bind (host_of h) (\<lambda>host.
                 Inr \<lparr>rm_kind = ''ssh'', rm_url = url, rm_host = host, rm_port = 22, rm_user = user\<rparr>)
           | None \<Rightarrow> Inl (SyncError UNSUPPORTED_URL)))"

definition endswith :: "string \<Rightarrow> string \<Rightarrow> bool" where
  "endswith s t = (length t \<le> length s \<and> drop (length s - length t) s = t)"

text \<open>\<open>_BAD_REF\<close>.\<close>

definition bad_ref :: "string \<Rightarrow> bool" where
  "bad_ref b =
     ((b \<noteq> [] \<and> hd b \<in> {CHR ''-'', CHR ''/'', CHR ''.''}) \<or> contains b ''/.'' \<or> contains b ''..'' \<or>
      contains b [CHR ''@'', CHR ''{''] \<or>
      list_ex (\<lambda>c. (of_char c :: nat) \<le> 32 \<or> (of_char c :: nat) = 127 \<or> c \<in> set ''~^:?*['' \<or> c = CHR 0x5C) b \<or>
      contains b ''//'' \<or> endswith b ''/'' \<or> endswith b ''.lock'' \<or> endswith b ''.'' \<or> b = ''@'')"

definition check_branch :: "string \<Rightarrow> sync_failure + string" where
  "check_branch raw =
     (let b = strip raw in
      if b = [] \<or> length b > 255 \<or> bad_ref b then Inl (SyncError (''invalid branch name: '' @ py_repr b)) else Inr b)"

definition check_subdir :: "string option \<Rightarrow> sync_failure + string option" where
  "check_subdir subdir =
     (let d = (case subdir of None \<Rightarrow> [] | Some s \<Rightarrow> strip_of (\<lambda>c. c = CHR ''/'') (strip s)) in
      if d = [] then Inr None
      else if length d > 500 \<or>
              list_ex (\<lambda>p. p \<in> {[], ''.'', ''..''} \<or> startswith p ''-'') (split_char (CHR ''/'') d) \<or>
              list_ex (\<lambda>c. (of_char c :: nat) < 32) d
      then Inl (SyncError (''invalid subdirectory: '' @ py_repr d))
      else Inr (Some d))"

definition check_globs :: "string list \<Rightarrow> sync_failure + string list" where
  "check_globs globs =
     (let cleaned = filter (\<lambda>g. g \<noteq> []) (map strip globs) in
      if cleaned = [] \<or> length cleaned > 20 then Inl (SyncError ''give 1 to 20 playbook patterns'')
      else case find (\<lambda>g. length g > 200 \<or> startswith g ''/'' \<or> ''..'' \<in> set (split_char (CHR ''/'') g)) cleaned of
        Some g \<Rightarrow> Inl (SyncError (''invalid playbook pattern: '' @ py_repr g))
      | None \<Rightarrow> Inr cleaned)"

section \<open>Patterns\<close>

text \<open>
  \<open>fnmatch.fnmatchcase\<close>: a bracket opens a class when a closing one follows (not as its first
  character); in a class, a hyphen between two characters is a range.
\<close>

fun in_items :: "char \<Rightarrow> string \<Rightarrow> bool" where
  "in_items c (a # h # b # r) =
     (if h = CHR ''-'' then ((of_char a :: nat) \<le> of_char c \<and> of_char c \<le> (of_char b :: nat)) \<or> in_items c r
      else c = a \<or> in_items c (h # b # r))"
| "in_items c r = (c \<in> set r)"

definition class_of :: "string \<Rightarrow> (string \<times> string) option" where
  "class_of r =
     (let neg = (if startswith r ''!'' then 1 else 0);
          lead = (if startswith (drop neg r) '']'' then Suc neg else neg);
          rest = dropWhile (\<lambda>c. c \<noteq> CHR '']'') (drop lead r) in
      if rest = [] then None else Some (take (length r - length rest) r, tl rest))"

definition in_class :: "char \<Rightarrow> string \<Rightarrow> bool" where
  "in_class c cls = (if startswith cls ''!'' then \<not> in_items c (tl cls) else in_items c cls)"

lemma class_of_shorter:
  assumes "class_of r = Some (cls, rest)"
  shows "length rest < length r"
proof -
  define lead where "lead = (let neg = (if startswith r ''!'' then 1 else 0) in
    if startswith (drop neg r) '']'' then Suc neg else neg)"
  let ?d = "dropWhile (\<lambda>c. c \<noteq> CHR '']'') (drop lead r)"
  have "?d \<noteq> []" "rest = tl ?d"
    using assms by (simp_all add: class_of_def Let_def lead_def split: if_splits)
  moreover have "length ?d \<le> length r"
    using length_dropWhile_le [of "\<lambda>c. c \<noteq> CHR '']''" "drop lead r"] by simp
  ultimately show ?thesis by (cases ?d) auto
qed

function fnmatch :: "string \<Rightarrow> string \<Rightarrow> bool" where
  "fnmatch [] name = (name = [])"
| "fnmatch (p # ps) [] = (p = CHR ''*'' \<and> fnmatch ps [])"
| "fnmatch (p # ps) (c # cs) =
     (if p = CHR ''*'' then fnmatch ps (c # cs) \<or> fnmatch (p # ps) cs
      else if p = CHR ''?'' then fnmatch ps cs
      else if p = CHR ''['' then
        (case class_of ps of
           Some (cls, rest) \<Rightarrow> in_class c cls \<and> fnmatch rest cs
         | None \<Rightarrow> c = p \<and> fnmatch ps cs)
      else c = p \<and> fnmatch ps cs)"
  by pat_completeness auto
termination
  by (relation "measure (\<lambda>(p, n). length p + length n)") (auto dest!: class_of_shorter)

fun segments_match :: "string list \<Rightarrow> string list \<Rightarrow> bool" where
  "segments_match parts [] = (parts = [])"
| "segments_match parts (p # ps) =
     (if p = ''**'' then list_ex (\<lambda>i. segments_match (drop i parts) ps) [0..<length parts + 1]
      else parts \<noteq> [] \<and> fnmatch p (hd parts) \<and> segments_match (tl parts) ps)"

definition glob_match :: "string \<Rightarrow> string \<Rightarrow> bool" where
  "glob_match path pattern = segments_match (split_char (CHR ''/'') path) (split_char (CHR ''/'') pattern)"

section \<open>Symbolic links\<close>

text \<open>\<open>posixpath.dirname\<close>, \<open>join\<close> and \<open>normpath\<close>.\<close>

definition dirname :: "string \<Rightarrow> string" where
  "dirname p =
     (let head = take (length p - length (takeWhile (\<lambda>c. c \<noteq> CHR ''/'') (rev p))) p in
      if list_ex (\<lambda>c. c \<noteq> CHR ''/'') head then rstrip_of (\<lambda>c. c = CHR ''/'') head else head)"

definition path_join :: "string \<Rightarrow> string \<Rightarrow> string" where
  "path_join a b = (if startswith b ''/'' then b else if a = [] \<or> endswith a ''/'' then a @ b else a @ ''/'' @ b)"

definition norm_comp :: "bool \<Rightarrow> string \<Rightarrow> string list \<Rightarrow> string list" where
  "norm_comp rooted part acc =
     (if part \<in> {[], ''.''} then acc
      else if part \<noteq> ''..'' \<or> (\<not> rooted \<and> acc = []) \<or> (acc \<noteq> [] \<and> last acc = ''..'') then acc @ [part]
      else if acc \<noteq> [] then butlast acc else acc)"

definition normpath :: "string \<Rightarrow> string" where
  "normpath path =
     (let slashes = (if startswith path ''//'' \<and> \<not> startswith path ''///'' then ''//''
                     else if startswith path ''/'' then ''/'' else []);
          text = slashes @ join ''/'' (fold (norm_comp (slashes \<noteq> [])) (split_char (CHR ''/'') path) [])
      in if path = [] \<or> text = [] then ''.'' else text)"

text \<open>The parts of a link's target; \<open>..\<close> may only lead.\<close>

definition target_parts :: "string \<Rightarrow> string list" where
  "target_parts t = filter (\<lambda>p. p \<notin> {[], ''.''}) (split_char (CHR ''/'') t)"

fun dots_lead :: "bool \<Rightarrow> string list \<Rightarrow> bool" where
  "dots_lead seen_name [] = True"
| "dots_lead seen_name (p # ps) =
     (if p = ''..'' then \<not> seen_name \<and> dots_lead seen_name ps else dots_lead True ps)"

definition inside :: "string \<Rightarrow> string \<Rightarrow> bool" where
  "inside link_path target =
     (if startswith target ''/'' \<or> CHR 0x00 \<in> set target \<or> \<not> dots_lead False (target_parts target) then False
      else let resolved = normpath (path_join (dirname link_path) target)
           in resolved \<noteq> ''..'' \<and> \<not> startswith resolved ''../'' \<and> \<not> startswith resolved ''/'')"

section \<open>A commit's tree\<close>

record tree =
  tr_files :: "(string \<times> (string \<times> int)) list"
  tr_file_count :: int
  tr_total_bytes :: int
  tr_warnings :: "string list"

text \<open>One record of \<open>ls-tree -r -z --long\<close>: mode, kind, object id, size and path.\<close>

definition ls_entry :: "string \<Rightarrow> (string \<times> string \<times> string \<times> string \<times> string) option" where
  "ls_entry entry =
     (case partition_char (CHR 0x09) entry of (meta, sep, path) \<Rightarrow>
        (case split_ws meta of [m, k, oid, sz] \<Rightarrow> Some (m, k, oid, sz, path) | _ \<Rightarrow> None))"

definition parse_size :: "string \<Rightarrow> int option" where
  "parse_size s = (if s \<noteq> [] \<and> list_all is_digit s then Some (int (read_nat 0 s)) else None)"

record entries =
  te_files :: "(string \<times> (string \<times> int)) list"
  te_links :: "(string \<times> string) list"
  te_warnings :: "string list"
  te_total :: int
  te_count :: int

definition no_entries :: entries where
  "no_entries = \<lparr>te_files = [], te_links = [], te_warnings = [], te_total = 0, te_count = 0\<rparr>"

text \<open>The loop over the listing; what does not parse is an unexpected error.\<close>

fun tree_entries :: "string list \<Rightarrow> entries \<Rightarrow> sync_failure + entries" where
  "tree_entries [] st = Inr st"
| "tree_entries (entry # rest) st =
     (if entry = [] then tree_entries rest st
      else case ls_entry entry of
        None \<Rightarrow> Inl Sync_other
      | Some (m, k, oid, sz, path) \<Rightarrow>
          let st1 = st\<lparr>te_count := te_count st + 1\<rparr> in
          if k = ''commit''
          then tree_entries rest
                 (st1\<lparr>te_warnings := te_warnings st1 @
                    [''submodule '' @ path @ '' is not fetched (it is an empty directory)'']\<rparr>)
          else if m = ''120000''
          then (if sz = ''-'' then tree_entries rest (st1\<lparr>te_links := dict_set path oid (te_links st1)\<rparr>)
                else case parse_size sz of
                  None \<Rightarrow> Inl Sync_other
                | Some n \<Rightarrow> tree_entries rest
                    (st1\<lparr>te_links := dict_set path oid (te_links st1), te_total := te_total st1 + n\<rparr>))
          else (case parse_size sz of
                  None \<Rightarrow> Inl Sync_other
                | Some n \<Rightarrow> tree_entries rest
                    (st1\<lparr>te_files := dict_set path (oid, n) (te_files st1), te_total := te_total st1 + n\<rparr>)))"

definition REQUIREMENTS :: "string list" where
  "REQUIREMENTS = [''requirements.yml'', ''roles/requirements.yml'', ''collections/requirements.yml'']"

definition subdir_repr :: "string option \<Rightarrow> string" where
  "subdir_repr d = (case d of None \<Rightarrow> ''None'' | Some s \<Rightarrow> py_repr s)"

text \<open>
  \<open>kind\<close> is what \<open>cat-file -t\<close> printed, \<open>listing\<close> what \<open>ls-tree\<close> printed (each may have failed), \<open>blobs\<close> reads
  the contents of objects (\<open>_cat\<close>).
\<close>

definition inspect_tree ::
  "env \<Rightarrow> string option \<Rightarrow> sync_failure + string \<Rightarrow> sync_failure + string \<Rightarrow>
   (string list \<Rightarrow> sync_failure + (string \<Rightarrow> string)) \<Rightarrow> sync_failure + tree" where
  "inspect_tree e subdir kind listing blobs =
     (case kind of
        Inl (SyncError m) \<Rightarrow> Inl (SyncError (subdir_repr subdir @ '' does not exist in the repository''))
      | Inl Sync_other \<Rightarrow> Inl Sync_other
      | Inr k \<Rightarrow>
          if strip k \<noteq> ''tree'' then Inl (SyncError (subdir_repr subdir @ '' is not a directory in the repository''))
          else res_bind listing (\<lambda>out.
            res_bind (tree_entries (split_char (CHR 0x00) out) no_entries) (\<lambda>st.
              if te_count st > git_max_files e
              then Inl (SyncError (''the repository has more than '' @ show_int (git_max_files e) @ '' files''))
              else if te_total st > git_max_snapshot_mb e * 1024 * 1024
              then Inl (SyncError (''the files add up to more than '' @ show_int (git_max_snapshot_mb e) @ '' MB''))
              else res_bind (blobs (map snd (te_links st))) (\<lambda>content.
                case find (\<lambda>(path, oid). \<not> inside path (content oid)) (te_links st) of
                  Some (path, oid) \<Rightarrow>
                    Inl (SyncError (''symlink '' @ path @ '' points outside the repository ('' @ content oid @ '')''))
                | None \<Rightarrow>
                    Inr \<lparr>tr_files = te_files st, tr_file_count = te_count st, tr_total_bytes = te_total st,
                         tr_warnings = te_warnings st @
                           map (\<lambda>r. r @ '' is not installed automatically: install its roles and collections on the Galaxy page'')
                             (filter (\<lambda>r. map_of (te_files st) r \<noteq> None) REQUIREMENTS)\<rparr>))))"

section \<open>Links stay inside\<close>

text \<open>
  How the kernel follows a path in a checked-out tree: \<open>links\<close> gives the target of the link at a path, a
  step up from the root leaves the tree, and following too many links is an error (\<open>ELOOP\<close>).
\<close>

datatype walked = At "string list" | Loops | Escaped

fun walk :: "(string list \<Rightarrow> string option) \<Rightarrow> nat \<Rightarrow> string list \<Rightarrow> string list \<Rightarrow> walked" where
  "walk links 0 cwd parts = Loops"
| "walk links (Suc n) cwd [] = At cwd"
| "walk links (Suc n) cwd (p # ps) =
     (if p = ''..'' then (if cwd = [] then Escaped else walk links n (butlast cwd) ps)
      else case links (cwd @ [p]) of
        None \<Rightarrow> walk links n (cwd @ [p]) ps
      | Some t \<Rightarrow> if startswith t ''/'' then Escaped else walk links n cwd (target_parts t @ ps))"

text \<open>A name in a directory.\<close>

definition proper :: "string \<Rightarrow> bool" where
  "proper p = (p \<notin> {[], ''.'', ''..''} \<and> CHR ''/'' \<notin> set p)"

lemma split_char_append: "split_char c (a @ c # b) = split_char c a @ split_char c b"
proof (induction a)
  case (Cons x a)
  then show ?case by (cases "split_char c a") simp_all
qed simp

lemma split_char_none: "c \<notin> set s \<Longrightarrow> split_char c s = [s]"
  by (induction s) auto

lemma split_join: "ps \<noteq> [] \<Longrightarrow> \<forall>p \<in> set ps. c \<notin> set p \<Longrightarrow> split_char c (join [c] ps) = ps"
proof (induction ps rule: induct_list012)
  case (3 p q ps)
  have "split_char c (join [c] (p # q # ps)) = split_char c p @ split_char c (join [c] (q # ps))"
    using split_char_append [of c p "join [c] (q # ps)"] by simp
  with 3 show ?case by (simp add: split_char_none)
qed (simp_all add: split_char_none)

lemma join_snoc: "ps \<noteq> [] \<Longrightarrow> join s (ps @ [q]) = join s ps @ s @ q"
  by (induction ps rule: induct_list012) simp_all

lemma join_ends:
  assumes "d \<noteq> []" "\<forall>q \<in> set d. proper q"
  shows "join ''/'' d \<noteq> [] \<and> hd (join ''/'' d) \<noteq> CHR ''/'' \<and> last (join ''/'' d) \<noteq> CHR ''/''"
proof -
  obtain d' q where d: "d = d' @ [q]" using assms(1) by (metis append_butlast_last_id)
  then have "proper q" using assms by simp
  then have q0: "q \<noteq> []" "CHR ''/'' \<notin> set q" by (simp_all add: proper_def)
  then have q: "q \<noteq> []" "last q \<noteq> CHR ''/''" by (simp, metis last_in_set)
  have "\<exists>a. join ''/'' d = a @ q" by (cases "d' = []") (simp_all add: d join_snoc)
  moreover have "hd (join ''/'' d) \<noteq> CHR ''/''"
  proof -
    obtain x d'' where x: "d = x # d''" using assms(1) by (cases d) auto
    then have x0: "x \<noteq> []" "CHR ''/'' \<notin> set x" using assms(2) by (simp_all add: proper_def)
    then have "x \<noteq> []" "hd x \<noteq> CHR ''/''" by (simp, metis hd_in_set)
    then show ?thesis by (cases d'') (simp_all add: x)
  qed
  ultimately show ?thesis using q by auto
qed

lemma dirname_join:
  assumes "\<forall>q \<in> set (d @ [p]). proper q"
  shows "dirname (join ''/'' (d @ [p])) = join ''/'' d"
proof (cases "d = []")
  case True
  have p: "takeWhile (\<lambda>c. c \<noteq> CHR ''/'') (rev p) = rev p"
    unfolding takeWhile_eq_all_conv using assms by (auto simp: proper_def)
  have "dirname p = []" unfolding dirname_def Let_def p by simp
  with True show ?thesis by simp
next
  case False
  let ?s = "join ''/'' d"
  have s: "?s \<noteq> []" "last ?s \<noteq> CHR ''/''" using join_ends [of d] assms False by auto
  have p: "takeWhile (\<lambda>c. c \<noteq> CHR ''/'') (rev (?s @ ''/'' @ p)) = rev p"
    using assms by (auto simp: proper_def takeWhile_append takeWhile_eq_all_conv)
  have head: "take (length (?s @ ''/'' @ p) - length p) (?s @ ''/'' @ p) = ?s @ ''/''" by simp
  have "rstrip_of (\<lambda>c. c = CHR ''/'') (?s @ ''/'') = ?s"
    using s by (cases ?s rule: rev_cases) (simp_all add: rstrip_of_def)
  moreover have "list_ex (\<lambda>c. c \<noteq> CHR ''/'') (?s @ ''/'')"
    using s by (cases ?s rule: rev_cases) simp_all
  ultimately show ?thesis
    unfolding dirname_def join_snoc [OF False] Let_def p length_rev head by simp
qed

lemma norm_names:
  "\<forall>q \<in> set ns. q \<notin> {[], ''.'', ''..''} \<Longrightarrow> fold (norm_comp False) ns acc = acc @ ns"
  by (induction ns arbitrary: acc) (auto simp: norm_comp_def)

lemma norm_skip: "fold (norm_comp r) (filter (\<lambda>p. p \<notin> {[], ''.''}) ps) acc = fold (norm_comp r) ps acc"
  by (induction ps arbitrary: acc) (auto simp: norm_comp_def)

lemma norm_more_dots:
  "fold (norm_comp False) (replicate k ''..'') (replicate (Suc m) ''..'') = replicate (k + Suc m) ''..''"
proof (induction k arbitrary: m)
  case (Suc k)
  have "norm_comp False ''..'' (replicate (Suc m) ''..'') = replicate (Suc m) ''..'' @ [''..'']"
    by (simp add: norm_comp_def)
  also have "\<dots> = replicate (Suc (Suc m)) ''..''" by (simp add: replicate_append_same)
  finally show ?case using Suc.IH [of "Suc m"] by (simp only: replicate_Suc fold.simps comp_def) simp
qed simp

lemma norm_dots:
  assumes "\<forall>q \<in> set d. q \<noteq> ''..''"
  shows "fold (norm_comp False) (replicate k ''..'') d = (if k \<le> length d then take (length d - k) d else replicate (k - length d) ''..'')"
  using assms
proof (induction k arbitrary: d)
  case (Suc k)
  show ?case
  proof (cases "d = []")
    case True
    then have "fold (norm_comp False) (replicate (Suc k) ''..'') d = fold (norm_comp False) (replicate k ''..'') (replicate (Suc 0) ''..'')"
      by (simp add: norm_comp_def)
    then show ?thesis using True unfolding norm_more_dots by simp
  next
    case False
    then obtain e x where d: "d = e @ [x]" by (metis append_butlast_last_id)
    then have "norm_comp False ''..'' d = e" "\<forall>q \<in> set e. q \<noteq> ''..''"
      using Suc.prems by (auto simp: norm_comp_def)
    then show ?thesis using Suc.IH [of e] by (simp add: d)
  qed
qed simp

lemma dots_lead_split:
  "dots_lead seen ps \<Longrightarrow> \<exists>k ns. ps = replicate k ''..'' @ ns \<and> ''..'' \<notin> set ns \<and> (seen \<longrightarrow> k = 0)"
proof (induction ps arbitrary: seen)
  case (Cons p ps)
  show ?case
  proof (cases "p = ''..''")
    case True
    then have unseen: "\<not> seen \<and> dots_lead seen ps" using Cons.prems by (cases seen) simp_all
    from Cons.IH [OF conjunct2 [OF this]] obtain k ns where "ps = replicate k ''..'' @ ns" "''..'' \<notin> set ns" by blast
    with True unseen show ?thesis by (intro exI [of _ "Suc k"] exI [of _ ns]) simp
  next
    case False
    then have "dots_lead True ps" using Cons.prems by simp
    from Cons.IH [OF this] have "''..'' \<notin> set ps" by auto
    with False show ?thesis by (intro exI [of _ 0] exI [of _ "p # ps"]) simp
  qed
qed simp

lemma target_names: "\<forall>q \<in> set (target_parts t). q \<notin> {[], ''.''} \<and> CHR ''/'' \<notin> set q"
  using split_char_parts by (auto simp: target_parts_def)

lemma startswith_slash: "startswith s ''/'' \<longleftrightarrow> s \<noteq> [] \<and> hd s = CHR ''/''"
  by (cases s) (auto simp: startswith_def)

text \<open>The parts of a link's path and target, normalised.\<close>

lemma norm_link:
  assumes d: "\<forall>q \<in> set d. proper q" and rel: "\<not> startswith t ''/''"
  shows "fold (norm_comp False) (split_char (CHR ''/'') (path_join (join ''/'' d) t)) [] = fold (norm_comp False) (target_parts t) d"
    and "\<not> startswith (path_join (join ''/'' d) t) ''/''"
proof -
  note skip = norm_skip [of False "split_char (CHR ''/'') t", folded target_parts_def]
  have "fold (norm_comp False) (split_char (CHR ''/'') (path_join (join ''/'' d) t)) [] = fold (norm_comp False) (target_parts t) d
    \<and> \<not> startswith (path_join (join ''/'' d) t) ''/''"
  proof (cases "d = []")
    case True
    then show ?thesis using rel skip by (simp add: path_join_def)
  next
    case False
    note e = join_ends [OF False d]
    then have "\<not> endswith (join ''/'' d) ''/''"
      by (cases "join ''/'' d" rule: rev_cases) (auto simp: endswith_def)
    then have path: "path_join (join ''/'' d) t = join ''/'' d @ CHR ''/'' # t" using e rel by (simp add: path_join_def)
    have "split_char (CHR ''/'') (path_join (join ''/'' d) t) = d @ split_char (CHR ''/'') t"
      unfolding path split_char_append using split_join [OF False, of "CHR ''/''"] d by (simp add: proper_def)
    moreover have "fold (norm_comp False) d [] = d" using norm_names [of d "[]"] d by (auto simp: proper_def)
    ultimately show ?thesis using skip [of d] e by (simp add: startswith_slash path)
  qed
  then show "fold (norm_comp False) (split_char (CHR ''/'') (path_join (join ''/'' d) t)) [] = fold (norm_comp False) (target_parts t) d"
    "\<not> startswith (path_join (join ''/'' d) t) ''/''" by blast+
qed

lemma dots_first:
  assumes "join ''/'' (replicate (Suc m) ''..'' @ ns) = s"
  shows "s = ''..'' \<or> startswith s ''../''"
  using assms by (cases m; cases ns) (auto simp: startswith_def)

text \<open>A link that passes the check climbs at most to the root of the tree.\<close>

lemma inside_climbs:
  assumes d: "\<forall>q \<in> set (d @ [p]). proper q" and i: "inside (join ''/'' (d @ [p])) t"
  shows "\<exists>k ns. target_parts t = replicate k ''..'' @ ns \<and> (\<forall>q \<in> set ns. proper q) \<and> k \<le> length d \<and>
    \<not> startswith t ''/''"
proof -
  from i have rel: "\<not> startswith t ''/''" and lead: "dots_lead False (target_parts t)"
    by (auto simp: inside_def split: if_splits)
  obtain k ns where parts: "target_parts t = replicate k ''..'' @ ns" "''..'' \<notin> set ns"
    using dots_lead_split [OF lead] by blast
  have ns: "\<forall>q \<in> set ns. proper q" using target_names [of t] parts by (auto simp: proper_def)
  have d': "\<forall>q \<in> set d. proper q" using d by simp
  let ?path = "path_join (join ''/'' d) t"
  have "k \<le> length d"
  proof (rule ccontr)
    assume "\<not> k \<le> length d"
    then obtain m where m: "k - length d = Suc m" "\<not> k \<le> length d" using Suc_diff_Suc by (metis linorder_not_le)
    have "fold (norm_comp False) (target_parts t) d = replicate (Suc m) ''..'' @ ns"
      using norm_dots [of d k] norm_names [of ns] d' ns m parts by (auto simp: proper_def)
    then have comps: "fold (norm_comp False) (split_char (CHR ''/'') ?path) [] = replicate (Suc m) ''..'' @ ns"
      using norm_link(1) [OF d' rel] by simp
    let ?text = "join ''/'' (replicate (Suc m) ''..'' @ ns)"
    have dots: "?text = ''..'' \<or> startswith ?text ''../''" by (rule dots_first [OF refl])
    then have "?text \<noteq> []" by (auto simp: startswith_def)
    have "?path \<noteq> []" using comps by (auto simp: norm_comp_def)
    moreover have "\<not> startswith ?path ''//''" "\<not> startswith ?path ''/''"
      using norm_link(2) [OF d' rel] by (auto simp: startswith_iff)
    ultimately have "normpath ?path = ?text" using comps \<open>?text \<noteq> []\<close> by (simp add: normpath_def Let_def)
    with i dots show False by (simp add: inside_def dirname_join [OF d] Let_def split: if_splits)
  qed
  with parts ns rel show ?thesis by blast
qed

lemma walk_confined:
  assumes links: "\<And>d p t. links (d @ [p]) = Some t \<Longrightarrow> \<forall>q \<in> set (d @ [p]). proper q \<Longrightarrow> inside (join ''/'' (d @ [p])) t"
    and "\<forall>q \<in> set cwd. proper q" and "\<forall>q \<in> set ns. proper q" and "k \<le> length cwd"
  shows "walk links n cwd (replicate k ''..'' @ ns) \<noteq> Escaped"
  using assms(2-)
proof (induction n arbitrary: cwd k ns)
  case (Suc n)
  show ?case
  proof (cases k)
    case (Suc j)
    have "\<forall>q \<in> set (butlast cwd). proper q" using Suc.prems(1) by (meson in_set_butlastD)
    then show ?thesis using Suc.IH [of "butlast cwd" ns j] Suc Suc.prems by auto
  next
    case 0
    show ?thesis
    proof (cases ns)
      case (Cons p ps)
      then have p: "p \<noteq> ''..''" "\<forall>q \<in> set (cwd @ [p]). proper q" "\<forall>q \<in> set ps. proper q"
        using Suc.prems(1,2) by (auto simp: proper_def)
      show ?thesis
      proof (cases "links (cwd @ [p])")
        case None
        then show ?thesis using Suc.IH [of "cwd @ [p]" ps 0] p 0 Cons by simp
      next
        case (Some t)
        obtain k' ns' where t: "target_parts t = replicate k' ''..'' @ ns'" "\<forall>q \<in> set ns'. proper q"
          "k' \<le> length cwd" "\<not> startswith t ''/''" using inside_climbs [OF p(2) links [OF Some p(2)]] by blast
        then show ?thesis using Suc.IH [of cwd "ns' @ ps" k'] Suc.prems(1) p Some 0 Cons by auto
      qed
    qed (simp add: 0)
  qed
qed simp

text \<open>The links of a checked-out tree, by the names on the way to them.\<close>

definition tree_link :: "entries \<Rightarrow> (string \<Rightarrow> string) \<Rightarrow> string list \<Rightarrow> string option" where
  "tree_link st content path = map_option content (map_of (te_links st) (join ''/'' path))"

text \<open>
  C28. No path of a synced commit leads out of its directory: in a tree that passed the check, following
  any path of plain names - through any chain of symbolic links, to directories and to other links -
  never climbs above the root, however far it is followed.
\<close>

theorem inspect_tree_confines:
  assumes "inspect_tree e subdir kind (Inr out) blobs = Inr tree"
    and "tree_entries (split_char (CHR 0x00) out) no_entries = Inr st"
    and "blobs (map snd (te_links st)) = Inr content"
    and "\<forall>q \<in> set path. proper q"
  shows "walk (tree_link st content) n [] path \<noteq> Escaped"
proof -
  have "find (\<lambda>(path, oid). \<not> inside path (content oid)) (te_links st) = None"
    using assms(1-3) by (auto simp: inspect_tree_def Let_def split: sum.splits sync_failure.splits if_splits option.splits)
  then have ok: "inside p (content oid)" if "map_of (te_links st) p = Some oid" for p oid
    using map_of_SomeD [OF that] by (auto simp: find_None_iff)
  have "walk (tree_link st content) n [] (replicate 0 ''..'' @ path) \<noteq> Escaped"
    by (rule walk_confined) (use assms(4) ok in \<open>auto simp: tree_link_def\<close>)
  then show ?thesis by simp
qed

text \<open>A link \<open>a/up\<close> to \<open>../b\<close> beside a directory \<open>b\<close>.\<close>

theorem inspect_tree_confines_witness:
  "walk (tree_link (no_entries\<lparr>te_links := [(''a/up'', ''x'')], te_count := 1, te_total := 4\<rparr>) (\<lambda>_. ''../b''))
     5 [] [''a'', ''up'', ''f''] \<noteq> Escaped"
proof -
  let ?out = "''120000 blob x 4'' @ CHR 0x09 # ''a/up'' @ [CHR 0x00]"
  let ?st = "no_entries\<lparr>te_links := [(''a/up'', ''x'')], te_count := 1, te_total := 4\<rparr>"
  have st: "tree_entries (split_char (CHR 0x00) ?out) no_entries = Inr ?st"
    by (simp add: ls_entry_def partition_char_def split_ws_def is_space_def parse_size_def is_digit_def no_entries_def)
  have ok: "inside ''a/up'' ''../b''"
    by (simp add: inside_def startswith_def target_parts_def normpath_def path_join_def dirname_def rstrip_of_def
        endswith_def norm_comp_def)
  obtain tree where "inspect_tree sample_env None (Inr ''tree'') (Inr ?out) (\<lambda>_. Inr (\<lambda>_. ''../b'')) = Inr tree"
    using st ok by (simp add: inspect_tree_def strip_def strip_of_def rstrip_of_def is_space_def sample_env_def no_entries_def)
  from inspect_tree_confines [OF this st, of "\<lambda>_. ''../b''"] show ?thesis by (simp add: proper_def)
qed

end
