(* ===== verification/Inventory_Files.thy ===== *)
theory Inventory_Files
  imports Git_Trees "HOL-Library.List_Lexorder" "HOL-Library.Char_ord" "HOL-Library.Sublist" "HOL-Library.Multiset"
begin

text \<open>
  Inventory files and scripts of a git source, \<open>app/inventory_files.py\<close>: which files of a snapshot reach
  a refresh, and how many. The members of a tar file and UTF-8 decoding are arguments.
\<close>

definition INV_MAX_PATH :: nat where "INV_MAX_PATH = 1024"
definition INV_MAX_FILES :: nat where "INV_MAX_FILES = 500"
definition INV_MAX_FILE_BYTES :: int where "INV_MAX_FILE_BYTES = 2 * 1024 * 1024"
definition INV_MAX_TOTAL_BYTES :: int where "INV_MAX_TOTAL_BYTES = 8 * 1024 * 1024"

definition VARS_DIRS :: "string list" where "VARS_DIRS = [''group_vars'', ''host_vars'']"

text \<open>A bad path or file, or an exception of \<open>tarfile\<close> or of the file system.\<close>

datatype file_failure = InventoryFileError string | File_other

definition check_path :: "string option \<Rightarrow> file_failure + string" where
  "check_path raw =
     (let path = strip_of (\<lambda>c. c = CHR ''/'') (strip (case raw of None \<Rightarrow> [] | Some p \<Rightarrow> p));
          parts = split_char (CHR ''/'') path in
      if path = [] \<or> length path > INV_MAX_PATH \<or> CHR 0x00 \<in> set path \<or> list_ex (\<lambda>p. p \<in> {[], ''.'', ''..''}) parts
      then Inl (InventoryFileError ''Give a path inside the repository, such as inventory/hosts.ini or inventory/'')
      else Inr path)"

text \<open>\<open>tarfile.TarInfo\<close>: \<open>tm_data\<close> is what \<open>extractfile\<close> reads (nothing for what is no file).\<close>

record tar_member =
  tm_name :: string
  tm_isfile :: bool
  tm_size :: int
  tm_mode :: nat
  tm_data :: "string option"

record inventory_file =
  if_name :: string
  if_text :: string
  if_executable :: bool

record inventory_files =
  fs_files :: "inventory_file list"
  fs_target :: string
  fs_digest :: string

definition wanted :: "string \<Rightarrow> string \<Rightarrow> bool \<Rightarrow> bool" where
  "wanted name path directory =
     (if directory then startswith name (path @ ''/'')
      else let base = dirname path; prefix = (if base \<noteq> [] then base @ ''/'' else [])
           in name = path \<or> list_ex (\<lambda>d. startswith name (prefix @ d @ ''/'')) VARS_DIRS)"

text \<open>The loop over the sorted members; \<open>k\<close> is the length of the list so far.\<close>

fun read_loop ::
  "(string \<Rightarrow> string option) \<Rightarrow> string \<Rightarrow> nat \<Rightarrow> int \<Rightarrow> tar_member list \<Rightarrow> file_failure + inventory_file list" where
  "read_loop utf8 what k used [] = Inr []"
| "read_loop utf8 what k used (m # ms) =
     (if k \<ge> INV_MAX_FILES
      then Inl (InventoryFileError (what @ '': more than '' @ show_nat INV_MAX_FILES @ '' files''))
      else if tm_size m > INV_MAX_FILE_BYTES
      then Inl (InventoryFileError (tm_name m @ '' is larger than 2 MiB''))
      else if used + tm_size m > INV_MAX_TOTAL_BYTES
      then Inl (InventoryFileError (what @ '': more than 8 MiB of files''))
      else case (case tm_data m of None \<Rightarrow> Some [] | Some bytes \<Rightarrow> utf8 bytes) of
        None \<Rightarrow> Inl (InventoryFileError (tm_name m @ '' is not UTF-8 text''))
      | Some t \<Rightarrow>
          res_bind (read_loop utf8 what (Suc k) (used + tm_size m) ms)
            (\<lambda>fs. Inr (\<lparr>if_name = tm_name m, if_text = t, if_executable = odd (tm_mode m div 64)\<rparr> # fs)))"

definition read_files ::
  "(string \<Rightarrow> string option) \<Rightarrow> tar_member list \<Rightarrow> string \<Rightarrow> file_failure + inventory_file list" where
  "read_files utf8 mems what = read_loop utf8 what 0 0 (sort_key tm_name mems)"

definition files_digest :: "env \<Rightarrow> inventory_file list \<Rightarrow> string" where
  "files_digest e fs =
     sha256_hex e (json_dumps e (VList (map (\<lambda>f. VList [Str (if_name f), Str (if_text f), VBool (if_executable f)]) fs)))"

text \<open>The tar of a snapshot; a missing or broken one is an exception.\<close>

type_synonym untar = "string \<Rightarrow> tar_member list option"

definition tar_members :: "untar \<Rightarrow> database \<Rightarrow> git_snapshot \<Rightarrow> file_failure + tar_member list" where
  "tar_members untar db s =
     (case Option.bind (snapshot_tars db (gt_source_id s, gt_commit s)) untar of
        None \<Rightarrow> Inl File_other | Some ms \<Rightarrow> Inr (filter tm_isfile ms))"

definition read_script_files ::
  "env \<Rightarrow> untar \<Rightarrow> (string \<Rightarrow> string option) \<Rightarrow> database \<Rightarrow> git_snapshot \<Rightarrow> string option \<Rightarrow>
   file_failure + inventory_files" where
  "read_script_files e untar utf8 db s raw =
     res_bind (check_path raw) (\<lambda>path.
     res_bind (tar_members untar db s) (\<lambda>mems.
       if path \<notin> tm_name ` set mems
       then Inl (InventoryFileError (path @ '' is not a file in commit '' @ take 12 (gt_commit s)))
       else let base = dirname path in
            res_bind (read_files utf8 (filter (\<lambda>m. base = [] \<or> startswith (tm_name m) (base @ ''/'')) mems)
                        (if base = [] then ''/'' else base)) (\<lambda>fs.
              case find (\<lambda>f. if_name f = path) fs of
                None \<Rightarrow> Inl File_other
              | Some f \<Rightarrow>
                  if \<not> startswith (if_text f) ''#!''
                  then Inl (InventoryFileError (path @ '' doesn'' @ [CHR 0x27] @
                         ''t start with a #! line naming its interpreter (#!/usr/bin/env python3)''))
                  else Inr \<lparr>fs_files = fs, fs_target = path, fs_digest = files_digest e fs\<rparr>)))"

definition read_inventory_files ::
  "env \<Rightarrow> untar \<Rightarrow> (string \<Rightarrow> string option) \<Rightarrow> database \<Rightarrow> git_snapshot \<Rightarrow> string option \<Rightarrow>
   file_failure + inventory_files" where
  "read_inventory_files e untar utf8 db s raw =
     res_bind (check_path raw) (\<lambda>path.
     res_bind (tar_members untar db s) (\<lambda>mems.
       let directory = (path \<notin> tm_name ` set mems) in
       if directory \<and> \<not> list_ex (\<lambda>m. startswith (tm_name m) (path @ ''/'')) mems
       then Inl (InventoryFileError (path @ '' is not in commit '' @ take 12 (gt_commit s)))
       else res_bind (read_files utf8 (filter (\<lambda>m. wanted (tm_name m) path directory) mems) path)
              (\<lambda>fs. Inr \<lparr>fs_files = fs, fs_target = path, fs_digest = files_digest e fs\<rparr>)))"

definition git_reader ::
  "env \<Rightarrow> untar \<Rightarrow> (string \<Rightarrow> string option) \<Rightarrow> inventory_source \<Rightarrow> database \<Rightarrow> git_snapshot \<Rightarrow>
   file_failure + inventory_files" where
  "git_reader e untar utf8 src db s =
     (if src_kind src = ''git_script'' then read_script_files e untar utf8 db s (src_path src)
      else read_inventory_files e untar utf8 db s (src_path src))"

text \<open>
  \<open>_git_file_call\<close>: the commit it read, which the row of the refresh records, and the files and the
  target of the call.
\<close>

definition inventory_file_val :: "inventory_file \<Rightarrow> val" where
  "inventory_file_val f =
     VDict [(vkey ''name'', Str (if_name f)), (vkey ''text'', Str (if_text f)), (vkey ''executable'', VBool (if_executable f))]"

definition git_file_call ::
  "env \<Rightarrow> untar \<Rightarrow> (string \<Rightarrow> string option) \<Rightarrow> database \<Rightarrow> inventory_source \<Rightarrow>
   string option \<times> (file_failure + (bool \<times> string \<times> val) list)" where
  "git_file_call e untar utf8 db src =
     (let source = Option.bind (src_git_source_id src) (get_row gs_id (git_sources db));
          snap = Option.bind source (\<lambda>g. Option.bind (gs_current_snapshot_id g) (get_row gt_id (git_snapshots db)));
          project = map_option i_project_id (get_row i_id (inventories db) (src_inventory_id src)) in
      case (source, snap) of
        (Some g, Some s) \<Rightarrow>
          if project \<noteq> Some (gs_project_id g)
          then (None, Inl (InventoryFileError (''its git source hasn'' @ [CHR 0x27] @ ''t synced a commit yet'')))
          else (Some (gt_commit s),
                res_bind (git_reader e untar utf8 src db s) (\<lambda>found. Inr
                  [(False, ''files'', VList (map inventory_file_val (fs_files found))),
                   (False, ''target'', Str (fs_target found))]))
      | _ \<Rightarrow> (None, Inl (InventoryFileError (''its git source hasn'' @ [CHR 0x27] @ ''t synced a commit yet''))))"

section \<open>What reaches a refresh\<close>

text \<open>A file as it is sent, and the member it was read from.\<close>

definition read_from :: "(string \<Rightarrow> string option) \<Rightarrow> tar_member \<Rightarrow> inventory_file \<Rightarrow> bool" where
  "read_from utf8 m f \<longleftrightarrow>
     if_name f = tm_name m \<and> if_executable f = odd (tm_mode m div 64) \<and>
     Some (if_text f) = (case tm_data m of None \<Rightarrow> Some [] | Some bytes \<Rightarrow> utf8 bytes)"

lemma list_all2_in_set2: "list_all2 P xs ys \<Longrightarrow> y \<in> set ys \<Longrightarrow> \<exists>x \<in> set xs. P x y"
  by (induction rule: list_all2_induct) auto

lemma read_loop_sound:
  assumes "read_loop utf8 what k used ms = Inr fs" and "k \<le> INV_MAX_FILES"
    and "used \<le> INV_MAX_TOTAL_BYTES"
  shows "list_all2 (read_from utf8) ms fs \<and> k + length fs \<le> INV_MAX_FILES \<and>
    used + (\<Sum>m\<leftarrow>ms. tm_size m) \<le> INV_MAX_TOTAL_BYTES \<and> (\<forall>m \<in> set ms. tm_size m \<le> INV_MAX_FILE_BYTES)"
  using assms
proof (induction ms arbitrary: k used fs)
  case (Cons m ms)
  then obtain t fs' where t: "(case tm_data m of None \<Rightarrow> Some [] | Some bytes \<Rightarrow> utf8 bytes) = Some t"
    and fs': "read_loop utf8 what (Suc k) (used + tm_size m) ms = Inr fs'"
    and fs: "fs = \<lparr>if_name = tm_name m, if_text = t, if_executable = odd (tm_mode m div 64)\<rparr> # fs'"
    and le: "\<not> k \<ge> INV_MAX_FILES" "\<not> used + tm_size m > INV_MAX_TOTAL_BYTES" "\<not> tm_size m > INV_MAX_FILE_BYTES"
    by (auto simp: res_bind_Inr_iff split: if_splits option.splits)
  have "read_from utf8 m (hd fs)" using t by (simp add: fs read_from_def)
  then show ?case using Cons.IH [OF fs'] le fs by auto
qed simp

lemma read_files_sound:
  assumes "read_files utf8 mems what = Inr fs"
  shows "list_all2 (read_from utf8) (sort_key tm_name mems) fs \<and> length fs \<le> INV_MAX_FILES \<and>
    (\<Sum>m\<leftarrow>mems. tm_size m) \<le> INV_MAX_TOTAL_BYTES"
proof -
  have "mset (map tm_size (sort_key tm_name mems)) = mset (map tm_size mems)"
    unfolding mset_map mset_sort ..
  then have "(\<Sum>m\<leftarrow>sort_key tm_name mems. tm_size m) = (\<Sum>m\<leftarrow>mems. tm_size m)"
    by (metis sum_mset_sum_list)
  then show ?thesis
    using read_loop_sound [of utf8 what 0 0 "sort_key tm_name mems" fs] assms
    by (simp add: read_files_def INV_MAX_FILES_def INV_MAX_TOTAL_BYTES_def)
qed


text \<open>Paths by their components.\<close>

abbreviation comps :: "string \<Rightarrow> string list" where
  "comps \<equiv> split_char (CHR ''/'')"

lemma startswith_comps: "startswith n (p @ ''/'') \<longleftrightarrow> (\<exists>t \<noteq> []. comps n = comps p @ t)"
proof
  assume "startswith n (p @ ''/'')"
  then obtain r where "n = p @ CHR ''/'' # r" by (auto simp: startswith_iff)
  then show "\<exists>t \<noteq> []. comps n = comps p @ t" by (intro exI [of _ "comps r"]) (simp add: split_char_append)
next
  assume "\<exists>t \<noteq> []. comps n = comps p @ t"
  then obtain t where t: "t \<noteq> []" "comps n = comps p @ t" by blast
  have j: "join ''/'' (ps @ t) = join ''/'' ps @ ''/'' @ join ''/'' t" if "ps \<noteq> []" for ps
    using that t(1) by (induction ps rule: induct_list012) (cases t; simp)+
  have "n = join ''/'' (comps n)" by (simp add: join_split_char)
  also have "\<dots> = p @ ''/'' @ join ''/'' t" unfolding t(2) by (subst j) (simp_all add: join_split_char)
  finally have "n = (p @ ''/'') @ join ''/'' t" by simp
  then show "startswith n (p @ ''/'')" by (metis startswith_append)
qed

lemma check_path_proper:
  assumes "check_path raw = Inr path"
  shows "\<forall>q \<in> set (comps path). proper q" "path \<noteq> []"
  using assms split_char_parts [of _ "CHR ''/''" path]
  by (auto simp: check_path_def Let_def proper_def list_ex_iff split: if_splits)

lemma comps_dirname:
  assumes "check_path raw = Inr path"
  shows "dirname path = join ''/'' (butlast (comps path))"
    and "dirname path = [] \<longleftrightarrow> butlast (comps path) = []"
    and "dirname path \<noteq> [] \<Longrightarrow> comps (dirname path) = butlast (comps path)"
proof -
  note ok = check_path_proper [OF assms]
  have cp: "comps path = butlast (comps path) @ [last (comps path)]" by simp
  show d: "dirname path = join ''/'' (butlast (comps path))"
    using dirname_join [of "butlast (comps path)" "last (comps path)"] ok(1) cp
    by (metis join_split_char)
  have bl: "\<forall>q \<in> set (butlast (comps path)). proper q" using ok(1) by (meson in_set_butlastD)
  show "dirname path = [] \<longleftrightarrow> butlast (comps path) = []"
    unfolding d using join_ends [of "butlast (comps path)"] bl by fastforce
  then have "butlast (comps path) \<noteq> []" if "dirname path \<noteq> []" using that by blast
  moreover have "\<forall>q \<in> set (butlast (comps path)). CHR ''/'' \<notin> set q" using bl by (simp add: proper_def)
  ultimately show "comps (dirname path) = butlast (comps path)" if "dirname path \<noteq> []"
    using that split_join [of "butlast (comps path)" "CHR ''/''"] by (metis d)
qed

text \<open>
  What a source may bring in: a script, its directory and all below; a file, itself (or all below it,
  if it is a directory) and the variables beside it.
\<close>

definition may_reach :: "string \<Rightarrow> string list \<Rightarrow> string list \<Rightarrow> bool" where
  "may_reach kind path name =
     (if kind = ''git_script'' then prefix (butlast path) name
      else prefix path name \<or> (\<exists>d \<in> set VARS_DIRS. strict_prefix (butlast path @ [d]) name))"

lemma strict_prefix_append: "(\<exists>t \<noteq> []. b = a @ t) \<longleftrightarrow> strict_prefix a b"
  by (metis append_self_conv prefix_def strict_prefix_def)

lemma vars_dir_comps:
  assumes "check_path raw = Inr path" and "d \<in> set VARS_DIRS"
  shows "startswith n ((if dirname path \<noteq> [] then dirname path @ ''/'' else []) @ d @ ''/'') \<longleftrightarrow>
    strict_prefix (butlast (comps path) @ [d]) (comps n)"
proof -
  have d: "comps d = [d]" using assms(2) by (auto simp: VARS_DIRS_def)
  show ?thesis
  proof (cases "dirname path = []")
    case True
    then have b: "butlast (comps path) = []" using comps_dirname(2) [OF assms(1)] by blast
    show ?thesis using startswith_comps [of n d] True unfolding b d strict_prefix_append by simp
  next
    case False
    have "comps (dirname path @ ''/'' @ d) = butlast (comps path) @ [d]"
      using split_char_append [of "CHR ''/''" "dirname path" d] comps_dirname(3) [OF assms(1) False] d by simp
    then have "startswith n ((dirname path @ ''/'' @ d) @ ''/'') \<longleftrightarrow>
        strict_prefix (butlast (comps path) @ [d]) (comps n)"
      using startswith_comps [of n "dirname path @ ''/'' @ d"] unfolding strict_prefix_append by simp
    then show ?thesis using False by simp
  qed
qed

lemma wanted_reach:
  assumes "check_path raw = Inr path" and "wanted n path directory" and "kind \<noteq> ''git_script''"
  shows "may_reach kind (comps path) (comps n)"
proof (cases directory)
  case True
  then have "strict_prefix (comps path) (comps n)"
    using assms(2) startswith_comps [of n path] by (simp add: wanted_def strict_prefix_append)
  then show ?thesis using assms(3) by (auto simp: may_reach_def strict_prefix_def)
next
  case False
  then have "n = path \<or> (\<exists>d \<in> set VARS_DIRS. strict_prefix (butlast (comps path) @ [d]) (comps n))"
    using assms(2) vars_dir_comps [OF assms(1), of _ n] unfolding wanted_def Let_def list_ex_iff if_not_P [OF False]
    by blast
  then show ?thesis using assms(3) by (auto simp: may_reach_def)
qed

lemma script_reach:
  assumes "check_path raw = Inr path" and "dirname path = [] \<or> startswith n (dirname path @ ''/'')"
  shows "may_reach ''git_script'' (comps path) (comps n)"
  using assms(2)
proof (cases "dirname path = []")
  case True
  then show ?thesis using comps_dirname(2) [OF assms(1)] by (simp add: may_reach_def)
next
  case False
  then have "strict_prefix (comps (dirname path)) (comps n)"
    using assms(2) startswith_comps [of n "dirname path"] by (simp add: strict_prefix_append)
  then show ?thesis using comps_dirname(3) [OF assms(1) False] by (simp add: may_reach_def strict_prefix_def)
qed

text \<open>What was read came from these members, and they are what the source may bring in.\<close>

lemma git_reader_cases:
  assumes "git_reader e untar utf8 src db s = Inr found"
  obtains path mems ms what where "check_path (src_path src) = Inr path" "tar_members untar db s = Inr mems"
    "set ms \<subseteq> set mems" "read_files utf8 ms what = Inr (fs_files found)" "fs_target found = path"
    "\<forall>m \<in> set ms. may_reach (src_kind src) (comps path) (comps (tm_name m))"
    "fs_digest found = files_digest e (fs_files found)"
proof (cases "src_kind src = ''git_script''")
  case True
  then have ok: "read_script_files e untar utf8 db s (src_path src) = Inr found"
    using assms by (simp add: git_reader_def)
  then obtain path mems where p: "check_path (src_path src) = Inr path" "tar_members untar db s = Inr mems"
    by (auto simp: read_script_files_def res_bind_Inr_iff)
  let ?ms = "filter (\<lambda>m. dirname path = [] \<or> startswith (tm_name m) (dirname path @ ''/'')) mems"
  let ?what = "if dirname path = [] then ''/'' else dirname path"
  obtain fs' where f: "read_files utf8 ?ms ?what = Inr fs'"
    using ok by (cases "read_files utf8 ?ms ?what") (simp_all add: read_script_files_def p Let_def split: if_splits)
  have "found = \<lparr>fs_files = fs', fs_target = path, fs_digest = files_digest e fs'\<rparr>"
    using ok unfolding read_script_files_def p res_bind.simps Let_def f by (simp split: if_splits option.splits)
  then have fs: "read_files utf8 ?ms ?what = Inr (fs_files found)"
    and t: "fs_target found = path" "fs_digest found = files_digest e (fs_files found)" using f by simp_all
  have "may_reach (src_kind src) (comps path) (comps n)"
    if "dirname path = [] \<or> startswith n (dirname path @ ''/'')" for n
    using script_reach [OF p(1) that] True by simp
  then have "\<forall>m \<in> set (filter (\<lambda>m. dirname path = [] \<or> startswith (tm_name m) (dirname path @ ''/'')) mems).
      may_reach (src_kind src) (comps path) (comps (tm_name m))" by simp
  then show ?thesis using that [OF p _ fs t(1) _ t(2)] by auto
next
  case False
  then have "read_inventory_files e untar utf8 db s (src_path src) = Inr found"
    using assms by (simp add: git_reader_def)
  then obtain path mems directory where p: "check_path (src_path src) = Inr path" "tar_members untar db s = Inr mems"
    and fs: "read_files utf8 (filter (\<lambda>m. wanted (tm_name m) path directory) mems) path = Inr (fs_files found)"
    and t: "fs_target found = path" "fs_digest found = files_digest e (fs_files found)"
    unfolding read_inventory_files_def Let_def res_bind_Inr_iff
    by (auto simp: res_bind_Inr_iff split: if_splits)
  have "\<forall>m \<in> set (filter (\<lambda>m. wanted (tm_name m) path directory) mems).
      may_reach (src_kind src) (comps path) (comps (tm_name m))"
    by (intro ballI wanted_reach [OF p(1) _ False, of _ directory]) simp
  then show ?thesis using that [OF p _ fs t(1) _ t(2)] by auto
qed


definition sample_untar :: untar where
  "sample_untar t = Some
     [\<lparr>tm_name = ''inventory/hosts.ini'', tm_isfile = True, tm_size = 2, tm_mode = 420, tm_data = Some ''h1''\<rparr>,
      \<lparr>tm_name = ''ansible.cfg'', tm_isfile = True, tm_size = 1, tm_mode = 420, tm_data = Some ''x''\<rparr>]"

definition file_source :: inventory_source where
  "file_source =
     \<lparr>src_id = 4, src_inventory_id = 2, src_name = ''repo'', src_kind = ''git_file'', src_plugin = ''git_file'',
      src_config = None, src_git_source_id = Some 6, src_path = Some ''inventory/'', src_credential_id = None,
      src_enabled = True, src_position = 0, src_refresh_interval_seconds = None, src_last_queued_at = None,
      src_last_error = None, src_last_finished_at = None, src_missing_at = None\<rparr>"

definition sample_git_snapshot :: git_snapshot where
  "sample_git_snapshot =
     \<lparr>gt_id = 3, gt_source_id = 6, gt_commit = ''c0ffee'', gt_size_bytes = 9, gt_file_count = 2, gt_sha256 = [],
      gt_warnings = [], gt_created_at = 0, gt_superseded_at = None\<rparr>"


end
