(* ===== verification/Refresh_Api.thy ===== *)
theory Refresh_Api
  imports Internal_Api Refreshes Inventory_Files
begin

text \<open>
  The refresh handlers of \<open>app/internal_api.py\<close> and the two jobs of a refresh
  (\<open>build_refresh_job\<close>, \<open>build_combine_job\<close> of \<open>app/inventory_sources.py\<close>). Resolving a source's credential
  through the secret store is the argument \<open>env_of\<close>; reading an inventory file or script from a git
  snapshot is \<open>git_call\<close> (\<open>git_file_call\<close> of \<open>Inventory_Files\<close>), which gives the commit it read and the call or the file's error. An exception
  a handler does not catch is answered with 500 and its transaction is rolled back.
\<close>

section \<open>The jobs\<close>

datatype refresh_failure = R_source string | R_store string string | R_other

type_synonym source_env = "database \<Rightarrow> inventory \<Rightarrow> inventory_source \<Rightarrow> refresh_failure + (string \<times> string) list"
type_synonym git_caller = "database \<Rightarrow> inventory_source \<Rightarrow> string option \<times> (file_failure + (bool \<times> string \<times> val) list)"

text \<open>The part of a dotted name after its last dot.\<close>

definition last_part :: "string \<Rightarrow> string" where
  "last_part s = last (split_char (CHR ''.'') s)"

definition config_file_name :: "inventory_source \<Rightarrow> nat \<Rightarrow> string" where
  "config_file_name s order =
     (let suffix = (if src_plugin s = ''google.cloud.gcp_compute'' then ''gcp'' else last_part (src_plugin s))
      in show_nat order @ ''-src'' @ show_int (src_id s) @ ''.'' @ suffix @ ''.yml'')"

definition env_val :: "(string \<times> string) list \<Rightarrow> val" where
  "env_val d = VDict (map (\<lambda>(k, v). (vkey k, Str v)) d)"

definition file_entry :: "string \<Rightarrow> string \<Rightarrow> val" where
  "file_entry name t = VDict [(vkey ''name'', Str name), (vkey ''text'', Str t)]"

definition part_key :: "inventory_source \<Rightarrow> string" where
  "part_key s = CHR ''s'' # show_int (src_id s)"

record refresh_build =
  rb_calls :: "val list"
  rb_secrets :: "string list"

definition new_row :: "env \<Rightarrow> refresh \<Rightarrow> bool \<Rightarrow> inventory_source \<Rightarrow> key_id \<Rightarrow> refresh_source" where
  "new_row e f runs_now s i =
     \<lparr>rs_id = i, rs_refresh_id = row_id f, rs_source_id = Some (src_id s), rs_name = src_name s,
      rs_plugin = src_plugin s, rs_ran = runs_now, rs_status = None, rs_error = None,
      rs_input_sha256 = Some (input_sha256 e s), rs_host_count = None, rs_git_commit = None\<rparr>"

text \<open>The loop over the sources; on a failure what was done so far stays in the session.\<close>

fun build_sources ::
  "env \<Rightarrow> time \<Rightarrow> source_env \<Rightarrow> git_caller \<Rightarrow> refresh \<Rightarrow> inventory \<Rightarrow> inventory_source list \<Rightarrow> refresh_build \<Rightarrow>
   database \<Rightarrow> database \<times> (refresh_failure + refresh_build)" where
  "build_sources e now env_of git_call f iv [] b db = (db, Inr b)"
| "build_sources e now env_of git_call f iv (s # ss) b db =
     (let runs_now = (\<not> is_constructed s \<and>
            (f_scope f = None \<or> src_id s \<in> set (the (f_scope f)) \<or> src_last_queued_at s = None));
          row = new_row e f runs_now s (next_refresh_source_id db);
          db1 = db\<lparr>refresh_sources := refresh_sources db @ [row],
                   next_refresh_source_id := next_refresh_source_id db + 1\<rparr> in
      if \<not> runs_now then build_sources e now env_of git_call f iv ss b db1
      else let db2 = set_source (src_id s) (\<lambda>x. x\<lparr>src_last_queued_at := Some now\<rparr>) db1 in
        case env_of db2 iv s of
          Inl x \<Rightarrow> (db2, Inl x)
        | Inr vars \<Rightarrow>
            let b1 = b\<lparr>rb_secrets := rb_secrets b @ map snd vars\<rparr> in
            if src_kind s \<in> {''git_file'', ''git_script''}
            then (case git_call db2 s of (commit, found) \<Rightarrow>
                    let row' = row\<lparr>rs_git_commit := commit\<rparr>; db3 = put_row row' db2 in
                    case found of
                      Inl File_other \<Rightarrow> (db3, Inl R_other)
                    | Inl (InventoryFileError m) \<Rightarrow>
                        build_sources e now env_of git_call f iv ss b1 (record_source_failure e now row' m db3)
                    | Inr entries \<Rightarrow>
                        build_sources e now env_of git_call f iv ss
                          (b1\<lparr>rb_calls := rb_calls b1 @ [VDict
                             ([(vkey ''key'', Str (part_key s)), (vkey ''kind'', Str (src_kind s))] @
                              map (\<lambda>(u, k, v). ((u, k), v)) entries @ [(vkey ''env'', env_val vars)])]\<rparr>) db3)
            else build_sources e now env_of git_call f iv ss
                   (b1\<lparr>rb_calls := rb_calls b1 @ [VDict
                      [(vkey ''key'', Str (part_key s)), (vkey ''kind'', Str ''plugin''),
                       (vkey ''files'', VList [VDict [(vkey ''name'', Str (config_file_name s 10)),
                                                      (vkey ''text'', nullable (src_config s))]]),
                       (vkey ''env'', env_val vars)]]\<rparr>) db2)"

definition sorted_secrets :: "string list \<Rightarrow> val" where
  "sorted_secrets ss = str_list (sort (remdups ss))"

definition max_output_bytes :: "env \<Rightarrow> int" where
  "max_output_bytes e = inventory_max_output_mb e * 1024 * 1024"

definition build_refresh_job ::
  "env \<Rightarrow> time \<Rightarrow> source_env \<Rightarrow> git_caller \<Rightarrow> refresh \<Rightarrow> database \<Rightarrow> database \<times> refresh \<times> (refresh_failure + val)" where
  "build_refresh_job e now env_of git_call f db =
     (case get_row i_id (inventories db) (f_inventory_id f) of
        None \<Rightarrow> (db, f, Inl R_other)
      | Some iv \<Rightarrow>
          if i_project_id iv \<noteq> f_project_id f then (db, f, Inl R_other)
          else let ss = ordered_sources db (i_id iv) in
          if ss = [] then (db, f, Inl (R_source ''the inventory has no enabled sources''))
          else (case build_sources e now env_of git_call f iv ss \<lparr>rb_calls = [], rb_secrets = []\<rparr> db of
                  (db1, Inl x) \<Rightarrow> (db1, f, Inl x)
                | (db1, Inr b) \<Rightarrow>
                    (db1,
                     f\<lparr>f_stage := Some ''sources'',
                       f_sources := Some
                         \<lparr>ri_sources = map (\<lambda>s. \<lparr>se_id = src_id s, se_name = src_name s, se_plugin = src_plugin s,
                              se_sha256 = sha256_hex e (error_or (src_config s) (error_or (src_path s) []))\<rparr>) ss,
                          ri_static_hosts = map fst (st_hosts (static_data iv))\<rparr>\<rparr>,
                     Inr (VDict [(vkey ''kind'', Str ''refresh''), (vkey ''calls'', VList (rb_calls b)),
                                 (vkey ''secrets'', sorted_secrets (rb_secrets b)),
                                 (vkey ''timeout_seconds'', VInt (timeout_seconds f)),
                                 (vkey ''max_output_bytes'', VInt (max_output_bytes e))]))))"

text \<open>A graph with every string of its variables marked.\<close>

definition unsafe_graph :: "graph \<Rightarrow> graph" where
  "unsafe_graph g =
     \<lparr>gr_vars = mark_vars (gr_vars g), gr_hosts = map (\<lambda>(h, vs). (h, mark_vars vs)) (gr_hosts g),
      gr_groups = map (\<lambda>(n, grp). (n, grp\<lparr>gg_vars := mark_vars (gg_vars grp)\<rparr>)) (gr_groups g)\<rparr>"

definition static_unsafe :: "static_inv \<Rightarrow> graph" where
  "static_unsafe st =
     (let g = merge_static st empty_graph in g\<lparr>gr_hosts := map (\<lambda>(h, vs). (h, mark_vars vs)) (gr_hosts g)\<rparr>)"

definition render_all :: "(val \<Rightarrow> string) \<Rightarrow> graph \<Rightarrow> string" where
  "render_all dump g = dump (render_block g (\<lambda>_. True))"

fun combine_env ::
  "source_env \<Rightarrow> database \<Rightarrow> inventory \<Rightarrow> inventory_source list \<Rightarrow> nat \<Rightarrow> (string \<times> string) list \<Rightarrow> val list \<Rightarrow>
   refresh_failure + ((string \<times> string) list \<times> val list)" where
  "combine_env env_of db iv [] order acc files = Inr (acc, files)"
| "combine_env env_of db iv (s # ss) order acc files =
     res_bind (env_of db iv s) (\<lambda>vars.
       case find (\<lambda>(k, v). map_of acc k \<noteq> None \<and> map_of acc k \<noteq> Some v) vars of
         Some (k, v) \<Rightarrow> Inl (R_source (''two credentials set '' @ k @ '' to different values''))
       | None \<Rightarrow>
           combine_env env_of db iv ss (Suc order) (fold (\<lambda>(k, v). dict_set k v) vars acc)
             (files @ [VDict [(vkey ''name'', Str (config_file_name s order)), (vkey ''text'', nullable (src_config s))]]))"

definition build_combine_job ::
  "env \<Rightarrow> (val \<Rightarrow> string) \<Rightarrow> source_env \<Rightarrow> inventory \<Rightarrow> refresh \<Rightarrow> database \<Rightarrow> refresh_failure + (refresh \<times> val)" where
  "build_combine_job e dump env_of iv f db =
     (let static = static_data iv;
          pairs = contributing db (i_id iv);
          outs = map (\<lambda>(n, s, o'). file_entry (show_nat (100 + n) @ ''-src'' @ show_int (src_id s) @ ''.out.yml'')
                                    (render_all dump (unsafe_graph (so_data o')))) (List.enumerate 0 pairs);
          own = file_entry ''500-static.yml'' (render_all dump (static_unsafe static)) in
      res_bind (combine_env env_of db iv (filter is_constructed (ordered_sources db (i_id iv))) 600 [] (outs @ [own]))
        (\<lambda>(vars, files). Inr
          ((set_static_hosts (map fst (st_hosts static)) f)\<lparr>f_stage := Some ''combine''\<rparr>,
           VDict [(vkey ''calls'', VList [VDict [(vkey ''key'', Str ''combined''), (vkey ''kind'', Str ''combine''),
                     (vkey ''files'', VList files), (vkey ''env'', env_val vars)]]),
                  (vkey ''secrets'', sorted_secrets (map snd vars)),
                  (vkey ''max_output_bytes'', VInt (max_output_bytes e))])))"

section \<open>The handlers\<close>

definition remove_outputs :: "key_id \<Rightarrow> database \<Rightarrow> database" where
  "remove_outputs i db = db\<lparr>refresh_outputs := (\<lambda>(j, part). if j = i then None else refresh_outputs db (j, part))\<rparr>"

text \<open>\<open>_end_refresh\<close>; the handler's answer follows, or 500 and the database as it was.\<close>

definition finish_with ::
  "env \<Rightarrow> time \<Rightarrow> string \<Rightarrow> refresh \<Rightarrow> run_status \<Rightarrow> string option \<Rightarrow> database \<Rightarrow> py_error + database" where
  "finish_with e now clock f st error db =
     res_bind (end_refresh e now clock f st error db) (\<lambda>(db1, ev).
       let db2 = remove_outputs (row_id f) db1;
           db3 = (case ev of None \<Rightarrow> db2 | Some a \<Rightarrow> audit_record now a db2)
       in Inr (finished e now db3))"

definition answer :: "database \<Rightarrow> 'a reply \<Rightarrow> py_error + database \<Rightarrow> database \<times> 'a reply" where
  "answer before ok r = (case r of Inl x \<Rightarrow> (before, Refused 500 ''Internal Server Error'') | Inr db \<Rightarrow> (db, ok))"

definition store_error_text :: "env \<Rightarrow> string \<Rightarrow> string \<Rightarrow> string" where
  "store_error_text e subject kind =
     ''could not read '' @ subject @ '' from '' @ secrets_store_label e @ '': '' @ explain kind"

text \<open>The secret store is down: back to the queue, or failed once the wait is over.\<close>

definition refresh_store_down ::
  "env \<Rightarrow> time \<Rightarrow> string \<Rightarrow> key_id \<Rightarrow> string \<Rightarrow> string \<Rightarrow> string \<Rightarrow> database \<Rightarrow> database \<times> 'a reply" where
  "refresh_store_down e now clock i token kind error db =
     (case locked_row e (refreshes db) i token of
        None \<Rightarrow> (db, Gone)
      | Some f \<Rightarrow>
          let (db1, since) = seen now kind db; db2 = store_alert e now kind db1 in
          (case wait_over e now (queued_at f) since of
             None \<Rightarrow> (requeue_refresh now f (secrets_store_label e) db2, Gone)
           | Some over \<Rightarrow> answer db Gone (finish_with e now clock f FAILED (Some (error @ over)) db2)))"

definition refresh_job_handler ::
  "env \<Rightarrow> source_env \<Rightarrow> git_caller \<Rightarrow> time \<Rightarrow> string \<Rightarrow> key_id \<Rightarrow> string \<Rightarrow> string \<Rightarrow> database \<Rightarrow> database \<times> val reply" where
  "refresh_job_handler e env_of git_call now clock i claim_token job_token db =
     (case locked_row e (refreshes db) i claim_token of
        None \<Rightarrow> (db, Gone)
      | Some f0 \<Rightarrow>
          if \<not> job_token_ok e now job_token f0 then (db, Gone)
          else let f1 = take_job_token f0 in
          (case build_refresh_job e now env_of git_call f1 db of
             (db1, f2, Inl (R_store kind subject)) \<Rightarrow>
               let error = store_error_text e subject kind in
               if kind \<in> set OUTAGE_KINDS then refresh_store_down e now clock i claim_token kind error db
               else answer db Gone (finish_with e now clock f2 FAILED (Some error) db1)
           | (db1, f2, Inl (R_source m)) \<Rightarrow> answer db Gone (finish_with e now clock f2 FAILED (Some m) db1)
           | (db1, f2, Inl R_other) \<Rightarrow>
               answer db Gone (finish_with e now clock f2 FAILED (Some ''could not prepare the refresh (see the server log)'') db1)
           | (db1, f2, Inr payload) \<Rightarrow>
               let db2 = put_refresh (f2\<lparr>started_at := Some now\<rparr>) db1 in
               (if refresh_needs_store db2 (f_inventory_id f2) then fst (cleared db2) else db2, Answer payload)))"

text \<open>An output's name: \<open>s\<close> and a source's id, or \<open>combined\<close>.\<close>

definition part_ok :: "string \<Rightarrow> bool" where
  "part_ok p =
     (p = ''combined'' \<or>
      (p \<noteq> [] \<and> hd p = CHR ''s'' \<and> 2 \<le> length p \<and> length p \<le> 13 \<and> list_all is_digit (tl p)))"

definition ran_rows :: "database \<Rightarrow> refresh \<Rightarrow> (key_id \<times> refresh_source) list" where
  "ran_rows db f =
     fold (\<lambda>r d. case rs_source_id r of None \<Rightarrow> d
                 | Some i \<Rightarrow> if rs_ran r \<and> i \<noteq> 0 then dict_set i r d else d) (refresh_rows db f) []"

definition part_allowed :: "database \<Rightarrow> refresh \<Rightarrow> string \<Rightarrow> bool" where
  "part_allowed db f p =
     (if p = ''combined'' then f_stage f = Some ''combine''
      else f_stage f = Some ''sources'' \<and> int (read_nat 0 (tl p)) \<in> fst ` set (ran_rows db f))"

definition output_text :: "database \<Rightarrow> refresh \<Rightarrow> string \<Rightarrow> string" where
  "output_text db f part = (case refresh_outputs db (row_id f, part) of None \<Rightarrow> [] | Some t \<Rightarrow> t)"

definition append_output ::
  "env \<Rightarrow> key_id \<Rightarrow> string \<Rightarrow> int \<Rightarrow> string \<Rightarrow> string \<Rightarrow> database \<Rightarrow> database \<times> int reply" where
  "append_output e i token offset part chunk db =
     (if \<not> part_ok part \<or> offset < 0 then (db, Refused 422 ''invalid request'')
      else case locked_row e (refreshes db) i token of
        None \<Rightarrow> (db, Gone)
      | Some f \<Rightarrow>
          if \<not> part_allowed db f part then (db, Refused 409 ''Not an output of this refresh now'')
          else let staged = output_text db f part; size = int (length staged) in
          if offset > size then (db, Expected_offset size)
          else if offset + int (length chunk) > max_output_bytes e
          then (db, Refused 413 ''The output is too large'')
          else (db\<lparr>refresh_outputs := (refresh_outputs db)((row_id f, part) \<mapsto> take (nat offset) staged @ chunk)\<rparr>,
                Answer (offset + int (length chunk))))"

definition read_part :: "env \<Rightarrow> refresh \<Rightarrow> string \<Rightarrow> int \<Rightarrow> string option \<Rightarrow> database \<Rightarrow> string option" where
  "read_part e f part nbytes sha db =
     (let raw = output_text db f part in
      if int (length raw) \<noteq> nbytes \<or> Some (sha256_hex e raw) \<noteq> sha then None else Some raw)"

text \<open>\<open>_finish_refresh\<close>.\<close>

definition finish_refresh ::
  "env \<Rightarrow> time \<Rightarrow> string \<Rightarrow> refresh \<Rightarrow> inventory \<Rightarrow> snapshot_data \<Rightarrow> string list \<Rightarrow> database \<Rightarrow> py_error + database" where
  "finish_refresh e now clock f iv sd warnings db =
     (let rows = refresh_rows db f; (st, error) = sources_outcome rows in
      if keep_current_snapshot db iv rows then finish_with e now clock f st error db
      else res_bind (store_snapshot now f sd warnings db)
             (\<lambda>(db1, f1). finish_with e now clock f1 st error db1))"

record source_result =
  sr_source_id :: key_id
  sr_status :: run_status
  sr_bytes :: int
  sr_sha256 :: "string option"
  sr_error :: "string option"
  sr_scrubbed :: bool

text \<open>The loop of \<open>_store_results\<close>: \<open>Inl\<close> is the refusal to send, \<open>Inr\<close> of a sum the outcome.\<close>

fun store_rows ::
  "env \<Rightarrow> ansible_names \<Rightarrow> (string \<Rightarrow> val option) \<Rightarrow> time \<Rightarrow> refresh \<Rightarrow> source_result list \<Rightarrow> (key_id \<times> refresh_source) list \<Rightarrow>
   database \<Rightarrow> py_error + (string + database)" where
  "store_rows e a loads now f results [] db = Inr (Inr db)"
| "store_rows e a loads now f results ((i, row) # rows) db =
     (if rs_status row \<noteq> None then store_rows e a loads now f results rows db
      else case find (\<lambda>r. sr_source_id r = i) (rev results) of
        None \<Rightarrow>
          store_rows e a loads now f results rows (record_source_failure e now row ''the worker reported no result'' db)
      | Some res \<Rightarrow>
          if sr_status res \<noteq> SUCCESS
          then store_rows e a loads now f results rows
                 (record_source_failure e now row (error_or (sr_error res) ''ansible-inventory failed'') db)
          else case read_part e f (CHR ''s'' # show_int i) (sr_bytes res) (sr_sha256 res) db of
            None \<Rightarrow> Inr (Inl (''The output of source '' @ show_int i @ '' doesn't match its size and hash''))
          | Some raw \<Rightarrow>
              res_bind (store_source_output e a loads now f row raw (sr_scrubbed res) db)
                (store_rows e a loads now f results rows))"

definition store_results ::
  "env \<Rightarrow> ansible_names \<Rightarrow> (string \<Rightarrow> val option) \<Rightarrow> time \<Rightarrow> refresh \<Rightarrow> source_result list \<Rightarrow> database \<Rightarrow>
   py_error + (string + database)" where
  "store_results e a loads now f results db =
     (let rows = ran_rows db f in
      if \<exists>r \<in> set results. sr_source_id r \<notin> fst ` set rows
      then Inr (Inl ''Results for sources this refresh didn't run'')
      else store_rows e a loads now f results rows db)"

datatype refresh_answer = Done_refresh | Combine_job val

text \<open>After the sources: combine here, or hand out the combine job.\<close>

definition combine_stage ::
  "env \<Rightarrow> ansible_names \<Rightarrow> (string \<Rightarrow> val option) \<Rightarrow> (val \<Rightarrow> string) \<Rightarrow> source_env \<Rightarrow> time \<Rightarrow> string \<Rightarrow> refresh \<Rightarrow> inventory \<Rightarrow>
   database \<Rightarrow> database \<Rightarrow> database \<times> refresh_answer reply" where
  "combine_stage e a loads dump env_of now clock f iv before db =
     (if needs_combine_job db (i_id iv)
      then (case build_combine_job e dump env_of iv f db of
              Inr (f1, job) \<Rightarrow> (put_refresh f1 db, Answer (Combine_job job))
            | Inl (R_store kind subject) \<Rightarrow>
                let db1 = (if kind \<in> set OUTAGE_KINDS then store_alert e now kind (fst (seen now kind db)) else db)
                in answer before Gone (finish_with e now clock f FAILED (Some (store_error_text e subject kind)) db1)
            | Inl (R_source m) \<Rightarrow> answer before Gone (finish_with e now clock f FAILED (Some m) db)
            | Inl R_other \<Rightarrow> (before, Refused 500 ''Internal Server Error''))
      else (case combine_here e a loads iv db of
              Inl (Crash x) \<Rightarrow> (before, Refused 500 ''Internal Server Error'')
            | Inl (SourceError m) \<Rightarrow> answer before Gone (finish_with e now clock f FAILED (Some m) db)
            | Inr (sd, warnings) \<Rightarrow>
                let f1 = set_static_hosts (map fst (i_hosts iv)) f
                in answer before (Answer Done_refresh) (finish_refresh e now clock f1 iv sd warnings db)))"

definition refresh_sources_handler ::
  "env \<Rightarrow> ansible_names \<Rightarrow> (string \<Rightarrow> val option) \<Rightarrow> (val \<Rightarrow> string) \<Rightarrow> source_env \<Rightarrow> time \<Rightarrow> string \<Rightarrow> key_id \<Rightarrow> string \<Rightarrow>
   source_result list \<Rightarrow> database \<Rightarrow> database \<times> refresh_answer reply" where
  "refresh_sources_handler e a loads dump env_of now clock i token results db =
     (case locked_row e (refreshes db) i token of
        None \<Rightarrow> (db, Gone)
      | Some f \<Rightarrow>
          (case get_row i_id (inventories db) (f_inventory_id f) of
             None \<Rightarrow> answer db Gone (finish_with e now clock f FAILED (Some ''the inventory was deleted'') db)
           | Some iv \<Rightarrow>
               if f_stage f = Some ''sources''
               then (case store_results e a loads now f results db of
                       Inl x \<Rightarrow> (db, Refused 500 ''Internal Server Error'')
                     | Inr (Inl m) \<Rightarrow> (db, Refused 409 m)
                     | Inr (Inr db1) \<Rightarrow> combine_stage e a loads dump env_of now clock f iv db db1)
               else if f_stage f \<noteq> Some ''combine'' then (db, Refused 409 ''The refresh isn't running its sources'')
               else combine_stage e a loads dump env_of now clock f iv db db))"

definition refresh_complete ::
  "env \<Rightarrow> ansible_names \<Rightarrow> (string \<Rightarrow> val option) \<Rightarrow> time \<Rightarrow> string \<Rightarrow> key_id \<Rightarrow> string \<Rightarrow> run_status \<Rightarrow> string option \<Rightarrow>
   int \<Rightarrow> string option \<Rightarrow> bool \<Rightarrow> database \<Rightarrow> database \<times> unit reply" where
  "refresh_complete e a loads now clock i token st error nbytes sha scrubbed db =
     (case locked_row e (refreshes db) i token of
        None \<Rightarrow> (db, Gone)
      | Some f \<Rightarrow>
          if st \<noteq> SUCCESS
          then answer db (Answer ()) (finish_with e now clock f st (Some (error_or error (status_words st))) db)
          else if f_stage f \<noteq> Some ''combine'' then (db, Refused 409 ''Report the sources first'')
          else (case read_part e f ''combined'' nbytes sha db of
                  None \<Rightarrow> (db, Refused 409 ''The output doesn't match its size and hash'')
                | Some raw \<Rightarrow>
                    (case get_row i_id (inventories db) (f_inventory_id f) of
                       None \<Rightarrow> answer db (Answer ()) (finish_with e now clock f FAILED (Some ''the inventory was deleted'') db)
                     | Some iv \<Rightarrow>
                         (case normalise e a loads raw (case f_sources f of None \<Rightarrow> [] | Some r \<Rightarrow> ri_static_hosts r) of
                            Inl (Crash x) \<Rightarrow> (db, Refused 500 ''Internal Server Error'')
                          | Inl (SourceError m) \<Rightarrow>
                              answer db (Answer ())
                                (finish_with e now clock f FAILED (Some (''applying the constructed sources: '' @ m)) db)
                          | Inr (sd, w0) \<Rightarrow>
                              let w1 = source_warnings (contributing db (i_id iv)) @ w0;
                                  w2 = (if scrubbed then SCRUBBED # w1 else w1);
                                  f1 = f\<lparr>f_output_bytes := Some (int (length raw))\<rparr>
                              in answer db (Answer ()) (finish_refresh e now clock f1 iv sd w2 db)))))"

end
