(* ===== verification/Refresh_Facts.thy ===== *)
theory Refresh_Facts
  imports Refresh_Api Internal_Facts
begin

text \<open>
  What refreshing promises: a request is always covered by the one queued refresh of its
  inventory, a refresh that goes back to the queue takes the runs that wait for it along, an ended
  refresh leaves no run waiting, and pruning keeps every snapshot something still uses.
\<close>

section \<open>The queue of refreshes\<close>

text \<open>The partial unique index on the queued refreshes, and the ids the sequence gave out.\<close>

definition one_queued :: "database \<Rightarrow> bool" where
  "one_queued db =
     (\<forall>f \<in> set (refreshes db). \<forall>g \<in> set (refreshes db).
        queued_for (f_inventory_id f) f \<and> queued_for (f_inventory_id f) g \<longrightarrow> row_id f = row_id g)"

definition refresh_index :: "database \<Rightarrow> bool" where
  "refresh_index db =
     (unique_ids (refreshes db) \<and> one_queued db \<and> (\<forall>f \<in> set (refreshes db). row_id f < next_refresh_id db))"

lemmas refresh_index_defs = refresh_index_def one_queued_def queued_for_def

text \<open>What a refresh of scope \<open>a\<close> runs includes what one of scope \<open>b\<close> runs.\<close>

definition covers :: "key_id list option \<Rightarrow> key_id list option \<Rightarrow> bool" where
  "covers a b = (case (a, b) of (None, _) \<Rightarrow> True | (Some x, Some y) \<Rightarrow> set y \<subseteq> set x | (Some _, None) \<Rightarrow> False)"

lemma covers_None [simp]: "covers None b" and covers_refl [simp]: "covers a a"
  by (auto simp: covers_def split: option.splits)

lemma set_sorted_ids [simp]: "set (sorted_ids ids) = set ids"
  by (simp add: sorted_ids_def)

lemma covers_sorted [simp]: "covers a (map_option sorted_ids b) = covers a b" "covers (map_option sorted_ids b) b"
  by (auto simp: covers_def split: option.splits)

lemma widen_covers [simp]: "covers (widen a b) a" "covers (widen a b) b"
  by (auto simp: covers_def widen_def split: option.splits)

lemma put_refresh_frame [simp]:
  "runs (put_refresh f db) = runs db" "next_refresh_id (put_refresh f db) = next_refresh_id db"
  "snapshots (put_refresh f db) = snapshots db" "static_part (put_refresh f db) = static_part db"
  "inventories (put_refresh f db) = inventories db" "lints (put_refresh f db) = lints db"
  "scans (put_refresh f db) = scans db" "installs (put_refresh f db) = installs db"
  by (simp_all add: put_refresh_def)

lemma refreshes_put_refresh:
  "refreshes (put_refresh f db) = update_rows (\<lambda>x. row_id x = row_id f) (\<lambda>_. f) (refreshes db)"
  by (simp add: put_refresh_def)

lemma in_put_refresh:
  "g \<in> set (refreshes (put_refresh f db)) \<longleftrightarrow>
     (g = f \<and> row_id f \<in> row_id ` set (refreshes db)) \<or> (g \<in> set (refreshes db) \<and> row_id g \<noteq> row_id f)"
  unfolding refreshes_put_refresh set_update_rows by (cases "g = f") (auto intro: rev_image_eqI)

lemma put_refresh_ids: "map row_id (refreshes (put_refresh f db)) = map row_id (refreshes db)"
  by (simp add: refreshes_put_refresh update_rows_def)

text \<open>A row that is written back without becoming a second queued one keeps the index.\<close>

lemma one_queuedI:
  assumes "\<And>f g. f \<in> set (refreshes db) \<Longrightarrow> g \<in> set (refreshes db) \<Longrightarrow> status f = QUEUED \<Longrightarrow> status g = QUEUED \<Longrightarrow>
    f_inventory_id f = f_inventory_id g \<Longrightarrow> row_id f = row_id g"
  shows "one_queued db"
  unfolding one_queued_def queued_for_def using assms by metis

lemma one_queuedD:
  "one_queued db \<Longrightarrow> f \<in> set (refreshes db) \<Longrightarrow> g \<in> set (refreshes db) \<Longrightarrow> queued_for i f \<Longrightarrow> queued_for i g \<Longrightarrow>
   row_id f = row_id g"
  unfolding one_queued_def queued_for_def by metis

lemma put_refresh_index:
  assumes idx: "refresh_index db"
    and free: "\<And>g. status f = QUEUED \<Longrightarrow> g \<in> set (refreshes db) \<Longrightarrow> row_id g \<noteq> row_id f \<Longrightarrow> \<not> queued_for (f_inventory_id f) g"
  shows "refresh_index (put_refresh f db)"
proof -
  have "one_queued (put_refresh f db)"
  proof (rule one_queuedI)
    fix x y
    assume "x \<in> set (refreshes (put_refresh f db))" "y \<in> set (refreshes (put_refresh f db))"
      and q: "status x = QUEUED" "status y = QUEUED" "f_inventory_id x = f_inventory_id y"
    then consider "x = f" "y = f" | "x = f" "y \<in> set (refreshes db)" "row_id y \<noteq> row_id f"
      | "y = f" "x \<in> set (refreshes db)" "row_id x \<noteq> row_id f" | "x \<in> set (refreshes db)" "y \<in> set (refreshes db)"
      unfolding in_put_refresh by blast
    then show "row_id x = row_id y"
      using q free one_queuedD [of db x y "f_inventory_id x"] idx
      by cases (simp_all add: queued_for_def refresh_index_def)
  qed
  moreover have "\<forall>g \<in> set (refreshes (put_refresh f db)). row_id g < next_refresh_id db"
    using idx by (auto simp: in_put_refresh refresh_index_def)
  ultimately show ?thesis
    using idx by (simp add: refresh_index_def unique_ids_def put_refresh_ids)
qed

lemma insert_refresh_index:
  assumes idx: "refresh_index db"
  shows "refresh_index (fst (insert_refresh e now iv tr who scope db))"
proof (cases "\<exists>f \<in> set (refreshes db). queued_for (i_id iv) f")
  case False
  let ?db' = "fst (insert_refresh e now iv tr who scope db)"
  obtain f where f: "refreshes ?db' = refreshes db @ [f]" "next_refresh_id ?db' = next_refresh_id db + 1"
    "row_id f = next_refresh_id db" "f_inventory_id f = i_id iv"
    using False by (simp add: insert_refresh_def Let_def)
  have "one_queued ?db'"
  proof (rule one_queuedI)
    fix x y
    assume "x \<in> set (refreshes ?db')" "y \<in> set (refreshes ?db')"
      and q: "status x = QUEUED" "status y = QUEUED" "f_inventory_id x = f_inventory_id y"
    then consider "x = f" "y = f" | "x = f" "y \<in> set (refreshes db)"
      | "y = f" "x \<in> set (refreshes db)" | "x \<in> set (refreshes db)" "y \<in> set (refreshes db)"
      unfolding f(1) by auto
    then show "row_id x = row_id y"
      using q False f(4) one_queuedD [of db x y "f_inventory_id x"] idx
      by cases (simp_all add: queued_for_def refresh_index_def)
  qed
  moreover have "unique_ids (refreshes ?db')"
    using idx unfolding f(1) by (intro unique_ids_snoc) (auto simp: refresh_index_def f(3))
  moreover have "\<forall>g \<in> set (refreshes ?db'). row_id g < next_refresh_id ?db'"
    using idx by (auto simp: f refresh_index_def)
  ultimately show ?thesis by (simp add: refresh_index_def)
qed (use idx in \<open>simp add: insert_refresh_def\<close>)

lemma queued_same:
  assumes "refresh_index db" "f \<in> set (refreshes db)" "g \<in> set (refreshes db)" "queued_for i f" "queued_for i g"
  shows "f = g"
  using assms one_queuedD [of db f g i] unfolding refresh_index_def unique_ids_def
  by (metis get_row_unique option.inject)

lemma insert_refresh_rows:
  "insert_refresh e now iv tr who scope db = (db', Some i) \<Longrightarrow>
     \<exists>f. refreshes db' = refreshes db @ [f] \<and> row_id f = i \<and> queued_for (i_id iv) f \<and> f_scope f = scope"
  "insert_refresh e now iv tr who scope db = (db', None) \<Longrightarrow>
     db' = db \<and> (\<exists>f \<in> set (refreshes db). queued_for (i_id iv) f)"
  by (auto simp: insert_refresh_def Let_def queued_for_def split: if_splits)

lemma touch_sources_frame [simp]:
  "refreshes (touch_sources now i scope db) = refreshes db"
  "next_refresh_id (touch_sources now i scope db) = next_refresh_id db"
  "runs (touch_sources now i scope db) = runs db" "lints (touch_sources now i scope db) = lints db"
  "installs (touch_sources now i scope db) = installs db" "scans (touch_sources now i scope db) = scans db"
  by (simp_all add: touch_sources_def)

lemma refresh_index_touch [simp]: "refresh_index (touch_sources now i scope db) = refresh_index db"
  by (simp add: refresh_index_def one_queued_def)

lemma find_queued:
  assumes "find (queued_for i) (refreshes db) = Some q"
  shows "q \<in> set (refreshes db)" "queued_for i q"
  using assms by (auto simp: find_Some_iff)

text \<open>
  A request to refresh an inventory with sources is never lost: whatever other transactions
  commit between the insert and the look at the queued refresh (as long as they respect the unique
  index), afterwards exactly one refresh of the inventory is queued and it runs at least the
  requested sources; a refresh that was queued and was not claimed in between still runs all it was
  asked for. An id is returned exactly for a refresh this request queued.
\<close>

theorem enqueue_refresh_covers:
  assumes "has_sources db (i_id iv)" and "refresh_index db"
    and "\<And>d. refresh_index d \<Longrightarrow> refresh_index (mid d)"
  shows "case enqueue_refresh e now mid iv tr who ids db of (db', rid) \<Rightarrow>
    refresh_index db' \<and>
    (\<exists>!f. f \<in> set (refreshes db') \<and> queued_for (i_id iv) f) \<and>
    (\<exists>f \<in> set (refreshes db'). queued_for (i_id iv) f \<and> covers (f_scope f) ids \<and>
       (\<forall>q \<in> set (refreshes (mid db)). queued_for (i_id iv) q \<and> rid = None \<longrightarrow>
          row_id f = row_id q \<and> covers (f_scope f) (f_scope q)) \<and>
       (\<forall>i. rid = Some i \<longrightarrow> row_id f = i))"
proof -
  obtain db' rid where en: "enqueue_refresh e now mid iv tr who ids db = (db', rid)" by fastforce
  let ?s = "map_option sorted_ids ids"
  define P where "P d f = (f \<in> set (refreshes d) \<and> queued_for (i_id iv) f \<and> covers (f_scope f) ids \<and>
       (\<forall>q \<in> set (refreshes (mid db)). queued_for (i_id iv) q \<and> rid = None \<longrightarrow>
          row_id f = row_id q \<and> covers (f_scope f) (f_scope q)) \<and>
       (\<forall>i. rid = Some i \<longrightarrow> row_id f = i))" for d :: database and f
  have "refresh_index db' \<and> (\<exists>f. P db' f)"
  proof (cases "insert_refresh e now iv tr who ?s db")
    case (Pair db1 r1)
    show ?thesis
    proof (cases r1)
      case (Some i)
      with Pair en assms(1) have "db' = touch_sources now (i_id iv) ?s db1" "rid = Some i"
        by (auto simp: enqueue_refresh_def)
      then show ?thesis
        using insert_refresh_rows(1) [of e now iv tr who ?s db db1 i] insert_refresh_index [OF assms(2), of e now iv tr who ?s]
        Pair Some by (auto simp: P_def)
    next
      case None
      have db1: "db1 = db" using insert_refresh_rows(2) Pair None by blast
      have idx: "refresh_index (mid db)" using assms(2,3) by blast
      show ?thesis
      proof (cases "find (queued_for (i_id iv)) (refreshes (mid db))")
        case None': None
        obtain db2 r2 where ins: "insert_refresh e now iv tr who ?s (mid db) = (db2, r2)" by fastforce
        have free: "\<forall>f \<in> set (refreshes (mid db)). \<not> queued_for (i_id iv) f"
          using None' by (simp add: find_None_iff)
        then obtain i where i: "r2 = Some i" using ins insert_refresh_rows(2) by (cases r2) blast+
        from en assms(1) Pair None db1 None' ins have "db' = touch_sources now (i_id iv) ?s db2" "rid = r2"
          by (auto simp: enqueue_refresh_def)
        then show ?thesis
          using insert_refresh_rows(1) [of e now iv tr who ?s "mid db" db2 i]
            insert_refresh_index [OF idx, of e now iv tr who ?s] ins i
          by (auto simp: P_def)
      next
        case (Some q)
        let ?d = "if f_scope q \<noteq> None then put_refresh (q\<lparr>f_scope := widen (f_scope q) ?s\<rparr>) (mid db) else mid db"
        note q = find_queued [OF Some]
        have only: "x = q" if "x \<in> set (refreshes (mid db))" "queued_for (i_id iv) x" for x
          using queued_same idx that q by blast
        from en assms(1) Pair None db1 Some
        have d: "db' = touch_sources now (i_id iv) ?s ?d" "rid = None"
          by (auto simp: enqueue_refresh_def Let_def)
        have "refresh_index (put_refresh (q\<lparr>f_scope := widen (f_scope q) ?s\<rparr>) (mid db))"
          by (rule put_refresh_index [OF idx]) (use only q(2) in \<open>force simp: queued_for_def\<close>)
        then have "refresh_index ?d" using idx by simp
        define g where "g = (if f_scope q \<noteq> None then q\<lparr>f_scope := widen (f_scope q) ?s\<rparr> else q)"
        have "g \<in> set (refreshes ?d)" "queued_for (i_id iv) g" "row_id g = row_id q"
          using q by (auto simp: g_def in_put_refresh queued_for_def)
        moreover have "covers (f_scope g) ids" "covers (f_scope g) (f_scope q)"
          using widen_covers [of "f_scope q" ?s] by (auto simp: g_def)
        ultimately have "P db' g"
          using only d(2) unfolding P_def d(1) touch_sources_frame by blast
        then show ?thesis using \<open>refresh_index ?d\<close> d by auto
      qed
    qed
  qed
  moreover have "f = g" if "refresh_index db'" "f \<in> set (refreshes db')" "queued_for (i_id iv) f"
    "g \<in> set (refreshes db')" "queued_for (i_id iv) g" for f g
    using queued_same that by blast
  ultimately show ?thesis unfolding en P_def by blast
qed

text \<open>An inventory with one source, and a refresh of another source of it that waits.\<close>

definition sample_source :: inventory_source where
  "sample_source =
     \<lparr>src_id = 4, src_inventory_id = 2, src_name = ''hcloud'', src_kind = ''plugin'',
      src_plugin = ''hetzner.hcloud.hcloud'', src_config = Some [], src_git_source_id = None, src_path = None,
      src_credential_id = None, src_enabled = True, src_position = 0, src_refresh_interval_seconds = None,
      src_last_queued_at = None, src_last_error = None, src_last_finished_at = None, src_missing_at = None\<rparr>"

definition sample_refresh :: "key_id \<Rightarrow> run_status \<Rightarrow> refresh" where
  "sample_refresh i st =
     \<lparr>row_id = i, status = st, queued_at = 10 * i, claimed_at = None, started_at = None, finished_at = None,
      timeout_seconds = 300, worker_id = None, lease_expires_at = None, heartbeat_at = None,
      claim_token_hash = None, job_token_hash = None, job_token_expires_at = None, f_inventory_id = 2,
      f_project_id = 1, f_trigger = ''schedule'', f_requested_by = None, f_sources = None, f_output_bytes = None,
      f_error = None, f_snapshot_id = None, f_scope = Some [i], f_stage = None\<rparr>"

definition refresh_db :: database where
  "refresh_db = empty_db\<lparr>sources := [sample_source], refreshes := [sample_refresh 3 RUNNING, sample_refresh 7 QUEUED],
     inventories := [sample_inventory], runs := [(sample_run 9 20)\<lparr>waiting_refresh_id := Some 3\<rparr>],
     next_refresh_id := 8\<rparr>"

lemmas refresh_sample_defs = refresh_db_def sample_refresh_def sample_source_def sample_defs

lemma refresh_db_index: "refresh_index refresh_db"
  by (simp add: refresh_index_def one_queued_def queued_for_def unique_ids_def refresh_sample_defs)

theorem enqueue_refresh_covers_witness:
  "\<exists>f \<in> set (refreshes (fst (enqueue_refresh sample_env 100 id sample_inventory ''schedule'' None (Some [4]) refresh_db))).
     queued_for 2 f \<and> covers (f_scope f) (Some [4])"
proof -
  have i: "i_id sample_inventory = 2" by (simp add: sample_inventory_def)
  have "has_sources refresh_db (i_id sample_inventory)" by (simp add: has_sources_def refresh_sample_defs)
  from enqueue_refresh_covers [OF this refresh_db_index, where mid = id and ids = "Some [4]"
    and e = sample_env and now = 100 and tr = "''schedule''" and who = None] i
  show ?thesis unfolding case_prod_beta i by (simp only: id_apply simp_thms) blast
qed

lemma waiting_same: "waiting_refresh_id r = w \<Longrightarrow> r\<lparr>waiting_refresh_id := w\<rparr> = r"
  by auto

lemma update_rows_waiting:
  assumes "r \<in> set tbl" "p r"
  shows "f r \<in> set (update_rows p f tbl)"
  using assms by (auto simp: set_update_rows)

text \<open>
  A claimed refresh that goes back to the queue (the secret store is down) keeps what it was
  asked for: afterwards the inventory's one queued refresh runs at least its sources, is no later
  in the queue than it was, and every run that waited for it waits for that one; a refresh that was
  queued in between keeps its own sources and place too. No claim of it is left.
\<close>

theorem requeue_refresh_keeps:
  assumes "refresh_index db" and "f \<in> set (refreshes db)" and "status f = RUNNING"
  shows "refresh_index (requeue_refresh now f label db) \<and>
    (\<exists>g \<in> set (refreshes (requeue_refresh now f label db)).
       queued_for (f_inventory_id f) g \<and> covers (f_scope g) (f_scope f) \<and> queued_at g \<le> queued_at f \<and>
       (\<forall>q \<in> set (refreshes db). queued_for (f_inventory_id f) q \<longrightarrow>
          row_id g = row_id q \<and> covers (f_scope g) (f_scope q) \<and> queued_at g \<le> queued_at q) \<and>
       (\<forall>r \<in> set (runs db). waiting_refresh_id r = Some (row_id f) \<longrightarrow>
          r\<lparr>waiting_refresh_id := Some (row_id g)\<rparr> \<in> set (runs (requeue_refresh now f label db)))) \<and>
    (\<forall>h \<in> set (refreshes (requeue_refresh now f label db)). row_id h = row_id f \<longrightarrow>
       status h \<noteq> RUNNING \<and> claim_token_hash h = None \<and> job_token_hash h = None)"
proof -
  have f: "row_id f \<in> row_id ` set (refreshes db)" using assms(2) by blast
  show ?thesis
  proof (cases "find (queued_for (f_inventory_id f)) (refreshes db)")
    case None
    let ?g = "(unclaim f)\<lparr>status := QUEUED\<rparr>"
    have d: "requeue_refresh now f label db = put_refresh ?g db" using None by (simp add: requeue_refresh_def)
    have g: "row_id ?g = row_id f" "f_inventory_id ?g = f_inventory_id f" "f_scope ?g = f_scope f"
      "queued_at ?g = queued_at f" "claim_token_hash ?g = None" "job_token_hash ?g = None"
      by (simp_all add: unclaim_def)
    have none: "\<not> queued_for (f_inventory_id f) q" if "q \<in> set (refreshes db)" for q
      using None that by (simp add: find_None_iff)
    have "refresh_index (put_refresh ?g db)"
      by (rule put_refresh_index [OF assms(1)]) (use none g(2) in simp)
    moreover have "?g \<in> set (refreshes (put_refresh ?g db))" "queued_for (f_inventory_id f) ?g"
      using f g(1,2) by (simp_all add: in_put_refresh queued_for_def)
    moreover have "\<forall>r \<in> set (runs db). waiting_refresh_id r = Some (row_id f) \<longrightarrow>
        r\<lparr>waiting_refresh_id := Some (row_id ?g)\<rparr> \<in> set (runs (put_refresh ?g db))"
      unfolding g(1) by (simp add: waiting_same)
    moreover have "h = ?g" if "h \<in> set (refreshes (put_refresh ?g db))" "row_id h = row_id f" for h
      using that g(1) by (simp only: in_put_refresh) blast
    then have "\<forall>h \<in> set (refreshes (put_refresh ?g db)). row_id h = row_id f \<longrightarrow>
        status h \<noteq> RUNNING \<and> claim_token_hash h = None \<and> job_token_hash h = None" using g by fastforce
    ultimately show ?thesis
      unfolding d using none g(3,4) by (intro conjI bexI [of _ ?g]) simp_all
  next
    case (Some q)
    note q = find_queued [OF Some]
    have other: "x = q" if "x \<in> set (refreshes db)" "queued_for (f_inventory_id f) x" for x
      using queued_same assms(1) q that by blast
    let ?g = "q\<lparr>f_scope := widen (f_scope q) (f_scope f), queued_at := min (queued_at q) (queued_at f)\<rparr>"
    let ?f = "(unclaim f)\<lparr>status := CANCELLED,
      f_error := Some (''merged into refresh #'' @ show_int (row_id q) @ '' while waiting for '' @ label), finished_at := Some now\<rparr>"
    let ?d1 = "put_refresh ?g db"
    let ?d2 = "?d1\<lparr>runs := update_rows (\<lambda>r. waiting_refresh_id r = Some (row_id f))
      (\<lambda>r. r\<lparr>waiting_refresh_id := Some (row_id q)\<rparr>) (runs ?d1)\<rparr>"
    have d: "requeue_refresh now f label db = put_refresh ?f ?d2"
      using Some by (simp add: requeue_refresh_def)
    have fid: "row_id ?f = row_id f" "status ?f = CANCELLED" "claim_token_hash ?f = None" "job_token_hash ?f = None"
      by (simp_all add: unclaim_def)
    have ne: "row_id q \<noteq> row_id f"
      using q assms unfolding refresh_index_def unique_ids_def queued_for_def
      by (metis get_row_unique option.inject run_status.distinct(1))
    have "refresh_index ?d1"
      by (rule put_refresh_index [OF assms(1)]) (use other q(2) in \<open>force simp: queued_for_def\<close>)
    then have "refresh_index ?d2" by (simp add: refresh_index_def one_queued_def)
    then have "refresh_index (put_refresh ?f ?d2)" by (rule put_refresh_index) (use fid in simp)
    moreover have "?g \<in> set (refreshes (put_refresh ?f ?d2))"
    proof -
      have "?g \<in> set (refreshes ?d1)" using q(1) by (simp add: in_put_refresh)
      then have "?g \<in> set (refreshes ?d2)" by simp
      moreover have "row_id ?g \<noteq> row_id ?f" using ne fid(1) by simp
      ultimately show ?thesis unfolding in_put_refresh by blast
    qed
    moreover have "queued_for (f_inventory_id f) ?g" using q(2) by (simp add: queued_for_def)
    moreover have "h = ?f" if "h \<in> set (refreshes (put_refresh ?f ?d2))" "row_id h = row_id f" for h
      using that fid(1) by (simp only: in_put_refresh) blast
    then have "\<forall>h \<in> set (refreshes (put_refresh ?f ?d2)). row_id h = row_id f \<longrightarrow>
        status h \<noteq> RUNNING \<and> claim_token_hash h = None \<and> job_token_hash h = None"
      using fid by (metis run_status.distinct)
    moreover have "\<forall>r \<in> set (runs db). waiting_refresh_id r = Some (row_id f) \<longrightarrow>
        r\<lparr>waiting_refresh_id := Some (row_id ?g)\<rparr> \<in> set (runs (put_refresh ?f ?d2))"
      by (simp add: update_rows_waiting)
    moreover have "row_id ?g = row_id x \<and> covers (f_scope ?g) (f_scope x) \<and> queued_at ?g \<le> queued_at x"
      if "x \<in> set (refreshes db)" "queued_for (f_inventory_id f) x" for x
      using other [OF that] by simp
    moreover have "covers (f_scope ?g) (f_scope f) \<and> queued_at ?g \<le> queued_at f" by simp
    ultimately show ?thesis unfolding d by blast
  qed
qed

theorem requeue_refresh_keeps_witness:
  "\<exists>g \<in> set (refreshes (requeue_refresh 100 (sample_refresh 3 RUNNING) ''Vault'' refresh_db)).
     queued_for 2 g \<and> covers (f_scope g) (Some [3]) \<and> covers (f_scope g) (Some [7]) \<and> queued_at g \<le> 30"
proof -
  have f: "sample_refresh 3 RUNNING \<in> set (refreshes refresh_db)" "status (sample_refresh 3 RUNNING) = RUNNING"
    "f_inventory_id (sample_refresh 3 RUNNING) = 2" "f_scope (sample_refresh 3 RUNNING) = Some [3]"
    "queued_at (sample_refresh 3 RUNNING) = 30"
    and q: "sample_refresh 7 QUEUED \<in> set (refreshes refresh_db)" "queued_for 2 (sample_refresh 7 QUEUED)"
    "f_scope (sample_refresh 7 QUEUED) = Some [7]"
    by (simp_all add: refresh_db_def sample_refresh_def queued_for_def)
  show ?thesis
    using requeue_refresh_keeps [OF refresh_db_index f(1,2), of 100 "''Vault''"] unfolding f(3-5)
    by (metis q)
qed

section \<open>The runs that wait\<close>

text \<open>What becomes of a run that waited: the snapshot, its target group in it, or failed.\<close>

definition released :: "snapshot option \<Rightarrow> run \<Rightarrow> run \<Rightarrow> bool" where
  "released snap r r' =
     (case snap of
        None \<Rightarrow> status r' = FAILED \<and> claim_token_hash r' = None
      | Some s \<Rightarrow>
          (case merge (case inventory_static r of None \<Rightarrow> \<lparr>st_hosts = [], st_groups = []\<rparr> | Some st \<Rightarrow> st) (Some (sn_data s)) of
             Inl x \<Rightarrow> False
           | Inr g \<Rightarrow>
               if group_name r = None \<or> the (group_name r) \<in> fst ` set (gr_groups g)
               then r' = r\<lparr>inventory_snapshot_id := Some (sn_id s), inventory_snapshot_at := Some (sn_created_at s),
                           inventory_snapshot_hosts := Some (sn_host_count s)\<rparr>
               else status r' = FAILED \<and> claim_token_hash r' = None))"

lemma release_run_released:
  assumes "release_run e now clock st error snap r db = Inr db'"
  shows "\<exists>r'. runs db' = runs (put_run r' db) \<and> row_id r' = row_id r \<and> released snap r r'"
proof (cases snap)
  case None
  with assms fail_run_runs show ?thesis
    by (fastforce simp: release_run_def released_def Let_def)
next
  case (Some s)
  let ?m = "merge (case inventory_static r of None \<Rightarrow> \<lparr>st_hosts = [], st_groups = []\<rparr> | Some st \<Rightarrow> st) (Some (sn_data s))"
  obtain g where g: "?m = Inr g" using assms Some by (auto simp: release_run_def res_bind_Inr_iff)
  show ?thesis
  proof (cases "group_name r = None \<or> the (group_name r) \<in> fst ` set (gr_groups g)")
    case True
    then have ok: "\<not> (group_name r \<noteq> None \<and> the (group_name r) \<notin> fst ` set (gr_groups g))"
      by (simp only: de_Morgan_conj not_not)
    then have "db' = put_run (r\<lparr>inventory_snapshot_id := Some (sn_id s), inventory_snapshot_at := Some (sn_created_at s),
                           inventory_snapshot_hosts := Some (sn_host_count s)\<rparr>) db"
      using assms unfolding release_run_def Some option.case g res_bind.simps if_not_P [OF ok] by simp
    with True Some g show ?thesis
      by (intro exI [of _ "r\<lparr>inventory_snapshot_id := Some (sn_id s), inventory_snapshot_at := Some (sn_created_at s),
                           inventory_snapshot_hosts := Some (sn_host_count s)\<rparr>"])
        (simp add: released_def)
  next
    case False
    then have bad: "group_name r \<noteq> None \<and> the (group_name r) \<notin> fst ` set (gr_groups g)"
      by (metis (no_types))
    obtain reason where "db' = fail_run e now clock FAILED reason r db"
      using assms unfolding release_run_def Some option.case g res_bind.simps if_P [OF bad] by (metis Inr_inject)
    moreover have "released (Some s) r r'" if "status r' = FAILED" "claim_token_hash r' = None" for r'
      unfolding released_def option.case g sum.case if_not_P [OF False] using that by simp
    ultimately show ?thesis
      using Some fail_run_runs [of e now clock FAILED reason r db] by blast
  qed
qed

lemma release_runs_released:
  assumes "release_runs e now clock st error snap rs db = Inr db'" and "distinct (map row_id rs)"
    and "\<forall>r \<in> set rs. get_run db (row_id r) \<noteq> None"
  shows "(\<forall>r \<in> set rs. \<exists>r'. get_run db' (row_id r) = Some r' \<and> released snap r r') \<and>
    (\<forall>i. i \<notin> row_id ` set rs \<longrightarrow> get_run db' i = get_run db i)"
  using assms
proof (induction rs arbitrary: db)
  case (Cons r rs)
  obtain db1 where one: "release_run e now clock st error snap r db = Inr db1"
    and rest: "release_runs e now clock st error snap rs db1 = Inr db'"
    using Cons.prems(1) by (auto simp: res_bind_Inr_iff)
  obtain r' where r': "runs db1 = runs (put_run r' db)" "row_id r' = row_id r" "released snap r r'"
    using release_run_released [OF one] by blast
  have get: "get_run db1 i = (if i = row_id r then map_option (\<lambda>_. r') (get_run db i) else get_run db i)" for i
    using get_put_run [of r' db i] get_run_of_runs [OF r'(1), of i] r'(2) by simp
  have "\<forall>x \<in> set rs. get_run db1 (row_id x) \<noteq> None" using Cons.prems(3) by (simp add: get)
  from Cons.IH [OF rest _ this] Cons.prems(2,3) get r'(3) show ?case by auto
qed simp

lemma refresh_alert_frame [simp]:
  "runs (inventory_refresh_ok now iv db) = runs db" "runs (fst (inventory_refresh_failed now iv text db)) = runs db"
  "refreshes (inventory_refresh_ok now iv db) = refreshes db"
  "refreshes (fst (inventory_refresh_failed now iv text db)) = refreshes db"
  "lints (inventory_refresh_ok now iv db) = lints db" "lints (fst (inventory_refresh_failed now iv text db)) = lints db"
  "scans (inventory_refresh_ok now iv db) = scans db" "scans (fst (inventory_refresh_failed now iv text db)) = scans db"
  "installs (inventory_refresh_ok now iv db) = installs db"
  "installs (fst (inventory_refresh_failed now iv text db)) = installs db"
  by (simp_all add: inventory_refresh_ok_def inventory_refresh_failed_def Let_def case_prod_unfold raise_alert_def)

lemma end_refresh_runs:
  assumes "end_refresh e now clock f st error db = Inr (db', ev)"
  shows "\<exists>f1 db1. row_id f1 = row_id f \<and> f_snapshot_id f1 = f_snapshot_id f \<and>
    release_waiting_runs e now clock f1 st error (put_refresh f1 db) = Inr db1 \<and> runs db' = runs db1"
proof -
  let ?f1 = "f\<lparr>status := st, f_error := error_column error, finished_at := Some now,
                 lease_expires_at := None, claim_token_hash := None, job_token_hash := None\<rparr>"
  obtain db1 where db1: "release_waiting_runs e now clock ?f1 st error (put_refresh ?f1 db) = Inr db1"
    using assms by (auto simp: end_refresh_def res_bind_Inr_iff Let_def)
  have "runs db' = runs db1"
    using assms db1 by (auto simp: end_refresh_def Let_def case_prod_unfold split: option.splits if_splits)
  with db1 show ?thesis by (intro exI [of _ ?f1] exI [of _ db1]) simp
qed

text \<open>Ending a refresh that failed never raises.\<close>

lemma release_runs_none: "\<exists>db'. release_runs e now clock st error None rs db = Inr db'"
  by (induction rs arbitrary: db) (auto simp: release_run_def Let_def)

lemma end_refresh_failed_total:
  assumes "st \<noteq> SUCCESS"
  shows "\<exists>db' ev. end_refresh e now clock f st error db = Inr (db', ev)"
proof -
  let ?f1 = "f\<lparr>status := st, f_error := error_column error, finished_at := Some now,
                 lease_expires_at := None, claim_token_hash := None, job_token_hash := None\<rparr>"
  obtain db1 where "release_waiting_runs e now clock ?f1 st error (put_refresh ?f1 db) = Inr db1"
    using release_runs_none assms unfolding release_waiting_runs_def by (simp only: if_False) blast
  with assms show ?thesis by (simp add: end_refresh_def Let_def case_prod_unfold split: option.split)
qed

text \<open>
  C36. When a refresh ends, every run that waited for it is settled in the same transaction: after a
  success with a snapshot it is pinned to that snapshot (its target group checked in the merged
  inventory), otherwise it has failed and holds no claim. No other run is touched.
\<close>

theorem end_refresh_releases:
  assumes "unique_ids (runs db)" and "end_refresh e now clock f st error db = Inr (db', ev)"
    and "r \<in> set (runs db)"
  shows "\<exists>r'. get_run db' (row_id r) = Some r' \<and>
    (if waiting_for (row_id f) r
     then released (if st = SUCCESS then Option.bind (f_snapshot_id f) (get_row sn_id (snapshots db)) else None) r r'
     else r' = r)"
proof -
  obtain f1 db1 where f1: "row_id f1 = row_id f" "f_snapshot_id f1 = f_snapshot_id f"
    and rel: "release_waiting_runs e now clock f1 st error (put_refresh f1 db) = Inr db1" and same: "runs db' = runs db1"
    using end_refresh_runs [OF assms(2)] by blast
  let ?rs = "sort_key row_id (filter (waiting_for (row_id f)) (runs db))"
  have get: "get_run (put_refresh f1 db) i = get_run db i" for i by (rule get_run_of_runs) simp
  have here: "get_run db (row_id x) = Some x" if "x \<in> set (runs db)" for x
    using get_row_unique assms(1) that by (auto simp: get_run_def unique_ids_def)
  have d: "distinct (map row_id ?rs)"
    using assms(1) by (simp add: unique_ids_def distinct_map inj_on_def)
  note out = release_runs_released [OF rel [unfolded release_waiting_runs_def f1 put_refresh_frame] d]
  have "\<forall>x \<in> set ?rs. get_run (put_refresh f1 db) (row_id x) \<noteq> None" using here by (simp add: get)
  note out = out [OF this]
  have "row_id r \<notin> row_id ` set ?rs" if "\<not> waiting_for (row_id f) r"
    using that assms(3) here by auto (metis option.inject)
  then have other: "\<not> waiting_for (row_id f) r \<Longrightarrow> get_run db1 (row_id r) = Some r"
    using out here [OF assms(3)] get by presburger
  have mine: "waiting_for (row_id f) r \<Longrightarrow> r \<in> set ?rs" using assms(3) by simp
  show ?thesis
  proof (cases "waiting_for (row_id f) r")
    case True
    then show ?thesis using bspec [OF conjunct1 [OF out] mine] by (simp add: get_run_of_runs [OF same])
  qed (use other in \<open>simp add: get_run_of_runs [OF same]\<close>)
qed

theorem end_refresh_releases_witness:
  "\<exists>r'. get_run (case end_refresh sample_env 100 ''t'' (sample_refresh 3 RUNNING) FAILED (Some ''boom'') refresh_db of
       Inr (db', ev) \<Rightarrow> db' | Inl x \<Rightarrow> refresh_db) 9 = Some r' \<and> status r' = FAILED"
proof -
  let ?r = "(sample_run 9 20)\<lparr>waiting_refresh_id := Some 3\<rparr>"
  have r: "?r \<in> set (runs refresh_db)" "unique_ids (runs refresh_db)" "row_id ?r = 9"
    "waiting_for (row_id (sample_refresh 3 RUNNING)) ?r"
    by (simp_all add: refresh_sample_defs unique_ids_def waiting_for_def)
  obtain db' ev where e: "end_refresh sample_env 100 ''t'' (sample_refresh 3 RUNNING) FAILED (Some ''boom'') refresh_db = Inr (db', ev)"
    using end_refresh_failed_total [of FAILED sample_env 100 "''t''" "sample_refresh 3 RUNNING" "Some ''boom''" refresh_db]
    by auto
  from end_refresh_releases [OF r(2) e r(1)] r(3,4) show ?thesis by (auto simp: e released_def)
qed

section \<open>Pruning\<close>

text \<open>In a set of ids where every one has fewer than \<open>k\<close> larger ones, there are at most \<open>k\<close>.\<close>

lemma few_larger:
  fixes xs :: "int list"
  assumes "distinct xs" and "\<And>x. x \<in> set xs \<Longrightarrow> length (filter (\<lambda>y. x < y) xs) < k"
  shows "length xs \<le> k"
proof (cases xs)
  case (Cons a ys)
  define m where "m = Min (set xs)"
  have m: "m \<in> set xs" "\<And>y. y \<in> set xs \<Longrightarrow> m \<le> y"
    using Cons Min_in [of "set xs"] by (auto simp: m_def)
  have "filter (\<lambda>y. \<not> m < y) xs = filter (\<lambda>y. y = m) xs" using m(2) by (intro filter_cong) fastforce+
  moreover have "length (filter (\<lambda>y. y = m) xs) \<le> 1"
    using assms(1) by (induction xs) (auto simp: filter_empty_conv)
  moreover have "length xs = length (filter (\<lambda>y. m < y) xs) + length (filter (\<lambda>y. \<not> m < y) xs)"
    by (rule sum_length_filter_compl [symmetric])
  ultimately show ?thesis using assms(2) [OF m(1)] by simp
qed simp

definition pinned :: "database \<Rightarrow> snapshot \<Rightarrow> bool" where
  "pinned db s = (\<exists>r \<in> set (runs db). is_active_status (status r) \<and> inventory_snapshot_id r = Some (sn_id s))"

lemma prune_snapshots_rows:
  assumes "distinct (map sn_id (snapshots db))"
  shows "snapshots (fst (prune_snapshots db)) = filter (\<lambda>s. \<not> snapshot_doomed db s) (snapshots db)"
proof -
  let ?doomed = "map sn_id (filter (snapshot_doomed db) (snapshots db))"
  have "sn_id s \<in> set ?doomed \<longleftrightarrow> snapshot_doomed db s" if "s \<in> set (snapshots db)" for s
    using assms that by (auto dest: inj_onD [OF inj_on_subset [OF _ subset_refl]] simp: distinct_map inj_on_def)
  then have "delete_rows (\<lambda>s. sn_id s \<in> set ?doomed) (snapshots db) = filter (\<lambda>s. \<not> snapshot_doomed db s) (snapshots db)"
    unfolding delete_rows_def by (intro filter_cong) auto
  moreover have "filter (\<lambda>s. \<not> snapshot_doomed db s) (snapshots db) = snapshots db" if "?doomed = []"
    using that by (simp add: filter_id_conv filter_empty_conv)
  ultimately show ?thesis by (simp add: prune_snapshots_def Let_def)
qed

lemma prune_snapshots_bound:
  assumes "distinct (map sn_id (snapshots db))"
  shows "length (filter (\<lambda>s. sn_inventory_id s = iid \<and> sn_superseded_at s \<noteq> None \<and> \<not> pinned db s)
    (snapshots (fst (prune_snapshots db)))) \<le> KEEP_SNAPSHOTS - 1"
proof -
  let ?P = "\<lambda>s. sn_inventory_id s = iid \<and> sn_superseded_at s \<noteq> None \<and> \<not> pinned db s"
  let ?L = "filter (\<lambda>s. ?P s \<and> \<not> snapshot_doomed db s) (snapshots db)"
  have "length (map sn_id ?L) \<le> KEEP_SNAPSHOTS - 1"
  proof (rule few_larger)
    show "distinct (map sn_id ?L)" using assms by (rule distinct_map_filter)
    fix x assume "x \<in> set (map sn_id ?L)"
    then obtain s where s: "s \<in> set ?L" "x = sn_id s" by auto
    let ?larger = "\<lambda>y. sn_superseded_at y \<noteq> None \<and> sn_inventory_id y = sn_inventory_id s \<and> sn_id y > sn_id s"
    have "length (filter (\<lambda>y. x < y) (map sn_id ?L)) = length (filter (\<lambda>y. x < sn_id y) ?L)"
      by (simp add: filter_map o_def)
    also have "\<dots> = length (filter (\<lambda>y. x < sn_id y \<and> ?P y \<and> \<not> snapshot_doomed db y) (snapshots db))"
      by (simp add: conj_ac)
    also have "\<dots> \<le> length (filter ?larger (snapshots db))"
      by (rule length_filter_mono) (use s in auto)
    also have "Suc \<dots> = superseded_rank db s" by (simp add: superseded_rank_def)
    finally show "length (filter (\<lambda>y. x < y) (map sn_id ?L)) < KEEP_SNAPSHOTS - 1"
      using s(1) by (auto simp: snapshot_doomed_def pinned_def KEEP_SNAPSHOTS_def superseded_rank_def)
  qed
  then show ?thesis by (simp add: prune_snapshots_rows [OF assms] conj_ac)
qed

text \<open>
  Pruning never deletes a snapshot in use: not an inventory's current one, not one that a
  queued or running run is pinned to, not one of the four newest superseded ones; and it bounds what
  is kept: at most four superseded snapshots per inventory that no such run needs. A refresh never
  refers to a snapshot that was deleted, and a queued or running run stays as it is.
\<close>

theorem prune_snapshots_safe:
  assumes "distinct (map sn_id (snapshots db))"
  shows "case prune_snapshots db of (db', n) \<Rightarrow>
    (\<forall>s \<in> set (snapshots db).
       sn_superseded_at s = None \<or> pinned db s \<or> superseded_rank db s < KEEP_SNAPSHOTS \<longrightarrow> s \<in> set (snapshots db')) \<and>
    (\<forall>iid. length (filter (\<lambda>s. sn_inventory_id s = iid \<and> sn_superseded_at s \<noteq> None \<and> \<not> pinned db s)
       (snapshots db')) \<le> KEEP_SNAPSHOTS - 1) \<and>
    (\<forall>f \<in> set (refreshes db'). \<forall>i. f_snapshot_id f = Some i \<longrightarrow>
       i \<in> sn_id ` set (snapshots db) \<longrightarrow> i \<in> sn_id ` set (snapshots db')) \<and>
    (\<forall>r \<in> set (runs db). is_active_status (status r) \<longrightarrow> r \<in> set (runs db')) \<and>
    n + length (snapshots db') = length (snapshots db)"
proof -
  obtain db' n where p: "prune_snapshots db = (db', n)" by fastforce
  have rows: "snapshots db' = filter (\<lambda>s. \<not> snapshot_doomed db s) (snapshots db)"
    using prune_snapshots_rows [OF assms] p by simp
  have "\<forall>s \<in> set (snapshots db).
       sn_superseded_at s = None \<or> pinned db s \<or> superseded_rank db s < KEEP_SNAPSHOTS \<longrightarrow> s \<in> set (snapshots db')"
    by (auto simp: rows snapshot_doomed_def pinned_def)
  moreover have "i \<in> sn_id ` set (snapshots db')"
    if "f \<in> set (refreshes db')" "f_snapshot_id f = Some i" "i \<in> sn_id ` set (snapshots db)" for f i
  proof -
    from that(3) obtain s where s: "s \<in> set (snapshots db)" "i = sn_id s" by blast
    have "\<not> snapshot_doomed db s"
      using p that(1,2) s by (auto simp: prune_snapshots_def Let_def set_update_rows filter_empty_conv split: if_splits)
    then show ?thesis using s by (simp add: rows)
  qed
  moreover have "r \<in> set (runs db')" if "r \<in> set (runs db)" "is_active_status (status r)" for r
  proof -
    have "inventory_snapshot_id r \<noteq> Some (sn_id s)" if "snapshot_doomed db s" for s
      using that \<open>r \<in> set (runs db)\<close> \<open>is_active_status (status r)\<close> by (auto simp: snapshot_doomed_def)
    then have "\<not> (\<exists>i \<in> set (map sn_id (filter (snapshot_doomed db) (snapshots db))). inventory_snapshot_id r = Some i)"
      by auto
    then show ?thesis using p that(1)
      by (auto simp: prune_snapshots_def Let_def set_update_rows intro!: image_eqI [of _ _ r] split: if_splits)
  qed
  moreover have "n + length (snapshots db') = length (snapshots db)"
    using p sum_length_filter_compl [of "snapshot_doomed db" "snapshots db"] unfolding rows
    by (auto simp: prune_snapshots_def Let_def split: if_splits)
  moreover have "\<forall>iid. length (filter (\<lambda>s. sn_inventory_id s = iid \<and> sn_superseded_at s \<noteq> None \<and> \<not> pinned db s)
       (snapshots db')) \<le> KEEP_SNAPSHOTS - 1" using prune_snapshots_bound [OF assms] p by simp
  ultimately show ?thesis unfolding p by blast
qed

text \<open>Seven superseded snapshots of one inventory, the oldest pinned by a queued run.\<close>

definition sample_snapshot :: "key_id \<Rightarrow> snapshot" where
  "sample_snapshot i =
     \<lparr>sn_id = i, sn_inventory_id = 2, sn_refresh_id = None,
      sn_data = \<lparr>gr_vars = [], gr_hosts = [], gr_groups = [], sd_static_hosts = []\<rparr>, sn_host_count = 0,
      sn_group_count = 0, sn_warnings = [], sn_sources = [], sn_created_at = i, sn_superseded_at = Some i\<rparr>"

theorem prune_snapshots_safe_witness:
  "sample_snapshot 1 \<in> set (snapshots (fst (prune_snapshots
     (refresh_db\<lparr>snapshots := map sample_snapshot [1, 2, 3, 4, 5, 6, 7],
                 runs := [(sample_run 9 20)\<lparr>inventory_snapshot_id := Some 1\<rparr>]\<rparr>))))"
proof -
  let ?db = "refresh_db\<lparr>snapshots := map sample_snapshot [1, 2, 3, 4, 5, 6, 7],
                 runs := [(sample_run 9 20)\<lparr>inventory_snapshot_id := Some 1\<rparr>]\<rparr>"
  have "distinct (map sn_id (snapshots ?db))" by (simp add: sample_snapshot_def)
  moreover have "sample_snapshot 1 \<in> set (snapshots ?db)" "pinned ?db (sample_snapshot 1)"
    by (simp_all add: pinned_def sample_snapshot_def sample_defs is_active_status_def)
  ultimately show ?thesis
    using prune_snapshots_safe [of ?db] unfolding case_prod_beta by blast
qed

end
