(* ===== verification/Git_Sync.thy ===== *)
theory Git_Sync
  imports Refreshes Inventory_Files
begin

text \<open>
  Synchronising a git source, the rest of \<open>app/git_sync.py\<close>: the addresses git may connect to, finding
  playbooks in a commit, making its snapshot current, and pruning; with \<open>git_source_synced\<close> of
  \<open>app/inventory_sources.py\<close>. What git, ssh, tarfile and the YAML loader return is the record \<open>git_world\<close>;
  a command that fails, takes too long or prints too much is a \<open>SyncError\<close> of it.
\<close>

definition DEFAULT_GLOBS :: "string list" where
  "DEFAULT_GLOBS = [''*.yml'', ''*.yaml'', ''playbooks/*.yml'', ''playbooks/*.yaml'']"

definition MAX_PLAYBOOK_BYTES :: int where "MAX_PLAYBOOK_BYTES = 1024 * 1024"
definition MAX_ERROR_CHARS :: nat where "MAX_ERROR_CHARS = 1000"
definition PRUNE_AFTER_SECONDS :: int where "PRUNE_AFTER_SECONDS = 600"
definition MAX_VARS_FILE_BYTES :: int where "MAX_VARS_FILE_BYTES = 256 * 1024"
definition MAX_VARS_TOTAL_BYTES :: int where "MAX_VARS_TOTAL_BYTES = 4 * 1024 * 1024"

section \<open>The remote\<close>

definition destination ::
  "(string \<Rightarrow> int \<Rightarrow> address list option) \<Rightarrow> (address \<Rightarrow> string) \<Rightarrow> string list \<Rightarrow> remote \<Rightarrow> sync_failure + (string \<times> bool)" where
  "destination getaddrinfo addr_text allowlist r =
     (if rm_kind r = ''file'' then Inr ([], True)
      else case res_bind (case literal (rm_host r) of Some as \<Rightarrow> Inr as | None \<Rightarrow> resolve getaddrinfo (rm_host r) (rm_port r))
                  (\<lambda>as. vet addr_text (rm_host r) as allowlist ''GIT_ALLOWED_PRIVATE_HOSTS'') of
        Inl (DestinationError m retry) \<Rightarrow> Inl (SyncError m)
      | Inr (a, private) \<Rightarrow>
          if rm_kind r = ''http'' \<and> \<not> private then Inl (SyncError ''public git servers must use https:// or ssh'')
          else Inr (addr_text a, private))"

definition known_hosts_line :: "remote \<Rightarrow> string \<Rightarrow> string \<Rightarrow> string" where
  "known_hosts_line r key_type blob = host_key_alias r @ '' '' @ key_type @ '' '' @ blob"

definition pasted_line :: "remote \<Rightarrow> string \<Rightarrow> string option" where
  "pasted_line r raw =
     (case split_ws raw of
        names # key_type # blob # _ \<Rightarrow>
          if (case lstrip raw of [] \<Rightarrow> False | c # _ \<Rightarrow> c \<in> {CHR ''#'', CHR 0x40, CHR ''|''}) then None
          else if b64decode blob = None then None
          else let hosts = map lower (split_char (CHR '','') names) in
               if lower (host_key_alias r) \<in> set hosts \<or> rm_host r \<in> set hosts
               then Some (known_hosts_line r key_type blob) else None
      | _ \<Rightarrow> None)"

definition git_parse_known_hosts :: "remote \<Rightarrow> string \<Rightarrow> sync_failure + string" where
  "git_parse_known_hosts r pasted =
     (let kept = List.map_filter (pasted_line r) (splitlines pasted) in
      if kept = [] then Inl (SyncError (''no key for '' @ host_key_alias r @ '' in what was pasted''))
      else Inr (join [CHR 0x0A] kept @ [CHR 0x0A]))"

text \<open>What \<open>rev-parse\<close> prints must be a commit id.\<close>

definition commit_of :: "string \<Rightarrow> sync_failure + string" where
  "commit_of out =
     (let c = strip out in
      if length c \<in> {40, 64} \<and> list_all (\<lambda>x. is_digit x \<or> x \<in> set ''abcdef'') c then Inr c
      else Inl (SyncError ''unexpected commit id from git''))"

section \<open>The world outside\<close>

record git_world =
  gw_fetch :: "database \<Rightarrow> git_source \<Rightarrow> remote \<Rightarrow> string \<Rightarrow> sync_failure + string"
  gw_kind :: "string \<Rightarrow> string option \<Rightarrow> sync_failure + string"
  gw_listing :: "string \<Rightarrow> string option \<Rightarrow> sync_failure + string"
  gw_blobs :: "string list \<Rightarrow> sync_failure + (string \<Rightarrow> string)"
  gw_archive :: "string \<Rightarrow> string option \<Rightarrow> sync_failure + string"
  gw_info :: "string \<Rightarrow> sync_failure + unit"
  gw_yaml :: "string \<Rightarrow> val option"
  gw_utf8 :: "string \<Rightarrow> string option"
  gw_untar :: untar

section \<open>Playbooks in a commit\<close>

definition PLAY_KEYS :: "string list" where
  "PLAY_KEYS = [''hosts'', ''import_playbook'', ''ansible.builtin.import_playbook'']"

definition is_play :: "val \<Rightarrow> bool" where
  "is_play v = (case v of VDict d \<Rightarrow> list_ex (\<lambda>(k, _). snd k \<in> set PLAY_KEYS) d | _ \<Rightarrow> False)"

text \<open>The text of a file that is a playbook.\<close>

definition is_playbook :: "git_world \<Rightarrow> string \<Rightarrow> string option" where
  "is_playbook w content =
     (case gw_utf8 w content of
        None \<Rightarrow> None
      | Some t \<Rightarrow>
          (case gw_yaml w t of
             Some (VList ps) \<Rightarrow> if ps \<noteq> [] \<and> list_all is_play ps then Some t else None
           | _ \<Rightarrow> None))"

definition playbook_candidates :: "tree \<Rightarrow> string list \<Rightarrow> string list" where
  "playbook_candidates tr globs =
     sort (map fst (filter (\<lambda>(path, _, n). list_ex (glob_match path) globs \<and> n \<le> MAX_PLAYBOOK_BYTES) (tr_files tr)))"

definition discover_playbooks ::
  "env \<Rightarrow> git_world \<Rightarrow> tree \<Rightarrow> string list \<Rightarrow> sync_failure + ((string \<times> string) list \<times> string list)" where
  "discover_playbooks e w tr globs =
     (let found = playbook_candidates tr globs;
          limit = git_max_playbooks e;
          (paths, w0) = (if int (length found) > limit
             then (take (nat limit) found,
                   [''only the first '' @ show_int limit @ '' of '' @ show_nat (length found) @ '' matching files were read''])
             else (found, []));
          oid = (\<lambda>p. fst (the (map_of (tr_files tr) p))) in
      res_bind (gw_blobs w (map oid paths)) (\<lambda>content.
        Inr (List.map_filter (\<lambda>p. if length p > 255 then None else map_option (Pair p) (is_playbook w (content (oid p)))) paths,
             w0 @ map (\<lambda>p. take 60 p @ ellipsis @ '' is skipped: the path is longer than 255 characters'')
                    (filter (\<lambda>p. length p > 255) paths))))"

section \<open>A new commit\<close>

definition set_git_source :: "key_id \<Rightarrow> (git_source \<Rightarrow> git_source) \<Rightarrow> database \<Rightarrow> database" where
  "set_git_source i f db = db\<lparr>git_sources := update_rows (\<lambda>g. gs_id g = i) f (git_sources db)\<rparr>"

record sync_changes =
  sc_added :: "string list"
  sc_revived :: "string list"
  sc_removed :: "string list"

text \<open>The source's playbooks by their path, a dictionary.\<close>

definition existing_playbooks :: "key_id \<Rightarrow> database \<Rightarrow> (string \<times> playbook) list" where
  "existing_playbooks sid db =
     fold (\<lambda>p. dict_set (the (pb_repo_path p)) p) (filter (\<lambda>p. pb_source_id p = Some sid \<and> pb_repo_path p \<noteq> None) (playbooks db)) []"

text \<open>One file found in the commit: its playbook is added, comes back, or is rewritten.\<close>

definition apply_found ::
  "time \<Rightarrow> git_source \<Rightarrow> bool \<Rightarrow> (string \<times> playbook) list \<Rightarrow> string \<times> string \<Rightarrow> database \<times> sync_changes \<Rightarrow> database \<times> sync_changes" where
  "apply_found now src changed existing = (\<lambda>(path, content) (db, ch).
     case map_of existing path of
       None \<Rightarrow>
         let i = next_playbook_id db in
         (db\<lparr>playbooks := playbooks db @ [\<lparr>pb_id = i, pb_name = path, pb_project_id = gs_project_id src, pb_updated_at = now,
               pb_source_id = Some (gs_id src), pb_repo_path = Some path, pb_missing_at = None\<rparr>],
             next_playbook_id := i + 1, playbook_files := (playbook_files db)(i \<mapsto> content)\<rparr>,
          ch\<lparr>sc_added := sc_added ch @ [path]\<rparr>)
     | Some p \<Rightarrow>
         let write = (\<lambda>db. db\<lparr>playbooks := update_rows (\<lambda>x. pb_id x = pb_id p) (\<lambda>x. x\<lparr>pb_missing_at := None, pb_updated_at := now\<rparr>) (playbooks db),
                              playbook_files := (playbook_files db)(pb_id p \<mapsto> content)\<rparr>) in
         if pb_missing_at p \<noteq> None then (write db, ch\<lparr>sc_revived := sc_revived ch @ [path]\<rparr>)
         else if changed then (write db, ch) else (db, ch))"

definition gone_playbook :: "(string \<times> string) list \<Rightarrow> string \<times> playbook \<Rightarrow> bool" where
  "gone_playbook found = (\<lambda>(path, p). path \<notin> fst ` set found \<and> pb_missing_at p = None)"

definition mark_missing :: "time \<Rightarrow> playbook \<Rightarrow> database \<Rightarrow> database" where
  "mark_missing now p db =
     db\<lparr>playbooks := update_rows (\<lambda>x. pb_id x = pb_id p) (\<lambda>x. x\<lparr>pb_missing_at := Some now, pb_updated_at := now\<rparr>) (playbooks db)\<rparr>"

text \<open>The process's clock, which \<open>datetime.now\<close> reads, is taken to be the database's.\<close>

definition apply_snapshot ::
  "time \<Rightarrow> git_source \<Rightarrow> git_snapshot \<Rightarrow> (string \<times> string) list \<Rightarrow> database \<Rightarrow> database \<times> sync_changes" where
  "apply_snapshot now src s found db =
     (let changed = (gs_current_snapshot_id src \<noteq> Some (gt_id s));
          db1 = (case gs_current_snapshot_id src of
                   Some old \<Rightarrow>
                     if old \<noteq> gt_id s
                     then db\<lparr>git_snapshots := update_rows (\<lambda>x. gt_id x = old) (\<lambda>x. x\<lparr>gt_superseded_at := Some now\<rparr>) (git_snapshots db)\<rparr>
                     else db
                 | None \<Rightarrow> db);
          db2 = set_git_source (gs_id src) (\<lambda>g. g\<lparr>gs_current_snapshot_id := Some (gt_id s)\<rparr>) db1;
          existing = existing_playbooks (gs_id src) db2;
          (db3, ch) = fold (apply_found now src changed existing) found
                        (db2, \<lparr>sc_added = [], sc_revived = [], sc_removed = []\<rparr>);
          gone = filter (gone_playbook found) existing
      in (fold (mark_missing now) (map snd gone) db3, ch\<lparr>sc_removed := map fst gone\<rparr>))"

section \<open>Inventories read from the source\<close>

text \<open>
  One inventory source of the git source: its digest in the new commit and in the old one, and whether
  it is to be refreshed. A file missing from the new commit is noted; any other exception is not
  caught.
\<close>

definition source_moved ::
  "env \<Rightarrow> git_world \<Rightarrow> time \<Rightarrow> git_snapshot option \<Rightarrow> git_snapshot \<Rightarrow> inventory_source \<Rightarrow> database \<Rightarrow>
   file_failure + (database \<times> bool)" where
  "source_moved e w now before after src db =
     (let read = git_reader e (gw_untar w) (gw_utf8 w) src db;
          old = (case before of None \<Rightarrow> None
                 | Some b \<Rightarrow> (case read b of Inr found \<Rightarrow> Some (fs_digest found) | Inl _ \<Rightarrow> None)) in
      case read after of
        Inr found \<Rightarrow>
          Inr (set_source (src_id src) (\<lambda>x. x\<lparr>src_missing_at := None\<rparr>) db, old \<noteq> Some (fs_digest found))
      | Inl (InventoryFileError m) \<Rightarrow>
          Inr (if src_missing_at src = None then set_source (src_id src) (\<lambda>x. x\<lparr>src_missing_at := Some now\<rparr>) db else db, True)
      | Inl File_other \<Rightarrow> Inl File_other)"

fun moved_sources ::
  "env \<Rightarrow> git_world \<Rightarrow> time \<Rightarrow> git_snapshot option \<Rightarrow> git_snapshot \<Rightarrow> inventory_source list \<Rightarrow>
   (key_id \<times> key_id list) list \<Rightarrow> database \<Rightarrow> file_failure + (database \<times> (key_id \<times> key_id list) list)" where
  "moved_sources e w now before after [] due db = Inr (db, due)"
| "moved_sources e w now before after (src # ss) due db =
     res_bind (source_moved e w now before after src db) (\<lambda>(db1, moved).
       moved_sources e w now before after ss
         (if moved
          then dict_set (src_inventory_id src)
                 ((case map_of due (src_inventory_id src) of None \<Rightarrow> [] | Some ids \<Rightarrow> ids) @ [src_id src]) due
          else due) db1)"

fun enqueue_moved ::
  "env \<Rightarrow> time \<Rightarrow> (database \<Rightarrow> database) \<Rightarrow> (key_id \<times> key_id list) list \<Rightarrow> database \<Rightarrow> file_failure + database" where
  "enqueue_moved e now mid [] db = Inr db"
| "enqueue_moved e now mid ((iid, ids) # due) db =
     (case get_row i_id (inventories db) iid of
        None \<Rightarrow> Inl File_other
      | Some iv \<Rightarrow> enqueue_moved e now mid due (fst (enqueue_refresh e now mid iv ''git_sync'' None (Some ids) db)))"

definition git_file_sources :: "key_id \<Rightarrow> database \<Rightarrow> inventory_source list" where
  "git_file_sources sid db =
     filter (\<lambda>s. src_git_source_id s = Some sid \<and> src_kind s \<in> {''git_file'', ''git_script''} \<and> src_enabled s) (sources db)"

definition git_source_synced ::
  "env \<Rightarrow> git_world \<Rightarrow> time \<Rightarrow> (database \<Rightarrow> database) \<Rightarrow> key_id \<Rightarrow> git_snapshot option \<Rightarrow> git_snapshot \<Rightarrow>
   database \<Rightarrow> file_failure + database" where
  "git_source_synced e w now mid sid before after db =
     res_bind (moved_sources e w now before after (git_file_sources sid db) [] db)
       (\<lambda>(db1, due). enqueue_moved e now mid due db1)"

section \<open>A sync\<close>

text \<open>
  What is found out before the source's row is locked. \<open>mid\<close> is what others commit while git fetches. The
  tar is written to disk here, whatever happens later; the snapshot's row is only prepared (\<open>sp_new\<close>: to
  be inserted).
\<close>

record sync_plan =
  sp_snapshot :: git_snapshot
  sp_new :: bool
  sp_found :: "(string \<times> string) list"

definition write_tar :: "key_id \<Rightarrow> string \<Rightarrow> string \<Rightarrow> database \<Rightarrow> database" where
  "write_tar sid commit tar db = db\<lparr>snapshot_tars := (snapshot_tars db)((sid, commit) \<mapsto> tar)\<rparr>"

definition source_globs :: "git_source \<Rightarrow> string list" where
  "source_globs src = (if gs_playbook_globs src = [] then DEFAULT_GLOBS else gs_playbook_globs src)"

text \<open>The snapshot of a commit that was fetched and found good.\<close>

definition plan_snapshot ::
  "env \<Rightarrow> git_world \<Rightarrow> time \<Rightarrow> git_source \<Rightarrow> string \<Rightarrow> string option \<Rightarrow> tree \<Rightarrow> (string \<times> string) list \<Rightarrow> string list \<Rightarrow>
   database \<Rightarrow> database \<times> (sync_failure + sync_plan)" where
  "plan_snapshot e w now src commit subdir tr found warnings db =
     (case find (\<lambda>s. gt_source_id s = gs_id src \<and> gt_commit s = commit) (git_snapshots db) of
        Some s \<Rightarrow>
          if snapshot_tars db (gs_id src, commit) \<noteq> None
          then (db, Inr \<lparr>sp_snapshot = s\<lparr>gt_superseded_at := None\<rparr>, sp_new = False, sp_found = found\<rparr>)
          else (case gw_archive w commit subdir of
                  Inl f \<Rightarrow> (db, Inl f)
                | Inr tar \<Rightarrow>
                    (write_tar (gs_id src) commit tar db,
                     Inr \<lparr>sp_snapshot = s\<lparr>gt_sha256 := sha256_hex e tar, gt_size_bytes := int (length tar), gt_superseded_at := None\<rparr>,
                          sp_new = False, sp_found = found\<rparr>))
      | None \<Rightarrow>
          (case gw_archive w commit subdir of
             Inl f \<Rightarrow> (db, Inl f)
           | Inr tar \<Rightarrow>
               (write_tar (gs_id src) commit tar db,
                res_bind (gw_info w commit) (\<lambda>_. Inr
                  \<lparr>sp_snapshot = \<lparr>gt_id = next_git_snapshot_id db, gt_source_id = gs_id src, gt_commit = commit,
                     gt_size_bytes = int (length tar), gt_file_count = tr_file_count tr, gt_sha256 = sha256_hex e tar,
                     gt_warnings = tr_warnings tr @ warnings, gt_created_at = now, gt_superseded_at = None\<rparr>,
                   sp_new = True, sp_found = found\<rparr>))))"

definition plan_sync ::
  "env \<Rightarrow> git_world \<Rightarrow> time \<Rightarrow> (database \<Rightarrow> database) \<Rightarrow> git_source \<Rightarrow> database \<Rightarrow> database \<times> (sync_failure + sync_plan)" where
  "plan_sync e w now mid src db =
     (let checked =
        res_bind (parse_url (git_allow_local_sources e) (gs_url src)) (\<lambda>r.
          if rm_kind r = ''ssh'' \<and> \<not> nonempty (gs_ssh_known_hosts src)
          then Inl (SyncError (''trust the server'' @ [CHR 0x27] @ ''s SSH host key first (Test connection)''))
          else res_bind (check_branch (gs_branch src)) (\<lambda>branch.
               res_bind (check_subdir (gs_subdir src)) (\<lambda>subdir. Inr (r, branch, subdir)))) in
      case checked of
        Inl f \<Rightarrow> (db, Inl f)
      | Inr (r, branch, subdir) \<Rightarrow>
          (case res_bind (gw_fetch w db src r branch) commit_of of
             Inl f \<Rightarrow> (mid db, Inl f)
           | Inr commit \<Rightarrow>
               (case inspect_tree e subdir (gw_kind w commit subdir) (gw_listing w commit subdir) (gw_blobs w) of
                  Inl f \<Rightarrow> (mid db, Inl f)
                | Inr tr \<Rightarrow>
                    (case discover_playbooks e w tr (source_globs src) of
                       Inl f \<Rightarrow> (mid db, Inl f)
                     | Inr (found, warnings) \<Rightarrow> plan_snapshot e w now src commit subdir tr found warnings (mid db)))))"

definition sync_message :: "sync_failure \<Rightarrow> string" where
  "sync_message f = (case f of SyncError m \<Rightarrow> m | Sync_other \<Rightarrow> ''unexpected error (see the server log)'')"

definition sync_audit :: "git_source \<Rightarrow> string \<Rightarrow> audit_args" where
  "sync_audit src action =
     (audit_call action)\<lparr>au_actor_username := Some ''(git sync)'', au_target_type := Some ''git_source'',
        au_target_id := Some (gs_id src), au_target_name := Some (gs_name src), au_project_id := Some (gs_project_id src)\<rparr>"

definition sync_failed :: "time \<Rightarrow> key_id \<Rightarrow> string \<Rightarrow> string option \<Rightarrow> database \<Rightarrow> database" where
  "sync_failed now sid message previous_status db =
     (case get_row gs_id (git_sources db) sid of
        None \<Rightarrow> db
      | Some src \<Rightarrow>
          let db1 = set_git_source sid (\<lambda>g. g\<lparr>gs_last_sync_status := Some ''failed'',
                      gs_last_sync_error := Some (take MAX_ERROR_CHARS message), gs_last_sync_finished_at := Some now\<rparr>) db;
              mismatch = (contains (lower message) ''host key'' \<and> contains (lower message) ''verification failed'') in
          if previous_status = Some ''failed'' then db1
          else audit_record now
                 ((sync_audit src (if mismatch then ''git_source.host_key_mismatch'' else ''git_source.sync''))
                    \<lparr>au_outcome := ''failure'',
                     au_detail := Some [(vkey ''reason'', Str (if mismatch then ''host key'' else ''sync failed''))]\<rparr>) db1)"

definition flush_snapshot :: "sync_plan \<Rightarrow> database \<Rightarrow> database" where
  "flush_snapshot plan db =
     (if sp_new plan
      then db\<lparr>git_snapshots := git_snapshots db @ [sp_snapshot plan], next_git_snapshot_id := next_git_snapshot_id db + 1\<rparr>
      else db\<lparr>git_snapshots := update_rows (\<lambda>s. gt_id s = gt_id (sp_snapshot plan)) (\<lambda>_. sp_snapshot plan) (git_snapshots db)\<rparr>)"

definition count_val :: "string list \<Rightarrow> val" where
  "count_val xs = VInt (int (length xs))"

text \<open>The row is locked and the commit becomes current; \<open>Inl\<close> is an exception after the commit.\<close>

definition finish_sync ::
  "env \<Rightarrow> git_world \<Rightarrow> time \<Rightarrow> (database \<Rightarrow> database) \<Rightarrow> git_source \<Rightarrow> sync_plan \<Rightarrow> database \<Rightarrow> database \<times> (file_failure + string)" where
  "finish_sync e w now mid src plan db =
     (let s = sp_snapshot plan;
          db1 = flush_snapshot plan db;
          changed = (gs_current_snapshot_id src \<noteq> Some (gt_id s));
          before = Option.bind (gs_current_snapshot_id src) (get_row gt_id (git_snapshots db1));
          (db2, ch) = apply_snapshot now src s (sp_found plan) db1;
          db3 = set_git_source (gs_id src) (\<lambda>g. g\<lparr>gs_last_sync_status := Some ''ok'', gs_last_sync_error := None,
                  gs_last_sync_finished_at := Some now\<rparr>) db2 in
      case (if changed then git_source_synced e w now mid (gs_id src) before s db3 else Inr db3) of
        Inl f \<Rightarrow> (db3, Inl f)
      | Inr db4 \<Rightarrow>
          if changed \<or> sc_added ch \<noteq> [] \<or> sc_revived ch \<noteq> [] \<or> sc_removed ch \<noteq> []
          then (audit_record now
                  ((sync_audit src ''git_source.sync'')\<lparr>au_detail := Some
                     [(vkey ''from'', nullable (map_option gt_commit before)), (vkey ''to'', Str (gt_commit s)),
                      (vkey ''added'', count_val (sc_added ch)), (vkey ''removed'', count_val (sc_removed ch)),
                      (vkey ''revived'', count_val (sc_revived ch))]\<rparr>) db4, Inr ''ok'')
          else (db4, Inr ''unchanged''))"

definition begin_sync :: "time \<Rightarrow> git_source \<Rightarrow> git_source" where
  "begin_sync now g = g\<lparr>gs_last_sync_started_at := Some now, gs_last_sync_status := Some ''running'', gs_sync_requested_at := None\<rparr>"

definition sync_locked ::
  "env \<Rightarrow> git_world \<Rightarrow> time \<Rightarrow> (database \<Rightarrow> database) \<Rightarrow> (database \<Rightarrow> database) \<Rightarrow> key_id \<Rightarrow> database \<Rightarrow>
   database \<times> (file_failure + string)" where
  "sync_locked e w now mid mid2 sid db =
     (case get_row gs_id (git_sources db) sid of
        None \<Rightarrow> (db, Inr ''failed'')
      | Some src0 \<Rightarrow>
          let src = begin_sync now src0;
              (db1, plan) = plan_sync e w now mid src (set_git_source sid (begin_sync now) db) in
          case plan of
            Inl f \<Rightarrow> (sync_failed now sid (sync_message f) (gs_last_sync_status src0) db1, Inr ''failed'')
          | Inr plan \<Rightarrow>
              if get_row gs_id (git_sources db1) sid = None then (db1, Inr ''failed'')
              else finish_sync e w now mid2 src plan db1)"

definition sync_source ::
  "env \<Rightarrow> git_world \<Rightarrow> time \<Rightarrow> (database \<Rightarrow> database) \<Rightarrow> (database \<Rightarrow> database) \<Rightarrow> bool \<Rightarrow> key_id \<Rightarrow> database \<Rightarrow>
   database \<times> (file_failure + string)" where
  "sync_source e w now mid mid2 held sid db =
     (if \<not> held then (db, Inr ''busy'') else sync_locked e w now mid mid2 sid db)"

section \<open>The schedule and pruning\<close>

definition git_source_due :: "time \<Rightarrow> git_source \<Rightarrow> bool" where
  "git_source_due now g =
     (gs_enabled g \<and>
      (gs_sync_requested_at g \<noteq> None \<or>
       (gs_auto_sync_seconds g > 0 \<and>
        (case gs_last_sync_started_at g of None \<Rightarrow> True | Some t \<Rightarrow> t < now - secs (gs_auto_sync_seconds g)))))"

definition request_order :: "git_source \<Rightarrow> int \<times> int \<times> key_id" where
  "request_order g = (case gs_sync_requested_at g of Some t \<Rightarrow> (0, - t, gs_id g) | None \<Rightarrow> (1, 0, gs_id g))"

definition git_due_sources :: "time \<Rightarrow> database \<Rightarrow> key_id list" where
  "git_due_sources now db =
     map gs_id
       (filter (\<lambda>g. \<not> (gs_sync_requested_at g = None \<and>
            \<not> list_ex (startswith (gs_url g)) [''https://'', ''http://'', ''file://''] \<and>
            \<not> nonempty (gs_ssh_known_hosts g)))
         (sort_key request_order (filter (git_source_due now) (git_sources db))))"

definition git_snapshot_pinned :: "database \<Rightarrow> key_id \<Rightarrow> bool" where
  "git_snapshot_pinned db i =
     ((\<exists>r \<in> set (runs db). is_active_status (status r) \<and> git_snapshot_id r = Some i) \<or>
      (\<exists>l \<in> set (lints db). is_active_status (status l) \<and> l_git_snapshot_id l = Some i))"

definition git_snapshot_stale :: "time \<Rightarrow> database \<Rightarrow> git_snapshot \<Rightarrow> bool" where
  "git_snapshot_stale now db s =
     ((case gt_superseded_at s of None \<Rightarrow> False | Some t \<Rightarrow> t < now - secs PRUNE_AFTER_SECONDS) \<and>
      \<not> git_snapshot_pinned db (gt_id s) \<and>
      \<not> (\<exists>g \<in> set (git_sources db). gs_current_snapshot_id g = Some (gt_id s)))"

text \<open>The references of runs and checks to a deleted snapshot are cleared (\<open>ON DELETE SET NULL\<close>).\<close>

definition prune_git_snapshots :: "time \<Rightarrow> database \<Rightarrow> database \<times> nat" where
  "prune_git_snapshots now db =
     (let stale = filter (git_snapshot_stale now db) (git_snapshots db) in
      (db\<lparr>git_snapshots := delete_rows (\<lambda>s. gt_id s \<in> gt_id ` set stale) (git_snapshots db),
          runs := update_rows (\<lambda>r. \<exists>s \<in> set stale. git_snapshot_id r = Some (gt_id s)) (\<lambda>r. r\<lparr>git_snapshot_id := None\<rparr>) (runs db),
          lints := update_rows (\<lambda>l. \<exists>s \<in> set stale. l_git_snapshot_id l = Some (gt_id s)) (\<lambda>l. l\<lparr>l_git_snapshot_id := None\<rparr>) (lints db),
          snapshot_tars := fold (\<lambda>s tars. tars((gt_source_id s, gt_commit s) := None)) stale (snapshot_tars db)\<rparr>,
       length stale))"

section \<open>Reading a snapshot\<close>

text \<open>\<open>getmember\<close> finds the last member of a name; \<open>extractfile\<close> of a regular file always reads it.\<close>

definition read_member ::
  "git_world \<Rightarrow> database \<Rightarrow> git_snapshot \<Rightarrow> string \<Rightarrow> int \<Rightarrow> sync_failure + string" where
  "read_member w db s path max_bytes =
     (case Option.bind (snapshot_tars db (gt_source_id s, gt_commit s)) (gw_untar w) of
        None \<Rightarrow> Inl Sync_other
      | Some ms \<Rightarrow>
          (case find (\<lambda>m. tm_name m = path) (rev ms) of
             None \<Rightarrow> Inl (SyncError (path @ '' is not in commit '' @ take 12 (gt_commit s)))
           | Some m \<Rightarrow>
               if \<not> tm_isfile m \<or> tm_size m > max_bytes then Inl (SyncError (path @ '' is not a playbook file''))
               else case tm_data m of
                 None \<Rightarrow> Inl (SyncError (path @ '' is not a playbook file''))
               | Some bytes \<Rightarrow>
                   (case gw_utf8 w bytes of
                      None \<Rightarrow> Inl (SyncError (path @ '' is not UTF-8 text'')) | Some t \<Rightarrow> Inr t)))"

text \<open>\<open>.+\<close> after a slash: something that does not start with a line break.\<close>

definition some_rest :: "string list \<Rightarrow> bool" where
  "some_rest ps = (join ''/'' ps \<noteq> [] \<and> hd (join ''/'' ps) \<noteq> CHR 0x0A)"

definition vars_file :: "string \<Rightarrow> bool" where
  "vars_file name =
     (let ps = comps name; n = length ps in
      (\<exists>i \<in> set [0..<n]. ps ! i \<in> {''group_vars'', ''host_vars''} \<and> some_rest (drop (Suc i) ps)) \<or>
      (n \<ge> 2 \<and> ps ! (n - 2) = ''vars'' \<and> ps ! (n - 1) \<noteq> []) \<or>
      (n \<ge> 4 \<and> ps ! 0 = ''roles'' \<and> ps ! 1 \<noteq> [] \<and> ps ! 2 \<in> {''vars'', ''defaults''} \<and> some_rest (drop 3 ps)))"

fun vars_loop :: "(string \<Rightarrow> string option) \<Rightarrow> int \<Rightarrow> tar_member list \<Rightarrow> string list" where
  "vars_loop utf8 used [] = []"
| "vars_loop utf8 used (m # ms) =
     (if \<not> tm_isfile m \<or> tm_size m > MAX_VARS_FILE_BYTES then vars_loop utf8 used ms
      else if \<not> vars_file (tm_name m) then vars_loop utf8 used ms
      else if used + tm_size m > MAX_VARS_TOTAL_BYTES then []
      else case Option.bind (tm_data m) utf8 of
        None \<Rightarrow> vars_loop utf8 used ms
      | Some t \<Rightarrow> t # vars_loop utf8 (used + tm_size m) ms)"

definition vars_texts :: "git_world \<Rightarrow> database \<Rightarrow> git_snapshot \<Rightarrow> string list option" where
  "vars_texts w db s =
     map_option (vars_loop (gw_utf8 w) 0) (Option.bind (snapshot_tars db (gt_source_id s, gt_commit s)) (gw_untar w))"

end
