(* ===== verification/Git_Facts.thy ===== *)
theory Git_Facts
  imports Git_Sync
begin

text \<open>
  What a sync of a git source does to the playbooks and snapshots that runs use: a good commit becomes
  current as a whole, a bad one changes nothing, and pruning spares what is in use.
\<close>

section \<open>The tables of git sources\<close>

definition git_part where
  "git_part db = (playbooks db, playbook_files db, git_sources db, git_snapshots db, snapshot_tars db, next_playbook_id db)"

lemma git_part_eqD:
  "git_part db' = git_part db \<Longrightarrow> playbooks db' = playbooks db \<and> playbook_files db' = playbook_files db \<and>
     git_sources db' = git_sources db \<and> git_snapshots db' = git_snapshots db \<and> snapshot_tars db' = snapshot_tars db \<and>
     next_playbook_id db' = next_playbook_id db"
  by (simp add: git_part_def)

lemma git_part_deliveries [simp]: "git_part (fold (insert_delivery now ev data k) chs db) = git_part db"
  by (induction chs arbitrary: db) (simp_all add: insert_delivery_def Let_def git_part_def)

lemma git_part_emit [simp]: "git_part (emit_known now ev pid data k db) = git_part db"
  by (auto simp: emit_known_def emit_def Let_def split: option.splits)

lemma git_part_audit [simp]: "git_part (audit_record now a db) = git_part db"
proof -
  have "git_part (from_audit now x d) = git_part d" for x d
    by (simp add: from_audit_def attack_def admin_change_def Let_def)
  moreover have "git_part (d\<lparr>audit_events := x\<rparr>) = git_part d" for d x by (simp add: git_part_def)
  ultimately show ?thesis by (simp add: audit_record_def Let_def)
qed

lemma git_part_refresh [simp]:
  "git_part (put_refresh f db) = git_part db" "git_part (touch_sources now i scope db) = git_part db"
  "git_part (set_source i g db) = git_part db" "git_part (fst (insert_refresh e now iv tr who scope db)) = git_part db"
  by (simp_all add: put_refresh_def touch_sources_def set_source_def insert_refresh_def Let_def git_part_def)

text \<open>What others commit while a refresh is queued does not touch the git sources.\<close>

lemma git_part_enqueue:
  assumes "\<And>d. git_part (mid d) = git_part d"
  shows "git_part (fst (enqueue_refresh e now mid iv tr who ids db)) = git_part db"
  using assms by (simp add: enqueue_refresh_def Let_def case_prod_unfold split: option.splits)

lemma git_part_moved:
  "moved_sources e w now before after ss due db = Inr (db', due') \<Longrightarrow> git_part db' = git_part db"
proof (induction ss arbitrary: due db)
  case (Cons s ss)
  obtain db1 mv where 1: "source_moved e w now before after s db = Inr (db1, mv)"
    using Cons.prems by (cases "source_moved e w now before after s db") auto
  then have "git_part db1 = git_part db"
    by (auto simp: source_moved_def Let_def split: sum.splits file_failure.splits if_splits)
  then show ?case using Cons.IH Cons.prems 1 by (auto simp: case_prod_unfold)
qed simp

lemma git_part_enqueue_moved:
  assumes "\<And>d. git_part (mid d) = git_part d"
  shows "enqueue_moved e now mid due db = Inr db' \<Longrightarrow> git_part db' = git_part db"
proof (induction due arbitrary: db)
  case (Cons x due)
  then show ?case by (cases x) (auto simp: git_part_enqueue [OF assms] split: option.splits)
qed simp

lemma git_part_synced:
  assumes "\<And>d. git_part (mid d) = git_part d" and "git_source_synced e w now mid sid before after db = Inr db'"
  shows "git_part db' = git_part db"
  using assms(2) git_part_moved git_part_enqueue_moved [OF assms(1)]
  by (auto simp: git_source_synced_def res_bind_Inr_iff)

section \<open>Pruning\<close>

lemma fold_remove_tars:
  "fold (\<lambda>s tars. tars((gt_source_id s, gt_commit s) := None)) ss tars k =
     (if k \<in> (\<lambda>s. (gt_source_id s, gt_commit s)) ` set ss then None else tars k)"
  by (induction ss arbitrary: tars) auto

text \<open>
  Pruning never takes a commit away from anyone: the snapshot a source is at, one that a queued or
  running run or check is pinned to, and one replaced less than ten minutes ago stay, with their
  files; the others are gone, and so are their files, so that no row is left without its tar.
\<close>

theorem prune_git_snapshots_safe:
  assumes "distinct (map gt_id (git_snapshots db))"
    and "distinct (map (\<lambda>s. (gt_source_id s, gt_commit s)) (git_snapshots db))"
    and "s \<in> set (git_snapshots db)"
  shows "case prune_git_snapshots now db of (db', n) \<Rightarrow>
    (if git_snapshot_pinned db (gt_id s) \<or> (\<exists>g \<in> set (git_sources db). gs_current_snapshot_id g = Some (gt_id s)) \<or>
        (\<forall>t. gt_superseded_at s = Some t \<longrightarrow> t \<ge> now - secs 600)
     then s \<in> set (git_snapshots db') \<and>
       snapshot_tars db' (gt_source_id s, gt_commit s) = snapshot_tars db (gt_source_id s, gt_commit s)
     else s \<notin> set (git_snapshots db') \<and> snapshot_tars db' (gt_source_id s, gt_commit s) = None)"
proof -
  have same: "x = s" if "x \<in> set (git_snapshots db)"
    "gt_id x = gt_id s \<or> (gt_source_id x, gt_commit x) = (gt_source_id s, gt_commit s)" for x
    using that assms by (auto simp: distinct_map inj_on_def)
  have stale: "git_snapshot_stale now db s \<longleftrightarrow>
      \<not> (git_snapshot_pinned db (gt_id s) \<or> (\<exists>g \<in> set (git_sources db). gs_current_snapshot_id g = Some (gt_id s)) \<or>
        (\<forall>t. gt_superseded_at s = Some t \<longrightarrow> t \<ge> now - secs 600))"
    by (cases "gt_superseded_at s") (auto simp: git_snapshot_stale_def PRUNE_AFTER_SECONDS_def)
  have gone: "gt_id s \<in> gt_id ` set (filter (git_snapshot_stale now db) (git_snapshots db)) \<longleftrightarrow> git_snapshot_stale now db s"
    using same assms(3) by force
  have tar: "(gt_source_id s, gt_commit s) \<in> (\<lambda>s. (gt_source_id s, gt_commit s)) `
      set (filter (git_snapshot_stale now db) (git_snapshots db)) \<longleftrightarrow> git_snapshot_stale now db s"
    using same assms(3) by force
  have rows: "s \<in> set (git_snapshots (fst (prune_git_snapshots now db))) \<longleftrightarrow> \<not> git_snapshot_stale now db s"
    using gone assms(3) by (simp add: prune_git_snapshots_def Let_def set_delete_rows)
  have files: "snapshot_tars (fst (prune_git_snapshots now db)) (gt_source_id s, gt_commit s) =
      (if git_snapshot_stale now db s then None else snapshot_tars db (gt_source_id s, gt_commit s))"
  proof -
    have "snapshot_tars (fst (prune_git_snapshots now db)) =
        fold (\<lambda>s tars. tars((gt_source_id s, gt_commit s) := None)) (filter (git_snapshot_stale now db) (git_snapshots db))
          (snapshot_tars db)" by (simp add: prune_git_snapshots_def Let_def)
    then show ?thesis by (simp only: fold_remove_tars tar)
  qed
  show ?thesis
  proof (cases "git_snapshot_stale now db s")
    case True
    then show ?thesis unfolding case_prod_unfold using rows files stale by presburger
  next
    case False
    then show ?thesis unfolding case_prod_unfold using rows files stale by presburger
  qed
qed

section \<open>Playbooks of a source\<close>

definition pb_key :: "playbook \<Rightarrow> key_id option \<times> string option" where
  "pb_key p = (pb_source_id p, pb_repo_path p)"

definition pb_at :: "key_id \<Rightarrow> database \<Rightarrow> string \<Rightarrow> playbook option" where
  "pb_at sid db path = get_row pb_key (playbooks db) (Some sid, Some path)"

text \<open>The primary key, the sequence, and the unique constraint on the source and the path.\<close>

definition playbooks_ok :: "database \<Rightarrow> bool" where
  "playbooks_ok db \<longleftrightarrow> distinct (map pb_id (playbooks db)) \<and> (\<forall>p \<in> set (playbooks db). pb_id p < next_playbook_id db) \<and>
     (\<forall>p \<in> set (playbooks db). \<forall>q \<in> set (playbooks db).
        pb_key p = pb_key q \<and> pb_source_id p \<noteq> None \<and> pb_repo_path p \<noteq> None \<longrightarrow> p = q)"

lemma pb_atD: "pb_at sid db path = Some p \<Longrightarrow> p \<in> set (playbooks db) \<and> pb_key p = (Some sid, Some path)"
  unfolding pb_at_def by (rule get_row_Some)

lemma pb_atI:
  assumes "playbooks_ok db" "p \<in> set (playbooks db)" "pb_key p = (Some sid, Some path)"
  shows "pb_at sid db path = Some p"
proof (cases "pb_at sid db path")
  case None
  then show ?thesis using assms(2,3) by (auto simp: pb_at_def get_row_def find_None_iff)
next
  case (Some q)
  then show ?thesis using pb_atD [OF Some] assms by (auto simp: playbooks_ok_def pb_key_def)
qed

lemma playbook_id_inj: "playbooks_ok db \<Longrightarrow> p \<in> set (playbooks db) \<Longrightarrow> q \<in> set (playbooks db) \<Longrightarrow> pb_id p = pb_id q \<Longrightarrow> p = q"
  unfolding playbooks_ok_def distinct_map inj_on_def by blast

lemma find_snoc: "find P (xs @ [p]) = (case find P xs of None \<Rightarrow> if P p then Some p else None | Some q \<Rightarrow> Some q)"
  by (induction xs) auto

lemma map_of_fold_dict_set:
  "map_of (fold (\<lambda>p. dict_set (k p) p) ps d) i = (case find (\<lambda>p. k p = i) (rev ps) of None \<Rightarrow> map_of d i | Some p \<Rightarrow> Some p)"
proof (induction ps arbitrary: d)
  case (Cons p ps)
  then show ?case by (auto simp: find_snoc map_of_dict_set split: option.splits)
qed simp

lemma existing_playbooks_at:
  assumes "playbooks_ok db"
  shows "map_of (existing_playbooks sid db) path = pb_at sid db path"
proof -
  let ?ps = "filter (\<lambda>p. pb_source_id p = Some sid \<and> pb_repo_path p \<noteq> None) (playbooks db)"
  have m: "map_of (existing_playbooks sid db) path = find (\<lambda>p. the (pb_repo_path p) = path) (rev ?ps)"
    by (simp add: existing_playbooks_def map_of_fold_dict_set split: option.split)
  show ?thesis
  proof (cases "find (\<lambda>p. the (pb_repo_path p) = path) (rev ?ps)")
    case None
    then have "pb_at sid db path = None"
      by (auto simp: pb_at_def get_row_def find_None_iff pb_key_def)
    then show ?thesis using m None by simp
  next
    case (Some p)
    then have p: "p \<in> set (rev ?ps)" "the (pb_repo_path p) = path" using find_SomeD by fast+
    then have "pb_at sid db path = Some p" by (intro pb_atI [OF assms]) (auto simp: pb_key_def)
    then show ?thesis using m Some by simp
  qed
qed

lemma distinct_existing: "distinct (map fst (existing_playbooks sid db))"
proof -
  have "distinct (map fst (fold (\<lambda>p. dict_set (k p) p) ps d))" if "distinct (map fst d)" for k ps d
    using that by (induction ps arbitrary: d) (simp_all add: distinct_dict_set)
  from this [of "[]"] show ?thesis unfolding existing_playbooks_def by simp
qed

text \<open>What a step that works on one path of the source leaves alone.\<close>

definition touches_only :: "key_id \<Rightarrow> string set \<Rightarrow> database \<Rightarrow> database \<Rightarrow> bool" where
  "touches_only sid paths db db' \<longleftrightarrow> playbooks_ok db' \<and> (\<forall>q. q \<notin> paths \<longrightarrow> pb_at sid db' q = pb_at sid db q) \<and>
     (\<forall>p \<in> set (playbooks db). pb_source_id p = Some sid \<and> pb_repo_path p \<in> Some ` paths \<or>
        p \<in> set (playbooks db') \<and> playbook_files db' (pb_id p) = playbook_files db (pb_id p))"

lemma touches_only_refl: "playbooks_ok db \<Longrightarrow> touches_only sid paths db db"
  by (simp add: touches_only_def)

lemma touches_only_trans:
  assumes "touches_only sid A db db1" and "touches_only sid B db1 db2"
  shows "touches_only sid (A \<union> B) db db2"
  unfolding touches_only_def
proof (intro conjI allI impI ballI)
  show "playbooks_ok db2" using assms(2) by (simp add: touches_only_def)
next
  fix q assume "q \<notin> A \<union> B"
  then show "pb_at sid db2 q = pb_at sid db q" using assms by (simp add: touches_only_def)
next
  fix p assume p: "p \<in> set (playbooks db)"
  show "pb_source_id p = Some sid \<and> pb_repo_path p \<in> Some ` (A \<union> B) \<or>
      p \<in> set (playbooks db2) \<and> playbook_files db2 (pb_id p) = playbook_files db (pb_id p)"
    using assms p unfolding touches_only_def by (metis image_Un Un_iff)
qed

lemma touches_only_update:
  assumes ok: "playbooks_ok db" and at: "pb_at sid db path = Some p"
    and f: "\<And>x. pb_id (f x) = pb_id x \<and> pb_key (f x) = pb_key x"
    and db': "playbooks db' = update_rows (\<lambda>x. pb_id x = pb_id p) f (playbooks db)" "next_playbook_id db' = next_playbook_id db"
    and files: "\<And>i. i \<noteq> pb_id p \<Longrightarrow> playbook_files db' i = playbook_files db i"
  shows "touches_only sid {path} db db' \<and> pb_at sid db' path = Some (f p)"
proof -
  note p = pb_atD [OF at]
  have f2: "pb_source_id (f x) = pb_source_id x \<and> pb_repo_path (f x) = pb_repo_path x" for x
    using f [of x] by (simp add: pb_key_def)
  have ids: "map pb_id (playbooks db') = map pb_id (playbooks db)"
    unfolding db' by (rule map_update_rows) (use f in simp)
  have keys: "pb_key x = pb_key y" if "pb_id x = pb_id y" "x \<in> set (playbooks db)" "y \<in> set (playbooks db)" for x y
    using playbook_id_inj [OF ok that(2,3,1)] by simp
  have origin: "\<exists>x \<in> set (playbooks db). pb_id y = pb_id x \<and> pb_key y = pb_key x \<and> (pb_id x = pb_id p \<and> y = f x \<or> pb_id x \<noteq> pb_id p \<and> y = x)"
    if "y \<in> set (playbooks db')" for y
  proof -
    from that obtain x where x: "x \<in> set (playbooks db)" "y = (if pb_id x = pb_id p then f x else x)"
      unfolding db' set_update_rows by blast
    then show ?thesis using f [of x] by (cases "pb_id x = pb_id p") (auto intro!: bexI [of _ x])
  qed
  have "playbooks_ok db'"
    unfolding playbooks_ok_def
  proof (intro conjI ballI impI)
    show "distinct (map pb_id (playbooks db'))" unfolding ids using ok by (simp add: playbooks_ok_def)
    show "pb_id y < next_playbook_id db'" if "y \<in> set (playbooks db')" for y
      using origin [OF that] ok db'(2) by (auto simp: playbooks_ok_def)
    fix y z assume yz: "y \<in> set (playbooks db')" "z \<in> set (playbooks db')"
      and k: "pb_key y = pb_key z \<and> pb_source_id y \<noteq> None \<and> pb_repo_path y \<noteq> None"
    obtain x x' where x: "x \<in> set (playbooks db)" "pb_key y = pb_key x"
        "pb_id x = pb_id p \<and> y = f x \<or> pb_id x \<noteq> pb_id p \<and> y = x"
      and x': "x' \<in> set (playbooks db)" "pb_key z = pb_key x'"
        "pb_id x' = pb_id p \<and> z = f x' \<or> pb_id x' \<noteq> pb_id p \<and> z = x'"
      using origin [OF yz(1)] origin [OF yz(2)] by blast
    have "pb_key x = pb_key x' \<and> pb_source_id x \<noteq> None \<and> pb_repo_path x \<noteq> None"
      using k x(2) x'(2) unfolding pb_key_def by (metis Pair_inject)
    then have "x = x'" using ok x(1) x'(1) unfolding playbooks_ok_def by blast
    then show "y = z" using x(3) x'(3) by auto
  qed
  moreover have at': "pb_at sid db' q = map_option (\<lambda>r. if pb_id r = pb_id p then f r else r) (pb_at sid db q)" for q
    unfolding pb_at_def db' by (rule get_row_update_rows) (use f in simp)
  moreover have "pb_at sid db' q = pb_at sid db q" if "q \<noteq> path" for q
  proof (cases "pb_at sid db q")
    case (Some r)
    then have "pb_id r \<noteq> pb_id p" using pb_atD [OF Some] p that keys [of r p] by (auto simp: pb_key_def)
    then show ?thesis unfolding at' Some by simp
  qed (simp add: at')
  moreover have "x \<in> set (playbooks db') \<and> playbook_files db' (pb_id x) = playbook_files db (pb_id x)"
    if "x \<in> set (playbooks db)" "\<not> (pb_source_id x = Some sid \<and> pb_repo_path x \<in> Some ` {path})" for x
  proof -
    have ne: "pb_id x \<noteq> pb_id p" using that p keys [of x p] by (auto simp: pb_key_def)
    then have "x \<in> set (playbooks db')" unfolding db' set_update_rows using that(1) by (intro image_eqI [of _ _ x]) auto
    then show ?thesis using files ne by simp
  qed
  ultimately show ?thesis unfolding touches_only_def using at by auto
qed

lemma touches_only_insert:
  assumes ok: "playbooks_ok db" and at: "pb_at sid db path = None"
    and new: "pb_id p = next_playbook_id db" "pb_key p = (Some sid, Some path)"
    and db': "playbooks db' = playbooks db @ [p]" "next_playbook_id db' = next_playbook_id db + 1"
    and files: "\<And>i. i \<noteq> pb_id p \<Longrightarrow> playbook_files db' i = playbook_files db i"
  shows "touches_only sid {path} db db' \<and> pb_at sid db' path = Some p"
proof -
  have fresh: "pb_id x < pb_id p \<and> pb_key x \<noteq> pb_key p" if "x \<in> set (playbooks db)" for x
    using that ok at new by (auto simp: playbooks_ok_def pb_at_def get_row_def find_None_iff)
  have pk: "pb_key x = pb_key y \<Longrightarrow> pb_source_id x = pb_source_id y \<and> pb_repo_path x = pb_repo_path y" for x y
    by (simp add: pb_key_def)
  have "playbooks_ok db'"
    unfolding playbooks_ok_def
  proof (intro conjI ballI impI)
    show "distinct (map pb_id (playbooks db'))"
    proof -
      have "pb_id p \<notin> pb_id ` set (playbooks db)" using fresh by (metis imageE less_irrefl)
      then show ?thesis using ok unfolding db'(1) playbooks_ok_def by simp
    qed
    show "pb_id y < next_playbook_id db'" if "y \<in> set (playbooks db')" for y
      using that ok new unfolding db' playbooks_ok_def by force
    fix x y assume "x \<in> set (playbooks db')" "y \<in> set (playbooks db')"
      and k: "pb_key x = pb_key y \<and> pb_source_id x \<noteq> None \<and> pb_repo_path x \<noteq> None"
    then consider "x = p" "y = p" | "x = p" "y \<in> set (playbooks db)" | "y = p" "x \<in> set (playbooks db)"
      | "x \<in> set (playbooks db)" "y \<in> set (playbooks db)" unfolding db'(1) by auto
    then show "x = y"
    proof cases
      case 4
      then show ?thesis using ok k unfolding playbooks_ok_def by blast
    qed (use fresh k in metis)+
  qed
  moreover have "get_row pb_key (playbooks db') k = (case get_row pb_key (playbooks db) k of
      None \<Rightarrow> if pb_key p = k then Some p else None | Some x \<Rightarrow> Some x)" for k
    unfolding db'(1) get_row_def by (rule find_snoc)
  moreover have "playbook_files db' (pb_id x) = playbook_files db (pb_id x)" if "x \<in> set (playbooks db)" for x
    using fresh [OF that] files by simp
  ultimately show ?thesis
    unfolding touches_only_def pb_at_def using at new(2) db'(1) by (auto simp: pb_at_def split: option.splits)
qed

lemma touches_only_files:
  "touches_only sid A db db' \<Longrightarrow> p \<in> set (playbooks db) \<Longrightarrow> pb_key p = (Some sid, Some q) \<Longrightarrow> q \<notin> A \<Longrightarrow>
   playbook_files db' (pb_id p) = playbook_files db (pb_id p)"
  unfolding touches_only_def pb_key_def by auto

text \<open>The playbook of a path that is in the commit: there, not missing, and with the file's text.\<close>

definition settled :: "key_id \<Rightarrow> bool \<Rightarrow> database \<Rightarrow> database \<Rightarrow> string \<Rightarrow> string \<Rightarrow> bool" where
  "settled sid changed db db' path content \<longleftrightarrow>
     (\<exists>p. pb_at sid db' path = Some p \<and> pb_missing_at p = None \<and>
        (changed \<or> (\<forall>q. pb_at sid db path = Some q \<longrightarrow> pb_missing_at q \<noteq> None) \<longrightarrow> playbook_files db' (pb_id p) = Some content))"

lemma apply_found_settles:
  assumes ok: "playbooks_ok db" and ex: "map_of ex path = pb_at (gs_id src) db path"
  shows "touches_only (gs_id src) {path} db (fst (apply_found now src changed ex (path, content) (db, ch))) \<and>
    settled (gs_id src) changed db (fst (apply_found now src changed ex (path, content) (db, ch))) path content"
proof (cases "pb_at (gs_id src) db path")
  case None
  let ?p = "\<lparr>pb_id = next_playbook_id db, pb_name = path, pb_project_id = gs_project_id src, pb_updated_at = now,
    pb_source_id = Some (gs_id src), pb_repo_path = Some path, pb_missing_at = None\<rparr>"
  let ?db' = "fst (apply_found now src changed ex (path, content) (db, ch))"
  have "touches_only (gs_id src) {path} db ?db' \<and> pb_at (gs_id src) ?db' path = Some ?p"
    by (rule touches_only_insert [OF ok None]) (simp_all add: apply_found_def ex None pb_key_def Let_def)
  moreover have "playbook_files ?db' (pb_id ?p) = Some content" by (simp add: apply_found_def ex None Let_def)
  ultimately show ?thesis unfolding settled_def by auto
next
  case (Some p)
  let ?db' = "fst (apply_found now src changed ex (path, content) (db, ch))"
  show ?thesis
  proof (cases "pb_missing_at p \<noteq> None \<or> changed")
    case True
    let ?f = "\<lambda>x. x\<lparr>pb_missing_at := None, pb_updated_at := now\<rparr>"
    have db': "playbooks ?db' = update_rows (\<lambda>x. pb_id x = pb_id p) ?f (playbooks db)"
      "next_playbook_id ?db' = next_playbook_id db" "playbook_files ?db' = (playbook_files db)(pb_id p \<mapsto> content)"
      using True by (auto simp: apply_found_def ex Some Let_def)
    have "touches_only (gs_id src) {path} db ?db' \<and> pb_at (gs_id src) ?db' path = Some (?f p)"
      by (rule touches_only_update [OF ok Some _ db'(1,2)]) (simp_all add: pb_key_def db'(3))
    then show ?thesis by (simp add: settled_def db'(3))
  next
    case False
    then have "?db' = db" by (simp add: apply_found_def ex Some Let_def)
    then show ?thesis using ok Some False by (simp add: touches_only_refl settled_def)
  qed
qed

lemma fold_apply_found:
  assumes "playbooks_ok db" and "distinct (map fst found)"
    and "\<forall>path \<in> fst ` set found. map_of ex path = pb_at (gs_id src) db path"
  shows "touches_only (gs_id src) (fst ` set found) db (fst (fold (apply_found now src changed ex) found (db, ch))) \<and>
    (\<forall>(path, content) \<in> set found.
       settled (gs_id src) changed db (fst (fold (apply_found now src changed ex) found (db, ch))) path content)"
  using assms
proof (induction found arbitrary: db ch)
  case Nil
  then show ?case by (simp add: touches_only_refl)
next
  case (Cons x found)
  obtain path content where x: "x = (path, content)" by (cases x)
  obtain db1 ch1 where 1: "apply_found now src changed ex (path, content) (db, ch) = (db1, ch1)" by fastforce
  have step: "touches_only (gs_id src) {path} db db1" "settled (gs_id src) changed db db1 path content"
    using apply_found_settles [OF Cons.prems(1), of ex path src now changed content ch] Cons.prems(3) 1 by (simp_all add: x)
  let ?db' = "fst (fold (apply_found now src changed ex) found (db1, ch1))"
  have out: "path \<notin> fst ` set found" using Cons.prems(2) by (simp add: x)
  have same: "pb_at (gs_id src) db1 q = pb_at (gs_id src) db q" if "q \<noteq> path" for q
    using step(1) that by (simp add: touches_only_def)
  have IH: "touches_only (gs_id src) (fst ` set found) db1 ?db'"
    "\<forall>(q, c) \<in> set found. settled (gs_id src) changed db1 ?db' q c"
  proof -
    have "map_of ex q = pb_at (gs_id src) db1 q" if "q \<in> fst ` set found" for q
    proof -
      have "q \<noteq> path" using that out by blast
      then show ?thesis using same [of q] bspec [OF Cons.prems(3), of q] that by (simp add: x)
    qed
    moreover have "playbooks_ok db1" using step(1) by (simp add: touches_only_def)
    moreover have "distinct (map fst found)" using Cons.prems(2) by simp
    ultimately show "touches_only (gs_id src) (fst ` set found) db1 ?db'"
      "\<forall>(q, c) \<in> set found. settled (gs_id src) changed db1 ?db' q c"
      using Cons.IH [of db1 ch1] by blast+
  qed
  have "touches_only (gs_id src) (fst ` set (x # found)) db ?db'"
    using touches_only_trans [OF step(1) IH(1)] by (simp add: x)
  moreover have "settled (gs_id src) changed db ?db' path content"
  proof -
    obtain p where p: "pb_at (gs_id src) db1 path = Some p" "pb_missing_at p = None"
      "changed \<or> (\<forall>q. pb_at (gs_id src) db path = Some q \<longrightarrow> pb_missing_at q \<noteq> None) \<longrightarrow> playbook_files db1 (pb_id p) = Some content"
      using step(2) unfolding settled_def by blast
    have "pb_at (gs_id src) ?db' path = Some p" using IH(1) out p(1) by (simp add: touches_only_def)
    moreover have "playbook_files ?db' (pb_id p) = playbook_files db1 (pb_id p)"
      using touches_only_files [OF IH(1)] pb_atD [OF p(1)] out by blast
    ultimately show ?thesis using p(2,3) unfolding settled_def by auto
  qed
  moreover have "settled (gs_id src) changed db ?db' q c" if "(q, c) \<in> set found" for q c
  proof -
    have "q \<noteq> path" using that out by force
    then show ?thesis using IH(2) that same [of q] unfolding settled_def by fastforce
  qed
  ultimately show ?case using 1 by (simp add: x) blast
qed

text \<open>A path that is not in the commit any more.\<close>

lemma fold_mark_missing:
  assumes "playbooks_ok db" and "distinct (map fst gone)" and "\<forall>(path, p) \<in> set gone. pb_at sid db path = Some p"
  shows "touches_only sid (fst ` set gone) db (fold (mark_missing now) (map snd gone) db) \<and>
    (\<forall>path \<in> fst ` set gone. \<exists>p. pb_at sid (fold (mark_missing now) (map snd gone) db) path = Some p \<and> pb_missing_at p \<noteq> None)"
  using assms
proof (induction gone arbitrary: db)
  case Nil
  then show ?case by (simp add: touches_only_refl)
next
  case (Cons x gone)
  obtain path p where x: "x = (path, p)" by (cases x)
  let ?db1 = "mark_missing now p db"
  let ?db' = "fold (mark_missing now) (map snd gone) ?db1"
  let ?f = "\<lambda>x. x\<lparr>pb_missing_at := Some now, pb_updated_at := now\<rparr>"
  have at: "pb_at sid db path = Some p" using Cons.prems(3) by (simp add: x)
  have step: "touches_only sid {path} db ?db1 \<and> pb_at sid ?db1 path = Some (?f p)"
    by (rule touches_only_update [OF Cons.prems(1) at]) (simp_all add: mark_missing_def pb_key_def)
  have out: "path \<notin> fst ` set gone" using Cons.prems(2) by (simp add: x)
  have "pb_at sid ?db1 q = Some r" if "(q, r) \<in> set gone" for q r
  proof -
    have "q \<noteq> path" using that out by force
    then have "pb_at sid ?db1 q = pb_at sid db q" using step by (simp add: touches_only_def)
    then show ?thesis using Cons.prems(3) that by auto
  qed
  then have IH: "touches_only sid (fst ` set gone) ?db1 ?db'"
    "\<forall>path \<in> fst ` set gone. \<exists>p. pb_at sid ?db' path = Some p \<and> pb_missing_at p \<noteq> None"
    using Cons.IH [of ?db1] Cons.prems(2) step by (auto simp: touches_only_def)
  have "touches_only sid ({path} \<union> fst ` set gone) db ?db'"
    using touches_only_trans [of sid "{path}" db ?db1 "fst ` set gone" ?db'] step IH(1) by blast
  moreover have "pb_at sid ?db' path = Some (?f p)" using IH(1) out step by (simp add: touches_only_def)
  ultimately show ?case using IH(2) by (simp add: x)
qed

text \<open>The tables a commit is applied to, apart from the playbooks.\<close>

lemma apply_found_frame:
  "git_sources (fst (fold (apply_found now src changed ex) found (db, ch))) = git_sources db \<and>
   git_snapshots (fst (fold (apply_found now src changed ex) found (db, ch))) = git_snapshots db \<and>
   snapshot_tars (fst (fold (apply_found now src changed ex) found (db, ch))) = snapshot_tars db"
proof (induction found arbitrary: db ch)
  case (Cons x found)
  have "git_sources (fst (apply_found now src changed ex x (db, ch))) = git_sources db \<and>
     git_snapshots (fst (apply_found now src changed ex x (db, ch))) = git_snapshots db \<and>
     snapshot_tars (fst (apply_found now src changed ex x (db, ch))) = snapshot_tars db"
    by (cases x) (simp add: apply_found_def Let_def split: option.split)
  then show ?case using Cons [of "fst (apply_found now src changed ex x (db, ch))" "snd (apply_found now src changed ex x (db, ch))"]
    by simp
qed simp

lemma mark_missing_frame:
  "git_sources (fold (mark_missing now) ps db) = git_sources db \<and> git_snapshots (fold (mark_missing now) ps db) = git_snapshots db \<and>
   snapshot_tars (fold (mark_missing now) ps db) = snapshot_tars db"
  by (induction ps arbitrary: db) (simp_all add: mark_missing_def)

text \<open>
  The source's playbooks after a commit was applied: those in the commit are there with its text, the
  others of the source are marked missing, and no other playbook changed.
\<close>

definition in_line :: "key_id \<Rightarrow> (string \<times> string) list \<Rightarrow> bool \<Rightarrow> database \<Rightarrow> database \<Rightarrow> bool" where
  "in_line sid found changed db db' \<longleftrightarrow> playbooks_ok db' \<and>
     (\<forall>path. (\<exists>p. pb_at sid db' path = Some p \<and> pb_missing_at p = None) \<longleftrightarrow> path \<in> fst ` set found) \<and>
     (\<forall>(path, content) \<in> set found. settled sid changed db db' path content) \<and>
     (\<forall>p \<in> set (playbooks db). pb_source_id p \<noteq> Some sid \<longrightarrow>
        p \<in> set (playbooks db') \<and> playbook_files db' (pb_id p) = playbook_files db (pb_id p))"

lemma in_line_cong:
  assumes "playbooks a = playbooks b" "playbook_files a = playbook_files b"
    and "playbooks a' = playbooks b'" "playbook_files a' = playbook_files b'" "next_playbook_id a' = next_playbook_id b'"
  shows "in_line sid found changed a a' = in_line sid found changed b b'"
  using assms by (simp add: in_line_def settled_def pb_at_def playbooks_ok_def)

lemma apply_snapshot_in_line:
  assumes ok: "playbooks_ok db" and dist: "distinct (map fst found)"
  shows "in_line (gs_id src) found (gs_current_snapshot_id src \<noteq> Some (gt_id s)) db (fst (apply_snapshot now src s found db))"
proof -
  define sid where "sid = gs_id src"
  define changed where "changed = (gs_current_snapshot_id src \<noteq> Some (gt_id s))"
  define db2 where "db2 = set_git_source sid (\<lambda>g. g\<lparr>gs_current_snapshot_id := Some (gt_id s)\<rparr>)
    (case gs_current_snapshot_id src of
       Some old \<Rightarrow> if old \<noteq> gt_id s
         then db\<lparr>git_snapshots := update_rows (\<lambda>x. gt_id x = old) (\<lambda>x. x\<lparr>gt_superseded_at := Some now\<rparr>) (git_snapshots db)\<rparr> else db
     | None \<Rightarrow> db)"
  define ex where "ex = existing_playbooks sid db2"
  define ch0 :: sync_changes where "ch0 = \<lparr>sc_added = [], sc_revived = [], sc_removed = []\<rparr>"
  define db3 where "db3 = fst (fold (apply_found now src changed ex) found (db2, ch0))"
  define gone where "gone = filter (gone_playbook found) ex"
  define db' where "db' = fold (mark_missing now) (map snd gone) db3"
  have res: "fst (apply_snapshot now src s found db) = db'"
    by (simp add: apply_snapshot_def db'_def gone_def db3_def ex_def db2_def ch0_def changed_def sid_def Let_def case_prod_unfold)
  have same: "playbooks db2 = playbooks db" "playbook_files db2 = playbook_files db" "next_playbook_id db2 = next_playbook_id db"
    by (simp_all add: db2_def set_git_source_def split: option.split)
  then have at2: "pb_at sid db2 q = pb_at sid db q" for q by (simp add: pb_at_def)
  have ok2: "playbooks_ok db2" using ok by (simp add: playbooks_ok_def same)
  have ex: "map_of ex q = pb_at sid db2 q" for q unfolding ex_def by (rule existing_playbooks_at [OF ok2])
  have found: "touches_only sid (fst ` set found) db2 db3" "\<forall>(q, c) \<in> set found. settled sid changed db2 db3 q c"
    using fold_apply_found [OF ok2 dist, of ex src now changed ch0] ex unfolding db3_def sid_def by blast+
  have dex: "distinct (map fst ex)" unfolding ex_def by (rule distinct_existing)
  have "distinct (map fst gone)" unfolding gone_def using dex by (rule distinct_map_filter)
  moreover have g: "pb_at sid db2 q = Some p \<and> q \<notin> fst ` set found \<and> pb_missing_at p = None" if "(q, p) \<in> set gone" for q p
    using that dex ex [of q] by (auto simp: gone_def gone_playbook_def)
  moreover have "pb_at sid db3 q = pb_at sid db2 q" if "q \<notin> fst ` set found" for q
    using found(1) that by (simp add: touches_only_def)
  ultimately have gone': "touches_only sid (fst ` set gone) db3 db'"
    "\<forall>q \<in> fst ` set gone. \<exists>p. pb_at sid db' q = Some p \<and> pb_missing_at p \<noteq> None"
    using fold_mark_missing [of db3 gone sid now] found(1) unfolding db'_def touches_only_def by fastforce+
  note both = touches_only_trans [OF found(1) gone'(1)]
  have settled': "settled sid changed db db' q c" if qc: "(q, c) \<in> set found" for q c
  proof -
    have "q \<notin> fst ` set gone" using g qc by force
    then have "pb_at sid db' q = pb_at sid db3 q" using gone'(1) by (simp add: touches_only_def)
    moreover have "playbook_files db' (pb_id p) = playbook_files db3 (pb_id p)" if "pb_at sid db3 q = Some p" for p
      using touches_only_files [OF gone'(1)] pb_atD [OF that] \<open>q \<notin> fst ` set gone\<close> by blast
    moreover have "settled sid changed db2 db3 q c" using found(2) qc by blast
    ultimately show ?thesis unfolding settled_def at2 by fastforce
  qed
  have "(\<exists>p. pb_at sid db' q = Some p \<and> pb_missing_at p = None) \<longleftrightarrow> q \<in> fst ` set found" for q
  proof
    assume "q \<in> fst ` set found"
    then show "\<exists>p. pb_at sid db' q = Some p \<and> pb_missing_at p = None"
      using settled' unfolding settled_def by fastforce
  next
    assume l: "\<exists>p. pb_at sid db' q = Some p \<and> pb_missing_at p = None"
    show "q \<in> fst ` set found"
    proof (rule ccontr)
      assume n: "q \<notin> fst ` set found"
      have "q \<notin> fst ` set gone" using l gone'(2) by fastforce
      then have "pb_at sid db' q = map_of ex q" using both n ex by (simp add: touches_only_def)
      then obtain p where "(q, p) \<in> set ex" "pb_missing_at p = None" using l by (metis map_of_SomeD)
      then have "(q, p) \<in> set gone" using n by (simp add: gone_def gone_playbook_def)
      then show False using \<open>q \<notin> fst ` set gone\<close> by force
    qed
  qed
  moreover have "p \<in> set (playbooks db') \<and> playbook_files db' (pb_id p) = playbook_files db (pb_id p)"
    if "p \<in> set (playbooks db)" "pb_source_id p \<noteq> Some sid" for p
    using both that same unfolding touches_only_def by metis
  ultimately show ?thesis
    unfolding in_line_def res sid_def [symmetric] changed_def [symmetric]
    using settled' both by (auto simp: touches_only_def)
qed

section \<open>A sync as a whole\<close>

lemma tree_entries_distinct:
  "tree_entries es st = Inr st' \<Longrightarrow> distinct (map fst (te_files st)) \<Longrightarrow> distinct (map fst (te_files st'))"
proof (induction es st rule: tree_entries.induct)
  case (2 entry rest st)
  show ?case
  proof (cases "entry = [] \<or> ls_entry entry = None")
    case True
    then show ?thesis using 2 by (auto split: if_splits)
  next
    case False
    then obtain m k oid sz path where "ls_entry entry = Some (m, k, oid, sz, path)" by (cases "ls_entry entry") auto
    then show ?thesis using 2 False
      by (auto simp: Let_def distinct_dict_set split: if_splits option.splits)
  qed
qed simp

lemma inspect_tree_distinct:
  assumes "inspect_tree e subdir kind listing blobs = Inr tr"
  shows "distinct (map fst (tr_files tr))"
proof -
  obtain out st where "tree_entries (split_char (CHR 0x00) out) no_entries = Inr st" "tr_files tr = te_files st"
    using assms unfolding inspect_tree_def
    by (auto simp: res_bind_Inr_iff split: sum.splits sync_failure.splits if_splits option.splits)
  then show ?thesis using tree_entries_distinct [of _ no_entries st] by (simp add: no_entries_def)
qed

lemma map_filter_keys:
  assumes "distinct ps"
  shows "distinct (map fst (List.map_filter (\<lambda>p. map_option (Pair p) (f p)) ps)) \<and>
    fst ` set (List.map_filter (\<lambda>p. map_option (Pair p) (f p)) ps) \<subseteq> set ps"
  using assms
proof (induction ps)
  case (Cons p ps)
  then show ?case by (cases "f p") (auto simp: List.map_filter_simps)
qed (simp add: List.map_filter_simps)

lemma discover_distinct:
  assumes "discover_playbooks e w tr globs = Inr (found, ws)" and "distinct (map fst (tr_files tr))"
  shows "distinct (map fst found)"
proof -
  let ?c = "playbook_candidates tr globs"
  have "distinct ?c" using assms(2) by (simp add: playbook_candidates_def distinct_map_filter)
  define ps where "ps = (if int (length ?c) > git_max_playbooks e then take (nat (git_max_playbooks e)) ?c else ?c)"
  define oid where "oid = (\<lambda>p. fst (the (map_of (tr_files tr) p)))"
  have "distinct ps" using \<open>distinct ?c\<close> by (simp add: ps_def)
  have "\<exists>ws'. discover_playbooks e w tr globs = res_bind (gw_blobs w (map oid ps)) (\<lambda>content. Inr
      (List.map_filter (\<lambda>p. if length p > 255 then None else map_option (Pair p) (is_playbook w (content (oid p)))) ps, ws'))"
    unfolding discover_playbooks_def ps_def oid_def Let_def case_prod_unfold
    by (cases "git_max_playbooks e < int (length ?c)") (simp_all only: if_True if_False fst_conv snd_conv, blast+)
  then obtain content where found: "found = List.map_filter (\<lambda>p. if length p > 255 then None else map_option (Pair p) (is_playbook w (content (oid p)))) ps"
    using assms(1) by (cases "gw_blobs w (map oid ps)") auto
  have "(\<lambda>p. if length p > 255 then None else map_option (Pair p) (is_playbook w (content (oid p)))) =
      (\<lambda>p. map_option (Pair p) (if length p > 255 then None else is_playbook w (content (oid p))))" by auto
  then show ?thesis
    unfolding found using map_filter_keys [OF \<open>distinct ps\<close>, of "\<lambda>p. if length p > 255 then None else is_playbook w (content (oid p))"]
    by simp
qed

text \<open>What a plan is made of, and that making it changes at most the tar of the commit.\<close>

lemma plan_snapshot_cases:
  assumes "plan_snapshot e w now src commit subdir tr found ws db = (db', r)"
  shows "playbooks db' = playbooks db \<and> playbook_files db' = playbook_files db \<and> git_sources db' = git_sources db \<and>
    git_snapshots db' = git_snapshots db \<and> next_playbook_id db' = next_playbook_id db \<and>
    (\<forall>plan. r = Inr plan \<longrightarrow> sp_found plan = found \<and> gt_commit (sp_snapshot plan) = commit \<and>
       gt_source_id (sp_snapshot plan) = gs_id src \<and> gt_superseded_at (sp_snapshot plan) = None \<and>
       (\<not> sp_new plan \<longrightarrow> gt_id (sp_snapshot plan) \<in> gt_id ` set (git_snapshots db)) \<and>
       snapshot_tars db' (gs_id src, commit) \<noteq> None)"
  using assms unfolding plan_snapshot_def
  by (auto simp: write_tar_def res_bind_Inr_iff dest!: find_SomeD split: option.splits sum.splits if_splits)

lemma plan_sync_cases:
  assumes "plan_sync e w now mid src db = (db', r)"
  obtains d where "d \<in> {db, mid db}" "playbooks db' = playbooks d" "playbook_files db' = playbook_files d"
    "git_sources db' = git_sources d" "git_snapshots db' = git_snapshots d" "next_playbook_id db' = next_playbook_id d"
    "\<And>plan. r = Inr plan \<Longrightarrow>
       (\<exists>rm branch subdir commit tr ws.
          res_bind (gw_fetch w db src rm branch) commit_of = Inr commit \<and>
          inspect_tree e subdir (gw_kind w commit subdir) (gw_listing w commit subdir) (gw_blobs w) = Inr tr \<and>
          discover_playbooks e w tr (source_globs src) = Inr (sp_found plan, ws) \<and>
          gt_commit (sp_snapshot plan) = commit \<and> gt_source_id (sp_snapshot plan) = gs_id src \<and>
          gt_superseded_at (sp_snapshot plan) = None \<and> snapshot_tars db' (gs_id src, commit) \<noteq> None \<and>
          (\<not> sp_new plan \<longrightarrow> gt_id (sp_snapshot plan) \<in> gt_id ` set (git_snapshots d)))"
proof (cases "res_bind (parse_url (git_allow_local_sources e) (gs_url src)) (\<lambda>r.
          if rm_kind r = ''ssh'' \<and> \<not> nonempty (gs_ssh_known_hosts src)
          then Inl (SyncError (''trust the server'' @ [CHR 0x27] @ ''s SSH host key first (Test connection)''))
          else res_bind (check_branch (gs_branch src)) (\<lambda>branch.
               res_bind (check_subdir (gs_subdir src)) (\<lambda>subdir. Inr (r, branch, subdir))))")
  case (Inl f)
  then have "db' = db" "r = Inl f" using assms unfolding plan_sync_def Let_def by simp_all
  then show ?thesis using that [of db] by simp
next
  case (Inr c)
  obtain rm branch subdir where c: "c = (rm, branch, subdir)" by (cases c)
  note plan = assms [unfolded plan_sync_def Let_def Inr c sum.case prod.case]
  show ?thesis
  proof (cases "res_bind (gw_fetch w db src rm branch) commit_of")
    case (Inl f)
    then have "db' = mid db" "r = Inl f" using plan by simp_all
    then show ?thesis using that [of "mid db"] by simp
  next
    case commit: (Inr commit)
    show ?thesis
    proof (cases "inspect_tree e subdir (gw_kind w commit subdir) (gw_listing w commit subdir) (gw_blobs w)")
      case (Inl f)
      then have "db' = mid db" "r = Inl f" using plan commit by simp_all
      then show ?thesis using that [of "mid db"] by simp
    next
      case tr: (Inr tr)
      show ?thesis
      proof (cases "discover_playbooks e w tr (source_globs src)")
        case (Inl f)
        then have "db' = mid db" "r = Inl f" using plan commit tr by simp_all
        then show ?thesis using that [of "mid db"] by simp
      next
        case (Inr fw)
        obtain found ws where fw: "fw = (found, ws)" by (cases fw)
        have "plan_snapshot e w now src commit subdir tr found ws (mid db) = (db', r)"
          using plan commit tr Inr fw by simp
        from plan_snapshot_cases [OF this] show ?thesis
          using that [of "mid db"] commit tr Inr fw by blast
      qed
    qed
  qed
qed

lemma git_sources_set [simp]:
  "playbooks (set_git_source i f db) = playbooks db" "playbook_files (set_git_source i f db) = playbook_files db"
  "git_snapshots (set_git_source i f db) = git_snapshots db" "snapshot_tars (set_git_source i f db) = snapshot_tars db"
  "next_playbook_id (set_git_source i f db) = next_playbook_id db"
  "git_sources (set_git_source i f db) = update_rows (\<lambda>g. gs_id g = i) f (git_sources db)"
  by (simp_all add: set_git_source_def)

lemma flush_snapshot_rows:
  assumes "\<not> sp_new plan \<longrightarrow> gt_id (sp_snapshot plan) \<in> gt_id ` set (git_snapshots db)"
  shows "sp_snapshot plan \<in> set (git_snapshots (flush_snapshot plan db))"
    "playbooks (flush_snapshot plan db) = playbooks db" "playbook_files (flush_snapshot plan db) = playbook_files db"
    "next_playbook_id (flush_snapshot plan db) = next_playbook_id db" "git_sources (flush_snapshot plan db) = git_sources db"
    "snapshot_tars (flush_snapshot plan db) = snapshot_tars db"
  using assms by (force simp: flush_snapshot_def set_update_rows)+

lemma apply_snapshot_rows:
  assumes "s \<in> set (git_snapshots db)"
  shows "s \<in> set (git_snapshots (fst (apply_snapshot now src s found db)))"
    "snapshot_tars (fst (apply_snapshot now src s found db)) = snapshot_tars db"
    "git_sources (fst (apply_snapshot now src s found db)) =
       update_rows (\<lambda>g. gs_id g = gs_id src) (\<lambda>g. g\<lparr>gs_current_snapshot_id := Some (gt_id s)\<rparr>) (git_sources db)"
  using assms
  by (auto simp: apply_snapshot_def Let_def case_prod_unfold mark_missing_frame apply_found_frame set_update_rows
      split: option.split)

text \<open>A commit that became current: its tree was inspected, its snapshot and tar are there.\<close>

definition commit_current ::
  "env \<Rightarrow> git_world \<Rightarrow> git_source \<Rightarrow> git_snapshot \<Rightarrow> (string \<times> string) list \<Rightarrow> database \<Rightarrow> bool" where
  "commit_current e w src s found db \<longleftrightarrow>
     gt_source_id s = gs_id src \<and> gt_superseded_at s = None \<and> s \<in> set (git_snapshots db) \<and>
     snapshot_tars db (gs_id src, gt_commit s) \<noteq> None \<and>
     (\<forall>g \<in> set (git_sources db). gs_id g = gs_id src \<longrightarrow>
        gs_current_snapshot_id g = Some (gt_id s) \<and> gs_last_sync_status g = Some ''ok'') \<and>
     (\<exists>subdir tr ws. inspect_tree e subdir (gw_kind w (gt_commit s) subdir) (gw_listing w (gt_commit s) subdir) (gw_blobs w) = Inr tr \<and>
        discover_playbooks e w tr (source_globs src) = Inr (found, ws))"

lemma finish_sync_current:
  assumes fin: "finish_sync e w now mid2 src plan db = (db', r)"
    and mid2: "\<And>d. git_part (mid2 d) = git_part d"
    and ok: "playbooks_ok db" and found: "distinct (map fst (sp_found plan))"
    and row: "\<not> sp_new plan \<longrightarrow> gt_id (sp_snapshot plan) \<in> gt_id ` set (git_snapshots db)"
  shows "in_line (gs_id src) (sp_found plan) (gs_current_snapshot_id src \<noteq> Some (gt_id (sp_snapshot plan))) db db' \<and>
    sp_snapshot plan \<in> set (git_snapshots db') \<and> snapshot_tars db' = snapshot_tars db \<and>
    (\<forall>g \<in> set (git_sources db'). gs_id g = gs_id src \<longrightarrow>
       gs_current_snapshot_id g = Some (gt_id (sp_snapshot plan)) \<and> gs_last_sync_status g = Some ''ok'')"
proof -
  let ?s = "sp_snapshot plan"
  define db1 where "db1 = flush_snapshot plan db"
  define db2 where "db2 = fst (apply_snapshot now src ?s (sp_found plan) db1)"
  define db3 where "db3 = set_git_source (gs_id src) (\<lambda>g. g\<lparr>gs_last_sync_status := Some ''ok'', gs_last_sync_error := None,
                  gs_last_sync_finished_at := Some now\<rparr>) db2"
  note f = flush_snapshot_rows [OF row, folded db1_def]
  note a = apply_snapshot_rows [OF f(1), of now src "sp_found plan", folded db2_def]
  have ok1: "playbooks_ok db1" using ok by (simp add: playbooks_ok_def f)
  have part: "git_part db' = git_part db3"
  proof -
    consider "db' = db3" | b where "git_source_synced e w now mid2 (gs_id src) b ?s db3 = Inr db'"
      | a where "db' = audit_record now a db3"
      | a b d where "git_source_synced e w now mid2 (gs_id src) b ?s db3 = Inr d" "db' = audit_record now a d"
      using fin unfolding finish_sync_def Let_def case_prod_unfold db1_def [symmetric] db2_def [symmetric] db3_def [symmetric]
      by (fastforce split: sum.splits if_splits)
    then show ?thesis by cases (simp_all add: git_part_synced [OF mid2])
  qed
  note same = git_part_eqD [OF part]
  have "in_line (gs_id src) (sp_found plan) (gs_current_snapshot_id src \<noteq> Some (gt_id ?s)) db1 db2"
    unfolding db2_def by (rule apply_snapshot_in_line [OF ok1 found])
  then have "in_line (gs_id src) (sp_found plan) (gs_current_snapshot_id src \<noteq> Some (gt_id ?s)) db db'"
    using in_line_cong [of db1 db db2 db'] f same by (simp add: db3_def)
  moreover have "?s \<in> set (git_snapshots db')" "snapshot_tars db' = snapshot_tars db" using same a f by (simp_all add: db3_def)
  moreover have "gs_current_snapshot_id g = Some (gt_id ?s) \<and> gs_last_sync_status g = Some ''ok''"
    if "g \<in> set (git_sources db')" "gs_id g = gs_id src" for g
    using that same a(3) by (auto simp: db3_def set_update_rows split: if_splits)
  ultimately show ?thesis by blast
qed


text \<open>
  A snapshot is found again by its commit alone: when the source's subdirectory was changed since, the
  tar of the old one stays, while the playbooks are those of the new one.
\<close>

lemma resync_keeps_tar:
  assumes "find (\<lambda>s. gt_source_id s = gs_id src \<and> gt_commit s = commit) (git_snapshots db) = Some s"
    and "snapshot_tars db (gs_id src, commit) = Some tar"
  shows "plan_snapshot e w now src commit subdir tr found ws db =
    (db, Inr \<lparr>sp_snapshot = s\<lparr>gt_superseded_at := None\<rparr>, sp_new = False, sp_found = found\<rparr>)"
  using assms by (simp add: plan_snapshot_def)

section \<open>Samples\<close>

definition sample_git_source :: git_source where
  "sample_git_source =
     \<lparr>gs_id = 6, gs_project_id = 1, gs_name = ''site'', gs_url = ''https://git.example/ops/site.git'', gs_branch = ''main'', gs_web_url = None,
      gs_subdir = None, gs_playbook_globs = [], gs_ssh_known_hosts = None, gs_auto_sync_seconds = 300, gs_enabled = True,
      gs_current_snapshot_id = Some 3, gs_sync_requested_at = None, gs_last_sync_started_at = None,
      gs_last_sync_finished_at = None, gs_last_sync_status = None, gs_last_sync_error = None\<rparr>"

definition sample_playbook :: playbook where
  "sample_playbook = \<lparr>pb_id = 2, pb_name = ''old.yml'', pb_project_id = 1, pb_updated_at = 0, pb_source_id = Some 6,
     pb_repo_path = Some ''old.yml'', pb_missing_at = None\<rparr>"

text \<open>A repository whose branch is at a commit with one playbook.\<close>

definition sample_world :: git_world where
  "sample_world =
     \<lparr>gw_fetch = (\<lambda>_ _ _ _. Inr (replicate 40 (CHR ''a''))), gw_kind = (\<lambda>_ _. Inr ''tree''),
      gw_listing = (\<lambda>_ _. Inr (''100644 blob 77 9'' @ [CHR 0x09] @ ''site.yml'' @ [CHR 0x00])),
      gw_blobs = (\<lambda>_. Inr (\<lambda>_. ''- hosts:'')), gw_archive = (\<lambda>_ _. Inr ''tar''), gw_info = (\<lambda>_. Inr ()),
      gw_yaml = (\<lambda>_. Some (VList [VDict [(vkey ''hosts'', Str ''all'')]])), gw_utf8 = Some, gw_untar = (\<lambda>_. Some [])\<rparr>"

definition git_db :: database where
  "git_db = empty_db\<lparr>git_sources := [sample_git_source], git_snapshots := [sample_git_snapshot], playbooks := [sample_playbook],
     next_playbook_id := 3, next_git_snapshot_id := 4, snapshot_tars := (\<lambda>_. Some [])\<rparr>"

definition git_env :: env where
  "git_env = sample_env\<lparr>git_max_files := 100, git_max_snapshot_mb := 10, git_max_playbooks := 50\<rparr>"

lemmas git_sample_defs = git_db_def sample_git_source_def sample_git_snapshot_def sample_playbook_def empty_db_def

theorem prune_git_snapshots_safe_witness:
  "sample_git_snapshot \<in> set (git_snapshots (fst (prune_git_snapshots 5 git_db)))"
proof -
  have "distinct (map gt_id (git_snapshots git_db))"
    "distinct (map (\<lambda>s. (gt_source_id s, gt_commit s)) (git_snapshots git_db))"
    "sample_git_snapshot \<in> set (git_snapshots git_db)" by (simp_all add: git_sample_defs)
  from prune_git_snapshots_safe [OF this, of 5] show ?thesis
    by (simp add: case_prod_unfold git_sample_defs)
qed

lemma sample_sync:
  "snd (sync_locked git_env sample_world 9 id id 6 git_db) = Inr ''ok''"
  by code_simp


end
