(* ===== verification/Run_Api.thy ===== *)
theory Run_Api
  imports Scoping Refreshes Git_Sync
begin

text \<open>
  How people and API keys start, repeat and cancel runs: \<open>queue_run\<close>, \<open>rerun\<close> and \<open>cancel_run\<close> of
  \<open>app/routers/runs.py\<close> with the checks they make. A request raises
  (\<open>Inl\<close>) an \<open>HTTPException\<close>; an exception the handler does not catch is the answer 500. Until the commit
  nothing but audit events is written. \<open>enc\<close> is \<open>str.encode\<close>; decoding is \<open>gw_utf8\<close>.
\<close>

definition MAX_PLAYBOOK_SNAPSHOT_BYTES :: int where "MAX_PLAYBOOK_SNAPSHOT_BYTES = 1024 * 1024"
definition MAX_INVENTORY_PIN_BYTES :: int where "MAX_INVENTORY_PIN_BYTES = 4 * 1024 * 1024"
definition DEFAULT_RUN_TIMEOUT_SECONDS :: int where "DEFAULT_RUN_TIMEOUT_SECONDS = 2 * 60 * 60"

text \<open>The next step of a handler, unless this one raised.\<close>

fun and_then :: "database \<times> 'a http \<Rightarrow> ('a \<Rightarrow> database \<Rightarrow> database \<times> 'b http) \<Rightarrow> database \<times> 'b http" where
  "and_then (db, Inl x) k = (db, Inl x)"
| "and_then (db, Inr a) k = k a db"

abbreviation raise_http :: "int \<Rightarrow> string \<Rightarrow> database \<Rightarrow> database \<times> 'a http" where
  "raise_http code msg db \<equiv> (db, Inl (HTTPException code msg))"

definition crash :: "database \<Rightarrow> database \<times> 'a http" where
  "crash db = raise_http 500 ''Internal Server Error'' db"

definition require :: "bool \<Rightarrow> int \<Rightarrow> string \<Rightarrow> database \<Rightarrow> database \<times> unit http" where
  "require ok code msg db = (if ok then (db, Inr ()) else raise_http code msg db)"

section \<open>The request\<close>

record run_create =
  rc_playbook_id :: key_id
  rc_inventory_id :: key_id
  rc_group_id :: "key_id option"
  rc_group_name :: "string option"
  rc_credential_id :: key_id
  rc_vault_password_id :: "key_id option"
  rc_become :: bool
  rc_check_mode :: bool
  rc_diff_mode :: bool
  rc_limit :: "string option"
  rc_extra_vars :: "vars option"
  rc_timeout_seconds :: int
  rc_refresh_first :: "bool option"
  rc_env_credential_ids :: "key_id list"

text \<open>What pydantic accepts, and the validator of \<open>limit\<close>.\<close>

definition blank_limit_to_none :: "string option \<Rightarrow> string option" where
  "blank_limit_to_none v =
     (case v of None \<Rightarrow> None | Some s \<Rightarrow> if strip s = [] then None else Some (strip s))"

definition validate_create :: "run_create \<Rightarrow> run_create option" where
  "validate_create p =
     (if (case rc_group_name p of None \<Rightarrow> True | Some g \<Rightarrow> length g \<le> 255) \<and>
         1 \<le> rc_timeout_seconds p \<and> rc_timeout_seconds p \<le> MAX_RUN_TIMEOUT_SECONDS \<and>
         length (rc_env_credential_ids p) \<le> 5
      then Some (p\<lparr>rc_limit := blank_limit_to_none (rc_limit p)\<rparr>) else None)"

section \<open>What a run pins\<close>

record git_pin =
  gp_text :: string
  gp_source :: git_source
  gp_snapshot :: git_snapshot
  gp_path :: "string option"

text \<open>The member is read by the playbook's path; a git playbook always has one.\<close>

definition pin_snapshot :: "git_world \<Rightarrow> playbook \<Rightarrow> database \<Rightarrow> database \<times> git_pin http" where
  "pin_snapshot w pb db =
     (if pb_missing_at pb \<noteq> None then raise_http 409 ''This playbook is no longer in its git repository'' db
      else case Option.bind (pb_source_id pb) (get_row gs_id (git_sources db)) of
        None \<Rightarrow> raise_http 409 ''The git source has not synced yet'' db
      | Some src \<Rightarrow>
          (case Option.bind (gs_current_snapshot_id src) (get_row gt_id (git_snapshots db)) of
             None \<Rightarrow> raise_http 409 ''The git source has not synced yet'' db
           | Some s \<Rightarrow>
               if snapshot_tars db (gt_source_id s, gt_commit s) = None
               then raise_http 409 ''The playbook is missing from the synced commit'' db
               else (case pb_repo_path pb of
                       None \<Rightarrow> crash db
                     | Some path \<Rightarrow>
                         (case read_member w db s path MAX_PLAYBOOK_BYTES of
                            Inl (SyncError m) \<Rightarrow> raise_http 409 ''The playbook is missing from the synced commit'' db
                          | Inl Sync_other \<Rightarrow> crash db
                          | Inr t \<Rightarrow>
                              (db, Inr \<lparr>gp_text = t, gp_source = src, gp_snapshot = s, gp_path = pb_repo_path pb\<rparr>)))))"

definition static_val :: "static_inv \<Rightarrow> val" where
  "static_val st =
     VDict [(vkey ''hosts'', VDict (map (\<lambda>(h, vs). (vkey h, VDict vs)) (st_hosts st))),
            (vkey ''groups'', VDict (map (\<lambda>(g, hs). (vkey g, str_list hs)) (st_groups st)))]"

text \<open>The snapshot of an inventory whose sources are not refreshed first.\<close>

definition current_snapshot :: "inventory \<Rightarrow> bool \<Rightarrow> database \<Rightarrow> database \<times> snapshot option http" where
  "current_snapshot iv refreshing db =
     (if has_sources db (i_id iv) \<and> \<not> refreshing
      then (case Option.bind (i_current_snapshot_id iv) (get_row sn_id (snapshots db)) of
              None \<Rightarrow> raise_http 409 (''This inventory'' @ [CHR 0x27] @ ''s dynamic sources haven'' @ [CHR 0x27] @ ''t been refreshed yet'') db
            | Some s \<Rightarrow> (db, Inr (Some s)))
      else (db, Inr None))"

definition pin_inventory ::
  "env \<Rightarrow> ansible_names \<Rightarrow> inventory \<Rightarrow> inventory_group option \<Rightarrow> string option \<Rightarrow> bool \<Rightarrow> database \<Rightarrow>
   database \<times> (static_inv \<times> string option \<times> snapshot option) http" where
  "pin_inventory e a iv grp grp_name refreshing db =
     and_then (current_snapshot iv refreshing db) (\<lambda>snap db.
       let static = static_data iv; problems = static_problems a static;
           target = (case grp of Some g \<Rightarrow> Some (ig_name g) | None \<Rightarrow> grp_name) in
       and_then (require (problems = []) 400
                   (''Rename these in the inventory before running it: '' @ join ''; '' (take 5 problems)) db) (\<lambda>_ db.
       and_then (require (int (length (json_dumps e (static_val static))) \<le> MAX_INVENTORY_PIN_BYTES) 400
                   (''The inventory is too large to run (over '' @ show_int (MAX_INVENTORY_PIN_BYTES div 2 ^ 20) @ '' MiB)'') db) (\<lambda>_ db.
       case merge static (map_option sn_data snap) of
         Inl x \<Rightarrow> crash db
       | Inr g \<Rightarrow>
           and_then (require (target = None \<or> the target \<in> fst ` set (gr_groups g) \<or> refreshing) 400
                       (''No group named '' @ py_repr (the target) @ '' in this inventory'') db)
             (\<lambda>_ db. (db, Inr (static, target, snap))))))"

text \<open>The first variable two credentials set, with both names.\<close>

fun clashing_name :: "(string \<times> string) list \<Rightarrow> string \<Rightarrow> string list \<Rightarrow> (string \<times> string) list + (string \<times> string)" where
  "clashing_name known who [] = Inl known"
| "clashing_name known who (n # ns) =
     (case map_of known n of Some other \<Rightarrow> Inr (n, other) | None \<Rightarrow> clashing_name ((n, who) # known) who ns)"

fun check_env_names_from :: "(string \<times> string) list \<Rightarrow> credential list \<Rightarrow> database \<Rightarrow> database \<times> unit http" where
  "check_env_names_from known [] db = (db, Inr ())"
| "check_env_names_from known (c # cs) db =
     (case clashing_name known (c_name c) (case c_env_names c of None \<Rightarrow> [] | Some ns \<Rightarrow> ns) of
        Inr (n, other) \<Rightarrow> raise_http 400 (c_name c @ '' and '' @ other @ '' both set '' @ n @ '': pick one of them'') db
      | Inl known' \<Rightarrow> check_env_names_from known' cs db)"

definition check_env_names :: "credential list \<Rightarrow> database \<Rightarrow> database \<times> unit http" where
  "check_env_names = check_env_names_from []"

definition refresh_for_run ::
  "env \<Rightarrow> time \<Rightarrow> (database \<Rightarrow> database) \<Rightarrow> inventory \<Rightarrow> string \<Rightarrow> database \<Rightarrow> database \<times> key_id http" where
  "refresh_for_run e now mid iv name db =
     (case enqueue_refresh e now mid iv ''run'' (Some name) None db of
        (db1, Some i) \<Rightarrow> (db1, Inr i)
      | (db1, None) \<Rightarrow>
          (case find (queued_for (i_id iv)) (refreshes db1) of
             None \<Rightarrow> raise_http 409 ''Could not queue a refresh of the inventory'' db
           | Some f \<Rightarrow> (db1, Inr (row_id f))))"

definition require_same_project :: "key_id \<Rightarrow> key_id \<Rightarrow> string \<Rightarrow> database \<Rightarrow> database \<times> unit http" where
  "require_same_project mine pid label db =
     require (mine = pid) 400 (label @ '' must belong to the same project as the playbook'') db"

definition become_vars :: "vars option \<Rightarrow> string list" where
  "become_vars vs =
     sort (map (snd \<circ> fst) (filter (\<lambda>((u, k), v). startswith (lower k) ''ansible_become'' \<and>
             \<not> (k = ''ansible_become'' \<and> v = VBool False)) (case vs of None \<Rightarrow> [] | Some d \<Rightarrow> d)))"

definition check_mount :: "env \<Rightarrow> string option \<Rightarrow> string option" where
  "check_mount e mount =
     (if \<not> secrets_store_enabled e then Some ''No secret store is configured''
      else if secrets_store_ssh_mount_list e = []
      then Some (''SSH certificates aren'' @ [CHR 0x27] @ ''t enabled: set SECRETS_STORE_SSH_MOUNTS'')
      else case mount of
        None \<Rightarrow> Some []
      | Some m \<Rightarrow>
          if m \<notin> set (secrets_store_ssh_mount_list e)
          then Some (''SSH engine mount '' @ py_repr (take 100 m) @ '' isn'' @ [CHR 0x27] @ ''t one of SECRETS_STORE_SSH_MOUNTS'')
          else None)"

text \<open>A certificate credential always has a mount (a constraint of the table).\<close>

definition run_credential_problem :: "env \<Rightarrow> credential \<Rightarrow> string option" where
  "run_credential_problem e c =
     (if c_kind c \<notin> {''ssh'', ''ssh_cert''} then Some ''A run needs an SSH key or SSH certificate credential''
      else if c_kind c = ''ssh_cert''
      then map_option (\<lambda>m. ''Credential '' @ quoted (c_name c) @ '' can'' @ [CHR 0x27] @ ''t be used: '' @ m) (check_mount e (c_ssh_mount c))
      else None)"

section \<open>Starting a run\<close>

definition denied_run :: "time \<Rightarrow> user \<Rightarrow> request \<Rightarrow> key_id option \<Rightarrow> key_id option \<Rightarrow> vars \<Rightarrow> database \<Rightarrow> database" where
  "denied_run now u rq run pid detail db =
     audit_record now
       ((audit_call ''permission.denied'')
          \<lparr>au_outcome := ''denied'', au_actor := Some u, au_target_type := Some ''run'', au_target_id := run,
           au_ip := Some (rq_ip rq), au_project_id := pid, au_detail := Some detail\<rparr>) db"

definition denied_become :: "time \<Rightarrow> user \<Rightarrow> request \<Rightarrow> key_id option \<Rightarrow> database \<Rightarrow> database \<times> 'a http" where
  "denied_become now u rq pid db =
     raise_http 403 ''You may not run playbooks as root (become)''
       (denied_run now u rq None pid [(vkey ''required'', Str (permission_text RUNS_BECOME))] db)"

text \<open>The playbook, which fixes the run's project, its commit, and whether the caller may become.\<close>

definition run_playbook ::
  "git_world \<Rightarrow> time \<Rightarrow> user \<Rightarrow> request \<Rightarrow> run_create \<Rightarrow> database \<Rightarrow> database \<times> (playbook \<times> git_pin option \<times> bool) http" where
  "run_playbook w now u rq p db =
     (if rc_become p \<and> \<not> holds_somewhere db u RUNS_BECOME then denied_become now u rq None db
      else and_then (get_scoped (\<lambda>d. get_row pb_id (playbooks d)) pb_project_id now u (Some rq) (rc_playbook_id p)
                       RUNS_TRIGGER ''Playbook not found'' db) (\<lambda>pb db.
        and_then (if pb_source_id pb \<noteq> None then (case pin_snapshot w pb db of (d, r) \<Rightarrow> (d, map_sum id Some r)) else (db, Inr None))
          (\<lambda>git db.
            let can_become = RUNS_BECOME \<in> project_permissions db u (pb_project_id pb) in
            if \<not> can_become \<and> (rc_become p \<or> become_vars (rc_extra_vars p) \<noteq> [])
            then denied_become now u rq (Some (pb_project_id pb)) db
            else (db, Inr (pb, git, can_become)))))"

text \<open>A group by its id, with the inventory it belongs to.\<close>

definition get_group :: "database \<Rightarrow> key_id \<Rightarrow> (key_id \<times> inventory_group) option" where
  "get_group db gid =
     find (\<lambda>(iid, g). ig_id g = gid) (concat (map (\<lambda>iv. map (Pair (i_id iv)) (i_groups iv)) (inventories db)))"

definition run_group :: "run_create \<Rightarrow> database \<Rightarrow> database \<times> inventory_group option http" where
  "run_group p db =
     (case rc_group_id p of
        None \<Rightarrow> (db, Inr None)
      | Some gid \<Rightarrow>
          (case get_group db gid of
             None \<Rightarrow> raise_http 400 ''group_id does not belong to this inventory'' db
           | Some (iid, g) \<Rightarrow>
               if iid \<noteq> rc_inventory_id p then raise_http 400 ''group_id does not belong to this inventory'' db
               else if rc_group_name p \<noteq> None \<and> rc_group_name p \<noteq> Some (ig_name g)
               then raise_http 400 ''group_id and group_name name different groups'' db
               else (db, Inr (Some g))))"

record inventory_pin =
  ip_inventory :: inventory
  ip_group_id :: "key_id option"
  ip_group_name :: "string option"
  ip_static :: static_inv
  ip_snapshot :: "snapshot option"
  ip_refresh :: bool

definition run_inventory ::
  "env \<Rightarrow> ansible_names \<Rightarrow> time \<Rightarrow> user \<Rightarrow> request \<Rightarrow> run_create \<Rightarrow> playbook \<Rightarrow> database \<Rightarrow> database \<times> inventory_pin http" where
  "run_inventory e a now u rq p pb db =
     and_then (get_scoped (\<lambda>d. get_row i_id (inventories d)) i_project_id now u (Some rq) (rc_inventory_id p)
                 CONTENT_READ ''Inventory not found'' db) (\<lambda>iv db.
     and_then (require_same_project (i_project_id iv) (pb_project_id pb) ''Inventory'' db) (\<lambda>_ db.
     case run_limit_problem u (pb_id pb) (i_id iv) of
       Some limited \<Rightarrow>
         raise_http 403 limited (denied_run now u rq None (Some (pb_project_id pb))
           [(vkey ''reason'', Str limited), (vkey ''playbook'', Str (pb_name pb)), (vkey ''inventory'', Str (i_name iv))] db)
     | None \<Rightarrow>
         and_then (run_group p db) (\<lambda>grp db.
           let refresh = ((case rc_refresh_first p of None \<Rightarrow> i_refresh_before_run iv | Some b \<Rightarrow> b) \<and> has_sources db (i_id iv)) in
           and_then (pin_inventory e a iv grp (rc_group_name p) refresh db) (\<lambda>(static, target, snap) db.
             let named = (case grp of
                            Some g \<Rightarrow> Some g
                          | None \<Rightarrow> (case target of None \<Rightarrow> None | Some n \<Rightarrow> find (\<lambda>g. ig_name g = n) (i_groups iv)))
             in (db, Inr \<lparr>ip_inventory = iv, ip_group_id = map_option ig_id named, ip_group_name = target,
                          ip_static = static, ip_snapshot = snap, ip_refresh = refresh\<rparr>)))))"

definition get_credential ::
  "time \<Rightarrow> user \<Rightarrow> request \<Rightarrow> key_id \<Rightarrow> key_id \<Rightarrow> database \<Rightarrow> database \<times> credential http" where
  "get_credential now u rq pid i db =
     and_then (get_scoped (\<lambda>d. get_row c_id (credentials d)) c_project_id now u (Some rq) i SECRETS_LIST ''Credential not found'' db)
       (\<lambda>c db. and_then (require_same_project (c_project_id c) pid ''Credential'' db) (\<lambda>_ db. (db, Inr c)))"

fun get_env_credentials ::
  "time \<Rightarrow> user \<Rightarrow> request \<Rightarrow> key_id \<Rightarrow> key_id list \<Rightarrow> database \<Rightarrow> database \<times> credential list http" where
  "get_env_credentials now u rq pid [] db = (db, Inr [])"
| "get_env_credentials now u rq pid (i # is) db =
     and_then (get_credential now u rq pid i db) (\<lambda>c db.
     and_then (require (c_kind c = ''env'') 400 (c_name c @ '' is not an environment-variable credential'') db) (\<lambda>_ db.
     and_then (get_env_credentials now u rq pid is db) (\<lambda>cs db. (db, Inr (c # cs)))))"

definition from_keys :: "'a list \<Rightarrow> 'a list" where
  "from_keys xs = rev (remdups (rev xs))"

definition run_vault ::
  "time \<Rightarrow> user \<Rightarrow> request \<Rightarrow> key_id \<Rightarrow> key_id option \<Rightarrow> database \<Rightarrow> database \<times> vault_password option http" where
  "run_vault now u rq pid vid db =
     (case vid of
        None \<Rightarrow> (db, Inr None)
      | Some i \<Rightarrow>
          and_then (get_scoped (\<lambda>d. get_row v_id (vault_passwords d)) v_project_id now u (Some rq) i SECRETS_LIST
                      ''Vault password not found'' db)
            (\<lambda>v db. and_then (require_same_project (v_project_id v) pid ''Vault password'' db) (\<lambda>_ db. (db, Inr (Some v)))))"

definition run_secrets ::
  "env \<Rightarrow> time \<Rightarrow> user \<Rightarrow> request \<Rightarrow> run_create \<Rightarrow> key_id \<Rightarrow> database \<Rightarrow>
   database \<times> (credential \<times> vault_password option \<times> credential list) http" where
  "run_secrets e now u rq p pid db =
     and_then (get_credential now u rq pid (rc_credential_id p) db) (\<lambda>c db.
     and_then (case run_credential_problem e c of None \<Rightarrow> (db, Inr ()) | Some problem \<Rightarrow> raise_http 400 problem db) (\<lambda>_ db.
     and_then (run_vault now u rq pid (rc_vault_password_id p) db) (\<lambda>v db.
     and_then (get_env_credentials now u rq pid (from_keys (rc_env_credential_ids p)) db) (\<lambda>cs db.
     and_then (check_env_names cs db) (\<lambda>_ db. (db, Inr (c, v, cs)))))))"

text \<open>The playbook's bytes, its text and digest.\<close>

definition run_text ::
  "env \<Rightarrow> (string \<Rightarrow> string) \<Rightarrow> git_world \<Rightarrow> playbook \<Rightarrow> git_pin option \<Rightarrow> database \<Rightarrow> database \<times> (string \<times> string) http" where
  "run_text e enc w pb git db =
     (case (case git of Some g \<Rightarrow> Some (enc (gp_text g)) | None \<Rightarrow> playbook_files db (pb_id pb)) of
        None \<Rightarrow> crash db
      | Some bytes \<Rightarrow>
          if int (length bytes) > MAX_PLAYBOOK_SNAPSHOT_BYTES
          then raise_http 400 (''The playbook is too large to run (over '' @ show_int (MAX_PLAYBOOK_SNAPSHOT_BYTES div 1024) @ '' KiB)'') db
          else (case gw_utf8 w bytes of None \<Rightarrow> crash db | Some t \<Rightarrow> (db, Inr (t, sha256_hex e bytes))))"

definition or_none :: "'a list \<Rightarrow> 'a list option" where
  "or_none xs = (if xs = [] then None else Some xs)"

definition new_run ::
  "time \<Rightarrow> user \<Rightarrow> run_create \<Rightarrow> playbook \<Rightarrow> git_pin option \<Rightarrow> bool \<Rightarrow> inventory_pin \<Rightarrow> credential \<Rightarrow> vault_password option \<Rightarrow>
   credential list \<Rightarrow> string \<times> string \<Rightarrow> key_id \<Rightarrow> run" where
  "new_run now u p pb git can_become ip c v cs text i =
     (blank_run i now)
       \<lparr>timeout_seconds := rc_timeout_seconds p, project_id := pb_project_id pb, playbook_id := Some (pb_id pb),
        playbook_name := pb_name pb, inventory_id := Some (i_id (ip_inventory ip)), inventory_name := i_name (ip_inventory ip),
        group_id := ip_group_id ip, group_name := ip_group_name ip, inventory_static := Some (ip_static ip),
        inventory_snapshot_id := map_option sn_id (ip_snapshot ip), inventory_snapshot_at := map_option sn_created_at (ip_snapshot ip),
        inventory_snapshot_hosts := map_option sn_host_count (ip_snapshot ip),
        credential_id := Some (c_id c), credential_name := c_name c,
        env_credential_ids := or_none (map c_id cs), env_credential_names := or_none (map c_name cs),
        vault_password_id := map_option v_id v, vault_password_name := map_option v_name v,
        become := rc_become p, check_mode := rc_check_mode p, diff_mode := rc_diff_mode p, limit_hosts := rc_limit p,
        extra_vars := rc_extra_vars p, become_blocked := \<not> can_become, triggered_by := username u,
        triggered_by_api_key_id := api_key_id u, playbook_snapshot := Some (fst text), playbook_sha256 := Some (snd text),
        git_source_id := map_option (gs_id \<circ> gp_source) git, git_source_name := map_option (gs_name \<circ> gp_source) git,
        git_snapshot_id := map_option (gt_id \<circ> gp_snapshot) git, git_commit := map_option (gt_commit \<circ> gp_snapshot) git,
        playbook_path := Option.bind git gp_path\<rparr>"

definition trigger_detail :: "run_create \<Rightarrow> vars \<Rightarrow> run \<Rightarrow> vars" where
  "trigger_detail p more_detail r =
     [(vkey ''playbook'', Str (playbook_name r)), (vkey ''inventory'', Str (inventory_name r)),
      (vkey ''group'', opt_str (group_name r)), (vkey ''become'', VBool (rc_become p)), (vkey ''check_mode'', VBool (rc_check_mode p))] @
     (if refresh_first r then [(vkey ''refresh_first'', VBool True)] else []) @
     (case env_credential_names r of None \<Rightarrow> [] | Some ns \<Rightarrow> [(vkey ''env_credentials'', str_list ns)]) @
     (case git_commit r of None \<Rightarrow> [] | Some cm \<Rightarrow> if cm = [] then [] else [(vkey ''commit'', Str cm)]) @ more_detail"

definition insert_run :: "time \<Rightarrow> user \<Rightarrow> request \<Rightarrow> run_create \<Rightarrow> vars \<Rightarrow> run \<Rightarrow> database \<Rightarrow> database \<times> run http" where
  "insert_run now u rq p detail r db =
     (audit_record now
        ((audit_call ''run.trigger'')
           \<lparr>au_actor := Some u, au_target_type := Some ''run'', au_target_id := Some (row_id r), au_ip := Some (rq_ip rq),
            au_project_id := Some (project_id r), au_detail := Some (trigger_detail p detail r)\<rparr>)
        (db\<lparr>runs := runs db @ [r], next_run_id := next_run_id db + 1\<rparr>), Inr r)"

definition queue_run ::
  "env \<Rightarrow> ansible_names \<Rightarrow> (string \<Rightarrow> string) \<Rightarrow> git_world \<Rightarrow> time \<Rightarrow> (database \<Rightarrow> database) \<Rightarrow> user \<Rightarrow> request \<Rightarrow> run_create \<Rightarrow> vars \<Rightarrow>
   database \<Rightarrow> database \<times> run http" where
  "queue_run e a enc w now mid u rq p detail db =
     and_then (run_playbook w now u rq p db) (\<lambda>(pb, git, can_become) db.
     and_then (run_inventory e a now u rq p pb db) (\<lambda>ip db.
     and_then (run_secrets e now u rq p (pb_project_id pb) db) (\<lambda>(c, v, cs) db.
     and_then (run_text e enc w pb git db) (\<lambda>text db.
       let r = new_run now u p pb git can_become ip c v cs text (next_run_id db) in
       if ip_refresh ip
       then and_then (refresh_for_run e now mid (ip_inventory ip) (username u) db) (\<lambda>f db.
              insert_run now u rq p detail (r\<lparr>row_id := next_run_id db, refresh_first := True, waiting_refresh_id := Some f\<rparr>) db)
       else insert_run now u rq p detail r db))))"

section \<open>Starting a run again\<close>

definition deleted_items_conflict :: "string \<Rightarrow> string list \<Rightarrow> database \<Rightarrow> database \<times> 'a http" where
  "deleted_items_conflict what missing db =
     raise_http 409 (what @ '' can'' @ [CHR 0x27] @ ''t be started: its '' @ join '', '' missing @ '' '' @
       (if length missing = 1 then ''has'' else ''have'') @ '' been deleted'') db"

definition deleted_references :: "run \<Rightarrow> string list" where
  "deleted_references r =
     map fst (filter (\<lambda>(label, ref). ref = None)
       [(''playbook'', playbook_id r), (''inventory'', inventory_id r), (''credential'', credential_id r)]) @
     (if vault_password_name r \<noteq> None \<and> vault_password_id r = None then [''vault password''] else [])"

definition rerun_payload :: "run \<Rightarrow> run_create" where
  "rerun_payload r =
     \<lparr>rc_playbook_id = the (playbook_id r), rc_inventory_id = the (inventory_id r), rc_group_id = None,
      rc_group_name = group_name r, rc_credential_id = the (credential_id r), rc_vault_password_id = vault_password_id r,
      rc_become = become r, rc_check_mode = check_mode r, rc_diff_mode = diff_mode r, rc_limit = limit_hosts r,
      rc_extra_vars = extra_vars r, rc_timeout_seconds = min (timeout_seconds r) MAX_RUN_TIMEOUT_SECONDS,
      rc_refresh_first = Some (refresh_first r),
      rc_env_credential_ids = (case env_credential_ids r of None \<Rightarrow> [] | Some is \<Rightarrow> is)\<rparr>"

abbreviation get_scoped_run :: "time \<Rightarrow> user \<Rightarrow> request \<Rightarrow> key_id \<Rightarrow> permission \<Rightarrow> database \<Rightarrow> database \<times> run http" where
  "get_scoped_run now u rq i p db \<equiv> get_scoped get_run project_id now u (Some rq) i p ''Run not found'' db"

text \<open>A stored run that no longer passes the validation of a request is an uncaught error.\<close>

definition rerun ::
  "env \<Rightarrow> ansible_names \<Rightarrow> (string \<Rightarrow> string) \<Rightarrow> git_world \<Rightarrow> time \<Rightarrow> (database \<Rightarrow> database) \<Rightarrow> user \<Rightarrow> request \<Rightarrow> key_id \<Rightarrow>
   database \<Rightarrow> database \<times> run http" where
  "rerun e a enc w now mid u rq i db =
     and_then (get_scoped_run now u rq i RUNS_TRIGGER db) (\<lambda>r db.
       if deleted_references r \<noteq> [] then deleted_items_conflict (''Run #'' @ show_int i) (deleted_references r) db
       else case validate_create (rerun_payload r) of
         None \<Rightarrow> crash db
       | Some p \<Rightarrow> queue_run e a enc w now mid u rq p [(vkey ''rerun_of'', VInt (row_id r))] db)"

section \<open>Cancelling\<close>

definition cancel_locked :: "env \<Rightarrow> time \<Rightarrow> string \<Rightarrow> user \<Rightarrow> request \<Rightarrow> run \<Rightarrow> database \<Rightarrow> database" where
  "cancel_locked e now clock u rq r db =
     (let queued = (status r = QUEUED);
          r1 = r\<lparr>cancel_requested_at := Some now, cancel_requested_by := Some (username u)\<rparr>;
          db1 = (if queued then fail_run e now clock CANCELLED (''cancelled by '' @ username u @ '' before it started'') r1 db
                 else put_run r1 db)
      in audit_record now
           ((audit_call ''run.cancel'')
              \<lparr>au_actor := Some u, au_target_type := Some ''run'', au_target_id := Some (row_id r), au_ip := Some (rq_ip rq),
               au_project_id := Some (project_id r),
               au_detail := Some [(vkey ''was'', Str (if queued then ''queued'' else ''running''))]\<rparr>) db1)"

text \<open>\<open>mid\<close> is what others commit before the row is read again under its lock.\<close>

definition cancel_run ::
  "env \<Rightarrow> time \<Rightarrow> string \<Rightarrow> (database \<Rightarrow> database) \<Rightarrow> user \<Rightarrow> request \<Rightarrow> key_id \<Rightarrow> database \<Rightarrow> database \<times> run http" where
  "cancel_run e now clock mid u rq i db =
     and_then (get_scoped_run now u rq i RUNS_TRIGGER db) (\<lambda>r0 db.
       if api_key_id u \<noteq> None \<and> triggered_by_api_key_id r0 \<noteq> api_key_id u
       then raise_http 403 ''An API key may only cancel runs it triggered''
              (denied_run now u rq (Some i) (Some (project_id r0)) [(vkey ''reason'', Str ''api keys may only cancel their own runs'')] db)
       else let db = mid db in
       (case get_run db i of
          None \<Rightarrow> crash db
        | Some r \<Rightarrow>
            if status r \<in> set FINISHED_STATUSES
            then raise_http 409 (''Run #'' @ show_int i @ '' has already finished ('' @ status_text (status r) @ '')'') db
            else if cancel_requested_at r \<noteq> None then (db, Inr r)
            else let db = cancel_locked e now clock u rq r db in (db, Inr (the (get_run db i)))))"

end
