(* ===== verification/Run_Facts.thy ===== *)
theory Run_Facts
  imports Run_Api Refresh_Facts Git_Facts Output_Facts
begin

text \<open>
  What starting and cancelling a run promise: who may do it, that everything a run uses is of one
  project the caller may use, and that a refused request changes no job.
\<close>

section \<open>Handlers step by step\<close>

lemma and_then_Inr: "and_then x k = (db', Inr b) \<longleftrightarrow> (\<exists>d a. x = (d, Inr a) \<and> k a d = (db', Inr b))"
  by (cases "(x, k)" rule: and_then.cases) auto

lemma and_then_Inl: "and_then x k = (db', Inl e) \<longleftrightarrow> x = (db', Inl e) \<or> (\<exists>d a. x = (d, Inr a) \<and> k a d = (db', Inl e))"
  by (cases "(x, k)" rule: and_then.cases) auto

text \<open>A handler that only reads.\<close>

lemma and_then_reads: "fst x = db \<Longrightarrow> (\<And>a. snd x = Inr a \<Longrightarrow> fst (k a db) = db) \<Longrightarrow> fst (and_then x k) = db"
  by (cases "(x, k)" rule: and_then.cases) auto

lemma readsD: "fst x = db \<Longrightarrow> x = (d, r) \<Longrightarrow> d = db"
  by simp

lemma require_reads [simp]: "fst (require ok c m db) = db" "fst (crash db) = db"
  by (simp_all add: require_def crash_def)

lemma require_iff: "require ok c m db = (d, Inr u) \<longleftrightarrow> ok \<and> d = db" "require ok c m db = (d, Inl e) \<longleftrightarrow> \<not> ok \<and> d = db \<and> e = HTTPException c m"
  by (auto simp: require_def)

lemma get_scoped_Inr:
  "get_scoped get project now u rq i p nf db = (d, Inr x) \<longleftrightarrow> d = db \<and> get db i = Some x \<and> p \<in> project_permissions db u (project x)"
  by (auto simp: get_scoped_def Let_def hidden_def deny_def split: option.splits if_splits)

text \<open>The tables of jobs and installs.\<close>

definition job_part :: "database \<Rightarrow> run list \<times> refresh list \<times> lint_job list \<times> host_key_scan list \<times> galaxy_install list" where
  "job_part db = (runs db, refreshes db, lints db, scans db, installs db)"

text \<open>The sequences the ids of jobs are drawn from.\<close>

definition id_part :: "database \<Rightarrow> key_id \<times> key_id \<times> key_id \<times> key_id" where
  "id_part db = (next_run_id db, next_refresh_id db, next_lint_id db, next_scan_id db)"

lemma id_part_deliveries [simp]: "id_part (fold (insert_delivery now ev data k) chs db) = id_part db"
  by (induction chs arbitrary: db) (simp_all add: insert_delivery_def Let_def id_part_def)

lemma id_part_emit [simp]: "id_part (emit_known now event pid data key db) = id_part db"
  by (auto simp: emit_known_def emit_def Let_def split: option.splits)

lemma id_part_audit [simp]: "id_part (audit_record now a db) = id_part db"
proof -
  have "id_part (from_audit now x d) = id_part d" for x d
    by (simp add: from_audit_def attack_def admin_change_def Let_def)
  moreover have "id_part (d\<lparr>audit_events := x\<rparr>) = id_part d" for d x by (simp add: id_part_def)
  ultimately show ?thesis by (simp add: audit_record_def Let_def)
qed

definition quiet :: "database \<Rightarrow> database \<Rightarrow> bool" where
  "quiet db d \<longleftrightarrow> job_part d = job_part db \<and> static_part d = static_part db \<and> id_part d = id_part db"

lemma quiet_refl [simp]: "quiet db db"
  by (simp add: quiet_def)

lemma quiet_audit [simp]: "quiet db (audit_record now a db)"
  by (simp add: quiet_def job_part_def)

lemma get_scoped_Inl: "get_scoped get project now u rq i p nf db = (d, Inl x) \<Longrightarrow> quiet db d"
  by (auto simp: get_scoped_def Let_def hidden_def deny_def record_denial_def split: option.splits if_splits)

lemma and_then_quiet:
  assumes "and_then x k = (d', Inl e')" and "\<And>d e. x = (d, Inl e) \<Longrightarrow> quiet db d" and "\<And>d a. x = (d, Inr a) \<Longrightarrow> d = db"
    and "\<And>a d e. k a db = (d, Inl e) \<Longrightarrow> quiet db d"
  shows "quiet db d'"
  using assms by (auto simp: and_then_Inl)

section \<open>Starting a run\<close>

lemma pin_snapshot_db: "pin_snapshot w pb db = (d, r) \<Longrightarrow> d = db"
  by (auto simp: pin_snapshot_def crash_def split: option.splits if_splits sum.splits sync_failure.splits)

lemma run_playbook_Inr:
  assumes "run_playbook w now u rq p db = (d, Inr (pb, git, can))"
  shows "d = db \<and> get_row pb_id (playbooks db) (rc_playbook_id p) = Some pb \<and>
    RUNS_TRIGGER \<in> project_permissions db u (pb_project_id pb) \<and>
    can = (RUNS_BECOME \<in> project_permissions db u (pb_project_id pb)) \<and>
    (rc_become p \<or> become_vars (rc_extra_vars p) \<noteq> [] \<longrightarrow> can) \<and>
    (git = None \<longleftrightarrow> pb_source_id pb = None) \<and> (\<forall>g. git = Some g \<longrightarrow> pin_snapshot w pb db = (db, Inr g))"
  using assms pin_snapshot_db [of w pb db]
  by (auto simp: run_playbook_def and_then_Inr get_scoped_Inr Let_def denied_become_def map_sum_def
      split: if_splits prod.splits sum.splits dest: pin_snapshot_db)

lemma run_playbook_Inl: "run_playbook w now u rq p db = (d, Inl x) \<Longrightarrow> quiet db d"
  by (auto simp: run_playbook_def and_then_Inl get_scoped_Inr Let_def denied_become_def denied_run_def
      split: if_splits prod.splits dest: get_scoped_Inl pin_snapshot_db)

lemma run_group_reads: "fst (run_group p db) = db"
  by (auto simp: run_group_def split: option.split prod.split)

lemma pin_inventory_reads: "fst (pin_inventory e a iv grp gn refreshing db) = db"
proof -
  have "fst (current_snapshot iv refreshing db) = db" by (simp add: current_snapshot_def split: option.split)
  then show ?thesis unfolding pin_inventory_def Let_def
    by (intro and_then_reads) (auto intro!: and_then_reads split: sum.split)
qed

lemma pin_inventory_Inr:
  assumes "pin_inventory e a iv grp gn refreshing db = (d, Inr (st, target, snap))"
  shows "st = static_data iv \<and> static_problems a st = [] \<and> current_snapshot iv refreshing db = (db, Inr snap) \<and>
    (\<exists>g. merge st (map_option sn_data snap) = Inr g \<and> (target = None \<or> the target \<in> fst ` set (gr_groups g) \<or> refreshing))"
proof -
  obtain snap' d1 where c: "current_snapshot iv refreshing db = (d1, Inr snap')"
    using assms by (auto simp: pin_inventory_def and_then_Inr)
  moreover have "d1 = db" using c by (auto simp: current_snapshot_def split: option.splits if_splits)
  ultimately show ?thesis using assms
    by (cases "merge (static_data iv) (map_option sn_data snap')")
      (auto simp: pin_inventory_def Let_def and_then_Inr require_iff crash_def)
qed

lemma run_inventory_Inr:
  assumes "run_inventory e a now u rq p pb db = (d, Inr ip)"
  shows "d = db \<and> get_row i_id (inventories db) (rc_inventory_id p) = Some (ip_inventory ip) \<and>
    i_project_id (ip_inventory ip) = pb_project_id pb \<and> CONTENT_READ \<in> project_permissions db u (pb_project_id pb) \<and>
    run_limit_problem u (pb_id pb) (i_id (ip_inventory ip)) = None \<and>
    ip_static ip = static_data (ip_inventory ip) \<and> (ip_refresh ip \<longrightarrow> has_sources db (i_id (ip_inventory ip)))"
proof -
  obtain iv where iv: "get_row i_id (inventories db) (rc_inventory_id p) = Some iv" "i_project_id iv = pb_project_id pb"
    "CONTENT_READ \<in> project_permissions db u (pb_project_id pb)" "run_limit_problem u (pb_id pb) (i_id iv) = None"
    using assms by (auto simp: run_inventory_def and_then_Inr get_scoped_Inr require_same_project_def require_iff split: option.splits)
  have "get_scoped (\<lambda>d. get_row i_id (inventories d)) i_project_id now u (Some rq) (rc_inventory_id p) CONTENT_READ ''Inventory not found'' db = (db, Inr iv)"
    using iv by (simp add: get_scoped_Inr)
  then obtain grp where g: "run_group p db = (db, Inr grp)"
    using assms iv readsD [OF run_group_reads]
    by (auto simp: run_inventory_def require_same_project_def require_def and_then_Inr)
  let ?ref = "(case rc_refresh_first p of None \<Rightarrow> i_refresh_before_run iv | Some b \<Rightarrow> b) \<and> has_sources db (i_id iv)"
  obtain st tg sn where pin: "pin_inventory e a iv grp (rc_group_name p) ?ref db = (db, Inr (st, tg, sn))"
    "ip_inventory ip = iv" "ip_static ip = st" "ip_refresh ip = ?ref" "d = db"
    using assms iv g readsD [OF pin_inventory_reads]
    by (auto simp: run_inventory_def require_same_project_def require_def and_then_Inr get_scoped_Inr Let_def)
  have "st = static_data iv"
    using pin_inventory_Inr [OF pin(1)] by simp
  then show ?thesis using iv pin by simp
qed

lemma run_inventory_Inl: "run_inventory e a now u rq p pb db = (d, Inl x) \<Longrightarrow> quiet db d"
  using readsD [OF run_group_reads] readsD [OF pin_inventory_reads]
  by (fastforce simp: run_inventory_def and_then_Inl and_then_Inr get_scoped_Inr require_same_project_def require_iff Let_def denied_run_def
      split: option.splits dest: get_scoped_Inl)

lemma get_credential_Inr:
  "get_credential now u rq pid i db = (d, Inr c) \<longleftrightarrow>
     d = db \<and> get_row c_id (credentials db) i = Some c \<and> c_project_id c = pid \<and> SECRETS_LIST \<in> project_permissions db u pid"
  by (auto simp: get_credential_def and_then_Inr get_scoped_Inr require_same_project_def require_iff)

lemma get_credential_Inl: "get_credential now u rq pid i db = (d, Inl x) \<Longrightarrow> quiet db d"
  by (auto simp: get_credential_def and_then_Inl get_scoped_Inr require_same_project_def require_iff dest: get_scoped_Inl)

lemma run_vault_Inr:
  "run_vault now u rq pid vid db = (d, Inr v) \<Longrightarrow>
     d = db \<and> map_option v_id v = vid \<and> (\<forall>x. v = Some x \<longrightarrow> x \<in> set (vault_passwords db) \<and> v_project_id x = pid)"
  by (auto simp: run_vault_def and_then_Inr get_scoped_Inr require_same_project_def require_iff split: option.splits dest: get_row_Some)

lemma run_vault_Inl: "run_vault now u rq pid vid db = (d, Inl x) \<Longrightarrow> quiet db d"
  by (auto simp: run_vault_def and_then_Inl get_scoped_Inr require_same_project_def require_iff split: option.splits dest: get_scoped_Inl)

lemma get_env_credentials_Inr:
  "get_env_credentials now u rq pid is db = (d, Inr cs) \<Longrightarrow>
     d = db \<and> map c_id cs = is \<and> (\<forall>c \<in> set cs. c \<in> set (credentials db) \<and> c_project_id c = pid \<and> c_kind c = ''env'')"
  by (induction "is" arbitrary: d cs)
    (auto simp: and_then_Inr get_credential_Inr require_iff dest: get_row_Some)

lemma get_env_credentials_Inl: "get_env_credentials now u rq pid is db = (d, Inl x) \<Longrightarrow> quiet db d"
  by (induction "is" arbitrary: d)
    (auto simp: and_then_Inl get_credential_Inr require_iff dest: get_credential_Inl get_env_credentials_Inr)

lemma check_env_names_reads: "fst (check_env_names_from known cs db) = db"
  by (induction cs arbitrary: known) (simp_all split: sum.split prod.split)

lemma run_secrets_Inr:
  assumes "run_secrets e now u rq p pid db = (d, Inr (c, v, cs))"
  shows "d = db \<and> get_row c_id (credentials db) (rc_credential_id p) = Some c \<and> c_project_id c = pid \<and>
    SECRETS_LIST \<in> project_permissions db u pid \<and> run_credential_problem e c = None \<and>
    map_option v_id v = rc_vault_password_id p \<and> (\<forall>x. v = Some x \<longrightarrow> x \<in> set (vault_passwords db) \<and> v_project_id x = pid) \<and>
    map c_id cs = from_keys (rc_env_credential_ids p) \<and>
    (\<forall>x \<in> set cs. x \<in> set (credentials db) \<and> c_project_id x = pid \<and> c_kind x = ''env'')"
proof -
  have c: "get_credential now u rq pid (rc_credential_id p) db = (db, Inr c)" "run_credential_problem e c = None"
    using assms by (auto simp: run_secrets_def and_then_Inr get_credential_Inr split: option.splits)
  then have v: "run_vault now u rq pid (rc_vault_password_id p) db = (db, Inr v)"
    using assms run_vault_Inr by (fastforce simp: run_secrets_def and_then_Inr split: option.splits)
  have cs: "get_env_credentials now u rq pid (from_keys (rc_env_credential_ids p)) db = (db, Inr cs)" "d = db"
    using assms c v readsD [OF check_env_names_reads] get_env_credentials_Inr
    by (fastforce simp: run_secrets_def check_env_names_def and_then_Inr split: option.splits)+
  show ?thesis
    using c run_vault_Inr [OF v] get_env_credentials_Inr [OF cs(1)] cs(2) by (simp add: get_credential_Inr)
qed

lemma run_secrets_Inl: "run_secrets e now u rq p pid db = (d, Inl x) \<Longrightarrow> quiet db d"
  using readsD [OF check_env_names_reads]
  by (fastforce simp: run_secrets_def check_env_names_def and_then_Inl and_then_Inr get_credential_Inr split: option.splits
      dest: get_credential_Inl run_vault_Inl run_vault_Inr get_env_credentials_Inl get_env_credentials_Inr)

lemma run_text_reads: "fst (run_text e enc w pb git db) = db"
  by (simp add: run_text_def split: option.split)

lemma run_text_db: "run_text e enc w pb git db = (d, x) \<Longrightarrow> d = db"
  by (rule readsD [OF run_text_reads])

text \<open>What a caller may start: the run's project gives all it needs, and everything is of that project.\<close>

definition run_allowed :: "database \<Rightarrow> user \<Rightarrow> run \<Rightarrow> bool" where
  "run_allowed db u r \<longleftrightarrow>
     (let pid = project_id r; perms = project_permissions db u pid in
      {RUNS_TRIGGER, CONTENT_READ, SECRETS_LIST} \<subseteq> perms \<and>
      (\<exists>pb \<in> set (playbooks db). \<exists>iv \<in> set (inventories db).
         playbook_id r = Some (pb_id pb) \<and> pb_project_id pb = pid \<and>
         inventory_id r = Some (i_id iv) \<and> i_project_id iv = pid \<and> inventory_static r = Some (static_data iv) \<and>
         run_limit_problem u (pb_id pb) (i_id iv) = None) \<and>
      (\<exists>c \<in> set (credentials db). credential_id r = Some (c_id c) \<and> c_project_id c = pid \<and> c_kind c \<in> {''ssh'', ''ssh_cert''}) \<and>
      (\<forall>i. vault_password_id r = Some i \<longrightarrow> (\<exists>v \<in> set (vault_passwords db). v_id v = i \<and> v_project_id v = pid)) \<and>
      (\<forall>is. env_credential_ids r = Some is \<longrightarrow>
         (\<forall>i \<in> set is. \<exists>c \<in> set (credentials db). c_id c = i \<and> c_project_id c = pid \<and> c_kind c = ''env'')) \<and>
      (become r \<or> become_vars (extra_vars r) \<noteq> [] \<longrightarrow> RUNS_BECOME \<in> perms) \<and>
      (become_blocked r \<longleftrightarrow> RUNS_BECOME \<notin> perms))"

lemma new_run_columns [simp]:
  fixes now u p pb git can ip c v cs t i
  defines "r \<equiv> new_run now u p pb git can ip c v cs t i"
  shows "row_id r = i" "status r = QUEUED" "project_id r = pb_project_id pb" "playbook_id r = Some (pb_id pb)"
    "inventory_id r = Some (i_id (ip_inventory ip))" "inventory_static r = Some (ip_static ip)"
    "credential_id r = Some (c_id c)" "vault_password_id r = map_option v_id v" "env_credential_ids r = or_none (map c_id cs)"
    "become r = rc_become p" "extra_vars r = rc_extra_vars p" "become_blocked r = (\<not> can)"
    "triggered_by r = username u" "triggered_by_api_key_id r = api_key_id u" "waiting_refresh_id r = None" "refresh_first r = False"
  by (simp_all add: r_def new_run_def blank_run_def)

lemma queue_run_steps:
  assumes "queue_run e a enc w now mid u rq p detail db = (db', Inr r)"
  shows "\<exists>pb git can ip c v cs t.
    run_playbook w now u rq p db = (db, Inr (pb, git, can)) \<and> run_inventory e a now u rq p pb db = (db, Inr ip) \<and>
    run_secrets e now u rq p (pb_project_id pb) db = (db, Inr (c, v, cs)) \<and> run_text e enc w pb git db = (db, Inr t) \<and>
    (if ip_refresh ip
     then \<exists>f d. refresh_for_run e now mid (ip_inventory ip) (username u) db = (d, Inr f) \<and>
            insert_run now u rq p detail ((new_run now u p pb git can ip c v cs t (next_run_id db))
              \<lparr>row_id := next_run_id d, refresh_first := True, waiting_refresh_id := Some f\<rparr>) d = (db', Inr r)
     else insert_run now u rq p detail (new_run now u p pb git can ip c v cs t (next_run_id db)) db = (db', Inr r))"
proof -
  obtain d pb git can where pb: "run_playbook w now u rq p db = (d, Inr (pb, git, can))"
    using assms by (auto simp: queue_run_def and_then_Inr)
  then have "d = db" using run_playbook_Inr by blast
  note pb = pb [unfolded this]
  obtain d ip where ip: "run_inventory e a now u rq p pb db = (d, Inr ip)"
    using assms pb by (auto simp: queue_run_def and_then_Inr)
  then have "d = db" using run_inventory_Inr by blast
  note ip = ip [unfolded this]
  obtain d c v cs where sec: "run_secrets e now u rq p (pb_project_id pb) db = (d, Inr (c, v, cs))"
    using assms pb ip by (auto simp: queue_run_def and_then_Inr)
  then have "d = db" using run_secrets_Inr by blast
  note sec = sec [unfolded this]
  obtain d t where t: "run_text e enc w pb git db = (d, Inr t)" using assms pb ip sec by (auto simp: queue_run_def and_then_Inr)
  then have "d = db" using readsD [OF run_text_reads] by blast
  note t = t [unfolded this]
  note q = assms [unfolded queue_run_def pb and_then.simps prod.case ip sec t Let_def]
  show ?thesis
    by (intro exI [of _ pb] exI [of _ git] exI [of _ can] exI [of _ ip] exI [of _ c] exI [of _ v] exI [of _ cs] exI [of _ t]
        conjI pb ip sec t) (use q in \<open>simp add: and_then_Inr split: if_splits; blast\<close>)
qed

lemma refresh_for_run_Inr:
  assumes "refresh_for_run e now mid iv name db = (d, Inr f)" and "has_sources db (i_id iv)"
    and "\<And>x. runs (mid x) = runs x \<and> next_run_id (mid x) = next_run_id x"
  shows "runs d = runs db \<and> next_run_id d = next_run_id db \<and> (\<exists>x \<in> set (refreshes d). row_id x = f \<and> queued_for (i_id iv) x)"
proof -
  have ins: "insert_refresh e now iv tr who sc x = (y, z) \<Longrightarrow>
      runs y = runs x \<and> next_run_id y = next_run_id x \<and> (\<forall>i. z = Some i \<longrightarrow> (\<exists>q \<in> set (refreshes y). row_id q = i \<and> queued_for (i_id iv) q))"
    for tr who sc x y z
    by (auto simp: insert_refresh_def Let_def queued_for_def split: if_splits)
  have touch: "next_run_id (touch_sources now i sc x) = next_run_id x" "next_run_id (put_refresh q x) = next_run_id x" for i sc x q
    by (simp_all add: touch_sources_def put_refresh_def)
  have enq: "enqueue_refresh e now mid iv tr who sc db = (y, z) \<Longrightarrow>
      runs y = runs db \<and> next_run_id y = next_run_id db \<and> (\<forall>i. z = Some i \<longrightarrow> (\<exists>q \<in> set (refreshes y). row_id q = i \<and> queued_for (i_id iv) q))"
    for tr who sc y z
    using assms(2,3) ins
    by (auto simp: enqueue_refresh_def Let_def touch split: prod.splits option.splits if_splits)
  show ?thesis
  proof (cases "enqueue_refresh e now mid iv ''run'' (Some name) None db")
    case (Pair y z)
    then show ?thesis using assms(1) enq [OF Pair]
      by (cases z) (auto simp: refresh_for_run_def split: option.splits dest!: find_SomeD)
  qed
qed

lemma run_credential_kind: "run_credential_problem e c = None \<Longrightarrow> c_kind c \<in> {''ssh'', ''ssh_cert''}"
  by (auto simp: run_credential_problem_def split: if_splits)

lemma new_run_allowed:
  assumes "run_playbook w now u rq p db = (db, Inr (pb, git, can))" and "run_inventory e a now u rq p pb db = (db, Inr ip)"
    and "run_secrets e now u rq p (pb_project_id pb) db = (db, Inr (c, v, cs))"
  shows "run_allowed db u (new_run now u p pb git can ip c v cs t i)"
proof -
  note pb = run_playbook_Inr [OF assms(1)] and ip = run_inventory_Inr [OF assms(2)] and sec = run_secrets_Inr [OF assms(3)]
  have "pb \<in> set (playbooks db)" "ip_inventory ip \<in> set (inventories db)" "c \<in> set (credentials db)"
    using pb ip sec by (auto dest: get_row_Some)
  moreover have "\<forall>x \<in> set cs. x \<in> set (credentials db) \<and> c_project_id x = pb_project_id pb \<and> c_kind x = ''env''" using sec by blast
  then have "\<forall>j \<in> set (map c_id cs). \<exists>x \<in> set (credentials db). c_id x = j \<and> c_project_id x = pb_project_id pb \<and> c_kind x = ''env''"
    by auto
  moreover have "\<forall>j. map_option v_id v = Some j \<longrightarrow> (\<exists>x \<in> set (vault_passwords db). v_id x = j \<and> v_project_id x = pb_project_id pb)"
    using sec by (cases v) blast+
  ultimately show ?thesis
    using pb ip sec run_credential_kind [of e c] unfolding run_allowed_def Let_def new_run_columns or_none_def
    by (auto split: if_splits)
qed


lemma queue_run_quiet:
  assumes "queue_run e a enc w now mid u rq p detail db = (db', Inl err)"
  shows "quiet db db'"
proof -
  have ref: "refresh_for_run e now mid iv name d = (d', Inl x) \<Longrightarrow> d' = d" for iv name d d' x
    by (auto simp: refresh_for_run_def split: prod.splits option.splits)
  show ?thesis
    using assms unfolding queue_run_def
  proof (rule and_then_quiet, goal_cases)
    case (3 x d err)
    obtain pb git can where x: "x = (pb, git, can)" by (metis prod_cases3)
    show ?case using 3 unfolding x prod.case
    proof (rule and_then_quiet, goal_cases)
      case (3 ip d err)
      then show ?case
      proof (rule and_then_quiet, goal_cases)
        case (3 y d err)
        obtain c v cs where y: "y = (c, v, cs)" by (metis prod_cases3)
        show ?case using 3 unfolding y prod.case
        proof (rule and_then_quiet, goal_cases)
          case (3 t d err)
          then show ?case by (auto simp: Let_def insert_run_def and_then_Inl split: if_splits dest: ref)
        qed (auto dest: run_text_db)
      qed (auto dest: run_secrets_Inl run_secrets_Inr)
    qed (auto dest: run_inventory_Inl run_inventory_Inr)
  qed (auto dest: run_playbook_Inl run_playbook_Inr)
qed

text \<open>
  A refused request to start a run changes no job, no user, project, secret or inventory, and draws
  no id: at most audit events (and the notifications they cause) are written.
\<close>

theorem queue_run_refused:
  assumes "queue_run e a enc w now mid u rq p detail db = (db', Inl err)"
  shows "runs db' = runs db \<and> refreshes db' = refreshes db \<and> lints db' = lints db \<and> scans db' = scans db \<and>
    static_part db' = static_part db \<and> next_run_id db' = next_run_id db"
  using queue_run_quiet [OF assms] by (simp add: quiet_def job_part_def id_part_def)

section \<open>Cancelling\<close>

lemma cancel_locked_run:
  assumes "get_run db i = Some r"
  shows "\<exists>out. get_run (cancel_locked e now clock u rq r db) i = Some out \<and>
    (\<forall>j. j \<noteq> i \<longrightarrow> get_run (cancel_locked e now clock u rq r db) j = get_run db j) \<and>
    (if status r = QUEUED then status out = CANCELLED \<and> claim_token_hash out = None
     else out = r\<lparr>cancel_requested_at := Some now, cancel_requested_by := Some (username u)\<rparr>)"
proof -
  let ?r1 = "r\<lparr>cancel_requested_at := Some now, cancel_requested_by := Some (username u)\<rparr>"
  let ?why = "''cancelled by '' @ username u @ '' before it started''"
  have id: "row_id r = i" using assms by (auto simp: get_run_def dest: get_row_Some)
  obtain r2 where r2: "runs (fail_run e now clock CANCELLED ?why ?r1 db) = runs (put_run r2 db)"
    "row_id r2 = i" "status r2 = CANCELLED" "claim_token_hash r2 = None"
    using fail_run_runs [of e now clock CANCELLED ?why ?r1 db] id by auto
  let ?out = "if status r = QUEUED then r2 else ?r1"
  have "runs (cancel_locked e now clock u rq r db) = runs (put_run ?out db)"
    using r2(1) by (simp add: cancel_locked_def Let_def)
  then have "get_run (cancel_locked e now clock u rq r db) j = get_run (put_run ?out db) j" for j by (rule get_run_of_runs)
  then show ?thesis using assms r2 id by (intro exI [of _ ?out]) (simp add: get_put_run)
qed

text \<open>
  Cancelling: the caller may trigger runs in the run's project, and a key only cancels what it
  started. A queued run ends at once and holds no claim; a running one keeps its claim and is only
  marked; one already marked, or finished, is left alone. No other run changes.
\<close>

theorem cancel_run_outcome:
  assumes "get_run db i = Some r0" and "get_run (mid db) i = Some r"
    and "cancel_run e now clock mid u rq i db = (db', res)"
  shows "(case res of
       Inl x \<Rightarrow> runs db' = runs db \<or> runs db' = runs (mid db) \<and> status r \<in> set FINISHED_STATUSES
     | Inr out \<Rightarrow>
         RUNS_TRIGGER \<in> project_permissions db u (project_id r0) \<and>
         (api_key_id u = None \<or> triggered_by_api_key_id r0 = api_key_id u) \<and> status r \<notin> set FINISHED_STATUSES \<and>
         get_run db' i = Some out \<and> (\<forall>j. j \<noteq> i \<longrightarrow> get_run db' j = get_run (mid db) j) \<and>
         (if cancel_requested_at r \<noteq> None then out = r
          else if status r = QUEUED then status out = CANCELLED \<and> claim_token_hash out = None
          else out = r\<lparr>cancel_requested_at := Some now, cancel_requested_by := Some (username u)\<rparr>))"
proof (cases "RUNS_TRIGGER \<in> project_permissions db u (project_id r0) \<and> (api_key_id u = None \<or> triggered_by_api_key_id r0 = api_key_id u)")
  case False
  have "\<exists>x. res = Inl x \<and> runs db' = runs db"
  proof (cases "RUNS_TRIGGER \<in> project_permissions db u (project_id r0)")
    case True
    then have "get_scoped_run now u rq i RUNS_TRIGGER db = (db, Inr r0)" using assms(1) by (simp add: get_scoped_Inr)
    then show ?thesis using assms(3) True False by (auto simp: cancel_run_def denied_run_def)
  next
    case False
    then obtain d x where g: "get_scoped_run now u rq i RUNS_TRIGGER db = (d, Inl x)"
      using assms(1) by (cases "get_scoped_run now u rq i RUNS_TRIGGER db"; cases "snd (get_scoped_run now u rq i RUNS_TRIGGER db)")
        (auto simp: get_scoped_Inr)
    then show ?thesis using assms(3) get_scoped_Inl [OF g] by (auto simp: cancel_run_def quiet_def job_part_def)
  qed
  then show ?thesis by auto
next
  case True
  then have "get_scoped_run now u rq i RUNS_TRIGGER db = (db, Inr r0)" using assms(1) by (simp add: get_scoped_Inr)
  note c = assms(3) [unfolded cancel_run_def this and_then.simps Let_def assms(2) option.case]
  obtain out where out: "get_run (cancel_locked e now clock u rq r (mid db)) i = Some out"
    "\<forall>j. j \<noteq> i \<longrightarrow> get_run (cancel_locked e now clock u rq r (mid db)) j = get_run (mid db) j"
    "if status r = QUEUED then status out = CANCELLED \<and> claim_token_hash out = None
     else out = r\<lparr>cancel_requested_at := Some now, cancel_requested_by := Some (username u)\<rparr>"
    using cancel_locked_run [OF assms(2)] by blast
  consider "status r \<in> set FINISHED_STATUSES" | "status r \<notin> set FINISHED_STATUSES" "cancel_requested_at r \<noteq> None" |
    "status r \<notin> set FINISHED_STATUSES" "cancel_requested_at r = None" by blast
  then show ?thesis
  proof cases
    case 1
    then have "db' = mid db" "\<exists>x. res = Inl x" using c True by auto
    then show ?thesis using 1 by auto
  next
    case 2
    then have "db' = mid db" "res = Inr r" using c True by auto
    then show ?thesis using 2 True assms(2) by simp
  next
    case 3
    then have "db' = cancel_locked e now clock u rq r (mid db)" "res = Inr out" using c True out(1) by auto
    then show ?thesis using 3 True out by simp
  qed
qed

section \<open>Witnesses\<close>

text \<open>An API key of project 7 starts a run; it may not become.\<close>

definition key_playbook :: playbook where
  "key_playbook = \<lparr>pb_id = 1, pb_name = ''site'', pb_project_id = 7, pb_updated_at = 0, pb_source_id = None, pb_repo_path = None, pb_missing_at = None\<rparr>"

definition key_inventory :: inventory where
  "key_inventory = sample_inventory\<lparr>i_project_id := 7\<rparr>"

definition key_credential :: credential where
  "key_credential = \<lparr>c_id = 3, c_name = ''k'', c_kind = ''ssh'', c_env_names = None, c_store_path = None, c_store_key = None,
     c_ssh_mount = None, c_project_id = 7\<rparr>"

definition run_db :: database where
  "run_db = empty_db\<lparr>playbooks := [key_playbook], inventories := [key_inventory], credentials := [key_credential],
     playbook_files := (\<lambda>_. Some ''- hosts: all''), next_run_id := 20\<rparr>"

definition key_request :: request where
  "key_request = \<lparr>rq_method = ''POST'', rq_path = ''/runs'', rq_ip = ''::1'', rq_cookie = None\<rparr>"

definition run_request :: run_create where
  "run_request =
     \<lparr>rc_playbook_id = 1, rc_inventory_id = 2, rc_group_id = None, rc_group_name = None, rc_credential_id = 3, rc_vault_password_id = None,
      rc_become = False, rc_check_mode = False, rc_diff_mode = False, rc_limit = None, rc_extra_vars = None, rc_timeout_seconds = 60,
      rc_refresh_first = None, rc_env_credential_ids = []\<rparr>"

lemma run_db_columns [simp]:
  "playbooks run_db = [key_playbook]" "inventories run_db = [key_inventory]" "credentials run_db = [key_credential]"
  "sources run_db = []" "runs run_db = []" "next_run_id run_db = 20" "playbook_files run_db i = Some ''- hosts: all''"
  by (simp_all add: run_db_def empty_db_def)

lemma key_columns [simp]:
  "pb_id key_playbook = 1" "pb_project_id key_playbook = 7" "pb_source_id key_playbook = None"
  "i_id key_inventory = 2" "i_project_id key_inventory = 7" "i_hosts key_inventory = []" "i_groups key_inventory = []"
  "i_refresh_before_run key_inventory = False" "c_id key_credential = 3" "c_project_id key_credential = 7" "c_kind key_credential = ''ssh''"
  by (simp_all add: key_playbook_def key_inventory_def key_credential_def sample_inventory_def)

lemma run_request_columns [simp]:
  "rc_playbook_id run_request = 1" "rc_inventory_id run_request = 2" "rc_group_id run_request = None" "rc_group_name run_request = None"
  "rc_credential_id run_request = 3" "rc_vault_password_id run_request = None" "rc_become run_request = False"
  "rc_extra_vars run_request = None" "rc_refresh_first run_request = None" "rc_env_credential_ids run_request = []"
  by (simp_all add: run_request_def)

lemma sample_permissions [simp]:
  "RUNS_TRIGGER \<in> project_permissions db (principal_for sample_key) 7" "CONTENT_READ \<in> project_permissions db (principal_for sample_key) 7"
  "SECRETS_LIST \<in> project_permissions db (principal_for sample_key) 7" "RUNS_BECOME \<notin> project_permissions db (principal_for sample_key) 7"
  by (simp_all add: project_permissions_def sample_key_def role_defs)

lemma sample_queue_run:
  "\<exists>db' r. queue_run sample_env sample_names id sample_world 5 id (principal_for sample_key) key_request run_request [] run_db = (db', Inr r)"
proof -
  let ?u = "principal_for sample_key"
  have row: "get_row pb_id (playbooks run_db) 1 = Some key_playbook" "get_row i_id (inventories run_db) 2 = Some key_inventory"
    "get_row c_id (credentials run_db) 3 = Some key_credential" by (simp_all add: get_row_def)
  have "get_scoped (\<lambda>d. get_row pb_id (playbooks d)) pb_project_id 5 ?u (Some key_request) 1 RUNS_TRIGGER ''Playbook not found'' run_db = (run_db, Inr key_playbook)"
    using row by (simp add: get_scoped_Inr)
  then have pb: "run_playbook sample_world 5 ?u key_request run_request run_db = (run_db, Inr (key_playbook, None, False))"
    by (simp add: run_playbook_def become_vars_def)
  have "get_scoped (\<lambda>d. get_row i_id (inventories d)) i_project_id 5 ?u (Some key_request) 2 CONTENT_READ ''Inventory not found'' run_db = (run_db, Inr key_inventory)"
    using row by (simp add: get_scoped_Inr)
  moreover have lim: "run_limit_problem ?u 1 2 = None" by (simp add: run_limit_problem_def principal_for_def sample_key_def)
  moreover have "pin_inventory sample_env sample_names key_inventory None None False run_db = (run_db, Inr (static_data key_inventory, None, None))"
    by (simp add: pin_inventory_def current_snapshot_def has_sources_def require_def static_problems_def static_data_def merge_def
        sample_env_def MAX_INVENTORY_PIN_BYTES_def)
  ultimately obtain ip where ip: "run_inventory sample_env sample_names 5 ?u key_request run_request key_playbook run_db = (run_db, Inr ip)" "\<not> ip_refresh ip"
    by (simp add: run_inventory_def require_same_project_def require_def run_group_def has_sources_def)
  have "get_credential 5 ?u key_request 7 3 run_db = (run_db, Inr key_credential)" using row by (simp add: get_credential_Inr)
  then have sec: "run_secrets sample_env 5 ?u key_request run_request 7 run_db = (run_db, Inr (key_credential, None, []))"
    by (simp add: run_secrets_def run_credential_problem_def run_vault_def from_keys_def check_env_names_def)
  have t: "run_text sample_env id sample_world key_playbook None run_db = (run_db, Inr (''- hosts: all'', ''#- hosts: all''))"
    by (simp add: run_text_def sample_world_def MAX_PLAYBOOK_SNAPSHOT_BYTES_def sample_env_def)
  show ?thesis by (simp add: queue_run_def pb ip sec t insert_run_def Let_def)
qed


text \<open>The same request with the become flag.\<close>

theorem queue_run_refused_witness:
  "\<exists>db' err. queue_run sample_env sample_names id sample_world 5 id (principal_for sample_key) key_request (run_request\<lparr>rc_become := True\<rparr>) [] run_db =
     (db', Inl err) \<and> runs db' = [] \<and> next_run_id db' = 20"
proof -
  have "\<not> holds_somewhere run_db (principal_for sample_key) RUNS_BECOME"
    by (simp add: holds_somewhere_def sample_key_def role_defs)
  then obtain db' err where "queue_run sample_env sample_names id sample_world 5 id (principal_for sample_key) key_request (run_request\<lparr>rc_become := True\<rparr>) [] run_db = (db', Inl err)"
    by (simp add: queue_run_def run_playbook_def denied_become_def)
  then show ?thesis using queue_run_refused by fastforce
qed

theorem cancel_run_outcome_witness:
  "\<exists>db' out. cancel_run sample_env 5 ''t'' id (sample_member\<lparr>user_role := ''admin''\<rparr>) key_request 11 sample_db = (db', Inr out) \<and>
     get_run db' 11 = Some out \<and> status out = CANCELLED \<and> get_run db' 12 = get_run sample_db 12"
proof -
  let ?u = "sample_member\<lparr>user_role := ''admin''\<rparr>"
  have r: "get_run sample_db 11 = Some (sample_run 11 5)" by (simp add: get_run_def get_row_def sample_defs)
  have u: "RUNS_TRIGGER \<in> project_permissions d ?u p" "api_key_id ?u = None" for d p
    by (simp_all add: project_permissions_def is_global_admin_def ALL_PERMISSIONS_UNIV sample_member_def)
  have s: "status (sample_run 11 5) = QUEUED" "cancel_requested_at (sample_run 11 5) = None" by (simp_all add: sample_defs)
  have "get_scoped_run 5 ?u key_request 11 RUNS_TRIGGER sample_db = (sample_db, Inr (sample_run 11 5))"
    using r u by (simp add: get_scoped_Inr)
  then obtain db' out where c: "cancel_run sample_env 5 ''t'' id ?u key_request 11 sample_db = (db', Inr out)"
    using r s u by (simp add: cancel_run_def Let_def FINISHED_STATUSES_def)
  show ?thesis using c cancel_run_outcome [OF r _ c, of "sample_run 11 5"] r s by auto
qed

end
