(* ===== verification/Job_Moves.thy ===== *)
theory Job_Moves
  imports Run_Facts Refresh_Api
begin

text \<open>
  How the operations on jobs may change them: every handler a worker calls, and the end of a refresh,
  keeps all rows, their ids and owners, and moves a row only from the queue to its end, or from
  running back to the queue or to its end (\<open>moves\<close>); at most it also starts the next galaxy install
  (\<open>works\<close>). None of them draws an id.
\<close>

section \<open>How a row may move\<close>

text \<open>\<open>claim\<close>: a queued row may start; \<open>requeue\<close>: a running one may go back to the queue.\<close>

definition may_move :: "bool \<Rightarrow> bool \<Rightarrow> run_status \<Rightarrow> run_status \<Rightarrow> bool" where
  "may_move claim requeue a b \<longleftrightarrow>
     (a \<in> set FINISHED_STATUSES \<longrightarrow> b = a) \<and> (a = QUEUED \<and> b = RUNNING \<longrightarrow> claim) \<and> (a = RUNNING \<and> b = QUEUED \<longrightarrow> requeue)"

lemma may_move_refl [simp]: "may_move c q a a"
  by (cases a) (simp_all add: may_move_def)

lemma may_move_trans: "may_move c q a b \<Longrightarrow> may_move c q b d \<Longrightarrow> may_move c q a d"
  by (cases a; cases b; cases d) (auto simp: may_move_def FINISHED_STATUSES_def)

lemma may_move_mono: "may_move c q a b \<Longrightarrow> (c \<Longrightarrow> c') \<Longrightarrow> (q \<Longrightarrow> q') \<Longrightarrow> may_move c' q' a b"
  by (auto simp: may_move_def)

lemma may_end: "a \<notin> set FINISHED_STATUSES \<Longrightarrow> b \<in> set FINISHED_STATUSES \<Longrightarrow> may_move c q a b"
  by (cases a; cases b) (simp_all add: may_move_def FINISHED_STATUSES_def)

definition row_moves ::
  "bool \<Rightarrow> bool \<Rightarrow> ('a job_scheme \<Rightarrow> key_id option) \<Rightarrow> 'a job_scheme \<Rightarrow> 'a job_scheme \<Rightarrow> bool" where
  "row_moves c q own r r' \<longleftrightarrow> row_id r' = row_id r \<and> own r' = own r \<and> may_move c q (status r) (status r')"

abbreviation tbl_moves ::
  "bool \<Rightarrow> bool \<Rightarrow> ('a job_scheme \<Rightarrow> key_id option) \<Rightarrow> 'a job_scheme list \<Rightarrow> 'a job_scheme list \<Rightarrow> bool" where
  "tbl_moves c q own \<equiv> list_all2 (row_moves c q own)"

abbreviation refresh_owner :: "refresh \<Rightarrow> key_id option" where
  "refresh_owner \<equiv> \<lambda>f. Some (f_inventory_id f)"

abbreviation lint_owner :: "lint_job \<Rightarrow> key_id option" where
  "lint_owner \<equiv> \<lambda>l. Some (l_requested_by_user_id l)"

abbreviation scan_owner :: "host_key_scan \<Rightarrow> key_id option" where
  "scan_owner \<equiv> \<lambda>s. Some (s_inventory_id s)"

lemma row_moves_refl [simp]: "row_moves c q own r r"
  by (simp add: row_moves_def)

lemma row_moves_trans: "row_moves c q own r r' \<Longrightarrow> row_moves c q own r' r'' \<Longrightarrow> row_moves c q own r r''"
  by (auto simp: row_moves_def intro: may_move_trans)

lemma row_moves_mono: "row_moves c q own r r' \<Longrightarrow> (c \<Longrightarrow> c') \<Longrightarrow> (q \<Longrightarrow> q') \<Longrightarrow> row_moves c' q' own r r'"
  by (auto simp: row_moves_def intro: may_move_mono)

lemma tbl_moves_refl [simp]: "tbl_moves c q own t t"
  by (simp add: list_all2_refl)

lemma tbl_moves_trans: "tbl_moves c q own t t' \<Longrightarrow> tbl_moves c q own t' t'' \<Longrightarrow> tbl_moves c q own t t''"
  by (rule list_all2_trans [of "row_moves c q own" "row_moves c q own" "row_moves c q own"]) (blast intro: row_moves_trans)

lemma tbl_moves_mono: "tbl_moves c q own t t' \<Longrightarrow> (c \<Longrightarrow> c') \<Longrightarrow> (q \<Longrightarrow> q') \<Longrightarrow> tbl_moves c' q' own t t'"
  by (erule list_all2_mono) (rule row_moves_mono)

lemma tbl_moves_update:
  "(\<And>r. r \<in> set t \<Longrightarrow> p r \<Longrightarrow> row_moves c q own r (f r)) \<Longrightarrow> tbl_moves c q own t (update_rows p f t)"
  unfolding update_rows_def by (induction t) auto

lemma tbl_moves_ids: "tbl_moves c q own t t' \<Longrightarrow> map row_id t' = map row_id t"
  by (induction rule: list_all2_induct) (simp_all add: row_moves_def)

lemma tbl_moves_unique_ids: "tbl_moves c q own t t' \<Longrightarrow> unique_ids t \<Longrightarrow> unique_ids t'"
  by (simp add: unique_ids_def tbl_moves_ids)

lemma tbl_moves_row:
  "tbl_moves c q own t t' \<Longrightarrow> r' \<in> set t' \<Longrightarrow> \<exists>r \<in> set t. row_moves c q own r r'"
  by (induction rule: list_all2_induct) auto

lemma tbl_moves_running:
  assumes "tbl_moves False q own t t'" and "r' \<in> set t'" and "status r' = RUNNING"
  shows "\<exists>r \<in> set t. status r = RUNNING \<and> row_id r = row_id r' \<and> own r = own r'"
proof -
  obtain r where r: "r \<in> set t" "row_moves False q own r r'" using tbl_moves_row [OF assms(1,2)] by blast
  then have "status r = RUNNING" using assms(3)
    by (cases "status r") (auto simp: row_moves_def may_move_def FINISHED_STATUSES_def)
  then show ?thesis using r by (auto simp: row_moves_def)
qed

lemma tbl_moves_busy: "tbl_moves False q own t t' \<Longrightarrow> busy t' \<Longrightarrow> busy t"
  unfolding busy_def using tbl_moves_running by blast

lemma tbl_moves_unique_running:
  assumes "tbl_moves False q own t t'" and "unique_running own t"
  shows "unique_running own t'"
  unfolding unique_running_def
proof (intro ballI impI notI)
  fix r' assume r': "r' \<in> set t'" "status r' = RUNNING" and "running_conflict own t' r'"
  then obtain x' where x': "x' \<in> set t'" "status x' = RUNNING" "row_id x' \<noteq> row_id r'" "own x' \<noteq> None" "own x' = own r'"
    unfolding running_conflict_def by blast
  obtain r where "r \<in> set t" "status r = RUNNING" "row_id r = row_id r'" "own r = own r'"
    using tbl_moves_running [OF assms(1) r'] by blast
  moreover obtain x where "x \<in> set t" "status x = RUNNING" "row_id x = row_id x'" "own x = own x'"
    using tbl_moves_running [OF assms(1) x'(1,2)] by blast
  ultimately show False using assms(2) x' unfolding unique_running_def running_conflict_def by metis
qed

section \<open>How the database may move\<close>

definition moves :: "bool \<Rightarrow> database \<Rightarrow> database \<Rightarrow> bool" where
  "moves c db db' \<longleftrightarrow>
     tbl_moves c True inventory_id (runs db) (runs db') \<and> tbl_moves c True refresh_owner (refreshes db) (refreshes db') \<and>
     tbl_moves c True lint_owner (lints db) (lints db') \<and> tbl_moves c True scan_owner (scans db) (scans db')"

lemma moves_same:
  "runs db' = runs db \<Longrightarrow> refreshes db' = refreshes db \<Longrightarrow> lints db' = lints db \<Longrightarrow> scans db' = scans db \<Longrightarrow> moves c db db'"
  by (simp add: moves_def)

lemma moves_refl [simp]: "moves c db db"
  by (simp add: moves_def)

lemma moves_trans: "moves c db db1 \<Longrightarrow> moves c db1 db2 \<Longrightarrow> moves c db db2"
  unfolding moves_def by (intro conjI; elim conjE; erule (1) tbl_moves_trans)

lemma moves_claim: "moves False db db' \<Longrightarrow> moves c db db'"
  unfolding moves_def by (intro conjI; elim conjE; erule tbl_moves_mono; assumption?) simp_all

lemma moves_ids_ok: "moves c db db' \<Longrightarrow> ids_ok db \<Longrightarrow> ids_ok db'"
  unfolding moves_def ids_ok_def by (intro conjI; elim conjE; erule (1) tbl_moves_unique_ids)

lemma moves_one_running: "moves False db db' \<Longrightarrow> one_running db \<Longrightarrow> one_running db'"
  unfolding moves_def one_running_def by (intro conjI; elim conjE; erule (1) tbl_moves_unique_running)

lemma moves_gate_ok:
  assumes "moves False db db'" and "installs db' = installs db" and "gate_ok db"
  shows "gate_ok db'"
proof -
  have "tbl_moves False True inventory_id (runs db) (runs db')" "tbl_moves False True refresh_owner (refreshes db) (refreshes db')"
    "tbl_moves False True lint_owner (lints db) (lints db')" using assms(1) by (simp_all add: moves_def)
  note busy = this [THEN tbl_moves_busy]
  show ?thesis using assms(2,3) busy unfolding gate_ok_def by argo
qed

lemma moves_inv:
  assumes "moves False db db'" and "installs db' = installs db" and "queue_inv db"
  shows "queue_inv db'"
  using assms moves_one_running [OF assms(1)] moves_ids_ok [OF assms(1)] moves_gate_ok [OF assms(1,2)]
  by (simp add: queue_inv_def)

text \<open>Writing back one row of a table.\<close>

lemma tbl_moves_put:
  assumes "unique_ids t" and "get_row row_id t (row_id r') = Some r" and "row_moves c q own r r'"
  shows "tbl_moves c q own t (update_rows (\<lambda>x. row_id x = row_id r') (\<lambda>_. r') t)"
proof (rule tbl_moves_update)
  fix x assume "x \<in> set t" "row_id x = row_id r'"
  then have "x = r" using assms(1,2) get_row_unique [of row_id t x] by (simp add: unique_ids_def)
  then show "row_moves c q own x r'" using assms(3) by simp
qed

lemma moves_put_run:
  assumes "ids_ok db" and "get_run db (row_id r') = Some r" and "row_moves c True inventory_id r r'"
  shows "moves c db (put_run r' db)"
  using tbl_moves_put [of "runs db" r' r c True inventory_id] assms
  by (simp add: moves_def runs_put_run ids_ok_def get_run_def)

lemma moves_put_refresh:
  assumes "ids_ok db" and "get_row row_id (refreshes db) (row_id f') = Some f" and "row_moves c True refresh_owner f f'"
  shows "moves c db (put_refresh f' db)"
  using tbl_moves_put [of "refreshes db" f' f c True refresh_owner] assms
  by (simp add: moves_def refreshes_put_refresh ids_ok_def)

lemma moves_put_lint:
  assumes "ids_ok db" and "get_row row_id (lints db) (row_id l') = Some l" and "row_moves c True lint_owner l l'"
  shows "moves c db (put_lint l' db)"
  using tbl_moves_put [of "lints db" l' l c True lint_owner] assms
  by (simp add: moves_def put_lint_def ids_ok_def)

lemma moves_put_scan:
  assumes "ids_ok db" and "get_row row_id (scans db) (row_id s') = Some s" and "row_moves c True scan_owner s s'"
  shows "moves c db (put_scan s' db)"
  using tbl_moves_put [of "scans db" s' s c True scan_owner] assms
  by (simp add: moves_def put_scan_def ids_ok_def)

text \<open>A transaction may also start the next install at its end.\<close>

definition works :: "database \<Rightarrow> database \<Rightarrow> bool" where
  "works db db' \<longleftrightarrow> (\<exists>d. moves False db d \<and> installs d = installs db \<and> (db' = d \<or> (\<exists>e now. db' = finished e now d)))"

lemma works_moves: "works db db' \<Longrightarrow> moves False db db'"
  unfolding works_def using moves_same [of "finished _ _ _"] by (auto intro: moves_trans)

lemma works_inv: "works db db' \<Longrightarrow> queue_inv db \<Longrightarrow> queue_inv db'"
  unfolding works_def using moves_inv try_start_install_inv by (auto simp: finished_def)

lemma worksI: "moves False db db' \<Longrightarrow> installs db' = installs db \<Longrightarrow> works db db'"
  unfolding works_def by blast

lemma works_finished: "moves False db db' \<Longrightarrow> installs db' = installs db \<Longrightarrow> works db (finished e now db')"
  unfolding works_def by blast

lemma works_refl [simp]: "works db db"
  by (rule worksI) simp_all

section \<open>Runs\<close>

lemma moves_fail_run:
  assumes "ids_ok db" and "get_run db (row_id r) = Some x" and "inventory_id x = inventory_id r"
    and "status x \<notin> set FINISHED_STATUSES" and "st \<in> set FINISHED_STATUSES"
  shows "moves c db (fail_run e now clock st reason r db)"
proof -
  obtain r2 where r2: "runs (fail_run e now clock st reason r db) = runs (put_run r2 db)"
    "row_id r2 = row_id r" "status r2 = st" "inventory_id r2 = inventory_id r"
    using fail_run_runs by blast
  have "row_moves c True inventory_id x r2"
    using assms r2 get_row_Some [of row_id "runs db" "row_id r" x]
    by (simp add: row_moves_def may_end get_run_def)
  then have "moves c db (put_run r2 db)" using assms(1,2) r2 by (intro moves_put_run) simp_all
  then show ?thesis by (simp add: moves_def r2(1))
qed

lemma locked_row_get: "locked_row e tbl i token = Some r \<Longrightarrow> get_row row_id tbl i = Some r \<and> row_id r = i \<and> status r = RUNNING"
  by (auto simp: locked_row_Some dest: get_row_Some)

lemma running_unfinished [simp]: "RUNNING \<notin> set FINISHED_STATUSES" "QUEUED \<notin> set FINISHED_STATUSES"
  by (simp_all add: FINISHED_STATUSES_def)

lemma FAILED_finished [simp]: "FAILED \<in> set FINISHED_STATUSES" "CANCELLED \<in> set FINISHED_STATUSES"
  "TIMED_OUT \<in> set FINISHED_STATUSES" "SUCCESS \<in> set FINISHED_STATUSES"
  by (simp_all add: FINISHED_STATUSES_def)

text \<open>The run a worker holds, ended with a reason, and its row written back.\<close>

lemma works_fail_locked:
  assumes "ids_ok db" and "locked_row e (runs db) i token = Some r"
    and "row_id r' = row_id r" "inventory_id r' = inventory_id r" and "st \<in> set FINISHED_STATUSES"
    and "runs d = runs db" "refreshes d = refreshes db" "lints d = lints db" "scans d = scans db" "installs d = installs db"
  shows "moves False db (fail_run e' now clock st reason r' d)"
proof -
  note r = locked_row_get [OF assms(2)]
  have "ids_ok d" using assms by (simp add: ids_ok_def)
  moreover have "get_run d (row_id r') = Some r" using r assms by (simp add: get_run_def)
  ultimately have "moves False d (fail_run e' now clock st reason r' d)"
    using moves_fail_run [of d r' r st] r assms by simp
  then show ?thesis using assms by (simp add: moves_def)
qed

lemma works_put_locked:
  assumes "ids_ok db" and "locked_row e (runs db) i token = Some r"
    and "row_id r' = row_id r" "inventory_id r' = inventory_id r" and "may_move False True RUNNING (status r')"
    and "runs d = runs (put_run r' db)" "refreshes d = refreshes db" "lints d = lints db" "scans d = scans db"
  shows "moves False db d"
proof -
  note r = locked_row_get [OF assms(2)]
  have "moves False db (put_run r' db)"
    using r assms by (intro moves_put_run [of db r' r]) (simp_all add: row_moves_def get_run_def)
  then show ?thesis using assms(6-9) by (simp add: moves_def)
qed

lemma store_down_works:
  assumes "ids_ok db"
  shows "works db (fst (store_down e now clock i token kind reason db))"
proof (cases "locked_row e (runs db) i token")
  case None
  then show ?thesis by (simp add: store_down_def)
next
  case (Some r)
  let ?d = "store_alert e now kind (fst (seen now kind db))"
  have d: "runs ?d = runs db" "refreshes ?d = refreshes db" "lints ?d = lints db" "scans ?d = scans db" "installs ?d = installs db"
    by (simp_all add: store_alert_def)
  have fail: "works db (finished e now (fail_run e now clock st why r ?d))" if "st \<in> set FINISHED_STATUSES" for st why
    using works_fail_locked [OF assms Some refl refl that d] by (intro works_finished) (simp_all add: d)
  have "moves False db (put_run (requeue_run r) ?d)"
    by (rule works_put_locked [OF assms Some, of "requeue_run r"]) (simp_all add: may_move_def d runs_put_run)
  then have "works db (put_run (requeue_run r) ?d)" by (rule worksI) (simp add: d)
  then show ?thesis using fail
    by (simp add: store_down_def Some Let_def case_prod_beta split: option.split)
qed

lemma job_handler_works:
  assumes "ids_ok db"
  shows "works db (fst (job_handler e build now clock i ct jt db))"
proof (cases "locked_row e (runs db) i ct")
  case None
  then show ?thesis by (simp add: job_handler_def)
next
  case (Some r)
  have st: "status r = RUNNING" using locked_row_get [OF Some] by simp
  have fail: "moves False db (fail_run e now clock st why r' db)"
    if "row_id r' = row_id r" "inventory_id r' = inventory_id r" "st \<in> set FINISHED_STATUSES" for st why r'
    using works_fail_locked [OF assms Some that] by simp
  have ended: "works db (finished e now (fail_run e now clock st why r' db))" "works db (finished e now (audit_certificate now r'' (fail_run e now clock st why r' db)))"
    if "row_id r' = row_id r" "inventory_id r' = inventory_id r" "st \<in> set FINISHED_STATUSES" for st why r' r''
    using fail [OF that] by (intro works_finished; simp add: moves_def)+
  have put: "moves False db (put_run r' db)" if "row_id r' = row_id r" "inventory_id r' = inventory_id r" "status r' = RUNNING" for r'
    using that by (intro works_put_locked [OF assms Some, of r']) simp_all
  have handed: "works db (audit_certificate now r'' (put_run r' db))" "works db (fst (cleared (audit_certificate now r'' (put_run r' db))))"
    if "row_id r' = row_id r" "inventory_id r' = inventory_id r" "status r' = RUNNING" for r' r''
    using put [OF that] by (intro worksI; simp add: moves_def)+
  show ?thesis
    unfolding job_handler_def Some option.case Let_def
    by (simp add: ended handed st store_down_works assms take_job_token_def split: sum.split job_failure.split)
qed

lemma events_works:
  assumes "ids_ok db"
  shows "works db (fst (events_handler e i token n evs db))"
proof (cases "locked_row e (runs db) i token")
  case (Some r)
  have st: "status r = RUNNING" using locked_row_get [OF Some] by simp
  have put: "works db (put_run r' (db\<lparr>run_logs := x\<rparr>))"
    if "row_id r' = row_id r" "inventory_id r' = inventory_id r" "status r' = RUNNING" for r' x
    using that by (intro worksI works_put_locked [OF assms Some, of r']) (simp_all add: runs_put_run)
  show ?thesis by (simp add: events_handler_def Some Let_def case_prod_beta put st)
qed (simp add: events_handler_def)

lemma egress_report_works:
  assumes "ids_ok db"
  shows "works db (fst (egress_report e i token body db))"
proof (cases "locked_row e (runs db) i token")
  case (Some r)
  have "moves False db (put_run (r\<lparr>egress_allowlist := Some body\<rparr>) db)"
    using locked_row_get [OF Some] by (intro works_put_locked [OF assms Some]) simp_all
  then show ?thesis by (simp add: egress_report_def Some worksI)
qed (simp add: egress_report_def)

lemma append_artifacts_works: "works db (fst (append_artifacts e i token offset chunk db))"
  by (auto simp: append_artifacts_def Let_def split: option.split intro!: worksI moves_same)

lemma tbl_moves_renew: "(\<And>r. own (renew e now r) = own r) \<Longrightarrow> tbl_moves c q own t (renew_all e now held t)"
proof (induction held arbitrary: t)
  case (Cons item held)
  have "tbl_moves c q own t (update_rows (owned_by e item) (renew e now) t)"
    using Cons.prems by (intro tbl_moves_update) (simp add: row_moves_def renew_def)
  then have "tbl_moves c q own t (renew_all e now held (update_rows (owned_by e item) (renew e now) t))"
    by (rule tbl_moves_trans) (rule Cons.IH [OF Cons.prems])
  then show ?case by (simp add: renew_all_def)
qed (simp add: renew_all_def)

lemma heartbeat_works: "works db (fst (heartbeat e now b db))"
proof (rule worksI)
  show "moves False db (fst (heartbeat e now b db))"
    unfolding heartbeat_def Let_def moves_def fst_conv
    by (intro conjI; simp; rule tbl_moves_renew) (simp_all add: renew_def)
qed (simp add: heartbeat_def Let_def)

lemma complete_finished:
  "complete e fp addresses now clock i token b db = (db', Answer u) \<Longrightarrow> \<exists>d. db' = finished e now d \<and> installs d = installs db"
proof -
  assume c: "complete e fp addresses now clock i token b db = (db', Answer u)"
  obtain r0 where r0: "locked_row e (runs db) i token = Some r0"
    using c by (auto simp: complete_def split: option.splits)
  obtain db1 r2 learned where hk: "host_keys_of fp addresses now b (end_run now b r0) db = (db1, r2, learned)"
    by (metis prod_cases3)
  obtain r4 db2 where art: "reported_artifacts e b (set_refused b r2) db1 = (r4, db2)" by (metis prod.exhaust)
  have "installs db2 = installs db1"
    using art keep_artifacts_columns [of e _ "set_refused b r2" db1 r4 db2] by (cases "co_artifacts b") (auto simp: reported_artifacts_def)
  moreover have "installs db1 = installs db" using host_keys_of_runs [OF hk] by simp
  ultimately show ?thesis using c unfolding complete_def r0 option.case Let_def hk prod.case art
    by (auto split: if_splits intro!: exI)
qed

lemma complete_works:
  assumes "ids_ok db" and "co_status b \<in> set FINISHED_STATUSES"
  shows "works db (fst (complete e fp addresses now clock i token b db))"
proof (cases "\<exists>u. snd (complete e fp addresses now clock i token b db) = Answer u")
  case True
  then obtain db' u where c: "complete e fp addresses now clock i token b db = (db', Answer u)" by (metis prod.exhaust_sel)
  obtain r0 r4 where r: "locked_row e (runs db) i token = Some r0" "runs db' = runs (put_run r4 db)" "row_id r4 = i"
    "status r4 = co_status b" "inventory_id r4 = inventory_id r0"
    "refreshes db' = refreshes db" "lints db' = lints db" "scans db' = scans db"
    using complete_answer [OF c] by blast
  have "moves False db db'"
    using locked_row_get [OF r(1)] r(3-5) assms(2) by (intro works_put_locked [OF assms(1) r(1) _ _ _ r(2,6-8)]) (simp_all add: may_end)
  moreover obtain d where d: "db' = finished e now d" "installs d = installs db" using complete_finished [OF c] by blast
  ultimately have "moves False db d" by (simp add: moves_def)
  then show ?thesis using d c by (simp add: works_finished)
next
  case False
  then show ?thesis by (auto simp: complete_def Let_def case_prod_beta split: option.splits if_splits)
qed

section \<open>Checks and scans\<close>

lemma lint_handlers_work:
  assumes "ids_ok db"
  shows "works db (fst (lint_job_handler e build now i ct jt db))"
    and "st \<in> set FINISHED_STATUSES \<Longrightarrow> works db (fst (lint_complete e now i token st error body db))"
proof -
  have end_it: "works db (finish_lint e now st' err res l' db)"
    if l: "locked_row e (lints db) i tok = Some l" and "row_id l' = row_id l" "l_requested_by_user_id l' = l_requested_by_user_id l"
      "st' \<in> set FINISHED_STATUSES" for tok l l' st' err res
    unfolding finish_lint_def using locked_row_get [OF l] that assms
    by (intro works_finished moves_put_lint [of db _ l]) (simp_all add: row_moves_def may_end put_lint_def)
  have start: "works db (put_lint l' db)"
    if l: "locked_row e (lints db) i tok = Some l" and "row_id l' = row_id l" "l_requested_by_user_id l' = l_requested_by_user_id l"
      "status l' = RUNNING" for tok l l'
    using locked_row_get [OF l] that assms by (intro worksI moves_put_lint [of db _ l]) (simp_all add: row_moves_def put_lint_def)
  show "works db (fst (lint_job_handler e build now i ct jt db))"
  proof (cases "locked_row e (lints db) i ct")
    case (Some l)
    then show ?thesis using locked_row_get [OF Some]
      by (auto simp: lint_job_handler_def Let_def take_job_token_def intro!: end_it [OF Some] start [OF Some] split: sum.split option.split)
  qed (simp add: lint_job_handler_def)
  show "works db (fst (lint_complete e now i token st error body db))" if "st \<in> set FINISHED_STATUSES"
    using that by (auto simp: lint_complete_def intro: end_it split: option.split)
qed

lemma scan_handlers_work:
  assumes "ids_ok db"
  shows "works db (fst (keyscan_job_handler e now i ct jt db))"
    and "st \<in> set FINISHED_STATUSES \<Longrightarrow> works db (fst (keyscan_complete e fp now i token st lines error db))"
proof -
  have put: "works db (put_scan s' db)"
    if s: "locked_row e (scans db) i tok = Some s" and "row_id s' = row_id s" "s_inventory_id s' = s_inventory_id s"
      "status s' = RUNNING \<or> status s' \<in> set FINISHED_STATUSES" for tok s s'
    using locked_row_get [OF s] that assms
    by (intro worksI moves_put_scan [of db _ s]) (auto simp: row_moves_def may_end put_scan_def)
  show "works db (fst (keyscan_job_handler e now i ct jt db))"
    using locked_row_get [of e "scans db" i ct]
    by (auto simp: keyscan_job_handler_def take_job_token_def intro!: put split: option.split)
  show "works db (fst (keyscan_complete e fp now i token st lines error db))" if "st \<in> set FINISHED_STATUSES"
    using that by (auto simp: keyscan_complete_def Let_def intro!: put split: option.split)
qed

section \<open>Refreshes\<close>

lemma moves_job_part: "job_part d = job_part db \<Longrightarrow> moves c d d' = moves c db d'" "job_part d' = job_part db' \<Longrightarrow> moves c d d' = moves c d db'"
  by (simp_all add: moves_def job_part_def)

lemma job_part_installs: "job_part d = job_part db \<Longrightarrow> installs d = installs db"
  by (simp add: job_part_def)

lemma job_part_ids: "job_part d = job_part db \<Longrightarrow> ids_ok d = ids_ok db"
  by (simp add: job_part_def ids_ok_def)

lemma works_job_part: "job_part d = job_part db \<Longrightarrow> works d db' = works db db'"
  unfolding works_def using moves_job_part(1) [of d db] job_part_installs [of d db] by presburger

lemma release_run_moves:
  assumes "ids_ok db" and "get_run db (row_id r) = Some r" and "status r = QUEUED"
    and "release_run e now clock st error snap r db = Inr db'"
  shows "moves False db db' \<and> installs db' = installs db \<and> (\<forall>i. i \<noteq> row_id r \<longrightarrow> get_run db' i = get_run db i)"
proof -
  have "(\<exists>why. db' = fail_run e now clock FAILED why r db) \<or>
      (\<exists>r'. db' = put_run r' db \<and> row_id r' = row_id r \<and> row_moves False True inventory_id r r')"
    using assms(4) by (auto simp: release_run_def Let_def res_bind_Inr_iff row_moves_def split: option.splits if_splits)
  then show ?thesis
  proof (elim disjE exE conjE)
    fix why assume db': "db' = fail_run e now clock FAILED why r db"
    obtain r2 where r2: "runs db' = runs (put_run r2 db)" "row_id r2 = row_id r" unfolding db' using fail_run_runs by blast
    have "get_run db' i = get_run db i" if "i \<noteq> row_id r" for i
      using that get_put_run [of r2 db i] get_run_of_runs [OF r2(1), of i] r2(2) by simp
    then show ?thesis using moves_fail_run [OF assms(1,2) refl] assms(3) by (simp add: db')
  next
    fix r' assume r': "db' = put_run r' db" "row_id r' = row_id r" "row_moves False True inventory_id r r'"
    then show ?thesis using moves_put_run [OF assms(1), of r' r] assms(2) by (simp add: get_put_run)
  qed
qed

lemma release_runs_moves:
  assumes "release_runs e now clock st error snap rs db = Inr db'" and "ids_ok db" and "distinct (map row_id rs)"
    and "\<forall>r \<in> set rs. get_run db (row_id r) = Some r \<and> status r = QUEUED"
  shows "moves False db db' \<and> installs db' = installs db"
  using assms
proof (induction rs arbitrary: db)
  case (Cons r rs)
  obtain db1 where one: "release_run e now clock st error snap r db = Inr db1"
    and rest: "release_runs e now clock st error snap rs db1 = Inr db'"
    using Cons.prems(1) by (auto simp: res_bind_Inr_iff)
  have m: "moves False db db1" "installs db1 = installs db" "\<forall>i. i \<noteq> row_id r \<longrightarrow> get_run db1 i = get_run db i"
    using release_run_moves [OF Cons.prems(2) _ _ one] Cons.prems(4) by simp_all
  have "\<forall>x \<in> set rs. get_run db1 (row_id x) = Some x \<and> status x = QUEUED"
  proof
    fix x assume x: "x \<in> set rs"
    then have "row_id x \<noteq> row_id r" using Cons.prems(3) by (metis distinct.simps(2) image_eqI list.simps(9) list.set_map)
    then show "get_run db1 (row_id x) = Some x \<and> status x = QUEUED" using x Cons.prems(4) m(3) by simp
  qed
  then have "moves False db1 db' \<and> installs db' = installs db1"
    using Cons.IH [OF rest moves_ids_ok [OF m(1) Cons.prems(2)]] Cons.prems(3) by simp
  then show ?case using m moves_trans by metis
qed simp

lemma end_refresh_moves:
  assumes "ids_ok db" and "get_row row_id (refreshes db) (row_id f) = Some x" and "status x \<notin> set FINISHED_STATUSES"
    and "f_inventory_id x = f_inventory_id f" and "st \<in> set FINISHED_STATUSES"
    and "end_refresh e now clock f st error db = Inr (db', ev)"
  shows "moves False db db' \<and> installs db' = installs db"
proof -
  let ?f1 = "f\<lparr>status := st, f_error := error_column error, finished_at := Some now,
                 lease_expires_at := None, claim_token_hash := None, job_token_hash := None\<rparr>"
  let ?d = "put_refresh ?f1 db"
  obtain db1 where db1: "release_waiting_runs e now clock ?f1 st error ?d = Inr db1"
    using assms(6) by (auto simp: end_refresh_def res_bind_Inr_iff Let_def)
  have same: "job_part db' = job_part db1"
    using assms(6) db1 by (auto simp: end_refresh_def Let_def case_prod_unfold job_part_def split: option.splits if_splits)
  have "row_id x = row_id f" using get_row_Some [OF assms(2)] by simp
  then have d: "moves False db ?d"
    using moves_put_refresh [OF assms(1), of ?f1 x] assms(2-5) by (simp add: row_moves_def may_end)
  let ?rs = "sort_key row_id (filter (waiting_for (row_id f)) (runs db))"
  have u: "unique_ids (runs db)" using assms(1) by (simp add: ids_ok_def)
  then have "distinct (map row_id ?rs)" by (simp add: unique_ids_def distinct_map inj_on_def)
  moreover have "\<forall>r \<in> set ?rs. get_run ?d (row_id r) = Some r \<and> status r = QUEUED"
    using get_row_unique [of row_id "runs db"] u by (auto simp: waiting_for_def get_run_def unique_ids_def)
  ultimately have "moves False ?d db1 \<and> installs db1 = installs ?d"
    using release_runs_moves db1 moves_ids_ok [OF d assms(1)] by (simp add: release_waiting_runs_def)
  then have "moves False db db1" "installs db1 = installs db" using d moves_trans by auto
  then show ?thesis using moves_job_part(2) [OF same] job_part_installs [OF same] by simp
qed

text \<open>The refresh a worker holds, ended: \<open>d\<close> is the database by then.\<close>

lemma finish_works_at:
  assumes "ids_ok db" and "moves False db d" "installs d = installs db"
    and "get_row row_id (refreshes d) (row_id f) = Some x" "status x \<notin> set FINISHED_STATUSES"
    and "f_inventory_id x = f_inventory_id f" and "st \<in> set FINISHED_STATUSES"
    and "finish_with e now clock f st error d = Inr db'"
  shows "works db db'"
proof -
  obtain db1 ev where e: "end_refresh e now clock f st error d = Inr (db1, ev)"
    using assms(8) by (auto simp: finish_with_def res_bind_Inr_iff)
  let ?d = "case ev of None \<Rightarrow> remove_outputs (row_id f) db1 | Some a \<Rightarrow> audit_record now a (remove_outputs (row_id f) db1)"
  have db': "db' = finished e now ?d" using assms(8) e by (simp add: finish_with_def Let_def)
  have same: "job_part ?d = job_part db1" by (simp add: job_part_def remove_outputs_def split: option.split)
  have "moves False d db1 \<and> installs db1 = installs d"
    by (rule end_refresh_moves [OF moves_ids_ok [OF assms(2,1)] assms(4-7) e])
  then have "moves False db db1" "installs db1 = installs db" using assms(2,3) moves_trans by auto
  then have "moves False db ?d" "installs ?d = installs db"
    using moves_job_part(2) [OF same] job_part_installs [OF same] by simp_all
  then show ?thesis unfolding db' by (rule works_finished)
qed

text \<open>What a handler does after it locked the refresh \<open>f0\<close>.\<close>

lemma finish_works:
  assumes "ids_ok db" and "locked_row e (refreshes db) i token = Some f0" and "job_part d = job_part db"
    and "row_id f = row_id f0" "f_inventory_id f = f_inventory_id f0" and "st \<in> set FINISHED_STATUSES"
  shows "works db (fst (answer db ok (finish_with e' now clock f st error d)))"
proof (cases "finish_with e' now clock f st error d")
  case (Inr db')
  have "moves False db d" using moves_job_part(2) [OF assms(3)] by simp
  then have "works db db'"
    using locked_row_get [OF assms(2)] assms(3-6)
    by (intro finish_works_at [OF assms(1) _ job_part_installs [OF assms(3)] _ _ _ assms(6) Inr, of f0]) (simp_all add: job_part_def)
  then show ?thesis by (simp add: answer_def Inr)
qed (simp add: answer_def)

lemma put_refresh_works:
  assumes "ids_ok db" and "locked_row e (refreshes db) i token = Some f0" and "job_part d = job_part db"
    and "row_id f = row_id f0" "f_inventory_id f = f_inventory_id f0" and "may_move False True RUNNING (status f)"
  shows "moves False db (put_refresh f d)" and "installs (put_refresh f d) = installs db"
proof -
  have "moves False d (put_refresh f d)"
    using locked_row_get [OF assms(2)] assms job_part_ids [OF assms(3)]
    by (intro moves_put_refresh [of d f f0]) (simp_all add: job_part_def row_moves_def)
  then show "moves False db (put_refresh f d)" using moves_job_part(1) [OF assms(3)] by simp
  show "installs (put_refresh f d) = installs db" using job_part_installs [OF assms(3)] by simp
qed

lemma get_row_put:
  "row_id r = i \<Longrightarrow> get_row row_id (update_rows (\<lambda>x. row_id x = i) (\<lambda>_. r) t) i = map_option (\<lambda>_. r) (get_row row_id t i)"
  unfolding get_row_def update_rows_def by (induction t) auto

lemma get_row_put_other:
  "row_id r \<noteq> i \<Longrightarrow> get_row row_id (update_rows (\<lambda>x. row_id x = row_id r) (\<lambda>_. r) t) i = get_row row_id t i"
  unfolding get_row_def update_rows_def by (induction t) auto

lemma sources_outcome_finished: "fst (sources_outcome rows) \<in> set FINISHED_STATUSES"
  by (simp add: sources_outcome_def Let_def)

lemma finish_refresh_works:
  assumes "ids_ok db" and "locked_row e (refreshes db) i token = Some f0" and "job_part d = job_part db"
    and "row_id f = row_id f0" "f_inventory_id f = f_inventory_id f0" "status f = RUNNING"
  shows "works db (fst (answer db ok (finish_refresh e' now clock f iv sd ws d)))"
proof (cases "keep_current_snapshot d iv (refresh_rows d f)")
  case True
  then show ?thesis
    using finish_works [OF assms(1-5) sources_outcome_finished]
    by (simp add: finish_refresh_def Let_def case_prod_unfold)
next
  case False
  show ?thesis
  proof (cases "store_snapshot now f sd ws d")
    case (Inl x)
    then show ?thesis using False by (simp add: finish_refresh_def Let_def case_prod_unfold answer_def)
  next
    case (Inr p)
    obtain d2 f' where d2: "snd p = f'" "fst p = put_refresh f' d2" "job_part d2 = job_part d"
      "row_id f' = row_id f" "f_inventory_id f' = f_inventory_id f" "status f' = status f"
      using Inr by (auto simp: store_snapshot_def Let_def job_part_def split: option.splits)
    have same: "job_part d2 = job_part db" using d2(3) assms(3) by simp
    have m: "moves False db (put_refresh f' d2)" "installs (put_refresh f' d2) = installs db"
      using put_refresh_works [OF assms(1,2) same, of f'] assms(4-6) d2(4-6) by simp_all
    have "get_row row_id (refreshes (put_refresh f' d2)) (row_id f') = Some f'"
      using locked_row_get [OF assms(2)] same assms(4) d2(4)
      by (simp add: refreshes_put_refresh get_row_put job_part_def)
    then have "works db db'" if "finish_with e' now clock f' (fst (sources_outcome (refresh_rows d f)))
        (snd (sources_outcome (refresh_rows d f))) (put_refresh f' d2) = Inr db'" for db'
      using assms(6) d2(6) by (intro finish_works_at [OF assms(1) m _ _ refl sources_outcome_finished that]) simp_all
    then show ?thesis using False Inr d2(1,2)
      by (auto simp: finish_refresh_def Let_def case_prod_unfold answer_def split: sum.split)
  qed
qed

lemma record_source_failure_part [simp]: "job_part (record_source_failure e now row m db) = job_part db"
  by (simp add: record_source_failure_def Let_def job_part_def put_row_def set_source_def split: option.split)

lemma build_sources_part: "job_part (fst (build_sources e now env_of git_call f iv ss b db)) = job_part db"
proof (induction ss arbitrary: b db)
  case (Cons s ss)
  have [simp]: "job_part (db\<lparr>refresh_sources := x, next_refresh_source_id := y\<rparr>) = job_part db"
    "job_part (set_source i g d) = job_part d" "job_part (put_row row d) = job_part d" for x y i g d row
    by (simp_all add: job_part_def set_source_def put_row_def)
  show ?case by (simp add: Let_def Cons.IH split: sum.split prod.split file_failure.split)
qed simp

lemma build_sources_partD: "build_sources e now env_of git_call f iv ss b db = (d, x) \<Longrightarrow> job_part d = job_part db"
  using build_sources_part [of e now env_of git_call f iv ss b db] by simp

lemma build_refresh_job_part:
  assumes "build_refresh_job e now env_of git_call f db = (db1, f2, r)"
  shows "job_part db1 = job_part db" "row_id f2 = row_id f" "f_inventory_id f2 = f_inventory_id f" "status f2 = status f"
proof -
  show "job_part db1 = job_part db"
    using assms by (auto simp: build_refresh_job_def Let_def split: option.splits if_splits prod.splits sum.splits dest!: build_sources_partD)
  show "row_id f2 = row_id f" "f_inventory_id f2 = f_inventory_id f" "status f2 = status f"
    using assms by (auto simp: build_refresh_job_def Let_def split: option.splits if_splits prod.splits sum.splits)
qed

lemma requeue_refresh_works:
  assumes "ids_ok db" and "locked_row e (refreshes db) i token = Some f" and "job_part d = job_part db"
  shows "works db (requeue_refresh now f label d)"
proof (cases "find (queued_for (f_inventory_id f)) (refreshes d)")
  case None
  have "moves False db (put_refresh ((unclaim f)\<lparr>status := QUEUED\<rparr>) d)"
    by (rule put_refresh_works [OF assms]) (simp_all add: unclaim_def may_move_def)
  then show ?thesis using None job_part_installs [OF assms(3)] by (simp add: requeue_refresh_def worksI)
next
  case (Some other)
  have ids: "ids_ok d" using assms(1) job_part_ids [OF assms(3)] by simp
  let ?o = "other\<lparr>f_scope := widen (f_scope other) (f_scope f), queued_at := min (queued_at other) (queued_at f)\<rparr>"
  let ?f = "(unclaim f)\<lparr>status := CANCELLED,
      f_error := Some (''merged into refresh #'' @ show_int (row_id other) @ '' while waiting for '' @ label), finished_at := Some now\<rparr>"
  let ?d1 = "put_refresh ?o d"
  let ?R = "update_rows (\<lambda>r. waiting_refresh_id r = Some (row_id f)) (\<lambda>r. r\<lparr>waiting_refresh_id := Some (row_id other)\<rparr>) (runs ?d1)"
  let ?d2 = "?d1\<lparr>runs := ?R\<rparr>"
  have other: "other \<in> set (refreshes d)" "status other = QUEUED" using Some by (auto simp: queued_for_def dest!: find_SomeD)
  have f: "status f = RUNNING" "row_id f = i" "get_row row_id (refreshes d) i = Some f"
    using locked_row_get [OF assms(2)] assms(3) by (simp_all add: job_part_def)
  have got: "get_row row_id (refreshes d) (row_id other) = Some other"
    using other(1) ids get_row_unique [of row_id "refreshes d" other] by (simp add: ids_ok_def unique_ids_def)
  then have m1: "moves False d ?d1" by (intro moves_put_refresh [OF ids, of ?o other]) (simp_all add: row_moves_def)
  have "tbl_moves False True inventory_id (runs ?d1) ?R" by (rule tbl_moves_update) (simp add: row_moves_def)
  then have m2: "moves False ?d1 ?d2" by (simp add: moves_def)
  have "row_id other \<noteq> i"
  proof
    assume "row_id other = i"
    then have "other = f" using got f(3) by simp
    then show False using f(1) other(2) by simp
  qed
  then have "get_row row_id (refreshes ?d2) i = Some f"
    using get_row_put_other [of ?o i "refreshes d"] f(3) by (simp add: refreshes_put_refresh)
  moreover have "ids_ok ?d2" using moves_ids_ok [OF m2 moves_ids_ok [OF m1 ids]] .
  ultimately have m3: "moves False ?d2 (put_refresh ?f ?d2)"
    using f by (intro moves_put_refresh [of _ _ f]) (simp_all add: row_moves_def may_end unclaim_def)
  have "moves False db (put_refresh ?f ?d2)"
    using moves_trans [OF moves_trans [OF m1 m2] m3] moves_job_part(1) [OF assms(3)] by simp
  then show ?thesis using Some job_part_installs [OF assms(3)] by (simp add: requeue_refresh_def Let_def worksI)
qed

lemma refresh_store_down_works:
  assumes "ids_ok db"
  shows "works db (fst (refresh_store_down e now clock i token kind error db))"
proof (cases "locked_row e (refreshes db) i token")
  case (Some f)
  have "job_part (store_alert e now kind (fst (seen now kind db))) = job_part db" by (simp add: job_part_def store_alert_def)
  then show ?thesis
    by (simp add: refresh_store_down_def Some Let_def case_prod_unfold requeue_refresh_works [OF assms Some]
        finish_works [OF assms Some _ refl refl] split: option.split)
qed (simp add: refresh_store_down_def)

lemma refresh_job_works:
  assumes "ids_ok db"
  shows "works db (fst (refresh_job_handler e env_of git_call now clock i ct jt db))"
proof (cases "locked_row e (refreshes db) i ct")
  case (Some f0)
  obtain db1 f2 r where b: "build_refresh_job e now env_of git_call (take_job_token f0) db = (db1, f2, r)" by (metis prod_cases3)
  note part = build_refresh_job_part [OF b]
  have f2: "row_id f2 = row_id f0" "f_inventory_id f2 = f_inventory_id f0" "status f2 = RUNNING"
    using part(2-4) locked_row_get [OF Some] by (simp_all add: take_job_token_def)
  have put: "works db (put_refresh (f2\<lparr>started_at := Some now\<rparr>) db1)"
    "works db (fst (cleared (put_refresh (f2\<lparr>started_at := Some now\<rparr>) db1)))"
    using put_refresh_works [OF assms Some part(1), of "f2\<lparr>started_at := Some now\<rparr>"] f2
    by (intro worksI; simp add: moves_def)+
  note fin = finish_works [OF assms Some part(1) f2(1,2)]
  show ?thesis
    by (simp add: refresh_job_handler_def Some Let_def b put fin refresh_store_down_works [OF assms] split: sum.split refresh_failure.split)
qed (simp add: refresh_job_handler_def)

lemma append_output_works: "works db (fst (append_output e i token offset part chunk db))"
  by (auto simp: append_output_def Let_def split: option.split intro!: worksI moves_same)

lemma store_rows_part: "store_rows e a loads now f results rows db = Inr (Inr db') \<Longrightarrow> job_part db' = job_part db"
proof (induction rows arbitrary: db)
  case (Cons p rows)
  have [simp]: "job_part (set_source i g d) = job_part d" "job_part (put_row row d) = job_part d" "job_part (put_output x d) = job_part d"
    for i g d row x by (simp_all add: job_part_def set_source_def put_row_def put_output_def)
  have "store_source_output e a loads now f row raw sc d = Inr d' \<Longrightarrow> job_part d' = job_part d" for row raw sc d d'
    by (auto simp: store_source_output_def Let_def split: sum.splits source_failure.splits option.splits if_splits)
  then show ?case using Cons
    by (cases p) (fastforce simp: res_bind_Inr_iff split: if_splits option.splits)
qed simp

lemma combine_stage_works:
  assumes "ids_ok db" and "locked_row e0 (refreshes db) i token = Some f" and "job_part d = job_part db"
  shows "works db (fst (combine_stage e a loads dump env_of now clock f iv db d))"
proof -
  have st: "status f = RUNNING" using locked_row_get [OF assms(2)] by simp
  have part: "job_part (store_alert e now k (fst (seen now k d))) = job_part db" for k
    using assms(3) by (simp add: job_part_def store_alert_def)
  have put: "works db (put_refresh f1 d)" if "build_combine_job e dump env_of iv f d = Inr (f1, job)" for f1 job
  proof -
    have "row_id f1 = row_id f" "f_inventory_id f1 = f_inventory_id f" "status f1 = RUNNING"
      using that st by (auto simp: build_combine_job_def Let_def res_bind_Inr_iff set_static_hosts_def)
    then show ?thesis using put_refresh_works [OF assms, of f1] by (intro worksI) simp_all
  qed
  have fr: "works db (fst (answer db ok (finish_refresh e now clock (set_static_hosts hs f) iv sd ws d)))" for ok :: "refresh_answer reply" and hs sd ws
    using st by (intro finish_refresh_works [OF assms]) (simp_all add: set_static_hosts_def)
  note fin = finish_works [OF assms(1,2) _ refl refl]
  show ?thesis
    unfolding combine_stage_def Let_def
    by (auto simp: part assms(3) intro: put fr fin split: sum.split refresh_failure.split source_failure.split)
qed

lemma refresh_sources_works:
  assumes "ids_ok db"
  shows "works db (fst (refresh_sources_handler e a loads dump env_of now clock i token results db))"
proof (cases "locked_row e (refreshes db) i token")
  case (Some f)
  have "store_results e a loads now f results db = Inr (Inr d) \<Longrightarrow> job_part d = job_part db" for d
    using store_rows_part by (auto simp: store_results_def Let_def split: if_splits)
  then show ?thesis
    by (auto simp: refresh_sources_handler_def Some intro: combine_stage_works [OF assms Some] finish_works [OF assms Some refl refl refl]
        split: option.split sum.split)
qed (simp add: refresh_sources_handler_def)

lemma refresh_complete_works:
  assumes "ids_ok db" and "st \<in> set FINISHED_STATUSES"
  shows "works db (fst (refresh_complete e a loads now clock i token st error nbytes sha scrubbed db))"
proof (cases "locked_row e (refreshes db) i token")
  case (Some f)
  have "status f = RUNNING" using locked_row_get [OF Some] by simp
  then have "works db (fst (answer db ok (finish_refresh e now clock (f\<lparr>f_output_bytes := n\<rparr>) iv sd ws db)))" for ok :: "unit reply" and n iv sd ws
    by (intro finish_refresh_works [OF assms(1) Some refl]) simp_all
  then show ?thesis using assms(2)
    by (auto simp: refresh_complete_def Some Let_def intro: finish_works [OF assms(1) Some refl refl refl]
        split: option.split sum.split source_failure.split)
qed (simp add: refresh_complete_def)

section \<open>Ids\<close>

text \<open>No operation on a job draws an id.\<close>

lemma id_part_updates [simp]:
  "id_part (put_run r db) = id_part db" "id_part (put_lint l db) = id_part db" "id_part (put_scan s db) = id_part db"
  "id_part (put_refresh f db) = id_part db" "id_part (put_row x db) = id_part db" "id_part (set_source i g db) = id_part db"
  "id_part (put_output y db) = id_part db" "id_part (remove_outputs i db) = id_part db" "id_part (touch_sources now i sc db) = id_part db"
  by (simp_all add: id_part_def put_run_def set_run_def put_lint_def put_scan_def put_refresh_def put_row_def set_source_def put_output_def
      remove_outputs_def touch_sources_def)

lemma id_part_fields [simp]:
  "id_part (db\<lparr>alerts := x1\<rparr>) = id_part db" "id_part (db\<lparr>run_logs := x2\<rparr>) = id_part db" "id_part (db\<lparr>outage := x3\<rparr>) = id_part db"
  "id_part (db\<lparr>workers := x4\<rparr>) = id_part db" "id_part (db\<lparr>installs := x5\<rparr>) = id_part db" "id_part (db\<lparr>trusted_keys := x6\<rparr>) = id_part db"
  "id_part (db\<lparr>artifact_parts := x7\<rparr>) = id_part db" "id_part (db\<lparr>artifact_files := x8\<rparr>) = id_part db"
  "id_part (db\<lparr>runs := x9\<rparr>) = id_part db" "id_part (db\<lparr>refresh_outputs := x10\<rparr>) = id_part db"
  "id_part (db\<lparr>refresh_sources := x11, next_refresh_source_id := n\<rparr>) = id_part db"
  by (simp_all add: id_part_def)

lemma id_part_alerts [simp]:
  "id_part (fst (raise_alert now k d db)) = id_part db" "id_part (fst (clear_alert k db)) = id_part db" "id_part (clear_alerts ks db) = id_part db"
  "id_part (alert_event now k data ev pid d2 db) = id_part db" "id_part (all_clear_event now k ev pid d2 db) = id_part db"
  by (simp_all add: raise_alert_def clear_alert_def clear_alerts_def alert_event_def all_clear_event_def Let_def)

lemma id_part_runs [simp]:
  "id_part (run_finished now clock r db) = id_part db" "id_part (fail_run e now clock st why r db) = id_part db"
  "id_part (audit_certificate now r db) = id_part db" "id_part (audit_host_keys now r act out vs db) = id_part db"
  "id_part (host_key_changed now r ps db) = id_part db"
  by (auto simp: run_finished_def fail_run_def audit_certificate_def audit_host_keys_def host_key_changed_def Let_def case_prod_unfold
      split: option.split val.split list.split)

lemma id_part_install [simp]: "id_part (fst (try_start_install e now db)) = id_part db" "id_part (finished e now db) = id_part db"
  by (auto simp: finished_def try_start_install_def split: option.split)

lemma id_part_store [simp]:
  "id_part (fst (seen now kind db)) = id_part db" "id_part (fst (cleared db)) = id_part db" "id_part (store_alert e now kind db) = id_part db"
  by (simp_all add: seen_def cleared_def store_alert_def secret_store_failed_def Let_def)

lemma id_part_seen_worker [simp]: "id_part (seen_worker now b db) = id_part db"
  by (simp add: seen_worker_def record_worker_def worker_seen_def Let_def)

lemma id_part_refresh_alerts [simp]:
  "id_part (inventory_refresh_ok now iv db) = id_part db" "id_part (fst (inventory_refresh_failed now iv t db)) = id_part db"
  by (simp_all add: inventory_refresh_ok_def inventory_refresh_failed_def Let_def case_prod_unfold)

lemma id_part_handlers [simp]:
  "id_part (fst (store_down e now clock i token kind reason db)) = id_part db"
  "id_part (fst (events_handler e i token n evs db)) = id_part db"
  "id_part (fst (egress_report e i token body db)) = id_part db"
  "id_part (fst (append_artifacts e i token offset chunk db)) = id_part db"
  "id_part (fst (append_output e i token offset part chunk db)) = id_part db"
  "id_part (fst (lint_job_handler e lbuild now i ct jt db)) = id_part db"
  "id_part (fst (lint_complete e now i token st error body' db)) = id_part db"
  "id_part (fst (keyscan_job_handler e now i ct jt db)) = id_part db"
  "id_part (fst (keyscan_complete e fp now i token st ls error db)) = id_part db"
  by (auto simp: store_down_def events_handler_def egress_report_def append_artifacts_def append_output_def lint_job_handler_def
      lint_complete_def keyscan_job_handler_def keyscan_complete_def finish_lint_def Let_def case_prod_unfold split: option.split sum.split)

lemma id_part_job_handler [simp]: "id_part (fst (job_handler e build now clock i ct jt db)) = id_part db"
  by (auto simp: job_handler_def Let_def split: option.split sum.split job_failure.split)

lemma id_part_heartbeat [simp]: "id_part (fst (heartbeat e now b db)) = id_part db"
proof -
  have "id_part (d\<lparr>runs := a, refreshes := b, lints := c, scans := x\<rparr>) = id_part d" for d a b c x by (simp add: id_part_def)
  then show ?thesis by (simp add: heartbeat_def Let_def)
qed

lemma id_part_complete [simp]: "id_part (fst (complete e fp addresses now clock i token b db)) = id_part db"
proof -
  have "id_part (snd (reported_artifacts e b r d)) = id_part d" for r d
    by (simp add: reported_artifacts_def keep_artifacts_def Let_def split: option.split)
  moreover have "id_part (fst (host_keys_of fp addresses now b r d)) = id_part d" for r d
  proof -
    obtain d1 r1 l1 where rl: "record_learned fp (addresses d r) now r (case co_learned_host_keys b of None \<Rightarrow> [] | Some ls \<Rightarrow> ls) d = (d1, r1, l1)"
      by (metis prod_cases3)
    obtain t where "d1 = d\<lparr>trusted_keys := t\<rparr>" using record_learned_keys [OF rl] by blast
    then show ?thesis by (simp add: host_keys_of_def Let_def rl)
  qed
  ultimately show ?thesis by (simp add: complete_def Let_def case_prod_unfold split: option.split)
qed

lemma id_part_release_runs: "release_runs e now clock st error snap rs db = Inr db' \<Longrightarrow> id_part db' = id_part db"
proof (induction rs arbitrary: db)
  case (Cons r rs)
  have "release_run e now clock st error snap r db = Inr d \<Longrightarrow> id_part d = id_part db" for d
    by (auto simp: release_run_def Let_def res_bind_Inr_iff split: option.splits if_splits)
  then show ?case using Cons by (auto simp: res_bind_Inr_iff)
qed simp

lemma id_part_end_refresh: "end_refresh e now clock f st error db = Inr (db', ev) \<Longrightarrow> id_part db' = id_part db"
  by (auto simp: end_refresh_def Let_def res_bind_Inr_iff release_waiting_runs_def case_prod_unfold split: option.splits if_splits
      dest!: id_part_release_runs)

lemma id_part_finish_with: "finish_with e now clock f st error db = Inr db' \<Longrightarrow> id_part db' = id_part db"
  by (auto simp: finish_with_def Let_def res_bind_Inr_iff split: option.splits dest!: id_part_end_refresh)

lemma id_part_answer: "(\<And>d. r = Inr d \<Longrightarrow> id_part d = id_part db) \<Longrightarrow> id_part (fst (answer db ok r)) = id_part db"
  by (auto simp: answer_def split: sum.split)

lemma id_part_source_failure [simp]: "id_part (record_source_failure e now row m db) = id_part db"
  by (simp add: record_source_failure_def Let_def split: option.split)

lemma id_part_build_sources: "build_sources e now env_of git_call f iv ss b db = (d, x) \<Longrightarrow> id_part d = id_part db"
proof -
  have "id_part (fst (build_sources e now env_of git_call f iv ss b db)) = id_part db"
    by (induction ss arbitrary: b db) (simp_all add: Let_def split: sum.split prod.split file_failure.split)
  then show "build_sources e now env_of git_call f iv ss b db = (d, x) \<Longrightarrow> id_part d = id_part db" by simp
qed

lemma id_part_build_refresh_job: "build_refresh_job e now env_of git_call f db = (d, f', x) \<Longrightarrow> id_part d = id_part db"
  by (auto simp: build_refresh_job_def Let_def split: option.splits if_splits prod.splits sum.splits dest!: id_part_build_sources)

lemma id_part_requeue_refresh [simp]: "id_part (requeue_refresh now f label db) = id_part db"
  by (simp add: requeue_refresh_def Let_def split: option.split)

lemma id_part_refresh_job [simp]: "id_part (fst (refresh_job_handler e env_of git_call now clock i ct jt db)) = id_part db"
proof -
  have "id_part (fst (refresh_store_down e now clock i ct kind err db)) = id_part db" for kind err
    by (auto simp: refresh_store_down_def Let_def case_prod_unfold intro!: id_part_answer dest!: id_part_finish_with split: option.split)
  then show ?thesis
    by (auto simp: refresh_job_handler_def Let_def intro!: id_part_answer dest!: id_part_finish_with id_part_build_refresh_job
        split: option.split prod.split sum.split refresh_failure.split)
qed

lemma id_part_store_rows: "store_rows e a loads now f results rows db = Inr (Inr db') \<Longrightarrow> id_part db' = id_part db"
proof (induction rows arbitrary: db)
  case (Cons p rows)
  have "store_source_output e a loads now f row raw sc d = Inr d' \<Longrightarrow> id_part d' = id_part d" for row raw sc d d'
    by (auto simp: store_source_output_def Let_def split: sum.splits source_failure.splits option.splits if_splits)
  then show ?case using Cons
    by (cases p) (fastforce simp: res_bind_Inr_iff split: if_splits option.splits)
qed simp

lemma id_part_finish_refresh: "finish_refresh e now clock f iv sd ws db = Inr db' \<Longrightarrow> id_part db' = id_part db"
proof -
  have "id_part (d\<lparr>snapshots := x, next_snapshot_id := y, inventories := z\<rparr>) = id_part d" for d x y z by (simp add: id_part_def)
  then have "store_snapshot now f sd ws d = Inr (d', f') \<Longrightarrow> id_part d' = id_part d" for d d' f'
    by (auto simp: store_snapshot_def Let_def split: option.splits)
  then show "finish_refresh e now clock f iv sd ws db = Inr db' \<Longrightarrow> id_part db' = id_part db"
    by (auto simp: finish_refresh_def Let_def case_prod_unfold res_bind_Inr_iff split: if_splits dest!: id_part_finish_with)
qed

lemma id_part_combine_stage:
  "id_part d = id_part db \<Longrightarrow> id_part (fst (combine_stage e a loads dump env_of now clock f iv db d)) = id_part db"
  by (auto simp: combine_stage_def Let_def intro!: id_part_answer dest!: id_part_finish_with id_part_finish_refresh
      split: sum.split refresh_failure.split source_failure.split)

lemma id_part_refresh_sources [simp]:
  "id_part (fst (refresh_sources_handler e a loads dump env_of now clock i token results db)) = id_part db"
  by (auto simp: refresh_sources_handler_def store_results_def Let_def intro!: id_part_answer id_part_combine_stage
      dest!: id_part_finish_with id_part_store_rows split: option.split sum.splits if_splits)

lemma id_part_refresh_complete [simp]:
  "id_part (fst (refresh_complete e a loads now clock i token st error nbytes sha scrubbed db)) = id_part db"
  by (auto simp: refresh_complete_def Let_def intro!: id_part_answer dest!: id_part_finish_with id_part_finish_refresh
      split: option.split sum.split source_failure.split)

end
