(* ===== verification/Dispatch.thy ===== *)
theory Dispatch
  imports Inventory_Output Store_Outage
begin

text \<open>
  The outbox's sender, \<open>app/notifications/dispatch.py\<close>: it claims due deliveries under a short
  lease, sends each (\<open>send\<close> is an argument: the channels speak HTTP and SMTP) and records the outcome.
  The process may die while it sends; then the row keeps the attempt and the lease runs out.
\<close>

section \<open>Settings of the dispatcher\<close>

definition BACKOFF_SECONDS :: "int list" where "BACKOFF_SECONDS = [30, 120, 600, 1800, 3600]"

definition MAX_ATTEMPTS :: int where "MAX_ATTEMPTS = int (length BACKOFF_SECONDS) + 1"

definition LEASE_SECONDS :: int where "LEASE_SECONDS = 60"

definition BATCH :: nat where "BATCH = 20"

definition PER_MINUTE :: nat where "PER_MINUTE = 20"

definition MIN_GAP_SECONDS :: int where "MIN_GAP_SECONDS = 1"

definition MAX_RETRY_AFTER_SECONDS :: int where "MAX_RETRY_AFTER_SECONDS = 3600"

definition RETENTION_DAYS :: int where "RETENTION_DAYS = 30"

definition MAX_FAILED_TASKS :: nat where "MAX_FAILED_TASKS = 10"

section \<open>The failed tasks of a run\<close>

definition text_lines :: "string \<Rightarrow> string list" where
  "text_lines s = (let ls = split_char (CHR 0x0A) s in if last ls = [] then butlast ls else ls)"

definition text_or :: "(val \<Rightarrow> string) \<Rightarrow> val option \<Rightarrow> val" where
  "text_or str_of v = Str (case v of None \<Rightarrow> ''?'' | Some (VStr u s) \<Rightarrow> s | Some x \<Rightarrow> str_of x)"

text \<open>
  \<open>loads\<close> is \<open>json.loads\<close> (\<open>None\<close> a \<open>ValueError\<close>), \<open>str_of\<close> is \<open>str\<close> on what is not a string. An event or
  its data that is no dictionary is an \<open>AttributeError\<close> (\<open>None\<close>).
\<close>

fun scan_tasks :: "(string \<Rightarrow> val option) \<Rightarrow> (val \<Rightarrow> string) \<Rightarrow> string list \<Rightarrow> val list \<Rightarrow> val list option" where
  "scan_tasks loads str_of [] found = Some found"
| "scan_tasks loads str_of (l # ls) found =
     (case loads l of
        None \<Rightarrow> scan_tasks loads str_of ls found
      | Some (VDict ev) \<Rightarrow>
          (let kind = get_or_none ''event'' ev in
           if is_text ''runner_on_failed'' kind \<or> is_text ''runner_on_unreachable'' kind
           then (case get_or_dict ''event_data'' ev of
                   VDict d \<Rightarrow>
                     if is_text ''runner_on_failed'' kind \<and> truthy (get_or_none ''ignore_errors'' d)
                     then scan_tasks loads str_of ls found
                     else let found' = found @ [VDict [(vkey ''host'', text_or str_of (vget ''host'' d)),
                                                       (vkey ''task'', text_or str_of (vget ''task'' d))]]
                          in if length found' \<ge> MAX_FAILED_TASKS then Some found' else scan_tasks loads str_of ls found'
                 | _ \<Rightarrow> None)
           else scan_tasks loads str_of ls found)
      | Some _ \<Rightarrow> None)"

definition failed_tasks ::
  "(string \<Rightarrow> val option) \<Rightarrow> (val \<Rightarrow> string) \<Rightarrow> key_id \<Rightarrow> database \<Rightarrow> val list option" where
  "failed_tasks loads str_of i db =
     (case run_logs db i of None \<Rightarrow> Some [] | Some t \<Rightarrow> scan_tasks loads str_of (text_lines t) [])"

section \<open>Claiming\<close>

definition due_delivery :: "time \<Rightarrow> delivery \<Rightarrow> bool" where
  "due_delivery now d = (d_status d \<in> {''pending'', ''sending''} \<and> d_next_attempt_at d \<le> now)"

definition put_delivery :: "delivery \<Rightarrow> database \<Rightarrow> database" where
  "put_delivery d db = db\<lparr>deliveries := update_rows (\<lambda>x. d_id x = d_id d) (\<lambda>_. d) (deliveries db)\<rparr>"

definition claim_delivery :: "time \<Rightarrow> delivery \<Rightarrow> delivery" where
  "claim_delivery now d =
     (if d_attempts d \<ge> MAX_ATTEMPTS
      then d\<lparr>d_status := ''failed'',
             d_last_error := Some (error_or (d_last_error d) ''gave up: the last attempt never finished'')\<rparr>
      else d\<lparr>d_status := ''sending'', d_next_attempt_at := now + secs LEASE_SECONDS\<rparr>)"

text \<open>\<open>locked\<close> are the rows other transactions hold.\<close>

definition claim_rows :: "time \<Rightarrow> key_id list \<Rightarrow> nat \<Rightarrow> database \<Rightarrow> delivery list" where
  "claim_rows now locked limit db =
     take limit (sort_key (\<lambda>d. (d_next_attempt_at d, d_id d))
       (filter (\<lambda>d. due_delivery now d \<and> d_id d \<notin> set locked) (deliveries db)))"

definition claim_deliveries :: "time \<Rightarrow> key_id list \<Rightarrow> nat \<Rightarrow> database \<Rightarrow> database \<times> key_id list" where
  "claim_deliveries now locked limit db =
     (let rows = claim_rows now locked limit db in
      (fold (\<lambda>d. put_delivery (claim_delivery now d)) rows db,
       map d_id (filter (\<lambda>d. d_attempts d < MAX_ATTEMPTS) rows)))"

section \<open>Sending\<close>

definition sent_since :: "time \<Rightarrow> key_id \<Rightarrow> database \<Rightarrow> nat" where
  "sent_since t ch db =
     length (filter (\<lambda>d. d_channel_id d = ch \<and> (case d_sent_at d of None \<Rightarrow> False | Some s \<Rightarrow> s > t)) (deliveries db))"

definition wait_for_pacing :: "time \<Rightarrow> key_id \<Rightarrow> database \<Rightarrow> int option" where
  "wait_for_pacing now ch db =
     (if sent_since (now - secs 60) ch db \<ge> PER_MINUTE then Some 60
      else if sent_since (now - secs MIN_GAP_SECONDS) ch db > 0 then Some MIN_GAP_SECONDS
      else None)"

record outcome =
  oc_ok :: bool
  oc_status_code :: "int option"
  oc_error :: "string option"
  oc_retry_after :: "time option"
  oc_permanent :: bool

text \<open>What sending does: it returns, raises an exception of this type, or the process dies.\<close>

datatype sending = Sent_outcome outcome | Sending_raised string | Process_died

definition raised_outcome :: "string \<Rightarrow> outcome" where
  "raised_outcome ty =
     \<lparr>oc_ok = False, oc_status_code = None, oc_error = Some (''unexpected error: '' @ ty), oc_retry_after = None,
      oc_permanent = True\<rparr>"

definition record_outcome :: "time \<Rightarrow> outcome \<Rightarrow> delivery \<Rightarrow> delivery" where
  "record_outcome now oc d0 =
     (let d = d0\<lparr>d_last_status_code := oc_status_code oc,
                 d_last_error := (if nonempty (oc_error oc) then map_option (take 300) (oc_error oc) else None)\<rparr> in
      if oc_ok oc then d\<lparr>d_status := ''sent'', d_sent_at := Some now\<rparr>
      else if oc_permanent oc \<or> d_attempts d \<ge> MAX_ATTEMPTS then d\<lparr>d_status := ''failed''\<rparr>
      else let wait = (case oc_retry_after oc of
                         None \<Rightarrow> secs (BACKOFF_SECONDS ! nat (d_attempts d - 1))
                       | Some r \<Rightarrow> min (max r (secs 1)) (secs MAX_RETRY_AFTER_SECONDS))
           in d\<lparr>d_status := ''pending'', d_next_attempt_at := now + wait\<rparr>)"

text \<open>The payload with the failed tasks of its run, looked up once; \<open>None\<close> when reading them raised.\<close>

definition full_payload ::
  "(string \<Rightarrow> val option) \<Rightarrow> (val \<Rightarrow> string) \<Rightarrow> delivery \<Rightarrow> database \<Rightarrow> vars option" where
  "full_payload loads str_of d db =
     (if d_event d = RUN_FAILED \<and> vget ''failed_tasks'' (d_payload d) = None
      then map_option (\<lambda>ts. d_payload d @ [(vkey ''failed_tasks'', VList ts)])
             (failed_tasks loads str_of (case vget ''run_id'' (d_payload d) of Some (VInt i) \<Rightarrow> i | _ \<Rightarrow> - 1) db)
      else Some (d_payload d))"

definition open_channel :: "database \<Rightarrow> delivery \<Rightarrow> channel option" where
  "open_channel db d =
     (case get_row ch_id (channels db) (d_channel_id d) of
        None \<Rightarrow> None | Some ch \<Rightarrow> if ch_enabled ch then Some ch else None)"

text \<open>\<open>t1\<close> is the time of the transaction that counts the attempt, \<open>t2\<close> of the one that records it.\<close>

definition deliver ::
  "(string \<Rightarrow> val option) \<Rightarrow> (val \<Rightarrow> string) \<Rightarrow> (channel \<Rightarrow> string \<Rightarrow> vars \<Rightarrow> sending) \<Rightarrow> time \<Rightarrow> time \<Rightarrow> key_id \<Rightarrow>
   database \<Rightarrow> database \<times> bool" where
  "deliver loads str_of send t1 t2 i db =
     (case get_row d_id (deliveries db) i of
        None \<Rightarrow> (db, True)
      | Some d \<Rightarrow>
          if d_status d \<noteq> ''sending'' then (db, True)
          else (case open_channel db d of
                  None \<Rightarrow>
                    (put_delivery (d\<lparr>d_status := ''failed'',
                       d_last_error := Some ''the channel was turned off before it could be sent''\<rparr>) db, True)
                | Some ch \<Rightarrow>
                    (case wait_for_pacing t1 (ch_id ch) db of
                       Some w \<Rightarrow> (put_delivery (d\<lparr>d_status := ''pending'', d_next_attempt_at := t1 + secs w\<rparr>) db, True)
                     | None \<Rightarrow>
                         (case full_payload loads str_of d db of
                            None \<Rightarrow> (db, True)
                          | Some payload \<Rightarrow>
                              let d1 = d\<lparr>d_payload := payload, d_attempts := d_attempts d + 1\<rparr>;
                                  db1 = put_delivery d1 db
                              in (case send ch (d_event d) payload of
                                    Process_died \<Rightarrow> (db1, False)
                                  | Sending_raised ty \<Rightarrow> (put_delivery (record_outcome t2 (raised_outcome ty) d1) db1, True)
                                  | Sent_outcome oc \<Rightarrow> (put_delivery (record_outcome t2 oc d1) db1, True))))))"

text \<open>The batch; a process that dies leaves the rest of it claimed. \<open>tick n\<close> are the times of the \<open>n\<close>-th send.\<close>

fun deliver_all ::
  "(string \<Rightarrow> val option) \<Rightarrow> (val \<Rightarrow> string) \<Rightarrow> (nat \<Rightarrow> channel \<Rightarrow> string \<Rightarrow> vars \<Rightarrow> sending) \<Rightarrow> (nat \<Rightarrow> time \<times> time) \<Rightarrow>
   nat \<Rightarrow> key_id list \<Rightarrow> database \<Rightarrow> database" where
  "deliver_all loads str_of send tick n [] db = db"
| "deliver_all loads str_of send tick n (i # is) db =
     (case deliver loads str_of (send n) (fst (tick n)) (snd (tick n)) i db of
        (db1, alive) \<Rightarrow> if alive then deliver_all loads str_of send tick (Suc n) is db1 else db1)"

definition dispatch_once ::
  "(string \<Rightarrow> val option) \<Rightarrow> (val \<Rightarrow> string) \<Rightarrow> (nat \<Rightarrow> channel \<Rightarrow> string \<Rightarrow> vars \<Rightarrow> sending) \<Rightarrow> time \<Rightarrow>
   (nat \<Rightarrow> time \<times> time) \<Rightarrow> key_id list \<Rightarrow> database \<Rightarrow> database \<times> nat" where
  "dispatch_once loads str_of send now tick locked db =
     (case claim_deliveries now locked BATCH db of
        (db1, ids) \<Rightarrow> (deliver_all loads str_of send tick 0 ids db1, length ids))"

definition prune_deliveries :: "time \<Rightarrow> database \<Rightarrow> database" where
  "prune_deliveries now db =
     db\<lparr>deliveries := delete_rows
          (\<lambda>d. d_status d \<in> {''sent'', ''failed''} \<and> d_created_at d < now - secs (RETENTION_DAYS * 86400)) (deliveries db)\<rparr>"

section \<open>What the outbox promises\<close>

text \<open>The deliveries to a channel in the minute that ends at \<open>t\<close>.\<close>

definition sent_within :: "time \<Rightarrow> key_id \<Rightarrow> database \<Rightarrow> nat" where
  "sent_within t ch db =
     length (filter (\<lambda>d. d_channel_id d = ch \<and>
       (case d_sent_at d of None \<Rightarrow> False | Some s \<Rightarrow> t - secs 60 < s \<and> s \<le> t)) (deliveries db))"

definition sent_ok :: "time \<Rightarrow> delivery \<Rightarrow> bool" where
  "sent_ok now d =
     (d_attempts d \<le> MAX_ATTEMPTS \<and> (\<forall>s. d_sent_at d = Some s \<longrightarrow> s \<le> now \<and> d_status d = ''sent''))"

definition outbox_ok :: "time \<Rightarrow> database \<Rightarrow> bool" where
  "outbox_ok now db =
     (distinct (map d_id (deliveries db)) \<and> (\<forall>d \<in> set (deliveries db). sent_ok now d) \<and>
      (\<forall>ch t. sent_within t ch db \<le> PER_MINUTE))"

lemma sent_ok_mono: "sent_ok t d \<Longrightarrow> t \<le> t' \<Longrightarrow> sent_ok t' d"
  by (auto simp: sent_ok_def)

lemma outbox_ok_mono: "outbox_ok t db \<Longrightarrow> t \<le> t' \<Longrightarrow> outbox_ok t' db"
  by (auto simp: outbox_ok_def intro: sent_ok_mono)

lemma deliveries_put: "deliveries (put_delivery d db) = update_rows (\<lambda>x. d_id x = d_id d) (\<lambda>_. d) (deliveries db)"
  by (simp add: put_delivery_def)

lemma in_put_delivery:
  "x \<in> set (deliveries (put_delivery d db)) \<Longrightarrow> x = d \<or> (x \<in> set (deliveries db) \<and> d_id x \<noteq> d_id d)"
  by (auto simp: deliveries_put set_update_rows)

lemma put_delivery_ids: "map d_id (deliveries (put_delivery d db)) = map d_id (deliveries db)"
  by (simp add: deliveries_put update_rows_def)

text \<open>Writing a row back that says of its sending what it said before.\<close>

lemma put_delivery_ok:
  assumes ok: "outbox_ok now db" and d: "sent_ok now d" and unsent: "d_sent_at d = None"
  shows "outbox_ok now (put_delivery d db)"
proof -
  have "sent_within t ch (put_delivery d db) \<le> PER_MINUTE" for t ch
  proof -
    have "sent_within t ch (put_delivery d db) \<le> sent_within t ch db"
      using length_filter_put [of d_id "deliveries db"
        "\<lambda>d. d_channel_id d = ch \<and> (case d_sent_at d of None \<Rightarrow> False | Some s \<Rightarrow> t - secs 60 < s \<and> s \<le> t)" d] ok unsent
      by (simp add: sent_within_def deliveries_put outbox_ok_def)
    also have "\<dots> \<le> PER_MINUTE" using ok by (simp add: outbox_ok_def)
    finally show ?thesis .
  qed
  moreover have "\<forall>x \<in> set (deliveries (put_delivery d db)). sent_ok now x"
    using ok d in_put_delivery by (fastforce simp: outbox_ok_def)
  ultimately show ?thesis using ok by (simp add: outbox_ok_def put_delivery_ids)
qed

text \<open>Recording a send that pacing allowed.\<close>

lemma put_sent_ok:
  assumes ok: "outbox_ok t1 db" and d: "sent_ok t2 d" and s: "d_sent_at d = Some t2"
    and free: "sent_since (t1 - secs 60) (d_channel_id d) db < PER_MINUTE" and t: "t1 \<le> t2"
  shows "outbox_ok t2 (put_delivery d db)"
proof -
  have "sent_within t ch (put_delivery d db) \<le> PER_MINUTE" for t ch
  proof -
    let ?P = "\<lambda>d. d_channel_id d = ch \<and> (case d_sent_at d of None \<Rightarrow> False | Some s \<Rightarrow> t - secs 60 < s \<and> s \<le> t)"
    have up: "sent_within t ch (put_delivery d db) \<le> sent_within t ch db + (if ?P d then 1 else 0)"
      using length_filter_put [of d_id "deliveries db" ?P d] ok
      by (simp add: sent_within_def deliveries_put outbox_ok_def)
    show ?thesis
    proof (cases "?P d")
      case True
      then have "ch = d_channel_id d" "t - secs 60 < t2" "t2 \<le> t" using s by auto
      then have "sent_within t ch db \<le> sent_since (t1 - secs 60) (d_channel_id d) db"
        unfolding sent_within_def sent_since_def
        using t by (intro length_filter_mono) (auto split: option.splits)
      with up True free show ?thesis by simp
    next
      case False
      with up ok show ?thesis by (simp add: outbox_ok_def) (meson dual_order.trans)
    qed
  qed
  moreover have "\<forall>x \<in> set (deliveries (put_delivery d db)). sent_ok t2 x"
    using ok d t in_put_delivery sent_ok_mono unfolding outbox_ok_def by metis
  ultimately show ?thesis using ok by (simp add: outbox_ok_def put_delivery_ids)
qed

lemma put_twice: "d_id d1 = d_id d2 \<Longrightarrow> put_delivery d2 (put_delivery d1 db) = put_delivery d2 db"
  by (simp add: put_delivery_def update_rows_def comp_def if_distrib cong: if_cong)

lemma record_outcome_columns [simp]:
  "d_id (record_outcome t oc d) = d_id d" "d_channel_id (record_outcome t oc d) = d_channel_id d"
  "d_attempts (record_outcome t oc d) = d_attempts d"
  by (simp_all add: record_outcome_def Let_def)

lemma record_outcome_sent:
  "d_sent_at d = None \<Longrightarrow> d_sent_at (record_outcome t oc d) = (if oc_ok oc then Some t else None) \<and>
     (oc_ok oc \<longrightarrow> d_status (record_outcome t oc d) = ''sent'')"
  by (simp add: record_outcome_def Let_def)

text \<open>Delivering writes at most the one row, which was being sent.\<close>

definition delivered :: "time \<Rightarrow> time \<Rightarrow> delivery \<Rightarrow> delivery \<Rightarrow> database \<Rightarrow> bool" where
  "delivered t1 t2 d d' db =
     (d_id d' = d_id d \<and> d_channel_id d' = d_channel_id d \<and> d_attempts d' \<le> d_attempts d + 1 \<and>
      (d_sent_at d' = None \<or>
       d_sent_at d' = Some t2 \<and> d_status d' = ''sent'' \<and> sent_since (t1 - secs 60) (d_channel_id d) db < PER_MINUTE))"

lemma pacing_free: "wait_for_pacing t ch db = None \<Longrightarrow> sent_since (t - secs 60) ch db < PER_MINUTE"
  by (auto simp: wait_for_pacing_def split: if_splits)

lemma open_channel_id: "open_channel db d = Some ch \<Longrightarrow> ch_id ch = d_channel_id d"
  using get_row_Some [of ch_id "channels db"] by (auto simp: open_channel_def split: option.splits if_splits)

lemma deliver_rows:
  assumes "\<And>d. d \<in> set (deliveries db) \<Longrightarrow> d_status d = ''sending'' \<Longrightarrow> d_sent_at d = None"
  obtains "fst (deliver loads str_of send t1 t2 i db) = db"
  | d d' where "d \<in> set (deliveries db)" "d_id d = i" "d_status d = ''sending''" "delivered t1 t2 d d' db"
      "fst (deliver loads str_of send t1 t2 i db) = put_delivery d' db"
proof (cases "get_row d_id (deliveries db) i")
  case (Some d)
  note d = get_row_Some [OF Some]
  show ?thesis
  proof (cases "d_status d = ''sending''")
    case sending: True
    have unsent: "d_sent_at d = None" using assms d sending by blast
    show ?thesis
    proof (cases "open_channel db d")
      case None
      show ?thesis
        by (rule that(2) [of d "d\<lparr>d_status := ''failed'',
              d_last_error := Some ''the channel was turned off before it could be sent''\<rparr>"])
          (use d sending unsent None Some in \<open>simp_all add: deliver_def delivered_def\<close>)
    next
      case ch: (Some ch)
      show ?thesis
      proof (cases "wait_for_pacing t1 (ch_id ch) db")
        case (Some w)
        show ?thesis
          by (rule that(2) [of d "d\<lparr>d_status := ''pending'', d_next_attempt_at := t1 + secs w\<rparr>"])
            (use d sending unsent ch Some \<open>get_row d_id (deliveries db) i = _\<close> in \<open>simp_all add: deliver_def delivered_def\<close>)
      next
        case free: None
        show ?thesis
        proof (cases "full_payload loads str_of d db")
          case None
          then show ?thesis using that(1) Some sending ch free by (simp add: deliver_def)
        next
          case (Some payload)
          let ?d1 = "d\<lparr>d_payload := payload, d_attempts := d_attempts d + 1\<rparr>"
          let ?d2 = "case send ch (d_event d) payload of Process_died \<Rightarrow> ?d1
            | Sending_raised ty \<Rightarrow> record_outcome t2 (raised_outcome ty) ?d1 | Sent_outcome oc \<Rightarrow> record_outcome t2 oc ?d1"
          have "fst (deliver loads str_of send t1 t2 i db) = put_delivery ?d2 db"
            using \<open>get_row d_id (deliveries db) i = _\<close> sending ch free Some
            by (simp add: deliver_def Let_def put_twice split: sending.split)
          moreover have "delivered t1 t2 d ?d2 db"
            using unsent pacing_free [OF free] open_channel_id [OF ch] record_outcome_sent [of ?d1]
            by (auto simp: delivered_def raised_outcome_def split: sending.split)
          ultimately show ?thesis using that(2) d sending by blast
        qed
      qed
    qed
  next
    case False
    then show ?thesis using that(1) Some by (simp add: deliver_def)
  qed
qed (use that(1) in \<open>simp add: deliver_def\<close>)

lemma outbox_unsent:
  "outbox_ok t db \<Longrightarrow> d \<in> set (deliveries db) \<Longrightarrow> d_status d = ''sending'' \<Longrightarrow> d_sent_at d = None"
  by (cases "d_sent_at d") (auto simp: outbox_ok_def sent_ok_def)

text \<open>A delivery that was sent or given up stays as it is.\<close>

definition final_kept :: "database \<Rightarrow> database \<Rightarrow> bool" where
  "final_kept db db' = (\<forall>d \<in> set (deliveries db). d_status d \<in> {''sent'', ''failed''} \<longrightarrow> d \<in> set (deliveries db'))"

lemma final_kept_refl [simp]: "final_kept db db"
  by (simp add: final_kept_def)

lemma final_kept_trans: "final_kept a b \<Longrightarrow> final_kept b c \<Longrightarrow> final_kept a c"
  by (simp add: final_kept_def)

lemma put_final_kept:
  assumes "distinct (map d_id (deliveries db))" "d \<in> set (deliveries db)" "d_status d \<notin> {''sent'', ''failed''}" "d_id d' = d_id d"
  shows "final_kept db (put_delivery d' db)"
proof -
  have "d_id x \<noteq> d_id d" if "x \<in> set (deliveries db)" "d_status x \<in> {''sent'', ''failed''}" for x
    using assms(1-3) that by (metis get_row_unique option.inject)
  then show ?thesis using assms(4) by (auto simp: final_kept_def deliveries_put set_update_rows image_iff)
qed

lemma deliver_step:
  assumes ok: "outbox_ok t0 db" and t: "t0 \<le> t1" "t1 \<le> t2"
    and fresh: "\<And>d. d \<in> set (deliveries db) \<Longrightarrow> d_id d = i \<Longrightarrow> d_attempts d < MAX_ATTEMPTS"
  shows "outbox_ok t2 (fst (deliver loads str_of send t1 t2 i db))"
    and "final_kept db (fst (deliver loads str_of send t1 t2 i db))"
    and "x \<in> set (deliveries (fst (deliver loads str_of send t1 t2 i db))) \<Longrightarrow> d_id x \<noteq> i \<Longrightarrow> x \<in> set (deliveries db)"
proof -
  have all: "outbox_ok t2 (fst (deliver loads str_of send t1 t2 i db)) \<and>
    final_kept db (fst (deliver loads str_of send t1 t2 i db)) \<and>
    (\<forall>x \<in> set (deliveries (fst (deliver loads str_of send t1 t2 i db))). d_id x \<noteq> i \<longrightarrow> x \<in> set (deliveries db))"
  proof (rule deliver_rows [of db loads str_of send t1 t2 i, OF outbox_unsent [OF ok]])
    assume "fst (deliver loads str_of send t1 t2 i db) = db"
    then show ?thesis using outbox_ok_mono [OF ok] t by simp
  next
    fix d d'
    assume d: "d \<in> set (deliveries db)" "d_id d = i" "d_status d = ''sending''" "delivered t1 t2 d d' db"
      and r: "fst (deliver loads str_of send t1 t2 i db) = put_delivery d' db"
    have d': "d_id d' = i" "d_attempts d' \<le> MAX_ATTEMPTS" using d fresh [of d] by (auto simp: delivered_def)
    have ok1: "outbox_ok t1 db" by (rule outbox_ok_mono [OF ok t(1)])
    have "outbox_ok t2 (put_delivery d' db)"
    proof (cases "d_sent_at d'")
      case None
      then show ?thesis using d' by (intro put_delivery_ok outbox_ok_mono [OF ok1 t(2)]) (simp_all add: sent_ok_def)
    next
      case (Some s)
      then show ?thesis using d d' by (intro put_sent_ok [OF ok1 _ _ _ t(2)]) (auto simp: sent_ok_def delivered_def)
    qed
    moreover have "final_kept db (put_delivery d' db)"
      using put_final_kept [of db d d'] ok d d'(1) by (simp add: outbox_ok_def)
    ultimately show ?thesis unfolding r using d'(1) by (auto dest: in_put_delivery)
  qed
  show "outbox_ok t2 (fst (deliver loads str_of send t1 t2 i db))"
    "final_kept db (fst (deliver loads str_of send t1 t2 i db))" using all by blast+
  show "x \<in> set (deliveries (fst (deliver loads str_of send t1 t2 i db))) \<Longrightarrow> d_id x \<noteq> i \<Longrightarrow> x \<in> set (deliveries db)"
    using all by blast
qed

lemma claim_delivery_columns [simp]:
  "d_id (claim_delivery now d) = d_id d" "d_attempts (claim_delivery now d) = d_attempts d"
  "d_sent_at (claim_delivery now d) = d_sent_at d"
  by (simp_all add: claim_delivery_def)

lemma fold_claim:
  assumes "outbox_ok now db" and "set rows \<subseteq> set (deliveries db)" and "distinct (map d_id rows)"
    and "\<forall>d \<in> set rows. d_status d \<in> {''pending'', ''sending''}"
  shows "outbox_ok now (fold (\<lambda>d. put_delivery (claim_delivery now d)) rows db) \<and>
    final_kept db (fold (\<lambda>d. put_delivery (claim_delivery now d)) rows db) \<and>
    map (\<lambda>d. (d_id d, d_attempts d)) (deliveries (fold (\<lambda>d. put_delivery (claim_delivery now d)) rows db)) =
      map (\<lambda>d. (d_id d, d_attempts d)) (deliveries db)"
  using assms
proof (induction rows arbitrary: db)
  case (Cons d rows)
  let ?db1 = "put_delivery (claim_delivery now d) db"
  have d: "d \<in> set (deliveries db)" "distinct (map d_id (deliveries db))" "sent_ok now d"
    using Cons.prems by (auto simp: outbox_ok_def)
  have "d_sent_at d = None" using d(3) Cons.prems(4) by (cases "d_sent_at d") (auto simp: sent_ok_def)
  then have ok: "outbox_ok now ?db1"
    using d(3) by (intro put_delivery_ok [OF Cons.prems(1)]) (simp_all add: sent_ok_def)
  have kept: "final_kept db ?db1" using Cons.prems(4) by (intro put_final_kept [OF d(2,1)]) auto
  have same: "x = d" if "x \<in> set (deliveries db)" "d_id x = d_id d" for x
    using d(1,2) that by (metis get_row_unique option.inject)
  have cols: "map (\<lambda>d. (d_id d, d_attempts d)) (deliveries ?db1) = map (\<lambda>d. (d_id d, d_attempts d)) (deliveries db)"
    using same by (auto simp: deliveries_put update_rows_def)
  have sub: "set rows \<subseteq> set (deliveries ?db1)"
  proof
    fix x assume "x \<in> set rows"
    then have "x \<in> set (deliveries db)" "d_id x \<noteq> d_id d" using Cons.prems(2,3) by (auto simp: image_iff)
    then show "x \<in> set (deliveries ?db1)" by (auto simp: deliveries_put set_update_rows image_iff)
  qed
  note ih = Cons.IH [OF ok sub]
  have "distinct (map d_id rows)" "\<forall>d \<in> set rows. d_status d \<in> {''pending'', ''sending''}"
    using Cons.prems(3,4) by simp_all
  from ih [OF this] kept cols show ?case by (auto intro: final_kept_trans)
qed simp

lemma claim_step:
  assumes ok: "outbox_ok now db" and c: "claim_deliveries now locked limit db = (db', ids)"
  shows "outbox_ok now db'" "final_kept db db'" "distinct ids"
    and "i \<in> set ids \<Longrightarrow> d \<in> set (deliveries db') \<Longrightarrow> d_id d = i \<Longrightarrow> d_attempts d < MAX_ATTEMPTS"
proof -
  let ?rows = "claim_rows now locked limit db"
  have db': "db' = fold (\<lambda>d. put_delivery (claim_delivery now d)) ?rows db"
    and ids: "ids = map d_id (filter (\<lambda>d. d_attempts d < MAX_ATTEMPTS) ?rows)"
    using c by (simp_all add: claim_deliveries_def Let_def)
  have rows: "set ?rows \<subseteq> {d \<in> set (deliveries db). due_delivery now d}"
    unfolding claim_rows_def by (auto dest!: in_set_takeD)
  have dist: "distinct (map d_id ?rows)"
  proof -
    have "distinct (map d_id (sort_key (\<lambda>d. (d_next_attempt_at d, d_id d))
        (filter (\<lambda>d. due_delivery now d \<and> d_id d \<notin> set locked) (deliveries db))))"
      using ok by (simp add: outbox_ok_def distinct_map inj_on_def)
    then show ?thesis unfolding claim_rows_def by (simp add: take_map [symmetric])
  qed
  note f = fold_claim [OF ok _ dist, folded db']
  have f: "outbox_ok now db' \<and> final_kept db db' \<and>
      map (\<lambda>d. (d_id d, d_attempts d)) (deliveries db') = map (\<lambda>d. (d_id d, d_attempts d)) (deliveries db)"
    using rows by (intro f) (auto simp: due_delivery_def)
  then show "outbox_ok now db'" "final_kept db db'" by blast+
  show "distinct ids" unfolding ids using dist by (rule distinct_map_filter)
  assume i: "i \<in> set ids" and d: "d \<in> set (deliveries db')" "d_id d = i"
  from i obtain r where r: "r \<in> set (deliveries db)" "d_id r = i" "d_attempts r < MAX_ATTEMPTS"
    using rows by (auto simp: ids)
  have "(i, d_attempts d) \<in> set (map (\<lambda>d. (d_id d, d_attempts d)) (deliveries db))"
    using f d by (metis (mono_tags, lifting) image_eqI list.set_map)
  then obtain x where "x \<in> set (deliveries db)" "d_id x = i" "d_attempts x = d_attempts d" by auto
  then have "x = r" using ok r unfolding outbox_ok_def by (metis get_row_unique option.inject)
  then show "d_attempts d < MAX_ATTEMPTS" using r(3) \<open>d_attempts x = d_attempts d\<close> by simp
qed

lemma deliver_all_step:
  assumes "outbox_ok t0 db" and "t0 \<le> fst (tick n)"
    and "\<And>m. fst (tick m) \<le> snd (tick m) \<and> snd (tick m) \<le> fst (tick (Suc m))"
    and "distinct ids"
    and "\<And>i d. i \<in> set ids \<Longrightarrow> d \<in> set (deliveries db) \<Longrightarrow> d_id d = i \<Longrightarrow> d_attempts d < MAX_ATTEMPTS"
  shows "outbox_ok (snd (tick (n + length ids))) (deliver_all loads str_of send tick n ids db) \<and>
    final_kept db (deliver_all loads str_of send tick n ids db)"
  using assms
proof (induction ids arbitrary: n t0 db)
  case Nil
  then show ?case using outbox_ok_mono [OF Nil.prems(1)] by (simp add: order_trans)
next
  case (Cons i ids)
  let ?r = "deliver loads str_of (send n) (fst (tick n)) (snd (tick n)) i db"
  obtain db1 alive where r: "?r = (db1, alive)" by fastforce
  have t: "fst (tick n) \<le> snd (tick n)" "snd (tick n) \<le> fst (tick (Suc n))" using Cons.prems(3) by blast+
  have "d_attempts d < MAX_ATTEMPTS" if "d \<in> set (deliveries db)" "d_id d = i" for d
    using Cons.prems(5) [of i d] that by simp
  note step = deliver_step [where i = i and loads = loads and str_of = str_of and send = "send n",
      OF Cons.prems(1,2) t(1) this, unfolded r fst_conv]
  note ok = step(1,2) and others = step(3)
  have later: "snd (tick n) \<le> snd (tick (n + m))" for m
  proof (induction m)
    case (Suc m)
    have "snd (tick (n + m)) \<le> snd (tick (n + Suc m))" using Cons.prems(3) [of "n + m"] Cons.prems(3) [of "Suc (n + m)"]
      by simp
    with Suc show ?case by simp
  qed simp
  show ?case
  proof (cases alive)
    case True
    have "d_attempts d < MAX_ATTEMPTS" if "j \<in> set ids" "d \<in> set (deliveries db1)" "d_id d = j" for j d
      using that others [where x = d] Cons.prems(4,5) by auto
    from Cons.IH [OF ok(1) t(2) Cons.prems(3) _ this] Cons.prems(4) ok(2) show ?thesis
      using r True by (auto intro: final_kept_trans)
  next
    case False
    then show ?thesis using r ok outbox_ok_mono [OF ok(1) later [of "length (i # ids)"]] by simp
  qed
qed


definition sample_delivery :: delivery where
  "sample_delivery = \<lparr>d_id = 1, d_channel_id = 3, d_event = ''worker.offline'', d_payload = [], d_dedup_key = None,
     d_status = ''pending'', d_attempts = 5, d_next_attempt_at = 4, d_last_status_code = None, d_last_error = None,
     d_created_at = 0, d_sent_at = None\<rparr>"

definition outbox_db :: database where
  "outbox_db = empty_db\<lparr>channels := [\<lparr>ch_id = 3, ch_project_id = None, ch_kind = ''webhook'',
     ch_events = [''worker.offline''], ch_enabled = True\<rparr>], deliveries := [sample_delivery]\<rparr>"


end
