(* ===== verification/Reaper.thy ===== *)
theory Reaper
  imports Git_Sync Refresh_Api Dispatch
begin

text \<open>
  The reaper, \<open>app/reaper.py\<close>: ends what nobody will finish. One pass is a sequence of transactions; what
  others commit before the \<open>k\<close>-th of them, its clock and the rows others hold locked then are the record
  \<open>reaping\<close>. With it the periodic checks of \<open>notifications/ops.py\<close>, the pruning of API keys
  (\<open>app/api_keys.py\<close>) and \<open>format_duration\<close> (\<open>app/run_executor.py\<close>). The texts of times are arguments.
\<close>

definition TIMEOUT_GRACE_SECONDS :: int where "TIMEOUT_GRACE_SECONDS = 120"
definition CANCEL_GRACE_SECONDS :: int where "CANCEL_GRACE_SECONDS = 90"
definition WORKER_RETENTION_SECONDS :: int where "WORKER_RETENTION_SECONDS = 24 * 60 * 60"
definition REAP_BATCH :: nat where "REAP_BATCH = 100"
definition STUCK_SAMPLE :: nat where "STUCK_SAMPLE = 20"

definition STUCK_REASONS :: "string list" where
  "STUCK_REASONS = [''No worker is online'', ''Waiting for a free worker'', ''Waiting for a worker'', ''Waiting for a galaxy install'']"

record reaping =
  rp_now :: "nat \<Rightarrow> time"
  rp_clock :: "nat \<Rightarrow> string"
  rp_locked :: "nat \<Rightarrow> key_id \<Rightarrow> bool"
  rp_others :: "nat \<Rightarrow> database \<Rightarrow> database"
  rp_at :: "time \<Rightarrow> string"
  rp_iso :: "time \<Rightarrow> string"

definition format_duration :: "int \<Rightarrow> string" where
  "format_duration seconds =
     (if seconds < 120 then show_int seconds @ '' s''
      else let hours = (seconds div 60) div 60; minutes = (seconds div 60) mod 60 in
           if hours = 0 then show_int minutes @ '' min''
           else if minutes \<noteq> 0 then show_int hours @ '' h '' @ show_int minutes @ '' min'' else show_int hours @ '' h'')"

definition at_text :: "(time \<Rightarrow> string) \<Rightarrow> time option \<Rightarrow> string" where
  "at_text fmt t = (case t of None \<Rightarrow> ''never'' | Some x \<Rightarrow> fmt x)"

text \<open>A column in an f-string.\<close>

definition opt_text :: "string option \<Rightarrow> string" where
  "opt_text t = (case t of None \<Rightarrow> ''None'' | Some s \<Rightarrow> s)"

text \<open>\<open>SELECT \<dots> ORDER BY id LIMIT 100 FOR UPDATE SKIP LOCKED\<close>.\<close>

definition lock_rows :: "('a job_scheme \<Rightarrow> bool) \<Rightarrow> (key_id \<Rightarrow> bool) \<Rightarrow> 'a job_scheme list \<Rightarrow> 'a job_scheme list" where
  "lock_rows p locked tbl = take REAP_BATCH (filter (\<lambda>r. \<not> locked (row_id r)) (sort_key row_id (filter p tbl)))"

section \<open>What is overdue\<close>

definition before_now :: "time \<Rightarrow> time option \<Rightarrow> bool" where
  "before_now now t = (case t of None \<Rightarrow> False | Some x \<Rightarrow> x < now)"

definition lease_over :: "time \<Rightarrow> 'a job_scheme \<Rightarrow> bool" where
  "lease_over now r = (status r = RUNNING \<and> before_now now (lease_expires_at r))"

definition began_at :: "'a job_scheme \<Rightarrow> time option" where
  "began_at r = (case started_at r of Some t \<Rightarrow> Some t | None \<Rightarrow> claimed_at r)"

definition time_over :: "int \<Rightarrow> time \<Rightarrow> 'a job_scheme \<Rightarrow> bool" where
  "time_over grace now r =
     (status r = RUNNING \<and> before_now now (map_option (\<lambda>t. t + secs (timeout_seconds r + grace)) (began_at r)))"

definition cancel_over :: "time \<Rightarrow> run \<Rightarrow> bool" where
  "cancel_over now r =
     (status r = RUNNING \<and> before_now now (map_option (\<lambda>t. t + secs CANCEL_GRACE_SECONDS) (cancel_requested_at r)))"

definition queue_over :: "int \<Rightarrow> time \<Rightarrow> 'a job_scheme \<Rightarrow> bool" where
  "queue_over limit now r = (status r = QUEUED \<and> queued_at r < now - secs limit)"

definition unrunnable_queued :: "run \<Rightarrow> bool" where
  "unrunnable_queued r = (status r = QUEUED \<and> UNRUNNABLE r)"

definition lost_text :: "reaping \<Rightarrow> 'a job_scheme \<Rightarrow> string" where
  "lost_text rp r =
     ''worker lost: no heartbeat from '' @ opt_text (worker_id r) @ '' since '' @ at_text (rp_at rp) (heartbeat_at r)"

definition overrun_text :: "'a job_scheme \<Rightarrow> string" where
  "overrun_text r = ''timed out after '' @ format_duration (timeout_seconds r) @ '' (its worker did not stop it)''"

section \<open>Runs and installs\<close>

definition fail_runs ::
  "env \<Rightarrow> time \<Rightarrow> string \<Rightarrow> run_status \<Rightarrow> (run \<Rightarrow> string) \<Rightarrow> run list \<Rightarrow> database \<Rightarrow> database" where
  "fail_runs e now clock st why rs db = fold (\<lambda>r. fail_run e now clock st (why r) r) rs db"

text \<open>The \<open>k\<close>-th transaction on runs: those it ended, with the audit action.\<close>

type_synonym ended = "key_id \<times> string option \<times> key_id \<times> string option"

definition ended_row :: "string option \<Rightarrow> run \<Rightarrow> ended" where
  "ended_row action r = (row_id r, action, project_id r, worker_id r)"

definition reap_runs ::
  "env \<Rightarrow> reaping \<Rightarrow> nat \<Rightarrow> (time \<Rightarrow> run \<Rightarrow> bool) \<Rightarrow> run_status \<Rightarrow> (run \<Rightarrow> string) \<Rightarrow> database \<Rightarrow> database \<times> run list" where
  "reap_runs e rp k p st why db =
     (let rs = lock_rows (p (rp_now rp k)) (rp_locked rp k) (runs db)
      in (fail_runs e (rp_now rp k) (rp_clock rp k) st why rs db, rs))"

definition cancelled_text :: "run \<Rightarrow> string" where
  "cancelled_text r = ''cancelled by '' @ opt_text (cancel_requested_by r) @ '' (its worker did not confirm)''"

definition not_run_text :: "run \<Rightarrow> string" where
  "not_run_text r = ''not run: '' @ opt_text (unrunnable_reason r)"

definition reap_installs :: "reaping \<Rightarrow> nat \<Rightarrow> database \<Rightarrow> database" where
  "reap_installs rp k db =
     db\<lparr>installs := update_rows
          (\<lambda>g. g_status g = RUNNING \<and> before_now (rp_now rp k) (g_lease_expires_at g) \<and> \<not> rp_locked rp k (g_id g))
          (\<lambda>g. g\<lparr>g_status := FAILED, g_status_reason := Some ''interrupted: the API process running it went away'',
                 g_finished_at := Some (rp_now rp k), g_lease_expires_at := None\<rparr>) (installs db)\<rparr>"

section \<open>Refreshes, checks and scans\<close>

text \<open>A transaction that ends refreshes: the audit events to record, or an exception and a rollback.\<close>

fun end_refreshes ::
  "env \<Rightarrow> time \<Rightarrow> string \<Rightarrow> run_status \<Rightarrow> (refresh \<Rightarrow> string) \<Rightarrow> refresh list \<Rightarrow> database \<Rightarrow>
   py_error + (database \<times> audit_args list)" where
  "end_refreshes e now clock st why [] db = Inr (db, [])"
| "end_refreshes e now clock st why (f # fs) db =
     res_bind (end_refresh e now clock f st (Some (why f)) db) (\<lambda>(db1, ev).
       res_bind (end_refreshes e now clock st why fs (remove_outputs (row_id f) db1)) (\<lambda>(db2, evs).
         Inr (db2, (case ev of None \<Rightarrow> [] | Some a \<Rightarrow> [a]) @ evs)))"

definition reap_refresh_rows ::
  "env \<Rightarrow> reaping \<Rightarrow> nat \<Rightarrow> (time \<Rightarrow> refresh \<Rightarrow> bool) \<Rightarrow> run_status \<Rightarrow> (refresh \<Rightarrow> string) \<Rightarrow> database \<Rightarrow>
   py_error + (database \<times> audit_args list)" where
  "reap_refresh_rows e rp k p st why db =
     end_refreshes e (rp_now rp k) (rp_clock rp k) st why (lock_rows (p (rp_now rp k)) (rp_locked rp k) (refreshes db)) db"

text \<open>The scheduled refreshes; the inventory of a due source exists (it was joined).\<close>

fun enqueue_due :: "env \<Rightarrow> time \<Rightarrow> (key_id \<times> key_id list) list \<Rightarrow> database \<Rightarrow> database" where
  "enqueue_due e now [] db = db"
| "enqueue_due e now ((iid, ids) # due) db =
     (case get_row i_id (inventories db) iid of
        None \<Rightarrow> enqueue_due e now due db
      | Some iv \<Rightarrow> enqueue_due e now due (fst (enqueue_refresh e now id iv ''schedule'' None (Some ids) db)))"

definition schedule_refreshes :: "env \<Rightarrow> time \<Rightarrow> database \<Rightarrow> database" where
  "schedule_refreshes e now db = enqueue_due e now (due_sources now db) db"

text \<open>
  The four transactions of \<open>reap_refreshes\<close>, numbered from \<open>k\<close>. An exception rolls back the one it was
  raised in, and the audit events of the earlier ones are lost.
\<close>

definition reap_refreshes :: "env \<Rightarrow> reaping \<Rightarrow> nat \<Rightarrow> database \<Rightarrow> database \<times> audit_args list" where
  "reap_refreshes e rp k db =
     (case reap_refresh_rows e rp k lease_over FAILED (lost_text rp) db of
        Inl x \<Rightarrow> (db, [])
      | Inr (db1, evs1) \<Rightarrow>
          let db1' = rp_others rp (k + 1) db1 in
          (case reap_refresh_rows e rp (k + 1) (time_over TIMEOUT_GRACE_SECONDS) TIMED_OUT overrun_text db1' of
             Inl x \<Rightarrow> (db1', [])
           | Inr (db2, evs2) \<Rightarrow>
               let db3 = schedule_refreshes e (rp_now rp (k + 2)) (rp_others rp (k + 2) db2)
               in (fst (prune_snapshots (rp_others rp (k + 3) db3)), evs1 @ evs2)))"

text \<open>
  Checks and scans end in one transaction. The session does not flush before a query, so all three
  queries see the rows as they were, and what was done to a row earlier in the pass is done over.
\<close>

definition end_rows ::
  "('a job_scheme \<Rightarrow> 'a job_scheme) \<Rightarrow> 'a job_scheme list \<Rightarrow> 'a job_scheme list \<Rightarrow> 'a job_scheme list" where
  "end_rows f chosen tbl = update_rows (\<lambda>r. row_id r \<in> row_id ` set chosen) f tbl"

definition reap_lints :: "env \<Rightarrow> reaping \<Rightarrow> nat \<Rightarrow> database \<Rightarrow> database \<times> bool" where
  "reap_lints e rp k db =
     (let now = rp_now rp k;
          pick = (\<lambda>p. lock_rows p (rp_locked rp k) (lints db));
          lost = pick (lease_over now);
          over = pick (time_over LINT_TIMEOUT_GRACE_SECONDS now);
          stale = pick (queue_over LINT_QUEUE_TIMEOUT_SECONDS now);
          ended = end_rows (\<lambda>l. end_lint now FAILED (Some (lost_text rp l)) None l) lost (lints db);
          ended = end_rows (\<lambda>l. end_lint now TIMED_OUT (Some (overrun_text l)) None l) over ended;
          ended = end_rows (\<lambda>l. end_lint now FAILED (Some (''not checked: '' @ lint_wait_reason e now db l)) None l) stale ended
      in (fst (prune_lint_jobs now (db\<lparr>lints := ended\<rparr>)), lost \<noteq> [] \<or> over \<noteq> [] \<or> stale \<noteq> []))"

definition reap_scans :: "reaping \<Rightarrow> nat \<Rightarrow> database \<Rightarrow> database \<times> bool" where
  "reap_scans rp k db =
     (let now = rp_now rp k;
          pick = (\<lambda>p. lock_rows p (rp_locked rp k) (scans db));
          lost = pick (lease_over now);
          over = pick (time_over SCAN_TIMEOUT_GRACE_SECONDS now);
          stale = pick (queue_over SCAN_QUEUE_TIMEOUT_SECONDS now);
          ended = end_rows (\<lambda>s. end_scan now FAILED (Some (lost_text rp s)) None s) lost (scans db);
          ended = end_rows (\<lambda>s. end_scan now TIMED_OUT (Some (overrun_text s)) None s) over ended;
          ended = end_rows (\<lambda>s. end_scan now FAILED (Some (''not scanned: '' @ scan_wait_reason now db)) None s) stale ended
      in (fst (prune_scans now (db\<lparr>scans := ended\<rparr>)), lost \<noteq> [] \<or> over \<noteq> [] \<or> stale \<noteq> []))"

section \<open>Pruning\<close>

definition artifacts_old :: "time \<Rightarrow> int \<Rightarrow> run \<Rightarrow> bool" where
  "artifacts_old now keep r =
     (artifacts_files r \<noteq> None \<and> artifacts_deleted_at r = None \<and>
      (case finished_at r of None \<Rightarrow> False | Some t \<Rightarrow> t < now - Prelude.days keep))"

definition prune_artifacts :: "reaping \<Rightarrow> nat \<Rightarrow> int \<Rightarrow> database \<Rightarrow> database \<times> nat" where
  "prune_artifacts rp k retention_days db =
     (if retention_days \<le> 0 then (db, 0)
      else let rs = take REAP_BATCH (filter (\<lambda>r. artifacts_old (rp_now rp k) retention_days r \<and> \<not> rp_locked rp k (row_id r)) (runs db));
               ids = row_id ` set rs
           in (db\<lparr>artifact_files := (\<lambda>i. if i \<in> ids then None else artifact_files db i),
                  runs := update_rows (\<lambda>r. row_id r \<in> ids) (\<lambda>r. r\<lparr>artifacts_deleted_at := Some (rp_now rp k)\<rparr>) (runs db)\<rparr>,
               length rs))"

text \<open>A run keeps its history when its key goes; only the reference is cleared.\<close>

definition prune_keys :: "time \<Rightarrow> int \<Rightarrow> database \<Rightarrow> database \<times> nat" where
  "prune_keys now retention_days db =
     (if retention_days \<le> 0 then (db, 0)
      else let cutoff = now - Prelude.days retention_days;
               old = (\<lambda>k. case k_revoked_at k of Some t \<Rightarrow> t < cutoff | None \<Rightarrow> k_expires_at k < cutoff);
               ids = k_id ` set (filter old (api_keys db))
           in (db\<lparr>api_keys := delete_rows old (api_keys db),
                  runs := update_rows (\<lambda>r. \<exists>i \<in> ids. triggered_by_api_key_id r = Some i)
                    (\<lambda>r. r\<lparr>triggered_by_api_key_id := None\<rparr>) (runs db)\<rparr>,
               length (filter old (api_keys db))))"

definition forget_workers :: "time \<Rightarrow> database \<Rightarrow> database" where
  "forget_workers now db =
     (let old = (\<lambda>w. w_last_seen_at w < now - secs WORKER_RETENTION_SECONDS);
          gone = map w_id (filter old (workers db))
      in clear_alerts (concat (map (\<lambda>w. map (\<lambda>ev. alert_key ev w) [WORKER_OFFLINE, WORKER_UNISOLATED, WORKER_UNFILTERED]) gone))
           (db\<lparr>workers := delete_rows old (workers db)\<rparr>))"

section \<open>The periodic checks\<close>

definition check_worker :: "(time \<Rightarrow> string) \<Rightarrow> time \<Rightarrow> worker \<Rightarrow> database \<Rightarrow> database" where
  "check_worker iso_of now w db =
     alert_event now (alert_key WORKER_OFFLINE (w_id w)) None WORKER_OFFLINE None
       [(vkey ''state'', Str ''offline''), (vkey ''worker'', Str (w_id w)), (vkey ''slots'', VInt (w_slots w)),
        (vkey ''last_seen_at'', Str (iso_of (w_last_seen_at w)))] db"

definition check_workers :: "env \<Rightarrow> (time \<Rightarrow> string) \<Rightarrow> time \<Rightarrow> int \<Rightarrow> database \<Rightarrow> database" where
  "check_workers e iso_of now retention db =
     fold (check_worker iso_of now)
       (filter (\<lambda>w. w_last_seen_at w < now - secs (notify_worker_offline_seconds e) \<and> w_last_seen_at w > now - secs retention)
         (workers db)) db"

definition stuck_runs :: "env \<Rightarrow> time \<Rightarrow> database \<Rightarrow> run list" where
  "stuck_runs e now db =
     filter (\<lambda>r. list_ex (startswith (wait_reason e now db r)) STUCK_REASONS)
       (take STUCK_SAMPLE (sort_key (\<lambda>r. (queued_at r, row_id r))
         (filter (\<lambda>r. status r = QUEUED \<and> queued_at r < now - secs (notify_queue_stuck_minutes e * 60)) (runs db))))"

definition check_queue :: "env \<Rightarrow> (time \<Rightarrow> string) \<Rightarrow> time \<Rightarrow> database \<Rightarrow> database" where
  "check_queue e iso_of now db =
     (case stuck_runs e now db of
        [] \<Rightarrow> all_clear_event now QUEUE_STUCK QUEUE_STUCK None [(vkey ''state'', Str RESOLVED)] db
      | oldest # rest \<Rightarrow>
          let data = [(vkey ''state'', Str ''stuck''), (vkey ''waiting'', VInt (int (Suc (length rest)))),
                      (vkey ''minutes'', VInt (notify_queue_stuck_minutes e)), (vkey ''oldest_run_id'', VInt (row_id oldest)),
                      (vkey ''queued_at'', Str (iso_of (queued_at oldest))), (vkey ''reason'', Str (wait_reason e now db oldest))]
          in alert_event now QUEUE_STUCK (Some data) QUEUE_STUCK None data db)"

section \<open>A pass\<close>

definition reap_audit :: "ended \<Rightarrow> audit_args option" where
  "reap_audit = (\<lambda>(i, action, pid, who).
     map_option (\<lambda>a. (audit_call a)\<lparr>au_outcome := ''failure'', au_actor_username := who, au_target_type := Some ''run'',
                        au_target_id := Some i, au_project_id := Some pid\<rparr>) action)"

text \<open>The runs of a pass: four transactions, each with its own batch.\<close>

definition reap_all_runs :: "env \<Rightarrow> reaping \<Rightarrow> database \<Rightarrow> database \<times> ended list" where
  "reap_all_runs e rp db =
     (let (db1, lost) = reap_runs e rp 0 lease_over FAILED (lost_text rp) db;
          (db2, over) = reap_runs e rp 1 (time_over TIMEOUT_GRACE_SECONDS) TIMED_OUT overrun_text (rp_others rp 1 db1);
          (db3, cancelled) = reap_runs e rp 2 cancel_over CANCELLED cancelled_text (rp_others rp 2 db2);
          (db4, dead) = reap_runs e rp 3 (\<lambda>_. unrunnable_queued) FAILED not_run_text (rp_others rp 3 db3)
      in (db4, map (ended_row (Some ''run.worker_lost'')) lost @ map (ended_row (Some ''run.timed_out'')) over @
               map (ended_row None) cancelled @ map (\<lambda>r. (row_id r, None, project_id r, None)) dead))"

text \<open>The transactions after the runs: installs, refreshes, checks, scans, pruning, checks.\<close>

definition reap_rest :: "env \<Rightarrow> reaping \<Rightarrow> database \<Rightarrow> database \<times> audit_args list" where
  "reap_rest e rp db0 =
     (let db = reap_installs rp 4 (rp_others rp 4 db0);
          (db, audits) = reap_refreshes e rp 5 (rp_others rp 5 db);
          db = fst (reap_lints e rp 9 (rp_others rp 9 db));
          db = fst (reap_scans rp 10 (rp_others rp 10 db));
          db = prune_deliveries (rp_now rp 11) (forget_workers (rp_now rp 11) (rp_others rp 11 db));
          db = fst (prune_keys (rp_now rp 12) (api_key_retention_days e) (rp_others rp 12 db));
          db = fst (prune_artifacts rp 13 (run_artifact_retention_days e) (rp_others rp 13 db));
          db = fst (prune_git_snapshots (rp_now rp 14) (rp_others rp 14 db));
          db = check_queue e (rp_iso rp) (rp_now rp 15)
                 (check_workers e (rp_iso rp) (rp_now rp 15) WORKER_RETENTION_SECONDS (rp_others rp 15 db))
      in (db, audits))"

definition reap_once :: "env \<Rightarrow> reaping \<Rightarrow> database \<Rightarrow> database \<times> key_id list" where
  "reap_once e rp db =
     (let (db1, ended) = reap_all_runs e rp (rp_others rp 0 db);
          (db2, audits) = reap_rest e rp db1;
          db3 = fold (audit_record (rp_now rp 16)) (audits @ List.map_filter reap_audit ended) db2
      in (fst (try_start_install e (rp_now rp 17) (rp_others rp 17 db3)), map fst ended))"

end
