(* ===== verification/Lifecycle.thy ===== *)
theory Lifecycle
  imports Job_Moves Reaper
begin

text \<open>
  The system as a whole: \<open>step\<close> is one transaction of a worker's call, a person's request or the reaper,
  with any arguments. Whatever the order they come in, the invariant of the queue holds in every state
  that can be reached, a job moves only as \<open>row_moves\<close> allows, and the outcome of one that ended never changes.
\<close>

section \<open>The reaper's transactions\<close>

lemma lock_rows_rows: "r \<in> set (lock_rows p locked t) \<Longrightarrow> r \<in> set t \<and> p r"
  unfolding lock_rows_def by (auto dest!: in_set_takeD)

lemma lock_rows_distinct: "unique_ids t \<Longrightarrow> distinct (map row_id (lock_rows p locked t))"
proof -
  assume "unique_ids t"
  then have "distinct (map row_id (filter (\<lambda>r. \<not> locked (row_id r)) (sort_key row_id (filter p t))))"
    by (simp add: unique_ids_def distinct_map inj_on_def)
  then show ?thesis unfolding lock_rows_def by (simp add: take_map [symmetric])
qed

lemma fail_runs_moves:
  assumes "ids_ok db" and "distinct (map row_id rs)" and "st \<in> set FINISHED_STATUSES"
    and "\<forall>r \<in> set rs. get_run db (row_id r) = Some r \<and> status r \<notin> set FINISHED_STATUSES"
  shows "moves False db (fail_runs e now clock st why rs db) \<and> installs (fail_runs e now clock st why rs db) = installs db \<and>
    id_part (fail_runs e now clock st why rs db) = id_part db"
  using assms(1,2,4)
proof (induction rs arbitrary: db)
  case (Cons r rs)
  let ?d = "fail_run e now clock st (why r) r db"
  have m: "moves False db ?d" using moves_fail_run [OF Cons.prems(1) _ refl _ assms(3), of r] Cons.prems(3) by simp
  obtain r2 where r2: "runs ?d = runs (put_run r2 db)" "row_id r2 = row_id r" using fail_run_runs by blast
  have "get_run ?d (row_id x) = Some x \<and> status x \<notin> set FINISHED_STATUSES" if x: "x \<in> set rs" for x
  proof -
    have "row_id x \<noteq> row_id r" using x Cons.prems(2) by (metis distinct.simps(2) image_eqI list.simps(9) list.set_map)
    then show ?thesis
      using x Cons.prems(3) get_put_run [of r2 db "row_id x"] get_run_of_runs [OF r2(1), of "row_id x"] r2(2) by simp
  qed
  then have "moves False ?d (fail_runs e now clock st why rs ?d) \<and> installs (fail_runs e now clock st why rs ?d) = installs ?d \<and>
      id_part (fail_runs e now clock st why rs ?d) = id_part ?d"
    using Cons.IH [OF moves_ids_ok [OF m Cons.prems(1)]] Cons.prems(2) by simp
  moreover have "fail_runs e now clock st why (r # rs) db = fail_runs e now clock st why rs ?d" by (simp add: fail_runs_def)
  ultimately show ?case using m moves_trans by (metis fail_run_frame(4) id_part_runs(2))
qed (simp add: fail_runs_def)

lemma reap_runs_works:
  assumes "ids_ok db" and "st \<in> set FINISHED_STATUSES" and "\<And>t r. p t r \<Longrightarrow> status r \<notin> set FINISHED_STATUSES"
  shows "works db (fst (reap_runs e rp k p st why db)) \<and> id_part (fst (reap_runs e rp k p st why db)) = id_part db"
proof -
  let ?rs = "lock_rows (p (rp_now rp k)) (rp_locked rp k) (runs db)"
  have "unique_ids (runs db)" using assms(1) by (simp add: ids_ok_def)
  then have "\<forall>r \<in> set ?rs. get_run db (row_id r) = Some r \<and> status r \<notin> set FINISHED_STATUSES"
    using assms(3) get_row_unique [of row_id "runs db"] by (auto simp: get_run_def unique_ids_def dest!: lock_rows_rows)
  then show ?thesis
    using fail_runs_moves [OF assms(1) lock_rows_distinct assms(2)] \<open>unique_ids (runs db)\<close>
    by (auto simp: reap_runs_def Let_def intro!: worksI)
qed

lemma overdue_unfinished:
  "lease_over t r \<Longrightarrow> status r = RUNNING" "time_over g t r \<Longrightarrow> status r = RUNNING" "cancel_over t q \<Longrightarrow> status q = RUNNING"
  "unrunnable_queued q \<Longrightarrow> status q = QUEUED" "queue_over n t r \<Longrightarrow> status r = QUEUED"
  by (simp_all add: lease_over_def time_over_def cancel_over_def unrunnable_queued_def queue_over_def)

lemma end_refresh_others:
  assumes "end_refresh e now clock f st error db = Inr (db', ev)" and "j \<noteq> row_id f"
  shows "get_row row_id (refreshes db') j = get_row row_id (refreshes db) j"
proof -
  let ?f1 = "f\<lparr>status := st, f_error := error_column error, finished_at := Some now,
                 lease_expires_at := None, claim_token_hash := None, job_token_hash := None\<rparr>"
  have rel: "release_runs e now clock st error snap rs d = Inr d' \<Longrightarrow> refreshes d' = refreshes d" for snap rs d d'
    by (induction rs arbitrary: d) (auto simp: res_bind_Inr_iff release_run_def Let_def split: option.splits if_splits)
  obtain db1 where db1: "release_waiting_runs e now clock ?f1 st error (put_refresh ?f1 db) = Inr db1"
    using assms(1) by (auto simp: end_refresh_def res_bind_Inr_iff Let_def)
  have "refreshes db' = refreshes db1"
    using assms(1) db1 by (auto simp: end_refresh_def Let_def case_prod_unfold split: option.splits if_splits)
  also have "\<dots> = refreshes (put_refresh ?f1 db)" using db1 rel by (simp add: release_waiting_runs_def)
  finally show ?thesis using get_row_put_other [of ?f1 j "refreshes db"] assms(2) by (simp add: refreshes_put_refresh)
qed

lemma end_refreshes_works:
  assumes "end_refreshes e now clock st why fs db = Inr (db', evs)" and "ids_ok db" and "distinct (map row_id fs)"
    and "st \<in> set FINISHED_STATUSES"
    and "\<forall>f \<in> set fs. get_row row_id (refreshes db) (row_id f) = Some f \<and> status f = RUNNING"
  shows "moves False db db' \<and> installs db' = installs db \<and> id_part db' = id_part db"
  using assms
proof (induction fs arbitrary: db evs)
  case (Cons f fs)
  obtain d ev evs1 where one: "end_refresh e now clock f st (Some (why f)) db = Inr (d, ev)"
    and rest: "end_refreshes e now clock st why fs (remove_outputs (row_id f) d) = Inr (db', evs1)"
    using Cons.prems(1) by (auto simp: res_bind_Inr_iff)
  let ?d = "remove_outputs (row_id f) d"
  have m: "moves False db d \<and> installs d = installs db"
    using Cons.prems by (intro end_refresh_moves [OF Cons.prems(2) _ _ refl Cons.prems(4) one]) simp_all
  then have md: "moves False db ?d" "installs ?d = installs db" "id_part ?d = id_part db"
    using id_part_end_refresh [OF one] by (simp_all add: moves_def remove_outputs_def)
  have keep: "get_row row_id (refreshes ?d) j = get_row row_id (refreshes db) j" if "j \<noteq> row_id f" for j
    using end_refresh_others [OF one that] by (simp add: remove_outputs_def)
  have "\<forall>x \<in> set fs. get_row row_id (refreshes ?d) (row_id x) = Some x \<and> status x = RUNNING"
  proof
    fix x assume x: "x \<in> set fs"
    then have "row_id x \<noteq> row_id f" using Cons.prems(3) by (metis distinct.simps(2) image_eqI list.simps(9) list.set_map)
    then show "get_row row_id (refreshes ?d) (row_id x) = Some x \<and> status x = RUNNING" using x Cons.prems(5) keep by simp
  qed
  then have "moves False ?d db' \<and> installs db' = installs ?d \<and> id_part db' = id_part ?d"
    using Cons.IH [OF rest moves_ids_ok [OF md(1) Cons.prems(2)] _ Cons.prems(4)] Cons.prems(3) by simp
  then show ?case using md moves_trans by metis
qed simp

lemma reap_refresh_rows_works:
  assumes "ids_ok db" and "st \<in> set FINISHED_STATUSES" and "\<And>t f. p t f \<Longrightarrow> status f = RUNNING"
    and "reap_refresh_rows e rp k p st why db = Inr (db', evs)"
  shows "works db db' \<and> id_part db' = id_part db"
proof -
  let ?fs = "lock_rows (p (rp_now rp k)) (rp_locked rp k) (refreshes db)"
  have u: "unique_ids (refreshes db)" using assms(1) by (simp add: ids_ok_def)
  then have "\<forall>f \<in> set ?fs. get_row row_id (refreshes db) (row_id f) = Some f \<and> status f = RUNNING"
    using assms(3) get_row_unique [of row_id "refreshes db"] by (auto simp: unique_ids_def dest!: lock_rows_rows)
  then show ?thesis
    using end_refreshes_works [OF assms(4) [unfolded reap_refresh_rows_def] assms(1) lock_rows_distinct [OF u] assms(2)] by (auto intro: worksI)
qed

section \<open>Tables that grow and are pruned\<close>

text \<open>A row was there and moved, or it has a new id.\<close>

definition tbl_evolves ::
  "('a job_scheme \<Rightarrow> key_id option) \<Rightarrow> key_id \<Rightarrow> 'a job_scheme list \<Rightarrow> 'a job_scheme list \<Rightarrow> bool" where
  "tbl_evolves own n t t' \<longleftrightarrow> (\<forall>r' \<in> set t'. (\<exists>r \<in> set t. row_moves True True own r r') \<or> n \<le> row_id r')"

lemma tbl_evolves_moves: "tbl_moves c True own t t' \<Longrightarrow> tbl_evolves own n t t'"
  unfolding tbl_evolves_def using tbl_moves_row row_moves_mono by blast

lemma tbl_evolves_refl [simp]: "tbl_evolves own n t t"
  by (rule tbl_evolves_moves [of True]) simp

lemma tbl_evolves_trans: "tbl_evolves own n t t1 \<Longrightarrow> tbl_evolves own m t1 t2 \<Longrightarrow> n \<le> m \<Longrightarrow> tbl_evolves own n t t2"
  unfolding tbl_evolves_def
proof (intro ballI)
  fix r2 assume e: "\<forall>r' \<in> set t1. (\<exists>r \<in> set t. row_moves True True own r r') \<or> n \<le> row_id r'"
    "\<forall>r' \<in> set t2. (\<exists>r \<in> set t1. row_moves True True own r r') \<or> m \<le> row_id r'" "n \<le> m" "r2 \<in> set t2"
  show "(\<exists>r \<in> set t. row_moves True True own r r2) \<or> n \<le> row_id r2"
  proof (cases "m \<le> row_id r2")
    case False
    then obtain r1 where r1: "r1 \<in> set t1" "row_moves True True own r1 r2" using e(2,4) by blast
    then have "row_id r1 = row_id r2" by (simp add: row_moves_def)
    then show ?thesis using e(1) r1 row_moves_trans by metis
  qed (use e(3) in simp)
qed

lemma tbl_evolves_sub: "tbl_evolves own n t t1 \<Longrightarrow> set t2 \<subseteq> set t1 \<Longrightarrow> tbl_evolves own n t t2"
  unfolding tbl_evolves_def by blast

lemma tbl_evolves_snoc: "tbl_evolves own n t t1 \<Longrightarrow> n \<le> row_id r \<Longrightarrow> tbl_evolves own n t (t1 @ [r])"
  unfolding tbl_evolves_def by auto

definition evolves :: "database \<Rightarrow> database \<Rightarrow> bool" where
  "evolves db db' \<longleftrightarrow>
     tbl_evolves inventory_id (next_run_id db) (runs db) (runs db') \<and>
     tbl_evolves refresh_owner (next_refresh_id db) (refreshes db) (refreshes db') \<and>
     tbl_evolves lint_owner (next_lint_id db) (lints db) (lints db') \<and>
     tbl_evolves scan_owner (next_scan_id db) (scans db) (scans db') \<and>
     next_run_id db \<le> next_run_id db' \<and> next_refresh_id db \<le> next_refresh_id db' \<and>
     next_lint_id db \<le> next_lint_id db' \<and> next_scan_id db \<le> next_scan_id db'"

lemma evolves_trans: "evolves db d \<Longrightarrow> evolves d db' \<Longrightarrow> evolves db db'"
  unfolding evolves_def by (intro conjI; elim conjE; (erule (2) tbl_evolves_trans | simp))

lemma ball_ids: "(\<forall>r \<in> set t. row_id r < n) \<longleftrightarrow> (\<forall>i \<in> row_id ` set t. i < n)"
  by blast

definition ids_fresh :: "database \<Rightarrow> bool" where
  "ids_fresh db \<longleftrightarrow>
     (\<forall>r \<in> set (runs db). row_id r < next_run_id db) \<and> (\<forall>f \<in> set (refreshes db). row_id f < next_refresh_id db) \<and>
     (\<forall>l \<in> set (lints db). row_id l < next_lint_id db) \<and> (\<forall>s \<in> set (scans db). row_id s < next_scan_id db)"

definition sys_inv :: "database \<Rightarrow> bool" where
  "sys_inv db \<longleftrightarrow> queue_inv db \<and> ids_fresh db"

lemma moves_evolves: "moves c db db' \<Longrightarrow> id_part db' = id_part db \<Longrightarrow> evolves db db'"
  unfolding moves_def evolves_def id_part_def by (auto intro: tbl_evolves_moves)

lemma tbl_moves_id_set: "tbl_moves c q own t t' \<Longrightarrow> row_id ` set t' = row_id ` set t"
  using tbl_moves_ids [of c q own t t'] by (metis list.set_map)

lemma moves_fresh:
  assumes "moves c db db'" and "id_part db' = id_part db" and "ids_fresh db"
  shows "ids_fresh db'"
proof -
  have "tbl_moves c True inventory_id (runs db) (runs db')" "tbl_moves c True refresh_owner (refreshes db) (refreshes db')"
    "tbl_moves c True lint_owner (lints db) (lints db')" "tbl_moves c True scan_owner (scans db) (scans db')"
    using assms(1) by (simp_all add: moves_def)
  note ids = this [THEN tbl_moves_id_set]
  have "next_run_id db' = next_run_id db" "next_refresh_id db' = next_refresh_id db" "next_lint_id db' = next_lint_id db" "next_scan_id db' = next_scan_id db"
    using assms(2) by (simp_all add: id_part_def)
  then show ?thesis using assms(3) unfolding ids_fresh_def ball_ids ids by (simp only:)
qed

text \<open>What one transaction must show.\<close>

definition safe_step :: "database \<Rightarrow> database \<Rightarrow> bool" where
  "safe_step db db' \<longleftrightarrow> (sys_inv db \<longrightarrow> sys_inv db' \<and> evolves db db')"

lemma safe_works:
  assumes "ids_ok db \<Longrightarrow> works db db'" and "id_part db' = id_part db"
  shows "safe_step db db'"
proof -
  have "sys_inv db' \<and> evolves db db'" if "sys_inv db"
  proof -
    have q: "queue_inv db" "ids_fresh db" using that by (simp_all add: sys_inv_def)
    then have w: "works db db'" using assms(1) by (simp add: queue_inv_def)
    show ?thesis
      using works_inv [OF w q(1)] moves_fresh [OF works_moves [OF w] assms(2) q(2)] moves_evolves [OF works_moves [OF w] assms(2)]
      by (simp add: sys_inv_def)
  qed
  then show ?thesis by (simp add: safe_step_def)
qed

lemma safe_refl [simp]: "safe_step db db"
  by (rule safe_works) simp_all

lemma safe_trans: "safe_step db d \<Longrightarrow> safe_step d db' \<Longrightarrow> safe_step db db'"
  unfolding safe_step_def using evolves_trans by blast

lemma safe_part: "job_part db' = job_part db \<Longrightarrow> id_part db' = id_part db \<Longrightarrow> safe_step db db'"
  by (rule safe_works) (simp_all add: job_part_def worksI moves_same)

lemma safe_fst: "safe_step db d \<Longrightarrow> x = (d, y) \<Longrightarrow> safe_step db (fst x)"
  by simp

text \<open>Pruning: some rows of checks and scans go, the rest stay.\<close>

lemma unique_running_sub:
  "unique_running own t \<Longrightarrow> set t' \<subseteq> set t \<Longrightarrow> unique_running own t'"
  unfolding unique_running_def running_conflict_def by blast

lemma busy_sub: "busy t' \<Longrightarrow> set t' \<subseteq> set t \<Longrightarrow> busy t"
  by (auto simp: busy_def)

lemma safe_delete:
  assumes "id_part db' = id_part db" "installs db' = installs db" "runs db' = runs db" "refreshes db' = refreshes db"
    and "lints db' = filter p (lints db)" "scans db' = filter q (scans db)"
  shows "safe_step db db'"
proof -
  have sub: "set (lints db') \<subseteq> set (lints db)" "set (scans db') \<subseteq> set (scans db)" using assms(5,6) by auto
  have "queue_inv db'" if "queue_inv db"
    using that assms(2-6) unique_running_sub [OF _ sub(1)] busy_sub [OF _ sub(1)]
    unfolding queue_inv_defs unique_ids_def by (simp add: distinct_map_filter) blast
  moreover have "ids_fresh db'" if "ids_fresh db"
    using that assms(1,3,4) sub unfolding ids_fresh_def id_part_def by auto
  moreover have "evolves db db'"
    using assms(1,3,4) tbl_evolves_sub [OF tbl_evolves_refl sub(1)] tbl_evolves_sub [OF tbl_evolves_refl sub(2)]
    by (simp add: evolves_def id_part_def)
  ultimately show ?thesis by (simp add: safe_step_def sys_inv_def)
qed

section \<open>Requests\<close>

lemma safe_insert_run:
  assumes "row_id r = next_run_id db" and "status r = QUEUED"
  shows "safe_step db (db\<lparr>runs := runs db @ [r], next_run_id := next_run_id db + 1\<rparr>)" (is "safe_step db ?d")
proof -
  have "sys_inv ?d \<and> evolves db ?d" if "sys_inv db"
  proof -
    have q: "queue_inv db" "ids_fresh db" using that by (simp_all add: sys_inv_def)
    have "unique_ids (runs db @ [r])"
      using q assms(1) by (auto simp: queue_inv_def ids_ok_def unique_ids_def ids_fresh_def)
    moreover have "unique_running inventory_id (runs db @ [r])" "busy (runs db @ [r]) = busy (runs db)"
      using q assms(2) unique_running_snoc_queued [of inventory_id "runs db" r] by (simp_all add: queue_inv_defs busy_def)
    ultimately have "queue_inv ?d" using q(1) by (simp add: queue_inv_defs)
    moreover have "ids_fresh ?d" using q(2) assms(1) by (auto simp: ids_fresh_def)
    moreover have "evolves db ?d"
      using tbl_evolves_snoc [OF tbl_evolves_refl, of "next_run_id db" r inventory_id "runs db"] assms(1) by (simp add: evolves_def)
    ultimately show ?thesis by (simp add: sys_inv_def)
  qed
  then show ?thesis by (simp add: safe_step_def)
qed

lemma safe_insert_refresh: "safe_step db (fst (insert_refresh e now iv tr who scope db))"
proof (cases "\<exists>f \<in> set (refreshes db). queued_for (i_id iv) f")
  case False
  let ?d = "fst (insert_refresh e now iv tr who scope db)"
  have "\<exists>f. ?d = db\<lparr>refreshes := refreshes db @ [f], next_refresh_id := next_refresh_id db + 1\<rparr> \<and>
      row_id f = next_refresh_id db \<and> status f = QUEUED"
    unfolding insert_refresh_def if_not_P [OF False] Let_def fst_conv by (rule exI, rule conjI, rule refl) simp
  then obtain f where f: "row_id f = next_refresh_id db" "status f = QUEUED"
    and d: "?d = db\<lparr>refreshes := refreshes db @ [f], next_refresh_id := next_refresh_id db + 1\<rparr>" by blast
  have "sys_inv ?d \<and> evolves db ?d" if "sys_inv db"
  proof -
    have q: "queue_inv db" "ids_fresh db" using that by (simp_all add: sys_inv_def)
    have "unique_ids (refreshes db @ [f])"
      using q f(1) by (auto simp: queue_inv_def ids_ok_def unique_ids_def ids_fresh_def)
    moreover have "unique_running refresh_owner (refreshes db @ [f])" "busy (refreshes db @ [f]) = busy (refreshes db)"
      using q f(2) unique_running_snoc_queued [of refresh_owner "refreshes db" f] by (simp_all add: queue_inv_defs busy_def)
    ultimately have "queue_inv ?d" using q(1) by (simp add: d queue_inv_defs)
    moreover have "ids_fresh ?d" using q(2) f(1) by (auto simp: d ids_fresh_def)
    moreover have "evolves db ?d"
      using tbl_evolves_snoc [OF tbl_evolves_refl, of "next_refresh_id db" f refresh_owner "refreshes db"] f(1) by (simp add: d evolves_def)
    ultimately show ?thesis by (simp add: sys_inv_def)
  qed
  then show ?thesis by (simp add: safe_step_def)
qed (simp add: insert_refresh_def)

lemma safe_widen:
  assumes "find (queued_for i) (refreshes db) = Some q"
  shows "safe_step db (put_refresh (q\<lparr>f_scope := sc\<rparr>) db)"
proof (rule safe_works)
  assume ids: "ids_ok db"
  have q: "q \<in> set (refreshes db)" using assms by (auto dest: find_SomeD)
  then have "get_row row_id (refreshes db) (row_id q) = Some q"
    using ids get_row_unique [of row_id "refreshes db" q] by (simp add: ids_ok_def unique_ids_def)
  then show "works db (put_refresh (q\<lparr>f_scope := sc\<rparr>) db)"
    by (intro worksI moves_put_refresh [OF ids, of _ q]) (simp_all add: row_moves_def)
qed simp

lemma safe_enqueue_refresh: "safe_step db (fst (enqueue_refresh e now id iv tr who sids db))"
proof (cases "has_sources db (i_id iv)")
  case True
  let ?sc = "map_option sorted_ids sids"
  obtain d1 rid where ins: "insert_refresh e now iv tr who ?sc db = (d1, rid)" by fastforce
  have s1: "safe_step db d1" using safe_insert_refresh [of db e now iv tr who ?sc] ins by simp
  define d2 where "d2 = (if rid \<noteq> None then d1 else case find (queued_for (i_id iv)) (refreshes d1) of
      None \<Rightarrow> fst (insert_refresh e now iv tr who ?sc d1)
    | Some q \<Rightarrow> if f_scope q \<noteq> None then put_refresh (q\<lparr>f_scope := widen (f_scope q) ?sc\<rparr>) d1 else d1)"
  have "safe_step d1 d2"
    unfolding d2_def using safe_widen safe_insert_refresh by (simp split: option.split)
  moreover have "fst (enqueue_refresh e now id iv tr who sids db) = touch_sources now (i_id iv) ?sc d2"
    using True ins by (simp add: enqueue_refresh_def d2_def Let_def case_prod_unfold split: option.split)
  moreover have "safe_step d2 (touch_sources now (i_id iv) ?sc d2)" by (rule safe_part) (simp_all add: job_part_def)
  ultimately show ?thesis using s1 safe_trans by metis
qed (simp add: enqueue_refresh_def)

lemma safe_audit: "safe_step db (audit_record now a db)"
  by (rule safe_part) (simp_all add: job_part_def)

lemma safe_insert: "row_id r = next_run_id db \<Longrightarrow> status r = QUEUED \<Longrightarrow> safe_step db (fst (insert_run now u rq p detail r db))"
  unfolding insert_run_def fst_conv using safe_trans [OF safe_insert_run safe_audit] by blast

lemma safe_queue_run: "safe_step db (fst (queue_run e a enc w now id u rq p detail db))"
proof (cases "queue_run e a enc w now id u rq p detail db")
  case (Pair db' res)
  show ?thesis
  proof (cases res)
    case (Inl err)
    then have "queue_run e a enc w now id u rq p detail db = (db', Inl err)" using Pair by simp
    from queue_run_quiet [OF this] show ?thesis using Pair by (simp add: quiet_def safe_part)
  next
    case (Inr r)
    then obtain pb git can ip c v cs t where
      row: "if ip_refresh ip
       then \<exists>f d. refresh_for_run e now id (ip_inventory ip) (username u) db = (d, Inr f) \<and>
              insert_run now u rq p detail ((new_run now u p pb git can ip c v cs t (next_run_id db))
                \<lparr>row_id := next_run_id d, refresh_first := True, waiting_refresh_id := Some f\<rparr>) d = (db', Inr r)
       else insert_run now u rq p detail (new_run now u p pb git can ip c v cs t (next_run_id db)) db = (db', Inr r)"
      using queue_run_steps Pair by metis
    show ?thesis
    proof (cases "ip_refresh ip")
      case True
      then obtain f d where fd: "refresh_for_run e now id (ip_inventory ip) (username u) db = (d, Inr f)"
        and ins: "insert_run now u rq p detail ((new_run now u p pb git can ip c v cs t (next_run_id db))
                \<lparr>row_id := next_run_id d, refresh_first := True, waiting_refresh_id := Some f\<rparr>) d = (db', Inr r)"
        using row by auto
      have "d = fst (enqueue_refresh e now id (ip_inventory ip) ''run'' (Some (username u)) None db)"
        using fd by (auto simp: refresh_for_run_def split: prod.splits option.splits)
      then have "safe_step db d" using safe_enqueue_refresh by simp
      moreover have "safe_step d db'"
        using safe_insert [of "(new_run now u p pb git can ip c v cs t (next_run_id db))
                \<lparr>row_id := next_run_id d, refresh_first := True, waiting_refresh_id := Some f\<rparr>" d now u rq p detail] ins by simp
      ultimately show ?thesis using Pair safe_trans by (metis fst_conv)
    next
      case False
      then show ?thesis using row safe_insert [of "new_run now u p pb git can ip c v cs t (next_run_id db)" db now u rq p detail] Pair by simp
    qed
  qed
qed

lemma safe_rerun: "safe_step db (fst (rerun e a enc w now id u rq i db))"
proof (cases "get_scoped_run now u rq i RUNS_TRIGGER db")
  case (Pair d res)
  show ?thesis
  proof (cases res)
    case (Inl x)
    then have "quiet db d" using Pair get_scoped_Inl by blast
    then show ?thesis using Pair Inl by (simp add: rerun_def quiet_def safe_part)
  next
    case (Inr r)
    then have "d = db" using Pair by (simp add: get_scoped_Inr)
    then show ?thesis using Pair Inr safe_queue_run
      by (simp add: rerun_def deleted_items_conflict_def crash_def split: option.split)
  qed
qed

lemma safe_cancel_locked:
  assumes "get_run db i = Some r" and "status r \<notin> set FINISHED_STATUSES"
  shows "safe_step db (cancel_locked e now clock u rq r db)"
proof (rule safe_works)
  assume ids: "ids_ok db"
  let ?r1 = "r\<lparr>cancel_requested_at := Some now, cancel_requested_by := Some (username u)\<rparr>"
  have r: "get_run db (row_id r) = Some r" using assms(1) by (auto simp: get_run_def dest: get_row_Some)
  have "moves False db (fail_run e now clock CANCELLED why ?r1 db)" for why
    using moves_fail_run [OF ids, of ?r1 r] r assms(2) by simp
  moreover have "moves False db (put_run ?r1 db)" using moves_put_run [OF ids, of ?r1 r] r by (simp add: row_moves_def)
  ultimately show "works db (cancel_locked e now clock u rq r db)"
    by (intro worksI) (simp_all add: cancel_locked_def Let_def moves_def)
qed (simp add: cancel_locked_def Let_def)

lemma safe_cancel_run: "safe_step db (fst (cancel_run e now clock id u rq i db))"
proof (cases "get_scoped_run now u rq i RUNS_TRIGGER db")
  case (Pair d res)
  show ?thesis
  proof (cases res)
    case (Inl x)
    then have "quiet db d" using Pair get_scoped_Inl by blast
    then show ?thesis using Pair Inl by (simp add: cancel_run_def quiet_def safe_part)
  next
    case (Inr r0)
    then have "d = db" using Pair by (simp add: get_scoped_Inr)
    then show ?thesis using Pair Inr safe_audit safe_cancel_locked
      by (auto simp: cancel_run_def crash_def denied_run_def Let_def split: option.split)
  qed
qed

lemma safe_enqueue_lint: "safe_step db (fst (enqueue_lint e now u n p t c pb s g db))" (is "safe_step db ?d")
proof -
  have "sys_inv ?d \<and> evolves db ?d" if "sys_inv db"
  proof -
    have q: "queue_inv db" "ids_fresh db" using that by (simp_all add: sys_inv_def)
    then have inv: "queue_inv ?d" "lint_ids_fresh ?d"
      using enqueue_lint_inv [of db e now u n p t c pb s g] by (simp_all add: ids_fresh_def lint_ids_fresh_def)
    let ?f = "\<lambda>l. l\<lparr>status := CANCELLED, l_error := Some ''replaced by a newer check'', l_content := None, finished_at := Some now\<rparr>"
    let ?rep = "update_rows (\<lambda>l. l_requested_by_user_id l = u \<and> status l = QUEUED) ?f (lints db)"
    have "tbl_moves False True lint_owner (lints db) ?rep"
      by (rule tbl_moves_update) (simp add: row_moves_def may_end)
    then have "tbl_evolves lint_owner (next_lint_id db) (lints db) ?rep" by (rule tbl_evolves_moves)
    moreover obtain l where "lints ?d = ?rep @ [l]" "row_id l = next_lint_id db" by (simp add: enqueue_lint_def Let_def)
    ultimately have "tbl_evolves lint_owner (next_lint_id db) (lints db) (lints ?d)"
      using tbl_evolves_snoc [of lint_owner "next_lint_id db" "lints db" ?rep l] by simp
    moreover have "next_lint_id db \<le> next_lint_id ?d" "next_run_id ?d = next_run_id db" "next_refresh_id ?d = next_refresh_id db"
      "next_scan_id ?d = next_scan_id db" by (simp_all add: enqueue_lint_def Let_def)
    ultimately show ?thesis using inv q(2) by (simp add: sys_inv_def evolves_def ids_fresh_def lint_ids_fresh_def)
  qed
  then show ?thesis by (simp add: safe_step_def)
qed

lemma safe_enqueue_scan: "safe_step db (fst (enqueue_scan now iid u n t db))" (is "safe_step db ?d")
proof -
  have "sys_inv ?d \<and> evolves db ?d" if "sys_inv db"
  proof -
    have q: "queue_inv db" "ids_fresh db" using that by (simp_all add: sys_inv_def)
    then have inv: "queue_inv ?d" "scan_ids_fresh ?d"
      using enqueue_scan_inv [of db now iid u n t] by (simp_all add: ids_fresh_def scan_ids_fresh_def)
    have "scans ?d = scans db \<or> (\<exists>s. scans ?d = scans db @ [s] \<and> row_id s = next_scan_id db)"
      by (simp add: enqueue_scan_def Let_def split: option.split)
    then have "tbl_evolves scan_owner (next_scan_id db) (scans db) (scans ?d)"
      using tbl_evolves_snoc [OF tbl_evolves_refl, of "next_scan_id db" _ scan_owner "scans db"] by auto
    moreover have "next_scan_id db \<le> next_scan_id ?d" "next_run_id ?d = next_run_id db" "next_refresh_id ?d = next_refresh_id db"
      "next_lint_id ?d = next_lint_id db" "refreshes ?d = refreshes db" "runs ?d = runs db" "lints ?d = lints db"
      by (simp_all add: enqueue_scan_def Let_def split: option.split)
    ultimately show ?thesis using inv q(2) by (simp add: sys_inv_def evolves_def ids_fresh_def scan_ids_fresh_def)
  qed
  then show ?thesis by (simp add: safe_step_def)
qed

section \<open>Claims\<close>

context claim_table
begin

lemma claim_moves:
  assumes "stmt c p locked snap live = Some (i, live')" and "unique_ids live" and "\<And>r. own (start p r) = own r"
  shows "tbl_moves True q own live live'"
proof -
  obtain x where x: "live' = update_rows (\<lambda>x. row_id x = i) (start p) live" "get_row row_id live i = Some x" "status x = QUEUED"
    using claim_starts_one [OF assms(1)] by blast
  show ?thesis unfolding x(1)
  proof (rule tbl_moves_update)
    fix r assume "r \<in> set live" "row_id r = i"
    then have "r = x" using x(2) assms(2) get_row_unique [of row_id live r] by (simp add: unique_ids_def)
    then show "row_moves True q own r (start p r)" using x(3) assms(3) by (simp add: row_moves_def may_move_def)
  qed
qed

end

lemma start_job_owners [simp]:
  "l_requested_by_user_id (start_job p l) = l_requested_by_user_id l" "f_inventory_id (start_job p f) = f_inventory_id f"
  "s_inventory_id (start_job p s) = s_inventory_id s"
  by (simp_all add: start_job_def claim_columns_def)

lemma claim_lint_moves:
  assumes "ids_ok db"
  shows "moves True db (fst (claim_lint e req t db)) \<and> id_part (fst (claim_lint e req t db)) = id_part db"
proof (cases "install_pending db")
  case False
  have "tbl_moves True True lint_owner (lints db) table"
    if "claim_stmt (lint_eligible (lint_max_running e) db) (start_job (params_of e req t)) (ct_locked t) (lints db) (lints db) = Some (i, table)" for i table
    using lint_claims.claim_moves [OF that] assms by (simp add: ids_ok_def)
  then show ?thesis using False by (auto simp: claim_lint_def moves_def id_part_def split: option.split)
qed (simp add: claim_lint_def)

lemma claim_keyscan_moves:
  assumes "ids_ok db"
  shows "moves True db (fst (claim_keyscan e req t db)) \<and> id_part (fst (claim_keyscan e req t db)) = id_part db"
proof -
  have "tbl_moves True True scan_owner (scans db) table"
    if "claim_stmt (scan_eligible () (view_of t db)) (start_job (params_of e req t)) (ct_locked t) (scans (view_of t db)) (scans db) = Some (i, table)" for i table
    using scan_claims.claim_moves [OF that] assms by (simp add: ids_ok_def)
  then show ?thesis by (auto simp: claim_keyscan_def Let_def moves_def id_part_def split: option.split)
qed

lemma claim_refresh_moves:
  assumes "ids_ok db"
  shows "moves True db (fst (claim_refresh_attempt e req t db)) \<and> id_part (fst (claim_refresh_attempt e req t db)) = id_part db"
proof -
  have "tbl_moves True True refresh_owner (refreshes db) table"
    if "claim_stmt (refresh_eligible (e, ct_now t) (view_of t db)) (start_job (params_of e req t)) (ct_locked t)
          (refreshes (view_of t db)) (refreshes db) = Some (i, table)" for i table
    using refresh_claims.claim_moves [OF that] assms by (simp add: ids_ok_def)
  then show ?thesis by (auto simp: claim_refresh_attempt_def Let_def moves_def id_part_def split: option.split)
qed

lemma claim_run_moves:
  assumes "ids_ok db"
  shows "moves True db (fst (claim_run_attempt e req t db)) \<and> id_part (fst (claim_run_attempt e req t db)) = id_part db"
proof (cases "claim_run_attempt e req t db")
  case (Pair db' out)
  let ?stmt = "claim_stmt (run_eligible (e, ct_now t, req) (view_of t db)) (start_run (params_of e req t, view_of t db))
     (ct_locked t) (runs (view_of t db)) (runs db)"
  have step: "moves True db (db\<lparr>runs := table\<rparr>)" if "?stmt = Some (i, table)" for i table
    using run_claims.claim_moves [OF that, of inventory_id True] assms by (simp add: ids_ok_def moves_def)
  have failed: "moves True db (fail_run e now clock FAILED why r (db\<lparr>runs := table\<rparr>))"
    if st: "?stmt = Some (i, table)" and r: "get_run (db\<lparr>runs := table\<rparr>) i = Some r" for i table r now clock why
  proof -
    let ?d = "db\<lparr>runs := table\<rparr>"
    have ids: "ids_ok ?d" using moves_ids_ok [OF step [OF st] assms] .
    have "row_id r = i" using r by (auto simp: get_run_def dest: get_row_Some)
    moreover have "status r = RUNNING"
      using run_claims.claim_get_row [OF st, of i] r by (auto simp: get_run_def dest: get_row_Some)
    ultimately have "moves False ?d (fail_run e now clock FAILED why r ?d)" using moves_fail_run [OF ids, of r r] r by simp
    then show ?thesis using step [OF st] moves_trans moves_claim by blast
  qed
  show ?thesis using step failed
    by (auto simp: claim_run_attempt_def Let_def split: option.split)
qed

lemma claim_next_moves:
  assumes "ids_ok db"
  shows "moves True db (fst (claim_next e req kinds lt st rts uts db)) \<and> id_part (fst (claim_next e req kinds lt st rts uts db)) = id_part db"
proof -
  define P where "P = (\<lambda>d. moves True db d \<and> id_part d = id_part db)"
  have P: "P d'" if "P d" "moves True d d' \<and> id_part d' = id_part d" for d d' using that moves_trans by (auto simp: P_def)
  have ids: "ids_ok d" if "P d" for d using that moves_ids_ok assms by (auto simp: P_def)
  have lint: "P (fst (claim_lint e req lt d))" if "P d" for d by (rule P [OF that claim_lint_moves [OF ids [OF that]]])
  have scan: "P (fst (claim_keyscan e req st d))" if "P d" for d by (rule P [OF that claim_keyscan_moves [OF ids [OF that]]])
  have refresh: "P (fst (claim_refresh_attempt e req t d))" if "P d" for d t by (rule P [OF that claim_refresh_moves [OF ids [OF that]]])
  have run: "P (fst (claim_run_attempt e req t d))" if "P d" for d t by (rule P [OF that claim_run_moves [OF ids [OF that]]])
  have refreshes: "P (fst (claim_refresh e req rts d))" if "P d" for d
    unfolding claim_refresh_def by (rule claim_loop_inv [where P = P, OF refresh that])
  have runs: "P (fst (claim_run e req uts d))" if "P d" for d
    unfolding claim_run_def by (rule claim_loop_inv [where P = P, OF run that])
  have "P db" by (simp add: P_def)
  then have "P (fst (claim_next e req kinds lt st rts uts db))"
    unfolding claim_next_def Let_def case_prod_beta by (simp add: lint scan refreshes runs)
  then show ?thesis by (simp add: P_def)
qed

lemma safe_claimed:
  assumes "ids_ok db \<Longrightarrow> moves True db db' \<and> id_part db' = id_part db" and "queue_inv db \<Longrightarrow> queue_inv db'"
  shows "safe_step db db'"
  using assms moves_fresh [of True db db'] moves_evolves [of True db db'] by (auto simp: safe_step_def sys_inv_def queue_inv_def)

lemma safe_claim_polls: "safe_step db (fst (claim_polls e b ps db))"
proof (induction ps arbitrary: db)
  case (Cons p ps)
  have "safe_step db (fst (claim_once e b p db))"
    unfolding claim_once_def Let_def by (rule safe_claimed [OF claim_next_moves claim_next_inv])
  then show ?case using Cons.IH safe_trans
    by (auto split: prod.split option.split)
qed simp

lemma safe_claim_handler: "safe_step db (fst (claim_handler e now b ps db))"
proof -
  have "safe_step db (seen_worker now b db)" by (rule safe_part) (simp_all add: job_part_def)
  then have "safe_step db (fst (claim_polls e b ps (seen_worker now b db)))" using safe_claim_polls by (rule safe_trans)
  then show ?thesis using \<open>safe_step db (seen_worker now b db)\<close>
    by (simp add: claim_handler_def Let_def case_prod_unfold)
qed

section \<open>The reaper\<close>

lemma list_all2_map_same: "(\<And>x. x \<in> set xs \<Longrightarrow> P x (f x)) \<Longrightarrow> list_all2 P xs (map f xs)"
  by (induction xs) auto

text \<open>Rows chosen by three queries over the same table are ended one after the other.\<close>

lemma tbl_moves_ended:
  assumes ids: "\<And>r. row_id (f1 r) = row_id r" "\<And>r. row_id (f2 r) = row_id r" "\<And>r. row_id (f3 r) = row_id r"
    and own: "\<And>r. own (f1 r) = own r" "\<And>r. own (f2 r) = own r" "\<And>r. own (f3 r) = own r"
    and fin: "\<And>r. status (f1 r) \<in> set FINISHED_STATUSES" "\<And>r. status (f2 r) \<in> set FINISHED_STATUSES"
      "\<And>r. status (f3 r) \<in> set FINISHED_STATUSES"
    and open_rows: "\<And>r. r \<in> set t \<Longrightarrow> row_id r \<in> row_id ` (set a \<union> set b \<union> set d) \<Longrightarrow> status r \<notin> set FINISHED_STATUSES"
  shows "tbl_moves c q own t (end_rows f3 d (end_rows f2 b (end_rows f1 a t)))"
proof -
  let ?g = "\<lambda>A f r. if row_id r \<in> row_id ` set A then f r else r"
  have "end_rows f3 d (end_rows f2 b (end_rows f1 a t)) = map (\<lambda>r. ?g d f3 (?g b f2 (?g a f1 r))) t"
    by (simp add: end_rows_def update_rows_def)
  moreover have "row_moves c q own r (?g d f3 (?g b f2 (?g a f1 r)))" if "r \<in> set t" for r
    using open_rows [OF that] fin by (auto simp: row_moves_def ids own intro: may_end)
  ultimately show ?thesis by (simp add: list_all2_map_same)
qed

lemma locked_open:
  assumes "unique_ids t" and "r \<in> set t" and "row_id r \<in> row_id ` (set (lock_rows p l t) \<union> set (lock_rows p' l t) \<union> set (lock_rows p'' l t))"
    and "\<And>x. p x \<or> p' x \<or> p'' x \<Longrightarrow> status x \<notin> set FINISHED_STATUSES"
  shows "status r \<notin> set FINISHED_STATUSES"
proof -
  obtain x where x: "row_id x = row_id r" "x \<in> set t" "p x \<or> p' x \<or> p'' x"
    using assms(3) by (auto dest!: lock_rows_rows)
  then have "x = r" using assms(1,2) by (metis unique_ids_def distinct_map inj_on_def)
  then show ?thesis using x(3) assms(4) by blast
qed

lemma safe_reap_lints: "safe_step db (fst (reap_lints e rp k db))"
proof -
  define t where "t = rp_now rp k"
  define pick where "pick = (\<lambda>p. lock_rows p (rp_locked rp k) (lints db))"
  define E where "E = end_rows (\<lambda>l. end_lint t FAILED (Some (''not checked: '' @ lint_wait_reason e t db l)) None l) (pick (queue_over LINT_QUEUE_TIMEOUT_SECONDS t))
    (end_rows (\<lambda>l. end_lint t TIMED_OUT (Some (overrun_text l)) None l) (pick (time_over LINT_TIMEOUT_GRACE_SECONDS t))
      (end_rows (\<lambda>l. end_lint t FAILED (Some (lost_text rp l)) None l) (pick (lease_over t)) (lints db)))"
  have "safe_step db (db\<lparr>lints := E\<rparr>)"
  proof (rule safe_works)
    assume ids: "ids_ok db"
    have "status l \<notin> set FINISHED_STATUSES"
      if "l \<in> set (lints db)" "row_id l \<in> row_id ` (set (pick (lease_over t)) \<union> set (pick (time_over LINT_TIMEOUT_GRACE_SECONDS t)) \<union>
            set (pick (queue_over LINT_QUEUE_TIMEOUT_SECONDS t)))" for l
    proof (rule locked_open [OF _ that(1) that(2) [unfolded pick_def]])
      show "unique_ids (lints db)" using ids by (simp add: ids_ok_def)
    qed (elim disjE; drule overdue_unfinished; simp)
    then have "tbl_moves False True lint_owner (lints db) E"
      unfolding E_def by (intro tbl_moves_ended) simp_all
    then show "works db (db\<lparr>lints := E\<rparr>)" by (intro worksI) (simp_all add: moves_def)
  qed (simp add: id_part_def)
  moreover have "safe_step (db\<lparr>lints := E\<rparr>) (fst (prune_lint_jobs t (db\<lparr>lints := E\<rparr>)))"
    by (rule safe_delete [where p = "\<lambda>l. \<not> (case finished_at l of None \<Rightarrow> False | Some u \<Rightarrow> u < t - secs LINT_RETENTION_SECONDS)" and q = "\<lambda>_. True"])
      (simp_all add: prune_lint_jobs_def Let_def delete_rows_def id_part_def)
  moreover have "fst (reap_lints e rp k db) = fst (prune_lint_jobs t (db\<lparr>lints := E\<rparr>))"
    by (simp add: reap_lints_def Let_def E_def pick_def t_def)
  ultimately show ?thesis using safe_trans by metis
qed

end
