(* ===== verification/Transactions.thy ===== *)
theory Transactions
  imports Lifecycle
begin

text \<open>
  The system as its transactions, in any order: \<open>step\<close> has a rule for every call of a worker, every modelled
  request of a person or an API key and every transaction of the reaper, with any arguments and at any
  time, and one for everything else the server does, which leaves the tables of jobs alone. From it the
  invariant of every reachable state, and that the outcome of a job which ended is final.
\<close>

section \<open>The rest of the reaper\<close>

lemma safe_reap_scans: "safe_step db (fst (reap_scans rp k db))"
proof -
  define t where "t = rp_now rp k"
  define pick where "pick = (\<lambda>p. lock_rows p (rp_locked rp k) (scans db))"
  define E where "E = end_rows (\<lambda>s. end_scan t FAILED (Some (''not scanned: '' @ scan_wait_reason t db)) None s) (pick (queue_over SCAN_QUEUE_TIMEOUT_SECONDS t))
    (end_rows (\<lambda>s. end_scan t TIMED_OUT (Some (overrun_text s)) None s) (pick (time_over SCAN_TIMEOUT_GRACE_SECONDS t))
      (end_rows (\<lambda>s. end_scan t FAILED (Some (lost_text rp s)) None s) (pick (lease_over t)) (scans db)))"
  have "safe_step db (db\<lparr>scans := E\<rparr>)"
  proof (rule safe_works)
    assume ids: "ids_ok db"
    have "status s \<notin> set FINISHED_STATUSES"
      if "s \<in> set (scans db)" "row_id s \<in> row_id ` (set (pick (lease_over t)) \<union> set (pick (time_over SCAN_TIMEOUT_GRACE_SECONDS t)) \<union>
            set (pick (queue_over SCAN_QUEUE_TIMEOUT_SECONDS t)))" for s
    proof (rule locked_open [OF _ that(1) that(2) [unfolded pick_def]])
      show "unique_ids (scans db)" using ids by (simp add: ids_ok_def)
    qed (elim disjE; drule overdue_unfinished; simp)
    then have "tbl_moves False True scan_owner (scans db) E"
      unfolding E_def by (intro tbl_moves_ended) simp_all
    then show "works db (db\<lparr>scans := E\<rparr>)" by (intro worksI) (simp_all add: moves_def)
  qed (simp add: id_part_def)
  moreover have "safe_step (db\<lparr>scans := E\<rparr>) (fst (prune_scans t (db\<lparr>scans := E\<rparr>)))"
    by (rule safe_delete [where q = "\<lambda>s. \<not> (case finished_at s of None \<Rightarrow> False | Some u \<Rightarrow> u < t - secs SCAN_RETENTION_SECONDS)" and p = "\<lambda>_. True"])
      (simp_all add: prune_scans_def Let_def delete_rows_def id_part_def)
  moreover have "fst (reap_scans rp k db) = fst (prune_scans t (db\<lparr>scans := E\<rparr>))"
    by (simp add: reap_scans_def Let_def E_def pick_def t_def)
  ultimately show ?thesis using safe_trans by metis
qed

lemma safe_reap_runs:
  assumes "st \<in> set FINISHED_STATUSES" and "\<And>t r. p t r \<Longrightarrow> status r \<notin> set FINISHED_STATUSES"
  shows "safe_step db (fst (reap_runs e rp k p st why db))"
proof -
  have "id_part (fold (\<lambda>r. fail_run e n c st (why r) r) rs d) = id_part d" for n c rs d
    by (induction rs arbitrary: d) simp_all
  then have "id_part (fst (reap_runs e rp k p st why db)) = id_part db" by (simp add: reap_runs_def Let_def fail_runs_def)
  moreover have "works db (fst (reap_runs e rp k p st why db))" if "ids_ok db"
    by (rule conjunct1 [OF reap_runs_works [OF that assms]])
  ultimately show ?thesis by (intro safe_works)
qed

lemma safe_reap_refresh_rows:
  assumes "st \<in> set FINISHED_STATUSES" and "\<And>t f. p t f \<Longrightarrow> status f = RUNNING"
    and "reap_refresh_rows e rp k p st why db = Inr (db', evs)"
  shows "safe_step db db'"
proof -
  have "id_part db' = id_part db" if "end_refreshes e n c st why fs d = Inr (db', evs)" "id_part d = id_part db" for n c fs d evs
    using that
  proof (induction fs arbitrary: d evs)
    case (Cons f fs)
    then show ?case by (auto simp: res_bind_Inr_iff dest!: id_part_end_refresh)
  qed simp
  then have "id_part db' = id_part db" using assms(3) by (simp add: reap_refresh_rows_def)
  moreover have "works db db'" if "ids_ok db" using reap_refresh_rows_works [OF that assms(1) _ assms(3)] assms(2) by blast
  ultimately show ?thesis by (intro safe_works)
qed

lemma safe_schedule_refreshes: "safe_step db (schedule_refreshes e now db)"
proof -
  have "safe_step d (enqueue_due e now due d)" for d due
  proof (induction due arbitrary: d)
    case (Cons p due)
    obtain iid ids where "p = (iid, ids)" by fastforce
    then show ?case using Cons.IH safe_trans [OF safe_enqueue_refresh Cons.IH] by (simp split: option.split)
  qed simp
  then show ?thesis by (simp add: schedule_refreshes_def)
qed

text \<open>Pruning clears references of jobs to what is gone.\<close>

lemma tbl_moves_cleared: "(\<And>r. row_moves c q own r (f r)) \<Longrightarrow> tbl_moves c q own t (update_rows P f t)"
  by (rule tbl_moves_update) blast

lemma safe_prune_snapshots: "safe_step db (fst (prune_snapshots db))"
  by (rule safe_works) (auto simp: prune_snapshots_def Let_def moves_def row_moves_def id_part_def intro!: worksI tbl_moves_cleared)

lemma safe_prune_git_snapshots: "safe_step db (fst (prune_git_snapshots now db))"
  by (rule safe_works) (auto simp: prune_git_snapshots_def Let_def moves_def row_moves_def id_part_def intro!: worksI tbl_moves_cleared)

lemma safe_prune_artifacts: "safe_step db (fst (prune_artifacts rp k n db))"
  by (rule safe_works) (auto simp: prune_artifacts_def Let_def moves_def row_moves_def id_part_def intro!: worksI tbl_moves_cleared)

lemma safe_prune_keys: "safe_step db (fst (prune_keys now n db))"
  by (rule safe_works) (auto simp: prune_keys_def Let_def moves_def row_moves_def id_part_def intro!: worksI tbl_moves_cleared)

section \<open>Installs\<close>

lemma safe_installs:
  assumes "runs db' = runs db" "refreshes db' = refreshes db" "lints db' = lints db" "scans db' = scans db"
    and "id_part db' = id_part db" and "queue_inv db \<Longrightarrow> queue_inv db'"
  shows "safe_step db db'"
  using assms by (intro safe_claimed conjI moves_same) simp_all

lemma reap_installs_inv: "queue_inv db \<Longrightarrow> queue_inv (reap_installs rp k db)"
  by (auto simp: queue_inv_def ids_ok_def one_running_def gate_ok_def reap_installs_def set_update_rows split: if_splits)

lemma safe_reap_installs: "safe_step db (reap_installs rp k db)"
  by (rule safe_installs) (simp_all add: reap_installs_inv, simp_all add: reap_installs_def)

lemma safe_end_install: "safe_step db (end_install now i code db)"
  by (rule safe_installs) (simp_all add: end_install_inv, simp_all add: end_install_def)

lemma safe_start_install: "safe_step db (fst (try_start_install e now db))"
  by (rule safe_installs) (simp_all add: try_start_install_inv)

lemma safe_install_queued:
  assumes "g_status g = QUEUED" and "g_id g \<notin> g_id ` set (installs db)"
  shows "safe_step db (db\<lparr>installs := installs db @ [g]\<rparr>)"
proof (rule safe_installs)
  assume inv: "queue_inv db"
  have "(\<exists>x \<in> set (installs db @ [g]). g_status x = RUNNING) = (\<exists>x \<in> set (installs db). g_status x = RUNNING)"
    using assms(1) by auto
  then show "queue_inv (db\<lparr>installs := installs db @ [g]\<rparr>)"
    using inv assms by (simp add: queue_inv_def ids_ok_def one_running_def gate_ok_def)
qed simp_all

section \<open>One transaction\<close>

text \<open>
  Arguments are whatever the caller sends; the outcome a worker reports is one of the finished states
  (its request is validated). What a job consists of is \<open>build\<close>; an API key or a person is \<open>u\<close>.
\<close>

inductive step :: "env \<Rightarrow> database \<Rightarrow> database \<Rightarrow> bool" for e where
  step_claim: "step e db (fst (claim_handler e now b ps db))"
| step_heartbeat: "step e db (fst (heartbeat e now hb db))"
| step_job: "step e db (fst (job_handler e (build :: database \<Rightarrow> run \<Rightarrow> val job_build) now clock i ct jt db))"
| step_events: "step e db (fst (events_handler e i token n evs db))"
| step_egress: "step e db (fst (egress_report e i token body db))"
| step_artifacts: "step e db (fst (append_artifacts e i token offset chunk db))"
| step_complete: "co_status co \<in> set FINISHED_STATUSES \<Longrightarrow> step e db (fst (complete e fp addresses now clock i token co db))"
| step_lint_job: "step e db (fst (lint_job_handler e (lbuild :: database \<Rightarrow> lint_job \<Rightarrow> string option + val) now i ct jt db))"
| step_lint_complete: "st \<in> set FINISHED_STATUSES \<Longrightarrow> step e db (fst (lint_complete e now i token st error result db))"
| step_scan_job: "step e db (fst (keyscan_job_handler e now i ct jt db))"
| step_scan_complete: "st \<in> set FINISHED_STATUSES \<Longrightarrow> step e db (fst (keyscan_complete e fp now i token st ls error db))"
| step_refresh_job: "step e db (fst (refresh_job_handler e env_of git_call now clock i ct jt db))"
| step_refresh_output: "step e db (fst (append_output e i token offset part chunk db))"
| step_refresh_sources: "step e db (fst (refresh_sources_handler e a loads dump env_of now clock i token results db))"
| step_refresh_complete:
    "st \<in> set FINISHED_STATUSES \<Longrightarrow> step e db (fst (refresh_complete e a loads now clock i token st error nbytes sha scrubbed db))"
| step_queue_run: "step e db (fst (queue_run e a enc w now id u rq p detail db))"
| step_rerun: "step e db (fst (rerun e a enc w now id u rq i db))"
| step_cancel: "step e db (fst (cancel_run e now clock id u rq i db))"
| step_enqueue_refresh: "step e db (fst (enqueue_refresh e now id iv trigger who sids db))"
| step_enqueue_lint: "step e db (fst (enqueue_lint e now uid name pid target content pb snap commit db))"
| step_enqueue_scan: "step e db (fst (enqueue_scan now iid who name targets db))"
| step_reap_lost: "step e db (fst (reap_runs e rp k lease_over FAILED (lost_text rp) db))"
| step_reap_overrun: "step e db (fst (reap_runs e rp k (time_over TIMEOUT_GRACE_SECONDS) TIMED_OUT overrun_text db))"
| step_reap_cancelled: "step e db (fst (reap_runs e rp k cancel_over CANCELLED cancelled_text db))"
| step_reap_unrunnable: "step e db (fst (reap_runs e rp k (\<lambda>_. unrunnable_queued) FAILED not_run_text db))"
| step_reap_refreshes_lost: "reap_refresh_rows e rp k lease_over FAILED (lost_text rp) db = Inr (db', evs) \<Longrightarrow> step e db db'"
| step_reap_refreshes_overrun:
    "reap_refresh_rows e rp k (time_over TIMEOUT_GRACE_SECONDS) TIMED_OUT overrun_text db = Inr (db', evs) \<Longrightarrow> step e db db'"
| step_reap_lints: "step e db (fst (reap_lints e rp k db))"
| step_reap_scans: "step e db (fst (reap_scans rp k db))"
| step_schedule: "step e db (schedule_refreshes e now db)"
| step_prune_snapshots: "step e db (fst (prune_snapshots db))"
| step_prune_git_snapshots: "step e db (fst (prune_git_snapshots now db))"
| step_prune_artifacts: "step e db (fst (prune_artifacts rp k n db))"
| step_prune_keys: "step e db (fst (prune_keys now n db))"
| step_queue_install: "g_status g = QUEUED \<Longrightarrow> g_id g \<notin> g_id ` set (installs db) \<Longrightarrow> step e db (db\<lparr>installs := installs db @ [g]\<rparr>)"
| step_start_install: "step e db (fst (try_start_install e now db))"
| step_end_install: "step e db (end_install now i code db)"
| step_reap_installs: "step e db (reap_installs rp k db)"
| step_other: "job_part db' = job_part db \<Longrightarrow> id_part db' = id_part db \<Longrightarrow> step e db db'"

lemmas worker_works = heartbeat_works job_handler_works events_works egress_report_works append_artifacts_works
  lint_handlers_work scan_handlers_work refresh_job_works append_output_works refresh_sources_works

lemmas reaper_safe = safe_reap_lints safe_reap_scans safe_schedule_refreshes safe_prune_snapshots safe_prune_git_snapshots
  safe_prune_artifacts safe_prune_keys safe_reap_installs safe_end_install safe_start_install safe_install_queued

lemmas request_safe = safe_claim_handler safe_queue_run safe_rerun safe_cancel_run safe_enqueue_refresh safe_enqueue_lint safe_enqueue_scan

lemma step_safe: "step e db db' \<Longrightarrow> safe_step db db'"
proof (induction rule: step.induct)
  case (step_complete co db fp addresses now clock i token)
  then show ?case by (intro safe_works complete_works) simp_all
next
  case (step_refresh_complete st db a loads now clock i token error nbytes sha scrubbed)
  then show ?case by (intro safe_works refresh_complete_works) simp_all
next
  case (step_reap_refreshes_lost rp k db db' evs)
  then show ?case by (rule safe_reap_refresh_rows [rotated 2]) (simp_all add: overdue_unfinished)
next
  case (step_reap_refreshes_overrun rp k db db' evs)
  then show ?case by (rule safe_reap_refresh_rows [rotated 2]) (simp_all add: overdue_unfinished)
qed (use safe_part in \<open>blast intro: request_safe reaper_safe\<close> |
     (rule safe_works, (simp_all add: worker_works)[2]) |
     (rule safe_reap_runs, (auto dest: overdue_unfinished)[2]))+

section \<open>Any sequence of transactions\<close>

abbreviation later :: "env \<Rightarrow> database \<Rightarrow> database \<Rightarrow> bool" where
  "later e \<equiv> rtranclp (step e)"

lemma later_safe: "later e db db' \<Longrightarrow> safe_step db db'"
  by (induction rule: rtranclp_induct) (auto intro: safe_trans step_safe)

lemma later_inv: "later e db db' \<Longrightarrow> sys_inv db \<Longrightarrow> sys_inv db'"
  using later_safe by (simp add: safe_step_def)

lemma later_evolves: "later e db db' \<Longrightarrow> sys_inv db \<Longrightarrow> evolves db db'"
  using later_safe by (simp add: safe_step_def)

text \<open>A row that ended, in a table that evolved: its id was not drawn again, and nothing moved it.\<close>

lemma ended_stays:
  assumes "tbl_evolves own n t t'" and "unique_ids t" and "\<forall>x \<in> set t. row_id x < n"
    and "r \<in> set t" "status r \<in> set FINISHED_STATUSES" "r' \<in> set t'" "row_id r' = row_id r"
  shows "status r' = status r \<and> own r' = own r"
proof -
  have "row_id r' < n" using assms(3,4,7) by simp
  then obtain x where x: "x \<in> set t" "row_moves True True own x r'" using assms(1,6) by (force simp: tbl_evolves_def)
  then have "x = r" using assms(2,4,7) by (metis row_moves_def unique_ids_def distinct_map inj_on_def)
  then show ?thesis using x(2) assms(5) by (auto simp: row_moves_def may_move_def)
qed



section \<open>Witnesses\<close>

lemma empty_db_inv: "sys_inv empty_db"
  by (simp add: sys_inv_def queue_inv_defs ids_fresh_def empty_db_def unique_ids_def unique_running_def busy_def)

text \<open>Two people ask for a check.\<close>

definition two_checks :: database where
  "two_checks =
     fst (enqueue_lint sample_env 6 2 ''bob'' 1 ''playbook'' (Some ''y'') None None None
       (fst (enqueue_lint sample_env 5 1 ''ann'' 1 ''playbook'' (Some ''x'') None None None empty_db)))"


text \<open>A run that succeeded; a late report under a stale claim says it failed.\<close>

definition ended_db :: database where
  "ended_db = empty_db\<lparr>runs := [(sample_run 5 1)\<lparr>status := SUCCESS\<rparr>], next_run_id := 6\<rparr>"

definition late_report :: complete_in where
  "late_report =
     \<lparr>co_last_seq = 0, co_status = FAILED, co_return_code = Some 2, co_reason = None,
      co_host_counts = None, co_learned_host_keys = None, co_host_key_problems = None,
      co_artifacts = None, co_egress_refused = None\<rparr>"


end
