(* ===== verification/Scrub.thy ===== *)
theory Scrub
  imports Host_Keys
begin

text \<open>
  Redaction, \<open>app/scrub.py\<close>: which keys look like secrets, the masking of variables for display, and the
  exact redaction of known secrets in inventory data (\<open>scrub_exact\<close>). A regular expression that is an
  alternation of literals is the list of the literals in its order; \<open>sub\<close> is the leftmost scan, with the
  lookarounds on the original text. The patterns of \<open>Scrubber\<close> for run output are not modelled.
\<close>

definition REDACTED :: string where "REDACTED = ''[REDACTED]''"

definition SECRET_TOKENS :: "string list" where
  "SECRET_TOKENS = [''password'', ''passwd'', ''pass'', ''passphrase'', ''secret'', ''secrets'', ''token'', ''tokens'', ''key'',
     ''credential'', ''credentials'', ''private'', ''pwd'', ''apikey'', ''authtoken'', ''privatekey'', ''secretkey'', ''passcode'', ''community'']"

definition NON_SECRET_SUFFIXES :: "string list" where
  "NON_SECRET_SUFFIXES = [''file'', ''path'', ''dir'', ''id'', ''name'']"

definition MIN_SECRET_LEN :: nat where "MIN_SECRET_LEN = 4"
definition PLAIN_SUBSTRING_LEN :: nat where "PLAIN_SUBSTRING_LEN = 8"
definition MIN_LINE_LEN :: nat where "MIN_LINE_LEN = 8"
definition VAULT_PREFIX :: string where "VAULT_PREFIX = ''$ANSIBLE_VAULT''"

section \<open>Keys that look like secrets\<close>

text \<open>An underscore at every boundary of camel case.\<close>

definition camel_end :: "char \<Rightarrow> bool" where
  "camel_end c = (let n = of_char c :: nat in (97 \<le> n \<and> n \<le> 122) \<or> is_digit c)"

definition ascii_upper :: "char \<Rightarrow> bool" where
  "ascii_upper c = (let n = of_char c :: nat in 65 \<le> n \<and> n \<le> 90)"

fun camel_boundary :: "char option \<Rightarrow> string \<Rightarrow> string" where
  "camel_boundary prev [] = []"
| "camel_boundary prev (c # cs) =
     (if ascii_upper c \<and> (case prev of None \<Rightarrow> False | Some p \<Rightarrow> camel_end p) then [CHR ''_'', c] else [c]) @
     camel_boundary (Some c) cs"

definition key_separator :: "char \<Rightarrow> bool" where
  "key_separator c = (c = CHR ''_'' \<or> c = CHR ''-'' \<or> is_space c \<or> c = CHR ''.'')"

text \<open>The non-empty pieces between separators.\<close>

fun key_pieces :: "string \<Rightarrow> string \<Rightarrow> string list" where
  "key_pieces acc [] = (if acc = [] then [] else [rev acc])"
| "key_pieces acc (c # cs) =
     (if key_separator c then (if acc = [] then [] else [rev acc]) @ key_pieces [] cs else key_pieces (c # acc) cs)"

definition is_secret_key :: "string \<Rightarrow> bool" where
  "is_secret_key name =
     (let tokens = map lower (key_pieces [] (camel_boundary None name))
      in tokens \<noteq> [] \<and> last tokens \<notin> set NON_SECRET_SUFFIXES \<and> list_ex (\<lambda>t. t \<in> set SECRET_TOKENS) tokens)"

section \<open>Masking for display\<close>

fun mask_secret_keys :: "bool \<Rightarrow> val \<Rightarrow> val" where
  "mask_secret_keys within (VDict d) = VDict (map (\<lambda>(k, v). (k, mask_secret_keys (within \<or> is_secret_key (snd k)) v)) d)"
| "mask_secret_keys within (VList vs) = VList (map (mask_secret_keys within) vs)"
| "mask_secret_keys within VNone = VNone"
| "mask_secret_keys within (VBool b) = VBool b"
| "mask_secret_keys within v = (if within then Str REDACTED else v)"

text \<open>The number of containers and leaves: masking does not change it.\<close>

fun nodes :: "val \<Rightarrow> nat" where
  "nodes (VDict d) = Suc (sum_list (map (\<lambda>(k, v). nodes v) d))"
| "nodes (VList vs) = Suc (sum_list (map nodes vs))"
| "nodes v = 1"

lemma nodes_mask [simp]: "nodes (mask_secret_keys within v) = nodes v"
proof (induction within v rule: mask_secret_keys.induct)
  case (1 within d)
  have "map ((\<lambda>(k, v). nodes v) \<circ> (\<lambda>(k, v). (k, mask_secret_keys (within \<or> is_secret_key (snd k)) v))) d = map (\<lambda>(k, v). nodes v) d"
  proof (rule map_cong [OF refl])
    fix p assume "p \<in> set d"
    then show "((\<lambda>(k, v). nodes v) \<circ> (\<lambda>(k, v). (k, mask_secret_keys (within \<or> is_secret_key (snd k)) v))) p = (\<lambda>(k, v). nodes v) p"
      using 1 [of p "fst p" "snd p"] by (simp add: case_prod_unfold)
  qed
  then show ?case by (simp only: mask_secret_keys.simps nodes.simps map_map)
next
  case (2 within vs)
  then have "map (nodes \<circ> mask_secret_keys within) vs = map nodes vs" by (simp cong: map_cong)
  then show ?case by (simp only: mask_secret_keys.simps nodes.simps map_map)
qed simp_all

lemma nodes_member: "p \<in> set d \<Longrightarrow> nodes (snd p) \<le> sum_list (map (\<lambda>(k, v). nodes v) d)"
  by (induction d) auto

function mask_for_display :: "val \<Rightarrow> val" where
  "mask_for_display (VDict d) =
     (case mask_secret_keys False (VDict d) of VDict m \<Rightarrow> VDict (map (\<lambda>p. (fst p, mask_for_display (snd p))) m) | v \<Rightarrow> v)"
| "mask_for_display (VList vs) = VList (map mask_for_display vs)"
| "mask_for_display (VStr u s) = (if startswith (dropWhile is_space s) VAULT_PREFIX then Str REDACTED else VStr u s)"
| "mask_for_display VNone = VNone"
| "mask_for_display (VBool b) = VBool b"
| "mask_for_display (VInt n) = VInt n"
| "mask_for_display (VFloat x) = VFloat x"
  by pat_completeness auto

termination
proof (relation "measure nodes", goal_cases)
  case (2 d m p)
  then have "nodes (VDict m) = nodes (VDict d)" using nodes_mask [of False "VDict d"] by simp
  then show ?case using nodes_member [OF 2(2)] by simp
next
  case (3 vs v)
  then show ?case using member_le_sum_list [of "nodes v" "map nodes vs"] by simp
qed simp

section \<open>Exact redaction\<close>

text \<open>\<open>json.dumps\<close> of a string without its quotes, in ASCII or not.\<close>

definition unicode_escape :: "nat \<Rightarrow> string" where
  "unicode_escape n = [CHR 0x5C, CHR ''u'', CHR ''0'', CHR ''0'', hex_digit (n div 16), hex_digit (n mod 16)]"

definition json_escape_char :: "bool \<Rightarrow> char \<Rightarrow> string" where
  "json_escape_char ascii c =
     (let n = of_char c :: nat in
      if c = CHR 0x22 \<or> c = CHR 0x5C then [CHR 0x5C, c]
      else if n = 10 then [CHR 0x5C, CHR ''n''] else if n = 13 then [CHR 0x5C, CHR ''r'']
      else if n = 9 then [CHR 0x5C, CHR ''t''] else if n = 8 then [CHR 0x5C, CHR ''b''] else if n = 12 then [CHR 0x5C, CHR ''f'']
      else if n < 32 \<or> (ascii \<and> n > 126) then unicode_escape n
      else [c])"

definition json_escape :: "bool \<Rightarrow> string \<Rightarrow> string" where
  "json_escape ascii s = concat (map (json_escape_char ascii) s)"

definition double_quotes :: "string \<Rightarrow> string" where
  "double_quotes s = concat (map (\<lambda>c. if c = CHR 0x27 then [c, c] else [c]) s)"

definition line_variants :: "string \<Rightarrow> string list" where
  "line_variants raw = (let line = strip raw in if length line \<ge> MIN_LINE_LEN then [line, json_escape True line] else [])"

definition secret_variants :: "string \<Rightarrow> string list" where
  "secret_variants s =
     (let secret = strip_of (\<lambda>c. c = CHR 0x0D \<or> c = CHR 0x0A) s;
          written = [secret, json_escape True secret, json_escape False secret, double_quotes secret];
          lines = (if CHR 0x0A \<in> set secret then concat (map line_variants (splitlines secret)) else [])
      in filter (\<lambda>v. length v \<ge> MIN_SECRET_LEN) (written @ lines))"

text \<open>The longest first; of two literals of one length at most one matches at a place.\<close>

definition exact_regex :: "string list \<Rightarrow> string list" where
  "exact_regex secrets = rev (sort_key length (remdups (concat (map secret_variants secrets))))"

text \<open>\<open>\w\<close> on the characters up to 255.\<close>

definition word_char :: "char \<Rightarrow> bool" where
  "word_char c =
     (let n = of_char c :: nat in
      is_digit c \<or> (65 \<le> n \<and> n \<le> 90) \<or> (97 \<le> n \<and> n \<le> 122) \<or> c = CHR ''_'' \<or>
      n \<in> {170, 178, 179, 181, 185, 186, 188, 189, 190} \<or> (192 \<le> n \<and> n \<noteq> 215 \<and> n \<noteq> 247))"

definition next_is_word :: "string \<Rightarrow> bool" where
  "next_is_word s = (case s of [] \<Rightarrow> False | c # cs \<Rightarrow> word_char c)"

definition literal_matches :: "char option \<Rightarrow> string \<Rightarrow> string \<Rightarrow> bool" where
  "literal_matches prev s v =
     (startswith s v \<and>
      (length v \<ge> PLAIN_SUBSTRING_LEN \<or>
       \<not> (case prev of None \<Rightarrow> False | Some p \<Rightarrow> word_char p) \<and> \<not> next_is_word (drop (length v) s)))"

text \<open>The scan; \<open>skip\<close> counts the rest of a match, whose characters are dropped.\<close>

fun sub_exact :: "string list \<Rightarrow> nat \<Rightarrow> char option \<Rightarrow> string \<Rightarrow> string" where
  "sub_exact vs skip prev [] = []"
| "sub_exact vs skip prev (c # cs) =
     (case skip of
        Suc n \<Rightarrow> sub_exact vs n (Some c) cs
      | 0 \<Rightarrow> (case find (literal_matches prev (c # cs)) vs of
                None \<Rightarrow> c # sub_exact vs 0 (Some c) cs
              | Some v \<Rightarrow> REDACTED @ sub_exact vs (length v - 1) (Some c) cs))"

definition redact :: "string list \<Rightarrow> string \<Rightarrow> string" where
  "redact vs s = sub_exact vs 0 None s"

text \<open>The name a key gets: \<open>fuel\<close> bounds the loop over taken names (see \<open>free_key_free\<close>).\<close>

fun free_key :: "nat \<Rightarrow> string set \<Rightarrow> string \<Rightarrow> string \<Rightarrow> int \<Rightarrow> string" where
  "free_key 0 taken base k n = k"
| "free_key (Suc fuel) taken base k n =
     (if k \<in> taken then free_key fuel taken base (base @ ''#'' @ show_int n) (n + 1) else k)"

fun scrub_walk :: "string list \<Rightarrow> val \<Rightarrow> val"
and scrub_items :: "string list \<Rightarrow> string list \<Rightarrow> ((bool \<times> string) \<times> val) list \<Rightarrow> ((bool \<times> string) \<times> val) list" where
  "scrub_walk vs (VStr u s) = VStr u (redact vs s)"
| "scrub_walk vs (VList xs) = VList (map (scrub_walk vs) xs)"
| "scrub_walk vs (VDict d) = VDict (scrub_items vs [] d)"
| "scrub_walk vs v = v"
| "scrub_items vs taken [] = []"
| "scrub_items vs taken ((k, v) # d) =
     (let base = redact vs (snd k);
          name = free_key (Suc (length taken)) (set taken) base base 2
      in ((fst k, name), scrub_walk vs v) # scrub_items vs (taken @ [name]) d)"

text \<open>Whether any text was changed.\<close>

fun scrub_changes :: "string list \<Rightarrow> val \<Rightarrow> bool" where
  "scrub_changes vs (VStr u s) = (redact vs s \<noteq> s)"
| "scrub_changes vs (VList xs) = list_ex (scrub_changes vs) xs"
| "scrub_changes vs (VDict d) = list_ex (\<lambda>(k, v). redact vs (snd k) \<noteq> snd k \<or> scrub_changes vs v) d"
| "scrub_changes vs v = False"

definition scrub_exact :: "val \<Rightarrow> string list \<Rightarrow> val \<times> bool" where
  "scrub_exact data secrets =
     (case exact_regex secrets of
        [] \<Rightarrow> (data, False)
      | vs \<Rightarrow> (scrub_walk vs data, scrub_changes vs data))"

section \<open>What a mask shows\<close>

text \<open>
  Two values that differ only in what is below keys that look like secrets, and there only in strings and
  numbers: the same keys, the same lists, the same nulls and booleans.
\<close>

fun is_secret_scalar :: "val \<Rightarrow> bool" where
  "is_secret_scalar (VInt n) = True"
| "is_secret_scalar (VFloat x) = True"
| "is_secret_scalar (VStr u s) = True"
| "is_secret_scalar v = False"

inductive alike :: "bool \<Rightarrow> val \<Rightarrow> val \<Rightarrow> bool" where
  alike_secret: "is_secret_scalar v \<Longrightarrow> is_secret_scalar v' \<Longrightarrow> alike True v v'"
| alike_same: "is_secret_scalar v \<Longrightarrow> alike within v v"
| alike_none: "alike within VNone VNone"
| alike_bool: "alike within (VBool b) (VBool b)"
| alike_list: "list_all2 (alike within) vs vs' \<Longrightarrow> alike within (VList vs) (VList vs')"
| alike_dict: "list_all2 (\<lambda>p p'. fst p = fst p' \<and> alike (within \<or> is_secret_key (snd (fst p))) (snd p) (snd p')) d d' \<Longrightarrow>
    alike within (VDict d) (VDict d')"

inductive_simps alike_simps:
  "alike within VNone v'" "alike within (VBool b) v'" "alike within (VList vs) v'" "alike within (VDict d) v'"
  "alike within (VInt n) v'" "alike within (VFloat x) v'" "alike within (VStr u s) v'"

lemma mask_scalar: "is_secret_scalar v \<Longrightarrow> mask_secret_keys within v = (if within then Str REDACTED else v)"
  by (cases v) auto

lemma mask_eq_scalar:
  assumes "is_secret_scalar v"
  shows "mask_secret_keys within v = mask_secret_keys within v' \<longleftrightarrow> is_secret_scalar v' \<and> (within \<or> v = v')"
  by (cases v') (use assms mask_scalar [of v within] in \<open>auto split: if_splits\<close>)

lemma alike_scalar: "is_secret_scalar v \<Longrightarrow> alike within v v' \<longleftrightarrow> is_secret_scalar v' \<and> (within \<or> v = v')"
  by (cases v) (auto simp: alike_simps)

lemma mask_eq_iff: "mask_secret_keys within v = mask_secret_keys within v' \<longleftrightarrow> alike within v v'"
proof (induction within v arbitrary: v' rule: mask_secret_keys.induct)
  case (1 within d)
  let ?f = "\<lambda>p. (fst p, mask_secret_keys (within \<or> is_secret_key (snd (fst p))) (snd p))"
  have m: "mask_secret_keys within (VDict x) = VDict (map ?f x)" for x by (simp add: case_prod_unfold)
  have step: "?f p = ?f p' \<longleftrightarrow> fst p = fst p' \<and> alike (within \<or> is_secret_key (snd (fst p))) (snd p) (snd p')" if "p \<in> set d" for p p'
  proof -
    let ?w = "within \<or> is_secret_key (snd (fst p))"
    have "?f p = ?f p' \<longleftrightarrow> fst p = fst p' \<and> mask_secret_keys ?w (snd p) = mask_secret_keys ?w (snd p')"
      by (cases "fst p = fst p'") simp_all
    then show ?thesis unfolding 1 [OF that prod.collapse] .
  qed
  show ?case
  proof (cases v')
    case (VDict d')
    have "map ?f d = map ?f d' \<longleftrightarrow> list_all2 (\<lambda>p p'. ?f p = ?f p') d d'"
      unfolding list.rel_eq [symmetric] list.rel_map ..
    also have "\<dots> \<longleftrightarrow> list_all2 (\<lambda>p p'. fst p = fst p' \<and> alike (within \<or> is_secret_key (snd (fst p))) (snd p) (snd p')) d d'"
      using step by (simp add: list_all2_conv_all_nth)
    finally show ?thesis unfolding VDict m by (simp add: alike_simps)
  qed (simp_all add: alike_simps)
next
  case (2 within vs)
  show ?case
  proof (cases v')
    case (VList vs')
    have "map (mask_secret_keys within) vs = map (mask_secret_keys within) vs' \<longleftrightarrow> list_all2 (alike within) vs vs'"
      unfolding list.rel_eq [symmetric] list.rel_map using 2 by (simp add: list_all2_conv_all_nth)
    then show ?thesis by (simp add: VList alike_simps)
  qed (simp_all add: alike_simps)
next
  case (3 within)
  then show ?case by (cases v') (auto simp: alike_simps)
next
  case (4 within b)
  then show ?case by (cases v') (auto simp: alike_simps)
qed (simp_all only: mask_eq_scalar alike_scalar is_secret_scalar.simps)

text \<open>
  What is shown of variables tells nothing of a secret, and hides nothing else: two values look the
  same after masking exactly when they differ only in strings and numbers below keys that look like
  secrets.
\<close>

theorem mask_hides_exactly_secrets:
  "mask_secret_keys False v = mask_secret_keys False v' \<longleftrightarrow> alike False v v'"
  by (rule mask_eq_iff)

section \<open>What exact redaction leaves\<close>

text \<open>The parts of a text that were kept, with what was cut out between them.\<close>

fun weave :: "string list \<Rightarrow> string list \<Rightarrow> string" where
  "weave (g # gs) (m # ms) = g @ m @ weave gs ms"
| "weave gs ms = concat gs"

definition clean_of :: "string list \<Rightarrow> string \<Rightarrow> bool" where
  "clean_of vs g \<longleftrightarrow> (\<forall>v \<in> set vs. PLAIN_SUBSTRING_LEN \<le> length v \<longrightarrow> \<not> contains g v)"

lemma ex_le_Suc_head: "(\<exists>i \<le> Suc n. P i) \<longleftrightarrow> P 0 \<or> (\<exists>i \<le> n. P (Suc i))"
  by (metis Suc_le_mono le0 not0_implies_Suc)

lemma contains_Cons: "contains (c # g) v \<longleftrightarrow> startswith (c # g) v \<or> contains g v"
proof -
  have "contains s v \<longleftrightarrow> (\<exists>i \<le> length s. startswith (drop i s) v)" for s
    by (auto simp: contains_def less_Suc_eq_le simp del: upt_Suc)
  then show ?thesis by (simp add: ex_le_Suc_head)
qed

lemma clean_Nil: "clean_of vs []"
  by (auto simp: clean_of_def contains_def startswith_def PLAIN_SUBSTRING_LEN_def)

lemma sub_skip: "\<exists>prev'. sub_exact vs n prev s = sub_exact vs 0 prev' (drop n s)"
proof (induction s arbitrary: n prev)
  case (Cons c cs)
  then show ?case by (cases n) auto
qed auto

lemma sub_exact_parts:
  assumes "\<forall>v \<in> set vs. v \<noteq> []"
  shows "\<exists>gs ms. length gs = Suc (length ms) \<and> s = weave gs ms \<and> sub_exact vs 0 prev s = join REDACTED gs \<and>
    set ms \<subseteq> set vs \<and> (\<forall>g \<in> set gs. clean_of vs g)"
proof (induction s arbitrary: prev rule: length_induct)
  case (1 s)
  show ?case
  proof (cases s)
    case Nil
    then show ?thesis using clean_Nil by (intro exI [of _ "[[]]"] exI [of _ "[]"]) simp
  next
    case s: (Cons c cs)
    show ?thesis
    proof (cases "find (literal_matches prev s) vs")
      case None
      obtain gs ms where ih: "length gs = Suc (length ms)" "cs = weave gs ms" "sub_exact vs 0 (Some c) cs = join REDACTED gs"
        "set ms \<subseteq> set vs" "\<forall>g \<in> set gs. clean_of vs g" using 1 s by (metis length_Cons lessI)
      obtain g gs' where gs: "gs = g # gs'" using ih(1) by (cases gs) auto
      have "\<exists>r. cs = g @ r" using ih(1,2) gs by (cases ms) auto
      then obtain r where r: "s = (c # g) @ r" using s by auto
      have "clean_of vs (c # g)" unfolding clean_of_def contains_Cons
      proof (intro ballI impI)
        fix v assume v: "v \<in> set vs" "PLAIN_SUBSTRING_LEN \<le> length v"
        have "\<not> startswith s v" using None v by (auto simp: find_None_iff literal_matches_def)
        then have "\<not> startswith (c # g) v" using r unfolding startswith_iff by (metis append_assoc)
        then show "\<not> (startswith (c # g) v \<or> contains g v)" using ih(5) gs v by (simp add: clean_of_def)
      qed
      moreover have "weave ((c # g) # gs') ms = s" using ih(2) gs s by (cases ms) auto
      moreover have "join REDACTED ((c # g) # gs') = sub_exact vs 0 prev s" using None s ih(3) gs by (cases gs') auto
      ultimately show ?thesis using ih gs by (intro exI [of _ "(c # g) # gs'"] exI [of _ ms]) auto
    next
      case (Some v)
      then have v: "v \<in> set vs" "startswith s v" by (auto dest: find_SomeD simp: literal_matches_def)
      then obtain t where t: "s = v @ t" by (auto simp: startswith_iff)
      have "v \<noteq> []" using v(1) assms by blast
      then obtain k where k: "length v = Suc k" by (metis Suc_pred length_greater_0_conv)
      then have "drop k cs = t" using s t by (metis drop_Suc_Cons append_eq_conv_conj)
      then obtain prev' where p: "sub_exact vs k (Some c) cs = sub_exact vs 0 prev' t" using sub_skip [of vs k "Some c" cs] by auto
      have "length t < length s" using t k by simp
      then obtain gs ms where ih: "length gs = Suc (length ms)" "t = weave gs ms" "sub_exact vs 0 prev' t = join REDACTED gs"
        "set ms \<subseteq> set vs" "\<forall>g \<in> set gs. clean_of vs g" using 1 by metis
      have "sub_exact vs 0 prev s = REDACTED @ join REDACTED gs" using Some s k p ih(3) by simp
      moreover have "join REDACTED ([] # gs) = REDACTED @ join REDACTED gs" using ih(1) by (cases gs) simp_all
      ultimately show ?thesis using ih t v(1) clean_Nil by (intro exI [of _ "[] # gs"] exI [of _ "v # ms"]) auto
    qed
  qed
qed

fun texts :: "val \<Rightarrow> string list" where
  "texts (VStr u s) = [s]"
| "texts (VList xs) = concat (map texts xs)"
| "texts (VDict d) = concat (map (\<lambda>(k, v). snd k # texts v) d)"
| "texts v = []"

fun keys_distinct :: "val \<Rightarrow> bool" where
  "keys_distinct (VList xs) = list_all keys_distinct xs"
| "keys_distinct (VDict d) = (distinct (map (snd \<circ> fst) d) \<and> list_all (\<lambda>(k, v). keys_distinct v) d)"
| "keys_distinct v = True"

text \<open>A text that is its kept parts between marks; a key may carry a number.\<close>

definition marked :: "string list \<Rightarrow> string \<Rightarrow> bool" where
  "marked vs t \<longleftrightarrow> (\<exists>gs sfx. t = join REDACTED gs @ sfx \<and> (sfx = [] \<or> (\<exists>n. sfx = ''#'' @ show_int n)) \<and> (\<forall>g \<in> set gs. clean_of vs g))"

lemma free_key_form: "free_key fuel taken base k n = k \<or> (\<exists>m. free_key fuel taken base k n = base @ ''#'' @ show_int m)"
  by (induction fuel arbitrary: k n) auto

lemma free_key_taken:
  "free_key fuel taken base (base @ ''#'' @ show_int n) (n + 1) \<in> taken \<Longrightarrow>
   (\<lambda>m. base @ ''#'' @ show_int m) ` {n..n + int fuel} \<subseteq> taken"
proof (induction fuel arbitrary: n)
  case (Suc fuel)
  have "{n..n + int (Suc fuel)} = insert n {n + 1..(n + 1) + int fuel}" by auto
  then show ?case using Suc.prems Suc.IH [of "n + 1"] by (auto split: if_splits)
qed simp

lemma show_int_inj: "0 \<le> m \<Longrightarrow> 0 \<le> n \<Longrightarrow> show_int m = show_int n \<Longrightarrow> m = n"
  by (auto simp: show_int_def show_nat_inj)

lemma free_key_free: "free_key (Suc (length taken)) (set taken) base base 2 \<notin> set taken"
proof
  let ?c = "\<lambda>m. base @ ''#'' @ show_int m"
  assume a: "free_key (Suc (length taken)) (set taken) base base 2 \<in> set taken"
  then have "base \<in> set taken" by (auto split: if_splits)
  then have "?c ` {2..2 + int (length taken)} \<subseteq> set taken" using a free_key_taken [of "length taken" "set taken" base 2] by simp
  moreover have "inj_on ?c {2..2 + int (length taken)}" by (rule inj_onI) (auto intro: show_int_inj)
  ultimately have "card {2..2 + int (length taken)} \<le> card (set taken)" by (metis card_inj_on_le List.finite_set)
  then show False using card_length [of taken] by simp
qed

lemma scrub_items_keys:
  "distinct (map (snd \<circ> fst) (scrub_items vs taken d)) \<and> set (map (snd \<circ> fst) (scrub_items vs taken d)) \<inter> set taken = {}"
proof (induction d arbitrary: taken)
  case (Cons p d)
  obtain k v where p: "p = (k, v)" by fastforce
  let ?name = "free_key (Suc (length taken)) (set taken) (redact vs (snd k)) (redact vs (snd k)) 2"
  show ?case using Cons.IH [of "taken @ [?name]"] free_key_free [of taken "redact vs (snd k)"] by (auto simp: p Let_def simp del: free_key.simps)
qed simp

lemma redact_marked: "\<forall>v \<in> set vs. v \<noteq> [] \<Longrightarrow> marked vs (redact vs s)"
  unfolding marked_def redact_def using sub_exact_parts [of vs s None] by (metis append_Nil2)

lemma numbered_marked: "\<forall>v \<in> set vs. v \<noteq> [] \<Longrightarrow> marked vs (redact vs s @ ''#'' @ show_int n)"
  unfolding marked_def redact_def using sub_exact_parts [of vs s None] by blast

lemma key_marked: "\<forall>v \<in> set vs. v \<noteq> [] \<Longrightarrow> marked vs (free_key fuel taken (redact vs s) (redact vs s) 2)"
  using free_key_form [of fuel taken "redact vs s" "redact vs s" 2] redact_marked [of vs s] numbered_marked [of vs s] by metis

lemma scrub_walk_facts:
  "\<forall>v \<in> set vs. v \<noteq> [] \<Longrightarrow> (\<forall>t \<in> set (texts (scrub_walk vs x)). marked vs t) \<and> keys_distinct (scrub_walk vs x)"
  "\<forall>v \<in> set vs. v \<noteq> [] \<Longrightarrow> (\<forall>t \<in> set (texts (VDict (scrub_items vs taken d))). marked vs t) \<and>
     list_all (\<lambda>(k, v). keys_distinct v) (scrub_items vs taken d)"
proof (induction vs x and vs taken d rule: scrub_walk_scrub_items.induct)
  case (1 vs u s)
  then show ?case using redact_marked by simp
next
  case (2 vs xs)
  then show ?case by (auto simp: list_all_iff)
next
  case (3 vs d)
  then show ?case using scrub_items_keys [of vs "[]" d] by simp
next
  case (6 vs taken k v d)
  let ?name = "free_key (Suc (length taken)) (set taken) (redact vs (snd k)) (redact vs (snd k)) 2"
  have "marked vs ?name" by (rule key_marked [OF 6(3)])
  moreover have "scrub_items vs taken ((k, v) # d) = ((fst k, ?name), scrub_walk vs v) # scrub_items vs (taken @ [?name]) d"
    by (simp only: scrub_items.simps Let_def)
  moreover have "texts (VDict ((q, w) # r)) = snd q # texts w @ texts (VDict r)" for q w r by simp
  ultimately show ?case using 6(1) [OF refl refl 6(3)] 6(2) [OF refl refl 6(3)]
    by (simp add: ball_Un del: free_key.simps scrub_items.simps texts.simps)
qed simp_all

lemma free_key_same: "k \<notin> taken \<Longrightarrow> free_key (Suc fuel) taken base k n = k"
  by simp

lemma scrub_walk_same:
  "keys_distinct x \<Longrightarrow> \<not> scrub_changes vs x \<Longrightarrow> scrub_walk vs x = x"
  "distinct (map (snd \<circ> fst) d) \<Longrightarrow> set (map (snd \<circ> fst) d) \<inter> set taken = {} \<Longrightarrow> list_all (\<lambda>(k, v). keys_distinct v) d \<Longrightarrow>
     \<not> scrub_changes vs (VDict d) \<Longrightarrow> scrub_items vs taken d = d"
proof (induction vs x and vs taken d rule: scrub_walk_scrub_items.induct)
  case (2 vs xs)
  then show ?case by (auto simp: list_all_iff list_ex_iff intro: map_idI)
next
  case (6 vs taken k v d)
  have same: "redact vs (snd k) = snd k" "scrub_walk vs v = v" using 6 by simp_all
  have "free_key (Suc (length taken)) (set taken) (snd k) (snd k) 2 = snd k" using 6(4) by (intro free_key_same) auto
  moreover have "scrub_items vs (taken @ [snd k]) d = d"
    using 6 same calculation by (auto simp: simp del: free_key.simps)
  ultimately show ?case using same by (simp add: Let_def del: free_key.simps)
qed simp_all

lemma scrub_walk_nodes:
  "nodes (scrub_walk vs x) = nodes x"
  "sum_list (map (\<lambda>(k, v). nodes v) (scrub_items vs taken d)) = sum_list (map (\<lambda>(k, v). nodes v) d)"
proof (induction vs x and vs taken d rule: scrub_walk_scrub_items.induct)
  case (2 vs xs)
  then have "map (nodes \<circ> scrub_walk vs) xs = map nodes xs" by simp
  then show ?case by (simp only: scrub_walk.simps nodes.simps map_map)
next
  case (6 vs taken k v d)
  then show ?case by (simp add: Let_def del: free_key.simps)
qed simp_all

lemma variants_nonempty: "v \<in> set (exact_regex secrets) \<Longrightarrow> v \<noteq> []"
  by (auto simp only: exact_regex_def secret_variants_def Let_def MIN_SECRET_LEN_def set_rev set_sort set_remdups set_concat set_map set_filter list.size)

lemma variants_in_regex: "s \<in> set secrets \<Longrightarrow> v \<in> set (secret_variants s) \<Longrightarrow> v \<in> set (exact_regex secrets)"
  by (auto simp: exact_regex_def)



end
