(* ===== verification/Log_View.thy ===== *)
theory Log_View
  imports Run_Log Inventory_Render
begin

text \<open>
  Reading a run's log, from \<open>app/routers/runs.py\<close>: the download of what was committed, its plain text, and
  the live viewer (\<open>_LogTail\<close>, \<open>_stream_log\<close>), which follows the file while the run writes it. \<open>dec\<close> is
  \<open>bytes.decode\<close> and \<open>loads\<close> is \<open>json.loads\<close> (None when they raise); \<open>enc\<close> is \<open>str.encode\<close>.
\<close>

definition EXPORT_CHUNK_BYTES :: nat where "EXPORT_CHUNK_BYTES = 64 * 1024"
definition TAIL_READ_BYTES :: nat where "TAIL_READ_BYTES = 2 ^ 20"

section \<open>The download\<close>

function read_chunks :: "int \<Rightarrow> string \<Rightarrow> string list" where
  "read_chunks remaining s =
     (let chunk = take (nat (min remaining (int EXPORT_CHUNK_BYTES))) s in
      if remaining > 0 \<and> chunk \<noteq> [] then chunk # read_chunks (remaining - int (length chunk)) (drop (length chunk) s) else [])"
  by pat_completeness auto

termination
  by (relation "measure (length \<circ> snd)") (auto simp: EXPORT_CHUNK_BYTES_def)

definition committed_chunks :: "files \<Rightarrow> key_id \<Rightarrow> int \<Rightarrow> string list" where
  "committed_chunks files i n = (case files i of None \<Rightarrow> [] | Some s \<Rightarrow> read_chunks n s)"

text \<open>\<open>readline(n)\<close>: up to a newline, and at most \<open>n\<close> bytes.\<close>

fun line_of :: "string \<Rightarrow> string" where
  "line_of [] = []"
| "line_of (c # cs) = (if c = CHR 0x0A then [c] else c # line_of cs)"

function read_lines :: "int \<Rightarrow> string \<Rightarrow> string list" where
  "read_lines remaining s =
     (let line = take (nat remaining) (line_of s) in
      if remaining > 0 \<and> line \<noteq> [] then line # read_lines (remaining - int (length line)) (drop (length line) s) else [])"
  by pat_completeness auto

termination
proof (relation "measure (length \<circ> snd)", goal_cases)
  case (2 remaining s line)
  then have "s \<noteq> []" "0 < length line" by auto
  then show ?case by simp
qed simp

definition committed_lines :: "files \<Rightarrow> key_id \<Rightarrow> int \<Rightarrow> string list" where
  "committed_lines files i n = (case files i of None \<Rightarrow> [] | Some s \<Rightarrow> read_lines n s)"

text \<open>How long the escape sequence after an escape character is, by \<open>_ANSI\<close>.\<close>

definition char_in :: "nat \<Rightarrow> nat \<Rightarrow> char \<Rightarrow> bool" where
  "char_in a b c = (a \<le> (of_char c :: nat) \<and> (of_char c :: nat) \<le> b)"

definition csi_length :: "string \<Rightarrow> nat option" where
  "csi_length s =
     (let params = takeWhile (char_in 0x30 0x3F) s;
          inter = takeWhile (char_in 0x20 0x2F) (drop (length params) s);
          rest = drop (length params + length inter) s
      in case rest of [] \<Rightarrow> None
         | c # _ \<Rightarrow> if char_in 0x40 0x7E c then Some (length params + length inter + 1) else None)"

definition osc_length :: "string \<Rightarrow> nat option" where
  "osc_length s =
     (let body = takeWhile (\<lambda>c. c \<noteq> CHR 0x07 \<and> c \<noteq> CHR 0x1B) s in
      case drop (length body) s of
        [] \<Rightarrow> None
      | c # cs \<Rightarrow>
          if c = CHR 0x07 then Some (length body + 1)
          else if cs \<noteq> [] \<and> hd cs = CHR 0x5C then Some (length body + 2) else None)"

definition ansi_length :: "string \<Rightarrow> nat option" where
  "ansi_length s =
     (case s of
        [] \<Rightarrow> None
      | c # cs \<Rightarrow>
          (case (if c = CHR 0x5B then csi_length cs else if c = CHR 0x5D then osc_length cs else None) of
             Some n \<Rightarrow> Some (n + 1)
           | None \<Rightarrow> if char_in 0x40 0x5A c \<or> char_in 0x5C 0x5F c then Some 1 else None))"

text \<open>\<open>_ANSI.sub\<close>; \<open>skip\<close> counts the rest of a sequence.\<close>

fun drop_ansi :: "nat \<Rightarrow> string \<Rightarrow> string" where
  "drop_ansi skip [] = []"
| "drop_ansi skip (c # cs) =
     (case skip of
        Suc n \<Rightarrow> drop_ansi n cs
      | 0 \<Rightarrow> (case (if c = CHR 0x1B then ansi_length cs else None) of
                Some n \<Rightarrow> drop_ansi n cs
              | None \<Rightarrow> c # drop_ansi 0 cs))"

fun unix_newlines :: "string \<Rightarrow> string" where
  "unix_newlines (a # b # cs) = (if a = CHR 0x0D \<and> b = CHR 0x0A then b # unix_newlines cs else a # unix_newlines (b # cs))"
| "unix_newlines s = s"

definition text_of_line :: "(string \<Rightarrow> val option) \<Rightarrow> (string \<Rightarrow> string) \<Rightarrow> string \<Rightarrow> string option" where
  "text_of_line loads enc raw =
     (case loads raw of
        Some (VDict d) \<Rightarrow>
          (case vget ''stdout'' d of
             Some (VStr u t) \<Rightarrow> if t = [] then None else Some (enc (unix_newlines (drop_ansi 0 t) @ [CHR 0x0A]))
           | _ \<Rightarrow> None)
      | _ \<Rightarrow> None)"

definition as_text :: "(string \<Rightarrow> val option) \<Rightarrow> (string \<Rightarrow> string) \<Rightarrow> string list \<Rightarrow> string list" where
  "as_text loads enc ls = List.map_filter (text_of_line loads enc) ls"

section \<open>The live viewer\<close>

text \<open>The lines of a binary file with their newlines; the last may lack one.\<close>

fun raw_lines :: "string \<Rightarrow> string \<Rightarrow> string list" where
  "raw_lines acc [] = (if acc = [] then [] else [rev acc])"
| "raw_lines acc (c # cs) = (if c = CHR 0x0A then rev (c # acc) # raw_lines [] cs else raw_lines (c # acc) cs)"

record log_tail =
  lt_offset :: nat
  lt_skip :: nat

definition ends_line :: "string \<Rightarrow> bool" where
  "ends_line raw = (raw \<noteq> [] \<and> last raw = CHR 0x0A)"

text \<open>None: the decoding raised.\<close>

fun tail_loop :: "(string \<Rightarrow> string option) \<Rightarrow> log_tail \<Rightarrow> nat \<Rightarrow> string list \<Rightarrow> (log_tail \<times> string list) option" where
  "tail_loop dec t read [] = Some (t, [])"
| "tail_loop dec t read (raw # raws) =
     (if \<not> ends_line raw then Some (t, [])
      else let t1 = t\<lparr>lt_offset := lt_offset t + length raw\<rparr> in
      case dec raw of
        None \<Rightarrow> None
      | Some txt \<Rightarrow>
          let line = strip txt in
          if line = [] then tail_loop dec t1 read raws
          else if lt_skip t1 \<noteq> 0 then tail_loop dec (t1\<lparr>lt_skip := lt_skip t1 - 1\<rparr>) read raws
          else if read + length raw \<ge> TAIL_READ_BYTES then Some (t1, [line])
          else map_option (\<lambda>(t2, ls). (t2, line # ls)) (tail_loop dec t1 (read + length raw) raws))"

definition tail_read :: "(string \<Rightarrow> string option) \<Rightarrow> log_tail \<Rightarrow> string option \<Rightarrow> (log_tail \<times> string list) option" where
  "tail_read dec t log =
     (case log of None \<Rightarrow> Some (t, []) | Some bytes \<Rightarrow> tail_loop dec t 0 (raw_lines [] (drop (lt_offset t) bytes)))"

text \<open>
  What the viewer meets, in order: for each read the file as it is then, and whether the run has finished
  when that is asked after the read. The stream ended, is still open when nothing more is seen, or raised.
\<close>

datatype stream_end = Closed | Open | Raised

fun drain_log :: "(string \<Rightarrow> string option) \<Rightarrow> log_tail \<Rightarrow> (string option \<times> bool) list \<Rightarrow> string list \<times> stream_end" where
  "drain_log dec t [] = ([], Open)"
| "drain_log dec t ((log, fin) # more_reads) =
     (case tail_read dec t log of
        None \<Rightarrow> ([], Raised)
      | Some (t1, ls) \<Rightarrow>
          if ls = [] then ([], Closed) else (case drain_log dec t1 more_reads of (out, how) \<Rightarrow> (ls @ out, how)))"

fun follow_log :: "(string \<Rightarrow> string option) \<Rightarrow> bool \<Rightarrow> log_tail \<Rightarrow> (string option \<times> bool) list \<Rightarrow> string list \<times> stream_end" where
  "follow_log dec finished t [] = ([], Open)"
| "follow_log dec finished t ((log, fin) # more_reads) =
     (case tail_read dec t log of
        None \<Rightarrow> ([], Raised)
      | Some (t1, ls) \<Rightarrow>
          if ls \<noteq> [] then (case follow_log dec finished t1 more_reads of (out, how) \<Rightarrow> (ls @ out, how))
          else if finished \<or> fin then drain_log dec t1 more_reads
          else follow_log dec finished t1 more_reads)"

definition stream_log :: "(string \<Rightarrow> string option) \<Rightarrow> nat \<Rightarrow> bool \<Rightarrow> (string option \<times> bool) list \<Rightarrow> string list \<times> stream_end" where
  "stream_log dec skip_lines finished reads = follow_log dec finished \<lparr>lt_offset = 0, lt_skip = skip_lines\<rparr> reads"

section \<open>What the download is\<close>

declare read_chunks.simps [simp del] read_lines.simps [simp del]

lemma take_split: "m \<le> n \<Longrightarrow> take m s @ take (n - m) (drop m s) = take n s"
  by (metis add_diff_inverse_nat not_less take_add)

lemma concat_read_chunks: "concat (read_chunks n s) = take (nat n) s"
proof (induction n s rule: read_chunks.induct)
  case (1 n s)
  define k where "k = nat (min n (int EXPORT_CHUNK_BYTES))"
  define c where "c = take k s"
  have unfold: "read_chunks n s = (if n > 0 \<and> c \<noteq> [] then c # read_chunks (n - int (length c)) (drop (length c) s) else [])"
    by (subst read_chunks.simps) (simp add: Let_def k_def c_def del: read_chunks.simps)
  show ?case
  proof (cases "n > 0 \<and> c \<noteq> []")
    case True
    have "k \<le> nat n" by (auto simp: k_def)
    then have le: "length c \<le> nat n" by (simp add: c_def)
    have "concat (read_chunks (n - int (length c)) (drop (length c) s)) = take (nat (n - int (length c))) (drop (length c) s)"
      using 1 [OF c_def [unfolded k_def] True] .
    also have "nat (n - int (length c)) = nat n - length c" using le by simp
    finally show ?thesis using True take_split [OF le, of s] unfolding unfold by (simp add: c_def min_def split: if_splits)
  next
    case False
    then have "n \<le> 0 \<or> s = []" by (auto simp: c_def k_def EXPORT_CHUNK_BYTES_def)
    then show ?thesis using False unfolding unfold by auto
  qed
qed

lemma export_is_committed: "concat (committed_chunks files (row_id r) (log_bytes r)) = committed_log r files"
  by (simp add: committed_chunks_def committed_log_def file_text_def concat_read_chunks split: option.split)

section \<open>What the viewer sends\<close>

text \<open>The specification: the lines of a log that are complete and not blank.\<close>

fun shown :: "(string \<Rightarrow> string option) \<Rightarrow> string list \<Rightarrow> string list option" where
  "shown dec [] = Some []"
| "shown dec (raw # raws) =
     (case dec raw of
        None \<Rightarrow> None
      | Some txt \<Rightarrow> map_option (\<lambda>ls. if strip txt = [] then ls else strip txt # ls) (shown dec raws))"

definition log_lines :: "(string \<Rightarrow> string option) \<Rightarrow> string \<Rightarrow> string list option" where
  "log_lines dec s = shown dec (takeWhile ends_line (raw_lines [] s))"

definition one_line :: "string \<Rightarrow> bool" where
  "one_line u \<longleftrightarrow> (\<exists>v. u = v @ [CHR 0x0A] \<and> CHR 0x0A \<notin> set v)"

lemma one_line_ends: "one_line u \<Longrightarrow> ends_line u"
  by (auto simp: one_line_def ends_line_def)

lemma raw_lines_line: "CHR 0x0A \<notin> set v \<Longrightarrow> raw_lines acc (v @ CHR 0x0A # s) = (rev acc @ v @ [CHR 0x0A]) # raw_lines [] s"
  by (induction v arbitrary: acc) auto

lemma raw_lines_lines: "list_all one_line us \<Longrightarrow> raw_lines [] (concat us @ s) = us @ raw_lines [] s"
proof (induction us)
  case (Cons u us)
  then obtain v where "u = v @ [CHR 0x0A]" "CHR 0x0A \<notin> set v" by (auto simp: one_line_def)
  then show ?case using Cons raw_lines_line [of v "[]" "concat us @ s"] by simp
qed simp

lemma concat_raw_lines: "concat (raw_lines acc s) = rev acc @ s"
  by (induction acc s rule: raw_lines.induct) auto

lemma raw_lines_ending: "u \<in> set (raw_lines acc s) \<Longrightarrow> CHR 0x0A \<notin> set acc \<Longrightarrow> ends_line u \<Longrightarrow> one_line u"
proof (induction acc s rule: raw_lines.induct)
  case (1 acc)
  then show ?case by (auto simp: ends_line_def last_rev split: if_splits dest: hd_in_set)
next
  case (2 acc c cs)
  then show ?case by (auto simp: one_line_def split: if_splits)
qed

lemma shown_append: "shown dec us = Some a \<Longrightarrow> shown dec vs = Some b \<Longrightarrow> shown dec (us @ vs) = Some (a @ b)"
  by (induction us arbitrary: a) (auto split: option.splits)

lemma tail_loop_spec:
  assumes "tail_loop dec t n raws = Some (t', ls)"
  shows "\<exists>us rest V. raws = us @ rest \<and> list_all ends_line us \<and> shown dec us = Some V \<and>
    lt_offset t' = lt_offset t + length (concat us) \<and> ls = drop (lt_skip t) V \<and> lt_skip t' = lt_skip t - length V \<and>
    (ls = [] \<longrightarrow> rest = [] \<or> \<not> ends_line (hd rest))"
  using assms
proof (induction raws arbitrary: t n ls)
  case Nil
  then show ?case by auto
next
  case (Cons raw raws)
  let ?P = "\<lambda>t' ls us rest V. raw # raws = us @ rest \<and> list_all ends_line us \<and> shown dec us = Some V \<and>
    lt_offset t' = lt_offset t + length (concat us) \<and> ls = drop (lt_skip t) V \<and> lt_skip t' = lt_skip t - length V \<and>
    (ls = [] \<longrightarrow> rest = [] \<or> \<not> ends_line (hd rest))"
  show ?case
  proof (cases "ends_line raw")
    case False
    then have "?P t' ls [] (raw # raws) []" using Cons.prems by simp
    then show ?thesis by blast
  next
    case True
    then obtain tx where d: "dec raw = Some tx" using Cons.prems by (auto simp: Let_def split: option.splits)
    let ?t1 = "t\<lparr>lt_offset := lt_offset t + length raw\<rparr>"
    consider (blank) "strip tx = []" | (skipped) "strip tx \<noteq> []" "lt_skip t \<noteq> 0" |
      (full) "strip tx \<noteq> []" "lt_skip t = 0" "TAIL_READ_BYTES \<le> n + length raw" |
      (kept) "strip tx \<noteq> []" "lt_skip t = 0" "\<not> TAIL_READ_BYTES \<le> n + length raw" by blast
    then show ?thesis
    proof cases
      case blank
      then have "tail_loop dec ?t1 n raws = Some (t', ls)" using Cons.prems True d by (simp add: Let_def)
      from Cons.IH [OF this] obtain us rest V where "raws = us @ rest" "list_all ends_line us" "shown dec us = Some V"
        "lt_offset t' = lt_offset t + length raw + length (concat us)" "ls = drop (lt_skip t) V" "lt_skip t' = lt_skip t - length V"
        "ls = [] \<longrightarrow> rest = [] \<or> \<not> ends_line (hd rest)" by auto
      then have "?P t' ls (raw # us) rest V" using True d blank by simp
      then show ?thesis by blast
    next
      case skipped
      then have "tail_loop dec (?t1\<lparr>lt_skip := lt_skip t - 1\<rparr>) n raws = Some (t', ls)" using Cons.prems True d by (simp add: Let_def)
      from Cons.IH [OF this] obtain us rest V where "raws = us @ rest" "list_all ends_line us" "shown dec us = Some V"
        "lt_offset t' = lt_offset t + length raw + length (concat us)" "ls = drop (lt_skip t - 1) V" "lt_skip t' = lt_skip t - 1 - length V"
        "ls = [] \<longrightarrow> rest = [] \<or> \<not> ends_line (hd rest)" by auto
      then have "?P t' ls (raw # us) rest (strip tx # V)" using True d skipped by (simp add: drop_Cons')
      then show ?thesis by blast
    next
      case full
      then have "t' = ?t1" "ls = [strip tx]" using Cons.prems True d by (simp_all add: Let_def)
      then have "?P t' ls [raw] raws [strip tx]" using True d full by simp
      then show ?thesis by blast
    next
      case kept
      then obtain ls1 where ls1: "tail_loop dec ?t1 (n + length raw) raws = Some (t', ls1)" "ls = strip tx # ls1"
        using Cons.prems True d by (auto simp: Let_def)
      from Cons.IH [OF ls1(1)] obtain us rest V where "raws = us @ rest" "list_all ends_line us" "shown dec us = Some V"
        "lt_offset t' = lt_offset t + length raw + length (concat us)" "ls1 = drop (lt_skip t) V" "lt_skip t' = lt_skip t - length V"
        by auto
      then have "?P t' ls (raw # us) rest (strip tx # V)" using True d kept ls1(2) by simp
      then show ?thesis by blast
    qed
  qed
qed

text \<open>
  After some reads: the bytes read are whole lines, \<open>V\<close> is what they show, all of it but the first \<open>n\<close> lines
  has been sent, and the number of lines still to skip is right.
\<close>

definition tail_at :: "(string \<Rightarrow> string option) \<Rightarrow> nat \<Rightarrow> log_tail \<Rightarrow> string \<Rightarrow> string list \<Rightarrow> bool" where
  "tail_at dec n t bytes sent \<longleftrightarrow>
     (\<exists>us V. list_all one_line us \<and> take (lt_offset t) bytes = concat us \<and> lt_offset t = length (concat us) \<and>
        shown dec us = Some V \<and> sent = drop n V \<and> lt_skip t = n - length V)"

lemma tail_at_start: "tail_at dec n \<lparr>lt_offset = 0, lt_skip = n\<rparr> bytes []"
  unfolding tail_at_def by (intro exI [of _ "[]"]) simp

lemma tail_at_grown: "tail_at dec n t bytes sent \<Longrightarrow> tail_at dec n t (bytes @ more_bytes) sent"
  unfolding tail_at_def by (metis append_eq_conv_conj append_take_drop_id take_append length_append le_add1 take_all_iff nat_le_linear append_Nil2 diff_is_0_eq' take0)

lemma tail_read_step:
  assumes "tail_at dec n t bytes sent" and "tail_read dec t (Some bytes) = Some (t', ls)"
  shows "tail_at dec n t' bytes (sent @ ls) \<and> (ls = [] \<longrightarrow> map_option (drop n) (log_lines dec bytes) = Some sent)"
proof -
  obtain us V where t: "list_all one_line us" "take (lt_offset t) bytes = concat us" "lt_offset t = length (concat us)"
    "shown dec us = Some V" "sent = drop n V" "lt_skip t = n - length V" using assms(1) by (auto simp: tail_at_def)
  define tl where "tl = drop (lt_offset t) bytes"
  have b: "bytes = concat us @ tl" using t(2) by (metis append_take_drop_id tl_def)
  have loop: "tail_loop dec t 0 (raw_lines [] tl) = Some (t', ls)" using assms(2) by (simp add: tail_read_def tl_def)
  obtain us2 rest V2 where u: "raw_lines [] tl = us2 @ rest" "list_all ends_line us2" "shown dec us2 = Some V2"
    "lt_offset t' = lt_offset t + length (concat us2)" "ls = drop (lt_skip t) V2" "lt_skip t' = lt_skip t - length V2"
    "ls = [] \<longrightarrow> rest = [] \<or> \<not> ends_line (hd rest)"
    using tail_loop_spec [OF loop] by blast
  have ones: "list_all one_line us2"
    using u(1,2) raw_lines_ending [of _ "[]" tl] by (auto simp: list_all_iff)
  have tl: "tl = concat us2 @ concat rest" using concat_raw_lines [of "[]" tl] u(1) by simp
  have both: "shown dec (us @ us2) = Some (V @ V2)" by (rule shown_append [OF t(4) u(3)])
  have sent: "sent @ ls = drop n (V @ V2)" using t(5,6) u(5) by simp
  have "tail_at dec n t' bytes (sent @ ls)"
    unfolding tail_at_def using t u ones both sent b tl
    by (intro exI [of _ "us @ us2"] exI [of _ "V @ V2"]) simp
  moreover have "map_option (drop n) (log_lines dec bytes) = Some sent" if none: "ls = []"
  proof -
    have "raw_lines [] bytes = (us @ us2) @ rest" using raw_lines_lines [OF t(1), of tl] u(1) b by simp
    moreover have "list_all ends_line (us @ us2)" using t(1) u(2) one_line_ends by (auto simp: list_all_iff)
    moreover have "rest = [] \<or> \<not> ends_line (hd rest)" using u(7) none by simp
    ultimately have "takeWhile ends_line (raw_lines [] bytes) = us @ us2"
      by (cases rest) (simp_all add: list_all_iff takeWhile_eq_all_conv)
    then show ?thesis using both sent none by (simp add: log_lines_def)
  qed
  ultimately show ?thesis by blast
qed

text \<open>The files met by later reads extend those met by earlier ones; a log that is missing is empty.\<close>

definition bytes_of :: "string option \<Rightarrow> string" where
  "bytes_of log = (case log of None \<Rightarrow> [] | Some s \<Rightarrow> s)"

definition only_grows :: "(string option \<times> bool) list \<Rightarrow> bool" where
  "only_grows reads \<longleftrightarrow> sorted_wrt (\<lambda>a b. \<exists>r. bytes_of (fst b) = bytes_of (fst a) @ r) reads"

lemma tail_read_bytes: "tail_at dec n t (bytes_of log) sent \<Longrightarrow> tail_read dec t log = Some (t', ls) \<Longrightarrow>
   tail_at dec n t' (bytes_of log) (sent @ ls) \<and> (ls = [] \<longrightarrow> map_option (drop n) (log_lines dec (bytes_of log)) = Some sent)"
proof (cases log)
  case None
  assume a: "tail_at dec n t (bytes_of log) sent" "tail_read dec t log = Some (t', ls)"
  then have "t' = t" "ls = []" using None by (simp_all add: tail_read_def)
  moreover have "tail_read dec t (Some []) = Some (t, [])" by (simp add: tail_read_def)
  ultimately show ?thesis using a None tail_read_step [of dec n t "[]" sent t "[]"] by (simp add: bytes_of_def)
next
  case (Some bytes)
  then show "tail_at dec n t (bytes_of log) sent \<Longrightarrow> tail_read dec t log = Some (t', ls) \<Longrightarrow> ?thesis"
    using tail_read_step by (simp add: bytes_of_def)
qed

lemma only_grows_Cons: "only_grows ((log, fin) # reads) \<Longrightarrow>
    only_grows reads \<and> (\<forall>x \<in> set reads. \<exists>r. bytes_of (fst x) = bytes_of log @ r)"
  by (auto simp: only_grows_def)

lemma drain_log_spec:
  assumes "only_grows reads" and "\<forall>x \<in> set reads. \<exists>r. bytes_of (fst x) = f @ r" and "tail_at dec n t f sent"
    and "drain_log dec t reads = (out, Closed)"
  shows "\<exists>k < length reads. map_option (drop n) (log_lines dec (bytes_of (fst (reads ! k)))) = Some (sent @ out)"
  using assms
proof (induction reads arbitrary: t f sent out)
  case (Cons x reads)
  obtain log fin where x: "x = (log, fin)" by fastforce
  have at: "tail_at dec n t (bytes_of log) sent" using Cons.prems(2,3) tail_at_grown x by fastforce
  obtain t1 ls where rd: "tail_read dec t log = Some (t1, ls)" using Cons.prems(4) x by (auto split: option.splits)
  note st = tail_read_bytes [OF at rd]
  show ?case
  proof (cases "ls = []")
    case True
    then have "out = []" using Cons.prems(4) x rd by simp
    then show ?thesis using st True x by (intro exI [of _ 0]) simp
  next
    case False
    then obtain out1 where o1: "drain_log dec t1 reads = (out1, Closed)" "out = ls @ out1"
      using Cons.prems(4) x rd by (auto split: prod.splits)
    have g: "only_grows reads" "\<forall>y \<in> set reads. \<exists>r. bytes_of (fst y) = bytes_of log @ r"
      using only_grows_Cons Cons.prems(1) x by blast+
    obtain k where "k < length reads" "map_option (drop n) (log_lines dec (bytes_of (fst (reads ! k)))) = Some ((sent @ ls) @ out1)"
      using Cons.IH [OF g _ o1(1)] st by blast
    then show ?thesis using o1(2) by (intro exI [of _ "Suc k"]) simp
  qed
qed simp

lemma follow_log_spec:
  assumes "only_grows reads" and "\<forall>x \<in> set reads. \<exists>r. bytes_of (fst x) = f @ r" and "tail_at dec n t f sent"
    and "follow_log dec finished t reads = (out, Closed)"
  shows "\<exists>k < length reads. map_option (drop n) (log_lines dec (bytes_of (fst (reads ! k)))) = Some (sent @ out) \<and>
    (finished \<or> (\<exists>j < k. snd (reads ! j)))"
  using assms
proof (induction reads arbitrary: t f sent out)
  case (Cons x reads)
  obtain log fin where x: "x = (log, fin)" by fastforce
  have at: "tail_at dec n t (bytes_of log) sent" using Cons.prems(2,3) tail_at_grown x by fastforce
  obtain t1 ls where rd: "tail_read dec t log = Some (t1, ls)" using Cons.prems(4) x by (auto split: option.splits)
  note st = tail_read_bytes [OF at rd]
  have g: "only_grows reads" "\<forall>y \<in> set reads. \<exists>r. bytes_of (fst y) = bytes_of log @ r"
    using only_grows_Cons Cons.prems(1) x by blast+
  show ?case
  proof (cases "ls = [] \<and> (finished \<or> fin)")
    case True
    then have "drain_log dec t1 reads = (out, Closed)" "tail_at dec n t1 (bytes_of log) sent" using Cons.prems(4) x rd st by simp_all
    then obtain k where "k < length reads" "map_option (drop n) (log_lines dec (bytes_of (fst (reads ! k)))) = Some (sent @ out)"
      using drain_log_spec [OF g] by blast
    then show ?thesis using True x by (intro exI [of _ "Suc k"]) auto
  next
    case False
    then obtain out1 where o1: "follow_log dec finished t1 reads = (out1, Closed)" "out = ls @ out1"
      using Cons.prems(4) x rd by (auto split: prod.splits if_splits)
    obtain k where "k < length reads" "map_option (drop n) (log_lines dec (bytes_of (fst (reads ! k)))) = Some ((sent @ ls) @ out1)"
      "finished \<or> (\<exists>j < k. snd (reads ! j))" using Cons.IH [OF g _ o1(1)] st by blast
    then show ?thesis using o1(2) by (intro exI [of _ "Suc k"]) auto
  qed
qed simp

section \<open>The viewer ends\<close>

lemma tail_loop_returns: "shown dec (takeWhile ends_line raws) \<noteq> None \<Longrightarrow> tail_loop dec t n raws \<noteq> None"
  by (induction raws arbitrary: t n) (auto simp: Let_def split: option.splits)

lemma shown_append_defined: "shown dec (us @ vs) = Some L \<Longrightarrow> \<exists>a b. shown dec us = Some a \<and> shown dec vs = Some b \<and> L = a @ b"
proof (induction us arbitrary: L)
  case (Cons u us)
  obtain tx where tx: "dec u = Some tx" using Cons.prems by (auto split: option.splits)
  then obtain L1 where L1: "shown dec (us @ vs) = Some L1" "L = (if strip tx = [] then L1 else strip tx # L1)" using Cons.prems by auto
  then obtain a b where "shown dec us = Some a" "shown dec vs = Some b" "L1 = a @ b" using Cons.IH by blast
  then show ?case using tx L1(2) by auto
qed simp

lemma tail_at_rest:
  assumes "tail_at dec n t f sent" and "log_lines dec f = Some L"
  shows "\<exists>t' ls r. tail_read dec t (Some f) = Some (t', ls) \<and> tail_at dec n t' f (sent @ ls) \<and> drop n L = sent @ r \<and> (ls = [] \<longrightarrow> r = [])"
proof -
  obtain us V where t: "list_all one_line us" "take (lt_offset t) f = concat us" "shown dec us = Some V" "sent = drop n V"
    using assms(1) by (auto simp: tail_at_def)
  define tl where "tl = drop (lt_offset t) f"
  have "f = concat us @ tl" using t(2) by (metis append_take_drop_id tl_def)
  then have "takeWhile ends_line (raw_lines [] f) = us @ takeWhile ends_line (raw_lines [] tl)"
    using raw_lines_lines [OF t(1), of tl] t(1) one_line_ends by (simp add: list_all_iff takeWhile_append2)
  then obtain b where b: "shown dec (takeWhile ends_line (raw_lines [] tl)) = Some b" "L = V @ b"
    using assms(2) shown_append_defined t(3) unfolding log_lines_def by fastforce
  then obtain t' ls where rd: "tail_read dec t (Some f) = Some (t', ls)"
    using tail_loop_returns [of dec "raw_lines [] tl" t 0] by (auto simp: tail_read_def tl_def)
  have "drop n L = sent @ drop (n - length V) b" using b(2) t(4) by simp
  moreover have "drop n L = sent" if "ls = []" using tail_read_step [OF assms(1) rd] that assms(2) by simp
  ultimately show ?thesis using rd tail_read_step [OF assms(1) rd] by fastforce
qed

lemma drain_log_closes:
  assumes "tail_at dec n t f sent" and "log_lines dec f = Some L" and "length (drop n L) < length sent + m"
  shows "drain_log dec t (replicate m (Some f, b)) = (drop (length sent) (drop n L), Closed)"
  using assms
proof (induction m arbitrary: t sent)
  case 0
  then show ?case using tail_at_rest [OF 0(1,2)] by (metis add_0_right length_append not_add_less1)
next
  case (Suc m)
  obtain t' ls r where st: "tail_read dec t (Some f) = Some (t', ls)" "tail_at dec n t' f (sent @ ls)" "drop n L = sent @ r" "ls = [] \<longrightarrow> r = []"
    using tail_at_rest [OF Suc.prems(1,2)] by blast
  show ?case
  proof (cases "ls = []")
    case False
    then have "drain_log dec t' (replicate m (Some f, b)) = (drop (length (sent @ ls)) (drop n L), Closed)"
      using Suc.IH [OF st(2) Suc.prems(2)] Suc.prems(3) by (cases ls) auto
    moreover obtain r' where "drop n L = (sent @ ls) @ r'" using tail_at_rest [OF st(2) Suc.prems(2)] by blast
    ultimately show ?thesis using st(1) False by simp
  qed (use st in simp)
qed

lemma follow_log_closes:
  assumes "tail_at dec n t f sent" and "log_lines dec f = Some L" and "length (drop n L) + 1 < length sent + m"
  shows "follow_log dec True t (replicate m (Some f, b)) = (drop (length sent) (drop n L), Closed)"
  using assms
proof (induction m arbitrary: t sent)
  case 0
  then show ?case using tail_at_rest [OF 0(1,2)] by (metis add_0_right add_lessD1 length_append not_add_less1)
next
  case (Suc m)
  obtain t' ls r where st: "tail_read dec t (Some f) = Some (t', ls)" "tail_at dec n t' f (sent @ ls)" "drop n L = sent @ r" "ls = [] \<longrightarrow> r = []"
    using tail_at_rest [OF Suc.prems(1,2)] by blast
  show ?case
  proof (cases "ls = []")
    case True
    have "drain_log dec t' (replicate m (Some f, b)) = (drop (length sent) (drop n L), Closed)"
      using drain_log_closes [OF _ Suc.prems(2), of n t' sent m] st True Suc.prems(3) by simp
    then show ?thesis using st(1) True by simp
  next
    case False
    then have "follow_log dec True t' (replicate m (Some f, b)) = (drop (length (sent @ ls)) (drop n L), Closed)"
      using Suc.IH [OF st(2) Suc.prems(2)] Suc.prems(3) by (cases ls) auto
    moreover obtain r' where "drop n L = (sent @ ls) @ r'" using tail_at_rest [OF st(2) Suc.prems(2)] by blast
    ultimately show ?thesis using st(1) False by simp
  qed
qed

text \<open>
  C13. The live viewer refines the log. While the file only grows, a stream that closes normally has sent
  every complete line of the file after the first \<open>n\<close>, each once and in order, and it last read the file
  after the run had been seen to have finished; so a viewer that reconnects with the number of lines it
  has gets exactly the rest.
\<close>

theorem stream_log_refines:
  assumes "only_grows reads" and "stream_log dec n finished reads = (out, Closed)"
  shows "\<exists>k < length reads. map_option (drop n) (log_lines dec (bytes_of (fst (reads ! k)))) = Some out \<and>
    (finished \<or> (\<exists>j < k. snd (reads ! j)))"
  using follow_log_spec [OF assms(1) _ tail_at_start assms(2) [unfolded stream_log_def], of "[]"] by simp

text \<open>A viewer that has the first line follows a run from before its log exists.\<close>

definition viewer_reads :: "(string option \<times> bool) list" where
  "viewer_reads =
     [(None, False), (Some [CHR ''a'', CHR 0x0A, CHR ''b''], False), (Some [CHR ''a'', CHR 0x0A, CHR ''b'', CHR 0x0A], True),
      (Some [CHR ''a'', CHR 0x0A, CHR ''b'', CHR 0x0A], True), (Some [CHR ''a'', CHR 0x0A, CHR ''b'', CHR 0x0A], True)]"

theorem stream_log_refines_witness:
  "stream_log Some 1 False viewer_reads = ([''b''], Closed) \<and>
   (\<exists>k < length viewer_reads. map_option (drop 1) (log_lines Some (bytes_of (fst (viewer_reads ! k)))) = Some [''b''])"
proof -
  have "only_grows viewer_reads" by (auto simp: only_grows_def bytes_of_def viewer_reads_def)
  moreover have "stream_log Some 1 False viewer_reads = ([''b''], Closed)"
    by (simp add: stream_log_def viewer_reads_def tail_read_def ends_line_def TAIL_READ_BYTES_def Let_def strip_def strip_of_def rstrip_of_def is_space_def)
  ultimately show ?thesis using stream_log_refines [of viewer_reads Some 1 False "[''b'']"] by blast
qed

text \<open>
  C15. The viewer of a finished run ends: after at most two reads more than the log has lines, however they
  are split over the reads, it has sent all of them (after the first \<open>n\<close>) and closed normally.
\<close>

theorem stream_log_completes:
  assumes "log_lines dec f = Some L" and "length L + 2 \<le> m"
  shows "stream_log dec n True (replicate m (Some f, b)) = (drop n L, Closed)"
  using follow_log_closes [OF tail_at_start assms(1), of n m b] assms(2) by (simp add: stream_log_def)

theorem stream_log_completes_witness:
  "stream_log Some 1 True (replicate 4 (Some [CHR ''a'', CHR 0x0A, CHR ''b'', CHR 0x0A], True)) = ([''b''], Closed)"
proof -
  have "log_lines Some [CHR ''a'', CHR 0x0A, CHR ''b'', CHR 0x0A] = Some [''a'', ''b'']"
    by (simp add: log_lines_def ends_line_def strip_def strip_of_def rstrip_of_def is_space_def)
  from stream_log_completes [OF this, of 4 1 True] show ?thesis by simp
qed

end
