(* ===== verification/Run_View.thy ===== *)
theory Run_View
  imports Run_Api Scrub Log_View
begin

text \<open>
  What people and API keys see of runs, from \<open>app/routers/runs.py\<close>: lists and single runs, the log, the
  network allowlist, the certificate and the artifacts. \<open>run_answer\<close> is the response: its columns are those of
  the run (\<open>ro_run\<close>, where the two that are filtered are cleared) and the ones named here. \<open>member_of\<close> reads a member of a gzipped tar, None when it
  is not a regular file.
\<close>

section \<open>A run\<close>

definition HIDDEN :: string where "HIDDEN = ''[HIDDEN]''"

definition commit_url :: "string option \<Rightarrow> string option \<Rightarrow> string option" where
  "commit_url web_url commit =
     (case (web_url, commit) of
        (Some w, Some c) \<Rightarrow>
          if w = [] \<or> c = [] then None
          else Some (rstrip_of (\<lambda>x. x = CHR ''/'') w @ (if contains (lower w) ''gitlab'' then ''/-/commit/'' else ''/commit/'') @ c)
      | _ \<Rightarrow> None)"

record run_answer =
  ro_run :: run
  ro_extra_vars :: "vars option"
  ro_secret_reads :: "val list option"
  ro_commit_url :: "string option"
  ro_artifacts_count :: nat
  ro_egress_addresses :: "nat option"
  ro_waiting_reason :: "string option"

text \<open>The validator of \<open>RunOut.extra_vars\<close>, then what the caller may not read.\<close>

definition mask_vars :: "vars option \<Rightarrow> vars option" where
  "mask_vars = map_option (map (\<lambda>(k, v). (k, mask_secret_keys (is_secret_key (snd k)) v)))"

definition hide_vars :: "permission set \<Rightarrow> vars option \<Rightarrow> vars option" where
  "hide_vars perms vs =
     (case vs of
        None \<Rightarrow> None
      | Some d \<Rightarrow> if d \<noteq> [] \<and> RUNS_READ_EXTRA_VARS \<notin> perms then Some (map (\<lambda>(k, v). (k, Str HIDDEN)) d) else Some d)"

definition hide_location :: "val \<Rightarrow> val" where
  "hide_location v = (case v of VDict d \<Rightarrow> VDict (dict_set (vkey ''location'') VNone d) | _ \<Rightarrow> v)"

definition hide_reads :: "permission set \<Rightarrow> val list option \<Rightarrow> val list option" where
  "hide_reads perms rs = (if SECRETS_LIST \<in> perms then rs else map_option (map hide_location) rs)"

text \<open>\<open>item.get(\<dots>) or []\<close>, of a report whose parts are lists of objects.\<close>

definition list_at :: "string \<Rightarrow> val \<Rightarrow> val list" where
  "list_at k v = (case v of VDict d \<Rightarrow> (case vget k d of Some (VList vs) \<Rightarrow> vs | _ \<Rightarrow> []) | _ \<Rightarrow> [])"

definition egress_count :: "val option \<Rightarrow> nat option" where
  "egress_count al =
     (case al of
        Some (VDict d) \<Rightarrow>
          if d = [] then None
          else Some (sum_list (map (\<lambda>part. sum_list (map (length \<circ> list_at ''addresses'') (list_at part (VDict d))))
                 [''hosts'', ''jump_hosts'', ''extras'']))
      | _ \<Rightarrow> None)"

definition run_out :: "user \<Rightarrow> run \<Rightarrow> database \<Rightarrow> run_answer" where
  "run_out u r db =
     (let perms = project_permissions db u (project_id r) in
      \<lparr>ro_run = r\<lparr>extra_vars := None, secret_reads := None\<rparr>, ro_extra_vars = hide_vars perms (mask_vars (extra_vars r)), ro_secret_reads = hide_reads perms (secret_reads r),
       ro_commit_url =
         (case git_source_id r of
            None \<Rightarrow> None
          | Some i \<Rightarrow> commit_url (Option.bind (get_row gs_id (git_sources db) i) gs_web_url) (git_commit r)),
       ro_artifacts_count = (case artifacts_files r of None \<Rightarrow> 0 | Some fs \<Rightarrow> length fs),
       ro_egress_addresses = egress_count (egress_allowlist r), ro_waiting_reason = None\<rparr>)"

definition list_runs ::
  "time \<Rightarrow> user \<Rightarrow> request \<Rightarrow> key_id option \<Rightarrow> run_status list \<Rightarrow> nat option \<Rightarrow> database \<Rightarrow> database \<times> run_answer list http" where
  "list_runs now u rq pid states limit db =
     and_then (readable_project_ids now u (Some rq) CONTENT_READ pid db) (\<lambda>ids db.
       let rows = filter (\<lambda>r. (ids = None \<or> project_id r \<in> set (the ids)) \<and> (states = [] \<or> status r \<in> set states)) (runs db);
           newest = rev (sort_key row_id rows)
       in (db, Inr (map (\<lambda>r. run_out u r db) (case limit of None \<Rightarrow> newest | Some n \<Rightarrow> take n newest))))"

definition show_run :: "env \<Rightarrow> time \<Rightarrow> user \<Rightarrow> request \<Rightarrow> key_id \<Rightarrow> database \<Rightarrow> database \<times> run_answer http" where
  "show_run e now u rq i db =
     and_then (get_scoped_run now u rq i CONTENT_READ db) (\<lambda>r db.
       let out = run_out u r db
       in (db, Inr (if status r = QUEUED then out\<lparr>ro_waiting_reason := Some (wait_reason e now db r)\<rparr> else out)))"

section \<open>The log, the network and the certificate\<close>

definition export_log ::
  "(string \<Rightarrow> val option) \<Rightarrow> (string \<Rightarrow> string) \<Rightarrow> bool \<Rightarrow> time \<Rightarrow> user \<Rightarrow> request \<Rightarrow> key_id \<Rightarrow> database \<Rightarrow>
   database \<times> (string \<times> string list) http" where
  "export_log loads enc jsonl now u rq i db =
     and_then (get_scoped_run now u rq i CONTENT_READ db) (\<lambda>r db.
       (db, Inr (''ansideck-run-'' @ show_int (row_id r) @ (if jsonl then ''.jsonl'' else ''.log''),
          if jsonl then committed_chunks (run_logs db) (row_id r) (log_bytes r)
          else as_text loads enc (committed_lines (run_logs db) (row_id r) (log_bytes r)))))"

definition run_egress ::
  "time \<Rightarrow> user \<Rightarrow> request \<Rightarrow> key_id \<Rightarrow> database \<Rightarrow> database \<times> (bool \<times> val option \<times> val list) http" where
  "run_egress now u rq i db =
     and_then (get_scoped_run now u rq i CONTENT_READ db) (\<lambda>r db.
       (db, Inr (egress_restricted r = Some True, egress_allowlist r, (case egress_refused r of None \<Rightarrow> [] | Some vs \<Rightarrow> vs))))"

definition run_ssh_certificate :: "time \<Rightarrow> user \<Rightarrow> request \<Rightarrow> key_id \<Rightarrow> database \<Rightarrow> database \<times> string http" where
  "run_ssh_certificate now u rq i db =
     and_then (get_scoped_run now u rq i CONTENT_READ db) (\<lambda>r db.
       case (case ssh_certificate r of Some (VDict d) \<Rightarrow> vget ''certificate'' d | _ \<Rightarrow> None) of
         Some (VStr f c) \<Rightarrow>
           if c = [] then raise_http 404 ''This run has no SSH certificate'' db else (db, Inr (strip c @ [CHR 0x0A]))
       | _ \<Rightarrow> raise_http 404 ''This run has no SSH certificate'' db)"

section \<open>Artifacts\<close>

record artifacts_out =
  ao_files :: "val list"
  ao_bytes :: "int option"
  ao_error :: "string option"
  ao_deleted_at :: "time option"
  ao_can_download :: bool

definition list_artifacts :: "time \<Rightarrow> user \<Rightarrow> request \<Rightarrow> key_id \<Rightarrow> database \<Rightarrow> database \<times> artifacts_out http" where
  "list_artifacts now u rq i db =
     and_then (get_scoped_run now u rq i CONTENT_READ db) (\<lambda>r db.
       (db, Inr \<lparr>ao_files = (case artifacts_files r of None \<Rightarrow> [] | Some fs \<Rightarrow> fs), ao_bytes = artifacts_bytes r,
                 ao_error = artifacts_error r, ao_deleted_at = artifacts_deleted_at r,
                 ao_can_download = (RUNS_TRIGGER \<in> project_permissions db u (project_id r))\<rparr>))"

definition artifacts_tar :: "time \<Rightarrow> user \<Rightarrow> request \<Rightarrow> key_id \<Rightarrow> database \<Rightarrow> database \<times> (run \<times> string) http" where
  "artifacts_tar now u rq i db =
     and_then (get_scoped_run now u rq i RUNS_TRIGGER db) (\<lambda>r db.
       case artifact_files db (row_id r) of
         None \<Rightarrow> raise_http 404 ''This run has no artifacts'' db
       | Some bytes \<Rightarrow>
           if artifacts_files r = None \<or> artifacts_files r = Some [] \<or> artifacts_deleted_at r \<noteq> None
           then raise_http 404 ''This run has no artifacts'' db else (db, Inr (r, bytes)))"

definition audit_download :: "time \<Rightarrow> user \<Rightarrow> request \<Rightarrow> run \<Rightarrow> vars option \<Rightarrow> database \<Rightarrow> database" where
  "audit_download now u rq r detail db =
     audit_record now
       ((audit_call ''run.artifacts_download'')
          \<lparr>au_actor := Some u, au_target_type := Some ''run'', au_target_id := Some (row_id r), au_ip := Some (rq_ip rq),
           au_project_id := Some (project_id r), au_detail := detail\<rparr>) db"

definition download_artifacts :: "time \<Rightarrow> user \<Rightarrow> request \<Rightarrow> key_id \<Rightarrow> database \<Rightarrow> database \<times> string http" where
  "download_artifacts now u rq i db =
     and_then (artifacts_tar now u rq i db) (\<lambda>(r, bytes) db. (audit_download now u rq r None db, Inr bytes))"

text \<open>The paths listed for a run; an entry without one, or with one that cannot be in a set, is an uncaught error.\<close>

fun listed_paths :: "val list \<Rightarrow> string set option" where
  "listed_paths [] = Some {}"
| "listed_paths (VDict d # fs) =
     (case vget ''path'' d of
        None \<Rightarrow> None
      | Some (VStr u p) \<Rightarrow> map_option (insert p) (listed_paths fs)
      | Some (VList vs) \<Rightarrow> None
      | Some (VDict d1) \<Rightarrow> None
      | Some v \<Rightarrow> listed_paths fs)"
| "listed_paths (v # fs) = None"

definition plain_char :: "char \<Rightarrow> bool" where
  "plain_char c = (char_in 0x41 0x5A c \<or> char_in 0x61 0x7A c \<or> is_digit c \<or> c = CHR ''.'' \<or> c = CHR ''_'' \<or> c = CHR ''-'')"

text \<open>\<open>Path(p).name\<close>: the last part that is neither empty nor a dot.\<close>

definition path_name :: "string \<Rightarrow> string" where
  "path_name p = (case rev (filter (\<lambda>x. x \<noteq> [] \<and> x \<noteq> ''.'') (split_char (CHR ''/'') p)) of [] \<Rightarrow> [] | x # _ \<Rightarrow> x)"

definition artifact_name :: "string \<Rightarrow> string" where
  "artifact_name p =
     (let name = take 200 (map (\<lambda>c. if plain_char c then c else CHR ''_'') (path_name p)) in if name = [] then ''artifact'' else name)"

definition download_artifact ::
  "(string \<Rightarrow> string \<Rightarrow> string option) \<Rightarrow> time \<Rightarrow> user \<Rightarrow> request \<Rightarrow> key_id \<Rightarrow> string \<Rightarrow> database \<Rightarrow> database \<times> (string \<times> string) http" where
  "download_artifact member_of now u rq i path db =
     and_then (artifacts_tar now u rq i db) (\<lambda>(r, bytes) db.
       case listed_paths (case artifacts_files r of None \<Rightarrow> [] | Some fs \<Rightarrow> fs) of
         None \<Rightarrow> crash db
       | Some paths \<Rightarrow>
           if path \<notin> paths then raise_http 404 ''No such artifact'' db
           else (audit_download now u rq r (Some [(vkey ''path'', Str path)]) db,
                 Inr (artifact_name path, case member_of bytes (''artifacts/'' @ path) of None \<Rightarrow> [] | Some body \<Rightarrow> body)))"

section \<open>The live stream\<close>

text \<open>
  \<open>u\<close> is who the cookie or the key authenticates, if anyone. A refused viewer is closed with 1008 whether or
  not the run exists; an accepted one gets the stream, and 1000 when it ended.
\<close>

datatype ws_answer = WsClosed int | WsStream "string list" "int option"

definition run_ws ::
  "env \<Rightarrow> (string \<Rightarrow> string option) \<Rightarrow> user option \<Rightarrow> bool \<Rightarrow> key_id \<Rightarrow> nat \<Rightarrow> (string option \<times> bool) list \<Rightarrow> database \<Rightarrow> ws_answer" where
  "run_ws e dec who setup_required i from_line reads db =
     (case who of
        None \<Rightarrow> WsClosed 1008
      | Some u \<Rightarrow>
          if setup_required then WsClosed 1008
          else case get_run db i of
            None \<Rightarrow> WsClosed 1008
          | Some r \<Rightarrow>
              if CONTENT_READ \<notin> project_permissions db u (project_id r) then WsClosed 1008
              else case stream_log dec from_line (finished_at r \<noteq> None) reads of
                (out, how) \<Rightarrow> WsStream out (if how = Closed then Some 1000 else None))"

section \<open>What a viewer learns\<close>

lemma hide_reads_same:
  assumes "SECRETS_LIST \<notin> perms" and "list_all2 (\<lambda>v v'. hide_location v = hide_location v') rs rs'"
  shows "hide_reads perms (Some rs) = hide_reads perms (Some rs')"
proof -
  have "map hide_location rs = map hide_location rs'" using assms(2) by (induction rule: list_all2_induct) simp_all
  then show ?thesis using assms(1) by (simp add: hide_reads_def)
qed



end
