(* ===== verification/Second_Factor.thy ===== *)
theory Second_Factor
  imports Models
begin

text \<open>
  Second factors: time-based codes and recovery codes (\<open>app/totp.py\<close>) and passkeys (\<open>app/passkeys.py\<close>). The
  libraries are the record \<open>auth_lib\<close>: \<open>al_otp\<close> is pyotp's code for a secret and a time step, \<open>al_assert\<close> and
  \<open>al_register\<close> are the checks of the webauthn library (None when they raise), \<open>al_loads\<close> and \<open>al_dumps\<close> the
  signed tokens of itsdangerous by their salt, the rest argon2, Fernet and base64url. Random values are
  arguments. Operations change the user's row; the caller holds its lock and commits.
\<close>

record new_passkey =
  np_credential_id :: string
  np_public_key :: string
  np_sign_count :: int
  np_transports :: "string list option"
  np_aaguid :: "string option"
  np_backup_eligible :: bool
  np_backed_up :: bool

record auth_lib =
  al_otp :: "string \<Rightarrow> int \<Rightarrow> string"
  al_encrypt :: "string \<Rightarrow> string"
  al_decrypt :: "string \<Rightarrow> string"
  al_verify_password :: "string \<Rightarrow> string \<Rightarrow> bool"
  al_hash_password :: "string \<Rightarrow> string"
  al_loads :: "string \<Rightarrow> int \<Rightarrow> time \<Rightarrow> string \<Rightarrow> (vars \<times> time) option"
  al_dumps :: "string \<Rightarrow> time \<Rightarrow> vars \<Rightarrow> string"
  al_base64 :: "string \<Rightarrow> string"
  al_unbase64 :: "string \<Rightarrow> string"
  al_assert :: "vars \<Rightarrow> string \<Rightarrow> string \<Rightarrow> string \<Rightarrow> string \<Rightarrow> (int \<times> bool) option"
  al_register :: "vars \<Rightarrow> string \<Rightarrow> string \<Rightarrow> string \<Rightarrow> new_passkey option"
  al_passkey_rp :: "(string \<times> string) option"

section \<open>Time-based codes and recovery codes\<close>

definition STEP_SECONDS :: int where "STEP_SECONDS = 30"
definition RECOVERY_CODE_COUNT :: nat where "RECOVERY_CODE_COUNT = 10"
definition RECOVERY_LENGTH :: nat where "RECOVERY_LENGTH = 10"

definition no_spaces :: "string \<Rightarrow> string" where
  "no_spaces s = filter (\<lambda>c. c \<noteq> CHR '' '') s"

definition looks_like_totp_code :: "string \<Rightarrow> bool" where
  "looks_like_totp_code code = (length (no_spaces code) = 6 \<and> list_all is_digit (no_spaces code))"

definition match_counter :: "auth_lib \<Rightarrow> time \<Rightarrow> string \<Rightarrow> string \<Rightarrow> int option \<Rightarrow> int option" where
  "match_counter lib now secret code last_counter =
     (if \<not> looks_like_totp_code code then None
      else let at = now div secs STEP_SECONDS in
        find (\<lambda>c. \<not> (c < 0 \<or> (case last_counter of None \<Rightarrow> False | Some l \<Rightarrow> c \<le> l)) \<and> al_otp lib secret c = no_spaces code)
          [at - 1, at, at + 1])"

definition normalize_code :: "string \<Rightarrow> string" where
  "normalize_code code = lower (filter (\<lambda>c. \<not> is_space c \<and> c \<noteq> CHR ''-'') code)"

definition is_ascii :: "string \<Rightarrow> bool" where
  "is_ascii s = list_all (\<lambda>c. (of_char c :: nat) < 128) s"

text \<open>The codes as shown, and their hashes; \<open>raw\<close> is what the random generator gave.\<close>

definition new_recovery_codes :: "env \<Rightarrow> string list \<Rightarrow> string list \<times> string list" where
  "new_recovery_codes e raw = (map (\<lambda>c. take 5 c @ ''-'' @ drop 5 c) raw, map (sha256_hex e) raw)"

definition use_second_factor ::
  "env \<Rightarrow> auth_lib \<Rightarrow> time \<Rightarrow> string option \<Rightarrow> string option \<Rightarrow> user \<Rightarrow> user \<times> string option" where
  "use_second_factor e lib now code recovery_code u =
     (case code of
        Some c \<Rightarrow>
          (case totp_secret u of
             None \<Rightarrow> (u, None)
           | Some token \<Rightarrow>
               (case match_counter lib now (al_decrypt lib token) c (totp_last_counter u) of
                  None \<Rightarrow> (u, None)
                | Some n \<Rightarrow> (u\<lparr>totp_last_counter := Some n\<rparr>, Some ''totp'')))
      | None \<Rightarrow>
          (case recovery_code of
             None \<Rightarrow> (u, None)
           | Some c \<Rightarrow>
               let normalized = normalize_code c; hash = sha256_hex e normalized;
                   hashes = (case recovery_code_hashes u of None \<Rightarrow> [] | Some hs \<Rightarrow> hs) in
               if length normalized \<noteq> RECOVERY_LENGTH \<or> \<not> is_ascii normalized then (u, None)
               else if \<not> two_factor_enabled u \<or> hash \<notin> set hashes then (u, None)
               else (u\<lparr>recovery_code_hashes := Some (filter (\<lambda>h. h \<noteq> hash) hashes)\<rparr>, Some ''recovery_code'')))"

text \<open>None: there is no pending secret (a \<open>ValueError\<close>).\<close>

definition totp_enable_user :: "env \<Rightarrow> string list \<Rightarrow> int \<Rightarrow> user \<Rightarrow> (user \<times> string list option) option" where
  "totp_enable_user e raw n u =
     (case totp_pending_secret u of
        None \<Rightarrow> None
      | Some s \<Rightarrow>
          let u1 = u\<lparr>totp_secret := Some s, totp_pending_secret := None, totp_last_counter := Some n\<rparr> in
          if two_factor_enabled u then Some (u1, None)
          else let (codes, hashes) = new_recovery_codes e raw in Some (u1\<lparr>recovery_code_hashes := Some hashes\<rparr>, Some codes))"

definition totp_clear :: "user \<Rightarrow> user" where
  "totp_clear u =
     (let u1 = u\<lparr>totp_secret := None, totp_pending_secret := None, totp_last_counter := None\<rparr>
      in if passkeys u = [] then u1\<lparr>recovery_code_hashes := None\<rparr> else u1)"

definition totp_clear_all :: "user \<Rightarrow> (user \<times> bool \<times> nat) option" where
  "totp_clear_all u =
     (if totp_secret u = None \<and> passkeys u = [] \<and> totp_pending_secret u = None \<and>
         (recovery_code_hashes u = None \<or> recovery_code_hashes u = Some []) \<and> webauthn_pending u = None
      then None
      else Some (totp_clear (u\<lparr>passkeys := [], webauthn_pending := None\<rparr>), totp_secret u \<noteq> None, length (passkeys u)))"

section \<open>Passkeys\<close>

definition CHALLENGE_TTL :: int where "CHALLENGE_TTL = 5 * 60"
definition MAX_PER_USER :: nat where "MAX_PER_USER = 10"

text \<open>A failed ceremony: what to show, and the reason for the audit log.\<close>

datatype passkey_error = PasskeyError string string | PasskeysUnavailable

definition passkey_message :: "passkey_error \<Rightarrow> string" where
  "passkey_message x =
     (case x of
        PasskeyError m r \<Rightarrow> m
      | PasskeysUnavailable \<Rightarrow> ''Passkeys need PUBLIC_URL to be an https:// address (or http://localhost)'')"

definition passkey_reason :: "passkey_error \<Rightarrow> string" where
  "passkey_reason x = (case x of PasskeyError m r \<Rightarrow> r | PasskeysUnavailable \<Rightarrow> ''unavailable'')"

definition store_challenge :: "auth_lib \<Rightarrow> time \<Rightarrow> string \<Rightarrow> string \<Rightarrow> user \<Rightarrow> user" where
  "store_challenge lib now challenge purpose u =
     u\<lparr>webauthn_pending := Some \<lparr>wc_challenge = al_base64 lib challenge, wc_purpose = purpose, wc_expires = now + secs CHALLENGE_TTL\<rparr>\<rparr>"

definition take_challenge :: "auth_lib \<Rightarrow> time \<Rightarrow> string \<Rightarrow> user \<Rightarrow> user \<times> (passkey_error + string)" where
  "take_challenge lib now purpose u =
     (u\<lparr>webauthn_pending := None\<rparr>,
      case webauthn_pending u of
        None \<Rightarrow> Inl (PasskeyError ''That took too long, or another sign-in started: try again'' ''expired'')
      | Some p \<Rightarrow>
          if wc_purpose p \<noteq> purpose \<or> wc_expires p < now
          then Inl (PasskeyError ''That took too long, or another sign-in started: try again'' ''expired'')
          else Inr (al_unbase64 lib (wc_challenge p)))"

text \<open>The options themselves are the library's; \<open>handle\<close> and \<open>challenge\<close> are random.\<close>

definition registration_options ::
  "auth_lib \<Rightarrow> time \<Rightarrow> string \<Rightarrow> string \<Rightarrow> user \<Rightarrow> user \<times> (passkey_error + unit)" where
  "registration_options lib now handle challenge u =
     (if al_passkey_rp lib = None then (u, Inl PasskeysUnavailable)
      else if length (passkeys u) \<ge> MAX_PER_USER
      then (u, Inl (PasskeyError (''You can have at most '' @ show_nat MAX_PER_USER @ '' passkeys'') ''too many''))
      else let u1 = (if webauthn_user_handle u = None then u\<lparr>webauthn_user_handle := Some (al_base64 lib handle)\<rparr> else u)
           in (store_challenge lib now challenge ''register'' u1, Inr ()))"

definition authentication_options :: "auth_lib \<Rightarrow> time \<Rightarrow> string \<Rightarrow> string \<Rightarrow> user \<Rightarrow> user \<times> (passkey_error + unit)" where
  "authentication_options lib now challenge purpose u =
     (if al_passkey_rp lib = None then (u, Inl PasskeysUnavailable)
      else if passkeys u = [] then (u, Inl (PasskeyError ''You have no passkey'' ''no passkey''))
      else (store_challenge lib now challenge purpose u, Inr ()))"

definition verify_registration :: "auth_lib \<Rightarrow> time \<Rightarrow> vars \<Rightarrow> user \<Rightarrow> user \<times> (passkey_error + new_passkey)" where
  "verify_registration lib now cred u =
     (case al_passkey_rp lib of
        None \<Rightarrow> (u, Inl PasskeysUnavailable)
      | Some (rp_id, origin) \<Rightarrow>
          (case take_challenge lib now ''register'' u of
             (u1, Inl x) \<Rightarrow> (u1, Inl x)
           | (u1, Inr challenge) \<Rightarrow>
               (u1, case al_register lib cred challenge rp_id origin of
                      None \<Rightarrow> Inl (PasskeyError (''The passkey couldn'' @ [CHR 0x27] @ ''t be checked: try again'') ''bad second factor'')
                    | Some np \<Rightarrow> Inr np)))"

text \<open>\<open>credential.get("rawId") or credential.get("id")\<close>.\<close>

definition falsy :: "val option \<Rightarrow> bool" where
  "falsy v = (case v of
     None \<Rightarrow> True | Some VNone \<Rightarrow> True | Some (VBool b) \<Rightarrow> \<not> b | Some (VInt n) \<Rightarrow> n = 0 | Some (VStr u s) \<Rightarrow> s = []
   | Some (VList vs) \<Rightarrow> vs = [] | Some (VDict d) \<Rightarrow> d = [] | Some (VFloat x) \<Rightarrow> x = ''0.0'' \<or> x = ''-0.0'')"

definition cred_get :: "string \<Rightarrow> vars \<Rightarrow> val option" where
  "cred_get k d = map_option snd (find (\<lambda>p. snd (fst p) = k) d)"

definition raw_id :: "vars \<Rightarrow> val option" where
  "raw_id cred = (if falsy (cred_get ''rawId'' cred) then cred_get ''id'' cred else cred_get ''rawId'' cred)"

definition signed_by :: "vars \<Rightarrow> passkey \<Rightarrow> bool" where
  "signed_by cred p = (case raw_id cred of Some (VStr f s) \<Rightarrow> pk_credential_id p = s | _ \<Rightarrow> False)"

definition verify_assertion :: "auth_lib \<Rightarrow> time \<Rightarrow> vars \<Rightarrow> string \<Rightarrow> user \<Rightarrow> user \<times> (passkey_error + unit)" where
  "verify_assertion lib now cred purpose u =
     (case al_passkey_rp lib of
        None \<Rightarrow> (u, Inl PasskeysUnavailable)
      | Some (rp_id, origin) \<Rightarrow>
          (case take_challenge lib now purpose u of
             (u1, Inl x) \<Rightarrow> (u1, Inl x)
           | (u1, Inr challenge) \<Rightarrow>
               (case find (signed_by cred) (passkeys u1) of
                  None \<Rightarrow> (u1, Inl (PasskeyError (''That passkey isn'' @ [CHR 0x27] @ ''t one of yours'') ''unknown passkey''))
                | Some pk \<Rightarrow>
                    (case al_assert lib cred challenge rp_id origin (al_unbase64 lib (pk_public_key pk)) of
                       None \<Rightarrow> (u1, Inl (PasskeyError ''That passkey was not accepted'' ''bad second factor''))
                     | Some (n, backed) \<Rightarrow>
                         if (n \<noteq> 0 \<or> pk_sign_count pk \<noteq> 0) \<and> n \<le> pk_sign_count pk
                         then (u1, Inl (PasskeyError ''That passkey was not accepted'' ''sign count went back''))
                         else (u1\<lparr>passkeys := update_rows (\<lambda>x. pk_id x = pk_id pk)
                                   (\<lambda>x. x\<lparr>pk_sign_count := n, pk_backed_up := backed, pk_last_used_at := Some now\<rparr>) (passkeys u1)\<rparr>,
                               Inr ())))))"

section \<open>A factor is used once\<close>

lemma match_counter_Some:
  assumes "match_counter lib now secret code l = Some n"
  shows "looks_like_totp_code code \<and> 0 \<le> n \<and> (\<forall>m. l = Some m \<longrightarrow> m < n) \<and> al_otp lib secret n = no_spaces code \<and>
    now div secs STEP_SECONDS - 1 \<le> n \<and> n \<le> now div secs STEP_SECONDS + 1"
  using assms by (auto simp: match_counter_def Let_def split: if_splits option.splits)

text \<open>A second factor that was accepted was really there, and is used up.\<close>

lemma use_second_factor_accepted:
  assumes "use_second_factor e lib now code rec u = (u', Some m)"
  shows "two_factor_enabled u \<and> user_id u' = user_id u \<and> session_version u' = session_version u \<and> username u' = username u \<and>
    ((\<exists>c s n. code = Some c \<and> totp_secret u = Some s \<and> u' = u\<lparr>totp_last_counter := Some n\<rparr> \<and>
        match_counter lib now (al_decrypt lib s) c (totp_last_counter u) = Some n) \<or>
     (\<exists>c hs. code = None \<and> rec = Some c \<and> recovery_code_hashes u = Some hs \<and> sha256_hex e (normalize_code c) \<in> set hs \<and>
        u' = u\<lparr>recovery_code_hashes := Some (filter (\<lambda>h. h \<noteq> sha256_hex e (normalize_code c)) hs)\<rparr>))"
  using assms by (auto simp: use_second_factor_def Let_def two_factor_enabled_def split: option.splits if_splits)

lemma use_second_factor_refused: "use_second_factor e lib now code rec u = (u', None) \<Longrightarrow> u' = u"
  by (auto simp: use_second_factor_def Let_def split: option.splits if_splits)

text \<open>Attempts one after the other: the time steps and the hashes of the codes that were accepted.\<close>

definition used_up :: "env \<Rightarrow> string option \<Rightarrow> string option \<Rightarrow> user \<Rightarrow> int + string" where
  "used_up e code rec u' = (if code \<noteq> None then Inl (the (totp_last_counter u')) else Inr (sha256_hex e (normalize_code (the rec))))"

fun accepted_uses :: "env \<Rightarrow> auth_lib \<Rightarrow> (time \<times> string option \<times> string option) list \<Rightarrow> user \<Rightarrow> (int + string) list" where
  "accepted_uses e lib [] u = []"
| "accepted_uses e lib ((now, code, rec) # tries) u =
     (case use_second_factor e lib now code rec u of
        (u1, None) \<Rightarrow> accepted_uses e lib tries u1
      | (u1, Some m) \<Rightarrow> used_up e code rec u1 # accepted_uses e lib tries u1)"

text \<open>What a user can still use.\<close>

definition usable :: "user \<Rightarrow> int + string \<Rightarrow> bool" where
  "usable u x = (case x of
     Inl n \<Rightarrow> (case totp_last_counter u of None \<Rightarrow> True | Some l \<Rightarrow> l < n)
   | Inr h \<Rightarrow> (case recovery_code_hashes u of None \<Rightarrow> False | Some hs \<Rightarrow> h \<in> set hs))"

lemma use_second_factor_usable:
  assumes "use_second_factor e lib now code rec u = (u1, Some m)"
  shows "usable u (used_up e code rec u1) \<and> \<not> usable u1 (used_up e code rec u1) \<and> (\<forall>x. usable u1 x \<longrightarrow> usable u x)"
proof -
  consider (totp) c s n where "code = Some c" "u1 = u\<lparr>totp_last_counter := Some n\<rparr>"
      "match_counter lib now (al_decrypt lib s) c (totp_last_counter u) = Some n"
    | (recovery) c hs where "code = None" "rec = Some c" "recovery_code_hashes u = Some hs" "sha256_hex e (normalize_code c) \<in> set hs"
        "u1 = u\<lparr>recovery_code_hashes := Some (filter (\<lambda>h. h \<noteq> sha256_hex e (normalize_code c)) hs)\<rparr>"
    using use_second_factor_accepted [OF assms] by blast
  then show ?thesis
  proof cases
    case totp
    have "\<forall>l. totp_last_counter u = Some l \<longrightarrow> l < n" using match_counter_Some [OF totp(3)] by simp
    then show ?thesis using totp by (auto simp: usable_def used_up_def split: sum.splits option.splits)
  next
    case recovery
    then show ?thesis by (auto simp: usable_def used_up_def split: sum.splits)
  qed
qed

lemma accepted_uses_usable: "x \<in> set (accepted_uses e lib tries u) \<Longrightarrow> usable u x"
proof (induction tries arbitrary: u)
  case (Cons t tries)
  obtain now code rec where t: "t = (now, code, rec)" by (metis prod_cases3)
  obtain u1 m where u1: "use_second_factor e lib now code rec u = (u1, m)" by fastforce
  show ?case
  proof (cases m)
    case None
    then show ?thesis using Cons t u1 use_second_factor_refused [of e lib now code rec u u1] by simp
  next
    case (Some w)
    then have "x = used_up e code rec u1 \<or> x \<in> set (accepted_uses e lib tries u1)" using Cons.prems t u1 by simp
    then show ?thesis using use_second_factor_usable [of e lib now code rec u u1 w] u1 Some Cons.IH by auto
  qed
qed simp

text \<open>
  C11. A second factor is used once. Whatever attempts are made, one after the other and at any times, no
  time step and no recovery code is accepted twice, the accepted time steps only go up, and each was
  usable before. (A code of the same step, or an older one, never signs in again.)
\<close>

theorem second_factor_once:
  "distinct (accepted_uses e lib tries u) \<and> (\<forall>x \<in> set (accepted_uses e lib tries u). usable u x) \<and>
   sorted_wrt (\<lambda>x y. \<forall>m n. x = Inl m \<and> y = Inl n \<longrightarrow> m < n) (accepted_uses e lib tries u)"
proof (induction tries arbitrary: u)
  case (Cons t tries)
  obtain now code rec where t: "t = (now, code, rec)" by (metis prod_cases3)
  obtain u1 m where u1: "use_second_factor e lib now code rec u = (u1, m)" by fastforce
  show ?case
  proof (cases m)
    case None
    then show ?thesis using Cons t u1 use_second_factor_refused [of e lib now code rec u u1] by simp
  next
    case (Some w)
    let ?x = "used_up e code rec u1" and ?xs = "accepted_uses e lib tries u1"
    have new: "usable u ?x" "\<not> usable u1 ?x" "\<forall>x. usable u1 x \<longrightarrow> usable u x"
      using use_second_factor_usable [of e lib now code rec u u1 w] u1 Some by auto
    have rest: "\<forall>y \<in> set ?xs. usable u1 y" using accepted_uses_usable by blast
    have "m' < n" if "?x = Inl m'" "Inl n \<in> set ?xs" for m' n
    proof -
      have "totp_last_counter u1 = Some m'"
        using that(1) use_second_factor_accepted [of e lib now code rec u u1 w] u1 Some by (auto simp: used_up_def split: if_splits)
      then show ?thesis using rest that(2) by (auto simp: usable_def split: option.splits)
    qed
    then show ?thesis using Cons.IH [of u1] new rest t u1 Some by auto
  qed
qed simp

text \<open>A library and a user to evaluate with; tokens carry the version and the salt.\<close>

definition sample_claims :: "nat \<Rightarrow> vars" where
  "sample_claims n = [(vkey ''uid'', VInt 1), (vkey ''sv'', VInt (int n))]"

definition sample_lib :: auth_lib where
  "sample_lib =
     \<lparr>al_otp = (\<lambda>_ c. if c = 1 then ''111111'' else ''222222''), al_encrypt = (\<lambda>s. s), al_decrypt = (\<lambda>s. s),
      al_verify_password = (\<lambda>p h. h = p), al_hash_password = (\<lambda>p. p),
      al_loads = (\<lambda>salt age now t. if dropWhile (\<lambda>c. c = CHR ''!'') t = CHR ''.'' # salt
        then Some (sample_claims (length (takeWhile (\<lambda>c. c = CHR ''!'') t)), 0) else None),
      al_dumps = (\<lambda>salt now d. replicate (case cred_get ''sv'' d of Some (VInt n) \<Rightarrow> nat n | _ \<Rightarrow> 0) (CHR ''!'') @ CHR ''.'' # salt),
      al_base64 = (\<lambda>s. s), al_unbase64 = (\<lambda>s. s), al_assert = (\<lambda>_ _ _ _ _. None), al_register = (\<lambda>_ _ _ _. None),
      al_passkey_rp = None\<rparr>"

definition sample_user :: user where
  "sample_user =
     \<lparr>user_id = Some 1, username = ''ann'', password_hash = ''pw'', user_role = ''viewer'', is_active = True, session_version = 0,
      totp_secret = Some ''s'', totp_pending_secret = None, totp_last_counter = None, recovery_code_hashes = None,
      webauthn_user_handle = None, webauthn_pending = None, passkeys = [], cached_project_roles = None, api_key_id = None,
      allowed_playbook_ids = None, allowed_inventory_ids = None\<rparr>"

lemma sample_accepted: "accepted_uses e sample_lib
    [(secs 30, Some ''111111'', None), (secs 31, Some ''111111'', None), (secs 32, Some ''222 222'', None)] sample_user = [Inl 1, Inl 2]"
  by (simp add: use_second_factor_def match_counter_def looks_like_totp_code_def no_spaces_def is_digit_def sample_lib_def sample_user_def
      STEP_SECONDS_def used_up_def secs_def)

theorem second_factor_once_witness:
  "\<forall>e. distinct (accepted_uses e sample_lib
     [(secs 30, Some ''111111'', None), (secs 31, Some ''111111'', None), (secs 32, Some ''222 222'', None)] sample_user) \<and>
   (\<forall>x \<in> {Inl 1, Inl 2}. usable sample_user x)"
proof
  fix e
  show "distinct (accepted_uses e sample_lib
     [(secs 30, Some ''111111'', None), (secs 31, Some ''111111'', None), (secs 32, Some ''222 222'', None)] sample_user) \<and>
   (\<forall>x \<in> {Inl 1, Inl 2}. usable sample_user x)"
    using second_factor_once [of e sample_lib
     "[(secs 30, Some ''111111'', None), (secs 31, Some ''111111'', None), (secs 32, Some ''222 222'', None)]" sample_user]
    unfolding sample_accepted by simp
qed

end
