(* ===== verification/Throttle.thy ===== *)
theory Throttle
  imports Models
begin

text \<open>
  The failure counters of \<open>app/hardening.py\<close>: a sliding window per key, kept as the times of its failures.
  A method holds the lock, so a sequence of calls is a sequence of functions; the time is that of the call
  (\<open>time.monotonic\<close>, so it never goes back). The specification is the history of calls.
\<close>

record 'k throttle =
  th_max :: nat
  th_window :: int
  th_failures :: "('k \<times> int list) list"

definition THROTTLE_KEYS :: nat where "THROTTLE_KEYS = 10000"

definition failures_of :: "'k throttle \<Rightarrow> 'k \<Rightarrow> int list" where
  "failures_of th k = (case map_of (th_failures th) k of None \<Rightarrow> [] | Some ts \<Rightarrow> ts)"

text \<open>Assigning to a key keeps its place or appends it; \<open>pop\<close> removes it.\<close>

definition set_failures :: "'k \<Rightarrow> int list \<Rightarrow> 'k throttle \<Rightarrow> 'k throttle" where
  "set_failures k ts th = th\<lparr>th_failures := dict_set k ts (th_failures th)\<rparr>"

definition pop_failures :: "'k \<Rightarrow> 'k throttle \<Rightarrow> 'k throttle" where
  "pop_failures k th = th\<lparr>th_failures := filter (\<lambda>p. fst p \<noteq> k) (th_failures th)\<rparr>"

definition recent :: "'k \<Rightarrow> int \<Rightarrow> 'k throttle \<Rightarrow> 'k throttle \<times> int list" where
  "recent k now th =
     (let ts = filter (\<lambda>t. now - t < th_window th) (failures_of th k)
      in (if ts \<noteq> [] then set_failures k ts th else pop_failures k th, ts))"

definition blocked :: "'k \<Rightarrow> int \<Rightarrow> 'k throttle \<Rightarrow> 'k throttle \<times> bool" where
  "blocked k now th = (case recent k now th of (th1, ts) \<Rightarrow> (th1, length ts \<ge> th_max th))"

definition record_failure :: "'k \<Rightarrow> int \<Rightarrow> 'k throttle \<Rightarrow> 'k throttle" where
  "record_failure k now th =
     (let th1 = (if length (th_failures th) > THROTTLE_KEYS
                 then fold (\<lambda>stale t. fst (recent stale now t)) (map fst (th_failures th)) th else th)
      in set_failures k (failures_of th1 k @ [now]) th1)"

definition reset_failures :: "'k \<Rightarrow> 'k throttle \<Rightarrow> 'k throttle" where
  "reset_failures k th = pop_failures k th"

definition clear_failures :: "'k throttle \<Rightarrow> 'k throttle" where
  "clear_failures th = th\<lparr>th_failures := []\<rparr>"

definition new_throttle :: "nat \<Rightarrow> int \<Rightarrow> 'k throttle" where
  "new_throttle n w = \<lparr>th_max = n, th_window = w, th_failures = []\<rparr>"

section \<open>Calls\<close>

datatype 'k call = Failure 'k | Ask 'k | Reset 'k | Clear

fun perform :: "'k call \<times> int \<Rightarrow> 'k throttle \<Rightarrow> 'k throttle" where
  "perform (Failure k, now) th = record_failure k now th"
| "perform (Ask k, now) th = fst (blocked k now th)"
| "perform (Reset k, now) th = reset_failures k th"
| "perform (Clear, now) th = clear_failures th"

text \<open>The specification: the failures of a key since it was last forgotten, newest last.\<close>

fun history :: "'k \<Rightarrow> ('k call \<times> int) list \<Rightarrow> int list \<Rightarrow> int list" where
  "history k [] ts = ts"
| "history k ((Failure j, now) # cs) ts = history k cs (if j = k then ts @ [now] else ts)"
| "history k ((Ask j, now) # cs) ts = history k cs ts"
| "history k ((Reset j, now) # cs) ts = history k cs (if j = k then [] else ts)"
| "history k ((Clear, now) # cs) ts = history k cs []"

section \<open>The counters implement it\<close>

lemma failures_set [simp]: "failures_of (set_failures k ts th) j = (if j = k then ts else failures_of th j)"
  by (simp add: failures_of_def set_failures_def map_of_dict_set)

lemma map_of_filter_key: "map_of (filter (\<lambda>p. fst p \<noteq> k) d) j = (if j = k then None else map_of d j)"
  by (induction d) auto

lemma failures_pop [simp]: "failures_of (pop_failures k th) j = (if j = k then [] else failures_of th j)"
  by (simp add: failures_of_def pop_failures_def map_of_filter_key)

lemma throttle_settings [simp]:
  "th_window (set_failures k ts th) = th_window th" "th_max (set_failures k ts th) = th_max th"
  "th_window (pop_failures k th) = th_window th" "th_max (pop_failures k th) = th_max th"
  by (simp_all add: set_failures_def pop_failures_def)

lemma failures_recent:
  "failures_of (fst (recent k now th)) j = (if j = k then filter (\<lambda>t. now - t < th_window th) (failures_of th k) else failures_of th j)"
  "th_window (fst (recent k now th)) = th_window th" "th_max (fst (recent k now th)) = th_max th"
  by (simp_all add: recent_def Let_def)

text \<open>What is kept of a key's failures: some of the history, all that a window at or after \<open>now\<close> can hold.\<close>

definition keeps :: "int \<Rightarrow> int \<Rightarrow> int list \<Rightarrow> int list \<Rightarrow> bool" where
  "keeps w now full kept \<longleftrightarrow> (\<forall>t \<ge> now. filter (\<lambda>x. t - x < w) kept = filter (\<lambda>x. t - x < w) full)"

lemma keeps_refl [simp]: "keeps w now ts ts"
  by (simp add: keeps_def)

lemma keeps_later: "keeps w now full kept \<Longrightarrow> now \<le> now' \<Longrightarrow> keeps w now' full kept"
  by (simp add: keeps_def)

lemma keeps_recent: "keeps w now full kept \<Longrightarrow> keeps w now full (filter (\<lambda>x. now - x < w) kept)"
proof -
  assume k: "keeps w now full kept"
  have "filter (\<lambda>x. t - x < w) (filter (\<lambda>x. now - x < w) kept) = filter (\<lambda>x. t - x < w) kept" if "now \<le> t" for t
  proof -
    have "now - x < w" if "t - x < w" for x using that \<open>now \<le> t\<close> by linarith
    then show ?thesis by (auto simp: filter_filter intro!: filter_cong)
  qed
  then show ?thesis using k unfolding keeps_def by metis
qed

lemma keeps_append: "keeps w now full kept \<Longrightarrow> keeps w now (full @ [x]) (kept @ [x])"
  by (simp add: keeps_def)

definition agrees :: "int \<Rightarrow> ('k \<Rightarrow> int list) \<Rightarrow> 'k throttle \<Rightarrow> bool" where
  "agrees now h th \<longleftrightarrow> (\<forall>k. keeps (th_window th) now (h k) (failures_of th k))"

lemma agrees_recent: "agrees now h th \<Longrightarrow> agrees now h (fst (recent k now th))"
  by (simp add: agrees_def failures_recent keeps_recent)

lemma agrees_sweep:
  "agrees now h th \<Longrightarrow> agrees now h (fold (\<lambda>k t. fst (recent k now t)) ks th) \<and>
     th_window (fold (\<lambda>k t. fst (recent k now t)) ks th) = th_window th \<and> th_max (fold (\<lambda>k t. fst (recent k now t)) ks th) = th_max th"
  by (induction ks arbitrary: th) (simp_all add: agrees_recent failures_recent)

lemma agrees_record:
  assumes "agrees now h th"
  shows "agrees now (h(k := h k @ [now])) (record_failure k now th)"
proof -
  define th1 where "th1 = (if length (th_failures th) > THROTTLE_KEYS
    then fold (\<lambda>stale t. fst (recent stale now t)) (map fst (th_failures th)) th else th)"
  have "agrees now h th1" using assms agrees_sweep [of now h th] by (simp add: th1_def)
  then show ?thesis by (simp add: record_failure_def Let_def th1_def [symmetric] agrees_def keeps_append)
qed

lemma perform_settings: "th_window (perform c th) = th_window th \<and> th_max (perform c th) = th_max th"
proof (cases c)
  case (Pair op now)
  have "th_window (fold (\<lambda>k t. fst (recent k now t)) ks th) = th_window th \<and> th_max (fold (\<lambda>k t. fst (recent k now t)) ks th) = th_max th" for ks
    by (induction ks arbitrary: th) (simp_all add: failures_recent)
  then show ?thesis
    by (cases op) (simp_all add: Pair record_failure_def blocked_def reset_failures_def clear_failures_def Let_def case_prod_unfold failures_recent)
qed

lemma perform_agrees:
  assumes "agrees now h th" and "now \<le> now'"
  shows "agrees now' (\<lambda>k. history k [(op, now')] (h k)) (perform (op, now') th)"
proof -
  have a: "agrees now' h th" using assms keeps_later unfolding agrees_def by blast
  show ?thesis
  proof (cases op)
    case (Failure k)
    have "(\<lambda>j. history j [(Failure k, now')] (h j)) = h(k := h k @ [now'])" by auto
    then show ?thesis using agrees_record [OF a, of k] Failure by simp
  next
    case (Ask k)
    then show ?thesis using agrees_recent [OF a, of k] by (simp add: blocked_def case_prod_unfold)
  next
    case (Reset k)
    then show ?thesis using a by (simp add: agrees_def reset_failures_def)
  next
    case Clear
    then show ?thesis by (simp add: agrees_def clear_failures_def failures_of_def)
  qed
qed

lemma history_append: "history k (cs @ ds) ts = history k ds (history k cs ts)"
  by (induction k cs ts rule: history.induct) simp_all

lemma fold_agrees:
  assumes "sorted (map snd cs)" and "\<forall>c \<in> set cs. snd c \<le> now"
  shows "agrees now (\<lambda>k. history k cs []) (fold perform cs (new_throttle n w))"
  using assms
proof (induction cs arbitrary: now rule: rev_induct)
  case Nil
  then show ?case by (simp add: agrees_def new_throttle_def failures_of_def)
next
  case (snoc c cs)
  obtain op t where c: "c = (op, t)" by fastforce
  have "agrees t (\<lambda>k. history k cs []) (fold perform cs (new_throttle n w))"
    using snoc c by (auto simp: sorted_append)
  then have "agrees t (\<lambda>k. history k (cs @ [c]) []) (fold perform (cs @ [c]) (new_throttle n w))"
    using perform_agrees [of t _ _ t op] c by (simp add: history_append)
  moreover have "t \<le> now" using snoc.prems(2) c by simp
  ultimately show ?case using keeps_later unfolding agrees_def by blast
qed

lemma fold_settings: "th_window (fold perform cs th) = th_window th \<and> th_max (fold perform cs th) = th_max th"
  by (induction cs arbitrary: th) (simp_all add: perform_settings)

text \<open>
  C16. A failure counter refines its history: after any calls, in the order of their times, a key is blocked
  exactly when it has failed at least the configured number of times within the window since it was last
  reset. Dropping stale times, and the sweep over all keys when there are many, never change an answer.
\<close>

theorem throttle_refines_history:
  assumes "sorted (map snd cs)" and "\<forall>c \<in> set cs. snd c \<le> now"
  shows "snd (blocked k now (fold perform cs (new_throttle n w))) \<longleftrightarrow>
    n \<le> length (filter (\<lambda>t. now - t < w) (history k cs []))"
proof -
  let ?th = "fold perform cs (new_throttle n w)"
  have "agrees now (\<lambda>k. history k cs []) ?th" by (rule fold_agrees [OF assms])
  then have "filter (\<lambda>t. now - t < w) (failures_of ?th k) = filter (\<lambda>t. now - t < w) (history k cs [])"
    using fold_settings [of cs "new_throttle n w"] by (simp add: agrees_def keeps_def new_throttle_def)
  then show ?thesis using fold_settings [of cs "new_throttle n w"]
    by (simp add: blocked_def recent_def Let_def new_throttle_def)
qed

theorem throttle_refines_history_witness:
  "snd (blocked ''ip'' 301 (fold perform [(Failure ''ip'', 0), (Failure ''ip'', 2), (Ask ''ip'', 3), (Failure ''ip'', 4)] (new_throttle 2 300))) \<and>
   \<not> snd (blocked ''ip'' 303 (fold perform [(Failure ''ip'', 0), (Failure ''ip'', 2), (Ask ''ip'', 3), (Failure ''ip'', 4)] (new_throttle 2 300)))"
  using throttle_refines_history [of "[(Failure ''ip'', 0), (Failure ''ip'', 2), (Ask ''ip'', 3), (Failure ''ip'', 4)]" 301 "''ip''" 2 300]
    throttle_refines_history [of "[(Failure ''ip'', 0), (Failure ''ip'', 2), (Ask ''ip'', 3), (Failure ''ip'', 4)]" 303 "''ip''" 2 300]
  by simp

end
