(* ===== verification/Sessions.thy ===== *)
theory Sessions
  imports Second_Factor Permissions Throttle
begin

text \<open>
  Who is signed in: the signed tokens of \<open>app/security.py\<close>, the session of a request
  (\<open>app/dependencies.py\<close>) and the state of the process, the failure counters of \<open>app/hardening.py\<close>. A request
  is one step at one time \<open>now\<close>: those that use up a factor lock the user's row first.
\<close>

definition SESSION_MAX_AGE_SECONDS :: int where "SESSION_MAX_AGE_SECONDS = 60 * 60 * 8"
definition MFA_MAX_AGE_SECONDS :: int where "MFA_MAX_AGE_SECONDS = 5 * 60"

definition SESSION_SALT :: string where "SESSION_SALT = ''ansideck-session''"
definition MFA_SALT :: string where "MFA_SALT = ''ansideck-mfa''"

record srv =
  srv_db :: database
  srv_user_login :: "(string \<times> string) throttle"
  srv_ip_login :: "string throttle"
  srv_api_key_ip :: "string throttle"
  srv_totp_user :: "key_id option throttle"

definition new_server :: "database \<Rightarrow> srv" where
  "new_server db =
     \<lparr>srv_db = db, srv_user_login = new_throttle 5 (secs 300), srv_ip_login = new_throttle 20 (secs 300),
      srv_api_key_ip = new_throttle 20 (secs 300), srv_totp_user = new_throttle 10 (secs 900)\<rparr>"

text \<open>The next step of a request, unless this one raised.\<close>

fun then_do :: "srv \<times> 'a http \<Rightarrow> ('a \<Rightarrow> srv \<Rightarrow> srv \<times> 'b http) \<Rightarrow> srv \<times> 'b http" where
  "then_do (s, Inl x) k = (s, Inl x)"
| "then_do (s, Inr a) k = k a s"

abbreviation refuse :: "int \<Rightarrow> string \<Rightarrow> srv \<Rightarrow> srv \<times> 'a http" where
  "refuse code msg s \<equiv> (s, Inl (HTTPException code msg))"

definition on_db :: "(database \<Rightarrow> database) \<Rightarrow> srv \<Rightarrow> srv" where
  "on_db f s = s\<lparr>srv_db := f (srv_db s)\<rparr>"

definition get_user :: "database \<Rightarrow> key_id \<Rightarrow> user option" where
  "get_user db i = get_row user_id (users db) (Some i)"

definition put_user :: "user \<Rightarrow> database \<Rightarrow> database" where
  "put_user u db = db\<lparr>users := update_rows (\<lambda>x. user_id x = user_id u) (\<lambda>_. u) (users db)\<rparr>"

section \<open>Tokens\<close>

definition user_claims :: "user \<Rightarrow> vars" where
  "user_claims u = [(vkey ''uid'', opt_int (user_id u)), (vkey ''sv'', VInt (session_version u))]"

definition create_session_token :: "auth_lib \<Rightarrow> time \<Rightarrow> user \<Rightarrow> string \<Rightarrow> string" where
  "create_session_token lib now u sign_in = al_dumps lib SESSION_SALT now (user_claims u @ [(vkey ''m'', Str sign_in)])"

definition create_mfa_token :: "auth_lib \<Rightarrow> time \<Rightarrow> user \<Rightarrow> string" where
  "create_mfa_token lib now u = al_dumps lib MFA_SALT now (user_claims u)"

text \<open>\<open>isinstance(x, int)\<close>, which holds for booleans too.\<close>

definition int_claim :: "string \<Rightarrow> vars \<Rightarrow> int option" where
  "int_claim k d =
     (case cred_get k d of Some (VInt n) \<Rightarrow> Some n | Some (VBool b) \<Rightarrow> Some (if b then 1 else 0) | _ \<Rightarrow> None)"

definition load_user_token :: "auth_lib \<Rightarrow> string \<Rightarrow> int \<Rightarrow> time \<Rightarrow> string \<Rightarrow> (int \<times> int) option" where
  "load_user_token lib salt max_age now token =
     (case al_loads lib salt max_age now token of
        None \<Rightarrow> None
      | Some (d, issued) \<Rightarrow>
          (case (int_claim ''uid'' d, int_claim ''sv'' d) of (Some i, Some v) \<Rightarrow> Some (i, v) | _ \<Rightarrow> None))"

record session_info =
  si_user_id :: int
  si_session_version :: int
  si_sso :: bool
  si_issued_at :: time

definition session_info_of :: "auth_lib \<Rightarrow> time \<Rightarrow> string \<Rightarrow> session_info option" where
  "session_info_of lib now token =
     (case al_loads lib SESSION_SALT SESSION_MAX_AGE_SECONDS now token of
        None \<Rightarrow> None
      | Some (d, issued) \<Rightarrow>
          (case (int_claim ''uid'' d, int_claim ''sv'' d) of
             (Some i, Some v) \<Rightarrow>
               Some \<lparr>si_user_id = i, si_session_version = v,
                     si_sso = (case cred_get ''m'' d of Some (VStr f t) \<Rightarrow> t = ''sso'' | _ \<Rightarrow> False), si_issued_at = issued\<rparr>
           | _ \<Rightarrow> None))"

definition verify_session_token :: "auth_lib \<Rightarrow> time \<Rightarrow> string \<Rightarrow> (int \<times> int) option" where
  "verify_session_token lib now token = load_user_token lib SESSION_SALT SESSION_MAX_AGE_SECONDS now token"

definition verify_mfa_token :: "auth_lib \<Rightarrow> time \<Rightarrow> string \<Rightarrow> (int \<times> int) option" where
  "verify_mfa_token lib now token = load_user_token lib MFA_SALT MFA_MAX_AGE_SECONDS now token"

definition authenticate_token :: "auth_lib \<Rightarrow> time \<Rightarrow> string option \<Rightarrow> database \<Rightarrow> user option" where
  "authenticate_token lib now token db =
     (case token of
        None \<Rightarrow> None
      | Some t \<Rightarrow>
          if t = [] then None
          else (case verify_session_token lib now t of
                  None \<Rightarrow> None
                | Some (i, v) \<Rightarrow>
                    (case get_user db i of
                       None \<Rightarrow> None
                     | Some u \<Rightarrow> if \<not> is_active u \<or> session_version u \<noteq> v then None else Some u)))"

end
