(* ===== verification/Login.thy ===== *)
theory Login
  imports Sessions "HOL-Library.List_Lexorder" "HOL-Library.Char_ord"
begin

text \<open>
  Signing in and second factors, \<open>app/routers/auth.py\<close>: password, code or passkey, and the changes people make
  to their own account. Cookies are values of the answers. \<open>raw\<close>, \<open>handle\<close> and \<open>challenge\<close> are what the random
  generator gave; \<open>dummy\<close> is the hash an unknown user's password is compared with.
\<close>

definition RECENT_SSO_SIGN_IN :: int where "RECENT_SSO_SIGN_IN = 15 * 60"

section \<open>What is shown of a user\<close>

record project_access =
  pa_project :: project
  pa_role :: string
  pa_permissions :: "string list"

record user_out =
  uo_username :: string
  uo_role :: string
  uo_permissions :: "string list"
  uo_projects :: "project_access list"
  uo_totp_enabled :: bool
  uo_passkey_count :: nat
  uo_two_factor_enabled :: bool
  uo_setup_required :: bool
  uo_signed_in_with :: string

definition permission_values :: "permission set \<Rightarrow> string list" where
  "permission_values ps = sorted_list_of_set (permission_text ` ps)"

definition project_roles_of :: "database \<Rightarrow> user \<Rightarrow> (project \<times> string) list" where
  "project_roles_of db u =
     (if is_global_admin u then map (\<lambda>p. (p, ''admin'')) (projects db)
      else List.map_filter (\<lambda>p. map_option (Pair p) (map_of (user_project_roles db u) (p_id p))) (projects db))"

definition to_out :: "env \<Rightarrow> database \<Rightarrow> user \<Rightarrow> string \<Rightarrow> user_out" where
  "to_out e db u sign_in =
     \<lparr>uo_username = username u, uo_role = user_role u, uo_permissions = permission_values (effective_permissions db u),
      uo_projects =
        map (\<lambda>(p, role). \<lparr>pa_project = p, pa_role = role, pa_permissions = permission_values (project_role_permissions role)\<rparr>)
          (sort_key (\<lambda>(p, role). lower (p_name p)) (project_roles_of db u)),
      uo_totp_enabled = (totp_secret u \<noteq> None), uo_passkey_count = length (passkeys u),
      uo_two_factor_enabled = two_factor_enabled u,
      uo_setup_required = (sign_in = ''password'' \<and> \<not> two_factor_enabled u \<and> admin_2fa_required e db u),
      uo_signed_in_with = sign_in\<rparr>"

text \<open>The second factors a user can sign in with now.\<close>

definition second_factor_methods :: "auth_lib \<Rightarrow> user \<Rightarrow> string list" where
  "second_factor_methods lib u =
     (if totp_secret u \<noteq> None then [''totp''] else []) @
     (if passkeys u \<noteq> [] \<and> al_passkey_rp lib \<noteq> None then [''passkey''] else []) @ [''recovery_code'']"

section \<open>Throttling\<close>

definition login_key :: "string \<Rightarrow> string \<Rightarrow> string \<times> string" where
  "login_key ip name = (ip, take 150 (lower name))"

definition login_blocked :: "time \<Rightarrow> string \<Rightarrow> string \<Rightarrow> srv \<Rightarrow> srv \<times> bool" where
  "login_blocked now ip name s =
     (case blocked (login_key ip name) now (srv_user_login s) of
        (t, b) \<Rightarrow>
          let s1 = s\<lparr>srv_user_login := t\<rparr> in
          if b then (s1, True) else (case blocked ip now (srv_ip_login s1) of (t2, b2) \<Rightarrow> (s1\<lparr>srv_ip_login := t2\<rparr>, b2)))"

definition raise_if_throttled :: "time \<Rightarrow> string \<Rightarrow> string \<Rightarrow> string \<Rightarrow> srv \<Rightarrow> srv \<times> unit http" where
  "raise_if_throttled now ip name msg s =
     (case login_blocked now ip name s of (s1, b) \<Rightarrow> if b then refuse 429 msg s1 else (s1, Inr ()))"

definition record_login_failure :: "time \<Rightarrow> string \<Rightarrow> string \<Rightarrow> srv \<Rightarrow> srv \<times> bool" where
  "record_login_failure now ip name s =
     login_blocked now ip name
       (s\<lparr>srv_user_login := record_failure (login_key ip name) now (srv_user_login s),
          srv_ip_login := record_failure ip now (srv_ip_login s)\<rparr>)"

definition reset_login :: "string \<Rightarrow> string \<Rightarrow> srv \<Rightarrow> srv" where
  "reset_login ip name s = s\<lparr>srv_user_login := reset_failures (login_key ip name) (srv_user_login s)\<rparr>"

section \<open>Proving who one is\<close>

definition audit_user :: "time \<Rightarrow> string \<Rightarrow> string \<Rightarrow> user \<Rightarrow> string \<Rightarrow> vars option \<Rightarrow> srv \<Rightarrow> srv" where
  "audit_user now action outcome u ip detail =
     on_db (audit_record now ((audit_call action)\<lparr>au_outcome := outcome, au_actor := Some u, au_ip := Some ip, au_detail := detail\<rparr>))"

definition locked_detail :: "bool \<Rightarrow> vars" where
  "locked_detail locked_out = (if locked_out then [(vkey ''locked_out'', VBool True)] else [])"

definition check_current_password ::
  "auth_lib \<Rightarrow> time \<Rightarrow> string \<Rightarrow> user \<Rightarrow> string \<Rightarrow> string \<Rightarrow> srv \<Rightarrow> srv \<times> unit http" where
  "check_current_password lib now ip u password action s =
     then_do (raise_if_throttled now ip (username u) ''Too many failed password attempts. Try again in a few minutes.'' s) (\<lambda>_ s.
       if \<not> al_verify_password lib password (password_hash u)
       then (case record_login_failure now ip (username u) s of
               (s1, locked_out) \<Rightarrow>
                 refuse 401 ''Current password is incorrect''
                   (audit_user now action ''failure'' u ip
                      (Some ([(vkey ''reason'', Str ''wrong current password'')] @ locked_detail locked_out)) s1))
       else (reset_login ip (username u) s, Inr ()))"

definition check_reauthentication ::
  "auth_lib \<Rightarrow> time \<Rightarrow> string \<Rightarrow> string option \<Rightarrow> user \<Rightarrow> string option \<Rightarrow> string \<Rightarrow> srv \<Rightarrow> srv \<times> unit http" where
  "check_reauthentication lib now ip cookie u password action s =
     (case password of
        Some p \<Rightarrow> check_current_password lib now ip u p action s
      | None \<Rightarrow>
          let sso = (case session_info_of lib now (case cookie of None \<Rightarrow> [] | Some c \<Rightarrow> c) of
                       Some i \<Rightarrow> if si_sso i then Some (si_issued_at i) else None | None \<Rightarrow> None);
              failed = (\<lambda>reason msg. refuse 401 msg (audit_user now action ''failure'' u ip (Some [(vkey ''reason'', Str reason)]) s)) in
          case sso of
            None \<Rightarrow> failed ''no current password'' ''Enter your current password.''
          | Some issued \<Rightarrow>
              if now - issued \<le> secs RECENT_SSO_SIGN_IN then (s, Inr ())
              else failed ''sso sign-in too old'' ''Sign in with single sign-on again (or enter your password), then try again.'')"

definition check_second_factor_throttle :: "time \<Rightarrow> user \<Rightarrow> srv \<Rightarrow> srv \<times> unit http" where
  "check_second_factor_throttle now u s =
     (case blocked (user_id u) now (srv_totp_user s) of
        (t, b) \<Rightarrow>
          let s1 = s\<lparr>srv_totp_user := t\<rparr> in
          if b then refuse 429 ''Too many failed attempts. Try again in 15 minutes.'' s1 else (s1, Inr ()))"

text \<open>What is sent as a second factor.\<close>

datatype factor = Totp string | Recovery string | Passkey vars string

definition try_factor :: "env \<Rightarrow> auth_lib \<Rightarrow> time \<Rightarrow> factor \<Rightarrow> user \<Rightarrow> user \<times> (passkey_error option + string)" where
  "try_factor e lib now f u =
     (case f of
        Totp c \<Rightarrow> (case use_second_factor e lib now (Some c) None u of (u1, Some m) \<Rightarrow> (u1, Inr m) | (u1, None) \<Rightarrow> (u1, Inl None))
      | Recovery c \<Rightarrow> (case use_second_factor e lib now None (Some c) u of (u1, Some m) \<Rightarrow> (u1, Inr m) | (u1, None) \<Rightarrow> (u1, Inl None))
      | Passkey cred purpose \<Rightarrow>
          (case verify_assertion lib now cred purpose u of (u1, Inr _) \<Rightarrow> (u1, Inr ''passkey'') | (u1, Inl x) \<Rightarrow> (u1, Inl (Some x))))"

definition record_factor_failure :: "time \<Rightarrow> string \<Rightarrow> user \<Rightarrow> srv \<Rightarrow> srv \<times> bool" where
  "record_factor_failure now ip u s =
     (case record_login_failure now ip (username u) s of
        (s1, locked) \<Rightarrow>
          let s2 = s1\<lparr>srv_totp_user := record_failure (user_id u) now (srv_totp_user s1)\<rparr> in
          if locked then (s2, True)
          else (case blocked (user_id u) now (srv_totp_user s2) of (t, b) \<Rightarrow> (s2\<lparr>srv_totp_user := t\<rparr>, b)))"

text \<open>The row is read again under its lock; a failure is committed with its audit event.\<close>

definition check_second_factor ::
  "env \<Rightarrow> auth_lib \<Rightarrow> time \<Rightarrow> user \<Rightarrow> string \<Rightarrow> string \<Rightarrow> factor \<Rightarrow> srv \<Rightarrow> srv \<times> (user \<times> string) http" where
  "check_second_factor e lib now u0 ip action f s =
     then_do (check_second_factor_throttle now u0 s) (\<lambda>_ s.
       case Option.bind (user_id u0) (get_user (srv_db s)) of
         None \<Rightarrow> refuse 500 ''Internal Server Error'' s
       | Some u \<Rightarrow>
           (case try_factor e lib now f u of
              (u1, Inr m) \<Rightarrow> (on_db (put_user u1) s, Inr (u1, m))
            | (u1, Inl problem) \<Rightarrow>
                (case record_factor_failure now ip u1 (on_db (put_user u1) s) of
                   (s1, locked_out) \<Rightarrow>
                     refuse 401 (case problem of None \<Rightarrow> ''That code is not valid'' | Some x \<Rightarrow> passkey_message x)
                       (audit_user now action ''failure'' u1 ip
                          (Some ([(vkey ''reason'', Str ''bad second factor'')] @
                             (case problem of None \<Rightarrow> [] | Some x \<Rightarrow> [(vkey ''passkey_problem'', Str (passkey_reason x))]) @
                             locked_detail locked_out)) s1))))"

definition proof_factor :: "string option \<Rightarrow> vars option \<Rightarrow> factor" where
  "proof_factor code assertion =
     (case assertion of
        Some a \<Rightarrow> Passkey a ''step_up''
      | None \<Rightarrow> let c = (case code of None \<Rightarrow> [] | Some c \<Rightarrow> c) in if looks_like_totp_code c then Totp c else Recovery c)"

section \<open>Signing in\<close>

datatype signin = SignedIn user_out string | MfaChallenge "string list" string

definition failed_login :: "time \<Rightarrow> string \<Rightarrow> string \<Rightarrow> user option \<Rightarrow> bool \<Rightarrow> srv \<Rightarrow> srv \<times> signin http" where
  "failed_login now ip name who password_ok s =
     (case record_login_failure now ip name s of
        (s1, locked_out) \<Rightarrow>
          refuse 401 ''Invalid username or password''
            (on_db (audit_record now
               ((audit_call ''auth.login'')
                  \<lparr>au_outcome := ''failure'',
                   au_actor_username := Some (case who of None \<Rightarrow> ''(unknown user)'' | Some u \<Rightarrow> username u), au_ip := Some ip,
                   au_detail := Some ([(vkey ''reason'', Str (if who \<noteq> None \<and> password_ok then ''inactive'' else ''bad credentials''))] @
                     locked_detail locked_out)\<rparr>)) s1))"

definition login ::
  "env \<Rightarrow> auth_lib \<Rightarrow> string \<Rightarrow> time \<Rightarrow> string \<Rightarrow> string \<Rightarrow> string \<Rightarrow> srv \<Rightarrow> srv \<times> signin http" where
  "login e lib dummy now ip name password s =
     then_do (raise_if_throttled now ip name ''Too many failed login attempts. Try again in a few minutes.'' s) (\<lambda>_ s.
       let who = find (\<lambda>u. username u = name) (users (srv_db s));
           password_ok = al_verify_password lib password (case who of None \<Rightarrow> dummy | Some u \<Rightarrow> password_hash u) in
       case who of
         None \<Rightarrow> failed_login now ip name who password_ok s
       | Some u \<Rightarrow>
           if \<not> password_ok \<or> \<not> is_active u then failed_login now ip name who password_ok s
           else if two_factor_enabled u then (s, Inr (MfaChallenge (second_factor_methods lib u) (create_mfa_token lib now u)))
           else let s1 = reset_login ip (username u) s; out = to_out e (srv_db s1) u ''password'' in
                (audit_user now ''auth.login'' ''success'' u ip
                   (if uo_setup_required out then Some [(vkey ''two_factor_setup_required'', VBool True)] else None) s1,
                 Inr (SignedIn out (create_session_token lib now u ''password''))))"

definition mfa_user :: "auth_lib \<Rightarrow> time \<Rightarrow> string option \<Rightarrow> string \<Rightarrow> srv \<Rightarrow> srv \<times> user http" where
  "mfa_user lib now cookie ip s =
     (case (case cookie of None \<Rightarrow> None | Some c \<Rightarrow> if c = [] then None else verify_mfa_token lib now c) of
        None \<Rightarrow> refuse 401 ''Sign-in expired. Start again.'' s
      | Some (i, v) \<Rightarrow>
          (case get_user (srv_db s) i of
             None \<Rightarrow> refuse 401 ''Sign-in expired. Start again.'' s
           | Some u \<Rightarrow>
               if \<not> is_active u \<or> session_version u \<noteq> v \<or> \<not> two_factor_enabled u
               then refuse 401 ''Sign-in expired. Start again.'' s
               else then_do (raise_if_throttled now ip (username u) ''Too many failed login attempts. Try again in a few minutes.'' s)
                      (\<lambda>_ s. (s, Inr u))))"

definition finish_mfa :: "env \<Rightarrow> auth_lib \<Rightarrow> time \<Rightarrow> string \<Rightarrow> user \<Rightarrow> string \<Rightarrow> srv \<Rightarrow> srv \<times> signin http" where
  "finish_mfa e lib now ip u used s =
     (let s1 = (reset_login ip (username u) s);
          s2 = s1\<lparr>srv_totp_user := reset_failures (user_id u) (srv_totp_user s1)\<rparr>;
          detail = [(vkey ''mfa'', Str used)] @
            (if used = ''recovery_code''
             then [(vkey ''recovery_codes_left'', VInt (case recovery_code_hashes u of None \<Rightarrow> 0 | Some hs \<Rightarrow> int (length hs)))] else [])
      in (audit_user now ''auth.login'' ''success'' u ip (Some detail) s2,
          Inr (SignedIn (to_out e (srv_db s2) u ''password'') (create_session_token lib now u ''password''))))"

text \<open>A code, a recovery code, or a passkey's answer to a challenge for signing in.\<close>

definition login_second ::
  "env \<Rightarrow> auth_lib \<Rightarrow> time \<Rightarrow> string \<Rightarrow> string option \<Rightarrow> factor \<Rightarrow> srv \<Rightarrow> srv \<times> signin http" where
  "login_second e lib now ip cookie f s =
     then_do (mfa_user lib now cookie ip s) (\<lambda>u s.
     then_do (check_second_factor e lib now u ip ''auth.login'' f s) (\<lambda>(u1, used) s. finish_mfa e lib now ip u1 used s))"

definition login_mfa ::
  "env \<Rightarrow> auth_lib \<Rightarrow> time \<Rightarrow> string \<Rightarrow> string option \<Rightarrow> string + string \<Rightarrow> srv \<Rightarrow> srv \<times> signin http" where
  "login_mfa e lib now ip cookie code s =
     login_second e lib now ip cookie (case code of Inl c \<Rightarrow> Totp c | Inr c \<Rightarrow> Recovery c) s"

definition login_passkey ::
  "env \<Rightarrow> auth_lib \<Rightarrow> time \<Rightarrow> string \<Rightarrow> string option \<Rightarrow> vars \<Rightarrow> srv \<Rightarrow> srv \<times> signin http" where
  "login_passkey e lib now ip cookie cred s = login_second e lib now ip cookie (Passkey cred ''login'') s"

text \<open>A challenge for one of the user's passkeys; the options themselves are the library's.\<close>

definition passkey_options :: "auth_lib \<Rightarrow> time \<Rightarrow> string \<Rightarrow> string \<Rightarrow> user \<Rightarrow> srv \<Rightarrow> srv \<times> unit http" where
  "passkey_options lib now challenge purpose u0 s =
     then_do (check_second_factor_throttle now u0 s) (\<lambda>_ s.
       case Option.bind (user_id u0) (get_user (srv_db s)) of
         None \<Rightarrow> refuse 500 ''Internal Server Error'' s
       | Some u \<Rightarrow>
           (case authentication_options lib now challenge purpose u of
              (u1, Inl x) \<Rightarrow> refuse 404 (passkey_message x) s
            | (u1, Inr _) \<Rightarrow> (on_db (put_user u1) s, Inr ())))"

definition login_passkey_options ::
  "auth_lib \<Rightarrow> time \<Rightarrow> string \<Rightarrow> string \<Rightarrow> string option \<Rightarrow> srv \<Rightarrow> srv \<times> unit http" where
  "login_passkey_options lib now challenge ip cookie s =
     then_do (mfa_user lib now cookie ip s) (\<lambda>u s. passkey_options lib now challenge ''login'' u s)"

definition logout :: "auth_lib \<Rightarrow> time \<Rightarrow> string \<Rightarrow> string option \<Rightarrow> srv \<Rightarrow> srv" where
  "logout lib now ip cookie s =
     (case authenticate_token lib now cookie (srv_db s) of
        None \<Rightarrow> s | Some u \<Rightarrow> audit_user now ''auth.logout'' ''success'' u ip None s)"

end
