(* ===== verification/Account.thy ===== *)
theory Account
  imports Login
begin

text \<open>
  The changes people make to their own account, from \<open>app/routers/auth.py\<close>: password, time-based codes,
  recovery codes and passkeys. \<open>u\<close> is the signed-in user's row. What ends other sessions is a higher
  \<open>session_version\<close>; the answer then carries a new token for this session.
\<close>

definition change_password ::
  "auth_lib \<Rightarrow> time \<Rightarrow> string \<Rightarrow> user \<Rightarrow> string \<Rightarrow> string \<Rightarrow> srv \<Rightarrow> srv \<times> string http" where
  "change_password lib now ip u old_password new_password s =
     then_do (check_current_password lib now ip u old_password ''auth.password_change'' s) (\<lambda>_ s.
       if lower new_password = lower (username u) then refuse 400 ''Password must not equal your username'' s
       else let u1 = u\<lparr>password_hash := al_hash_password lib new_password, session_version := session_version u + 1\<rparr> in
            (audit_user now ''auth.password_change'' ''success'' u1 ip None (on_db (put_user u1) s),
             Inr (create_session_token lib now u1 ''password'')))"

section \<open>Time-based codes\<close>

definition totp_setup :: "auth_lib \<Rightarrow> time \<Rightarrow> string \<Rightarrow> string \<Rightarrow> user \<Rightarrow> string \<Rightarrow> srv \<Rightarrow> srv \<times> string http" where
  "totp_setup lib now secret ip u password s =
     then_do (check_current_password lib now ip u password ''auth.totp_enable'' s) (\<lambda>_ s.
       if totp_secret u \<noteq> None then refuse 409 ''Two-factor login is already on'' s
       else (on_db (put_user (u\<lparr>totp_pending_secret := Some (al_encrypt lib secret)\<rparr>)) s, Inr secret))"

definition totp_enable ::
  "env \<Rightarrow> auth_lib \<Rightarrow> time \<Rightarrow> string list \<Rightarrow> string \<Rightarrow> user \<Rightarrow> string \<Rightarrow> srv \<Rightarrow> srv \<times> (string list option \<times> string) http" where
  "totp_enable e lib now raw ip u code s =
     (if totp_secret u \<noteq> None then refuse 409 ''Two-factor login is already on'' s
      else case totp_pending_secret u of
        None \<Rightarrow> refuse 400 ''Start the setup first'' s
      | Some pending \<Rightarrow>
          (case match_counter lib now (al_decrypt lib pending) code None of
             None \<Rightarrow> refuse 400 ''That code is not valid. Check the time on your device and try the next code.'' s
           | Some n \<Rightarrow>
               (case totp_enable_user e raw n u of
                  None \<Rightarrow> refuse 500 ''Internal Server Error'' s
                | Some (u1, codes) \<Rightarrow>
                    let u2 = u1\<lparr>session_version := session_version u1 + 1\<rparr> in
                    (audit_user now ''auth.totp_enable'' ''success'' u2 ip None (on_db (put_user u2) s),
                     Inr (codes, create_session_token lib now u2 ''password'')))))"

text \<open>An admin who must have a second factor keeps at least one.\<close>

definition refuse_removing_last_factor :: "env \<Rightarrow> user \<Rightarrow> string \<Rightarrow> srv \<Rightarrow> srv \<times> unit http" where
  "refuse_removing_last_factor e u removing s =
     (let left = (if totp_secret u \<noteq> None \<and> removing \<noteq> ''totp'' then 1 else 0) + int (length (passkeys u)) -
                 (if removing = ''passkey'' then 1 else 0)
      in if left = 0 \<and> admin_2fa_required e (srv_db s) u
         then refuse 409 ''Admins must keep a second factor here: add another one before removing this one'' s
         else (s, Inr ()))"

definition off_detail :: "user \<Rightarrow> vars" where
  "off_detail u = [(vkey ''two_factor_off'', VBool (\<not> two_factor_enabled u))]"

definition totp_disable ::
  "env \<Rightarrow> auth_lib \<Rightarrow> time \<Rightarrow> string \<Rightarrow> user \<Rightarrow> string \<Rightarrow> factor \<Rightarrow> srv \<Rightarrow> srv \<times> unit http" where
  "totp_disable e lib now ip u password f s =
     then_do (check_current_password lib now ip u password ''auth.totp_disable'' s) (\<lambda>_ s.
       if totp_secret u = None then (s, Inr ())
       else then_do (refuse_removing_last_factor e u ''totp'' s) (\<lambda>_ s.
            then_do (check_second_factor e lib now u ip ''auth.totp_disable'' f s) (\<lambda>(u1, used) s.
              let u2 = totp_clear u1 in
              (audit_user now ''auth.totp_disable'' ''success'' u2 ip (Some (off_detail u2)) (on_db (put_user u2) s), Inr ()))))"

definition regenerate_recovery_codes ::
  "env \<Rightarrow> auth_lib \<Rightarrow> time \<Rightarrow> string list \<Rightarrow> string \<Rightarrow> user \<Rightarrow> string \<Rightarrow> srv \<Rightarrow> srv \<times> string list http" where
  "regenerate_recovery_codes e lib now raw ip u password s =
     then_do (check_current_password lib now ip u password ''auth.recovery_codes_regenerate'' s) (\<lambda>_ s.
       if \<not> two_factor_enabled u then refuse 400 ''Two-factor login is off'' s
       else let (codes, hashes) = new_recovery_codes e raw; u1 = u\<lparr>recovery_code_hashes := Some hashes\<rparr> in
            (audit_user now ''auth.recovery_codes_regenerate'' ''success'' u1 ip None (on_db (put_user u1) s), Inr codes))"

section \<open>Passkeys\<close>

definition find_passkey :: "user \<Rightarrow> key_id \<Rightarrow> passkey option" where
  "find_passkey u i = find (\<lambda>p. pk_id p = i) (passkeys u)"

definition passkey_registration_options ::
  "auth_lib \<Rightarrow> time \<Rightarrow> string \<Rightarrow> string \<Rightarrow> string \<Rightarrow> user \<Rightarrow> string \<Rightarrow> srv \<Rightarrow> srv \<times> unit http" where
  "passkey_registration_options lib now handle challenge ip u password s =
     then_do (check_current_password lib now ip u password ''auth.passkey_add'' s) (\<lambda>_ s.
       case registration_options lib now handle challenge u of
         (u1, Inl PasskeysUnavailable) \<Rightarrow> refuse 404 (passkey_message PasskeysUnavailable) s
       | (u1, Inl x) \<Rightarrow> refuse 409 (passkey_message x) s
       | (u1, Inr _) \<Rightarrow> (on_db (put_user u1) s, Inr ()))"

definition new_passkey_row :: "key_id \<Rightarrow> string \<Rightarrow> new_passkey \<Rightarrow> passkey" where
  "new_passkey_row i name np =
     \<lparr>pk_id = i, pk_credential_id = np_credential_id np, pk_public_key = np_public_key np, pk_sign_count = np_sign_count np,
      pk_transports = np_transports np, pk_name = name, pk_aaguid = np_aaguid np, pk_backup_eligible = np_backup_eligible np,
      pk_backed_up = np_backed_up np, pk_last_used_at = None\<rparr>"

text \<open>A credential of any user; the first second factor brings recovery codes and ends other sessions.\<close>

definition credential_known :: "database \<Rightarrow> string \<Rightarrow> bool" where
  "credential_known db c = (\<exists>u \<in> set (users db). \<exists>p \<in> set (passkeys u). pk_credential_id p = c)"

definition add_passkey ::
  "env \<Rightarrow> auth_lib \<Rightarrow> time \<Rightarrow> string list \<Rightarrow> string \<Rightarrow> user \<Rightarrow> string \<Rightarrow> vars \<Rightarrow> srv \<Rightarrow>
   srv \<times> (passkey \<times> string list option \<times> string option) http" where
  "add_passkey e lib now raw ip u name cred s =
     (if \<exists>p \<in> set (passkeys u). pk_name p = name then refuse 409 ''You already have a passkey with that name'' s
      else case verify_registration lib now cred u of
        (u1, Inl x) \<Rightarrow>
          refuse 400 (passkey_message x)
            (audit_user now ''auth.passkey_add'' ''failure'' u1 ip (Some [(vkey ''reason'', Str (passkey_reason x))]) (on_db (put_user u1) s))
      | (u1, Inr np) \<Rightarrow>
          if credential_known (srv_db s) (np_credential_id np) then refuse 409 ''That passkey is already registered'' (on_db (put_user u1) s)
          else
            let first = (\<not> two_factor_enabled u1); p = new_passkey_row (next_passkey_id (srv_db s)) name np;
                (codes, hashes) = new_recovery_codes e raw;
                u2 = u1\<lparr>passkeys := passkeys u1 @ [p]\<rparr>;
                u3 = (if first then u2\<lparr>recovery_code_hashes := Some hashes, session_version := session_version u2 + 1\<rparr> else u2);
                s1 = on_db (\<lambda>db. (put_user u3 db)\<lparr>next_passkey_id := next_passkey_id db + 1\<rparr>) s
            in (audit_user now ''auth.passkey_add'' ''success'' u3 ip
                  (Some [(vkey ''passkey_id'', VInt (pk_id p)), (vkey ''name'', Str name), (vkey ''aaguid'', opt_str (pk_aaguid p))]) s1,
                Inr (p, if first then Some codes else None, if first then Some (create_session_token lib now u3 ''password'') else None)))"

definition rename_passkey :: "time \<Rightarrow> string \<Rightarrow> user \<Rightarrow> key_id \<Rightarrow> string \<Rightarrow> srv \<Rightarrow> srv \<times> passkey http" where
  "rename_passkey now ip u i new_name s =
     (case find_passkey u i of
        None \<Rightarrow> refuse 404 ''Passkey not found'' s
      | Some p \<Rightarrow>
          let name = strip new_name in
          if name = [] then refuse 422 ''A name is required'' s
          else if \<exists>q \<in> set (passkeys u). pk_name q = name \<and> pk_id q \<noteq> pk_id p then refuse 409 ''You already have a passkey with that name'' s
          else let u1 = u\<lparr>passkeys := update_rows (\<lambda>q. pk_id q = pk_id p) (\<lambda>q. q\<lparr>pk_name := name\<rparr>) (passkeys u)\<rparr> in
               (audit_user now ''auth.passkey_rename'' ''success'' u1 ip
                  (Some [(vkey ''passkey_id'', VInt (pk_id p)), (vkey ''name'', Str name), (vkey ''was'', Str (pk_name p))])
                  (on_db (put_user u1) s),
                Inr (p\<lparr>pk_name := name\<rparr>)))"

definition passkey_step_up_options :: "auth_lib \<Rightarrow> time \<Rightarrow> string \<Rightarrow> user \<Rightarrow> srv \<Rightarrow> srv \<times> unit http" where
  "passkey_step_up_options lib now challenge u s = passkey_options lib now challenge ''step_up'' u s"

definition remove_passkey ::
  "env \<Rightarrow> auth_lib \<Rightarrow> time \<Rightarrow> string \<Rightarrow> user \<Rightarrow> key_id \<Rightarrow> string \<Rightarrow> factor \<Rightarrow> srv \<Rightarrow> srv \<times> unit http" where
  "remove_passkey e lib now ip u i password f s =
     then_do (check_current_password lib now ip u password ''auth.passkey_remove'' s) (\<lambda>_ s.
       case find_passkey u i of
         None \<Rightarrow> refuse 404 ''Passkey not found'' s
       | Some p \<Rightarrow>
           then_do (refuse_removing_last_factor e u ''passkey'' s) (\<lambda>_ s.
           then_do (check_second_factor e lib now u ip ''auth.passkey_remove'' f s) (\<lambda>(u1, used) s.
             let u2 = u1\<lparr>passkeys := filter (\<lambda>q. pk_id q \<noteq> i) (passkeys u1)\<rparr>;
                 u3 = (if two_factor_enabled u2 then u2 else u2\<lparr>recovery_code_hashes := None\<rparr>) in
             (audit_user now ''auth.passkey_remove'' ''success'' u3 ip
                (Some ([(vkey ''passkey_id'', VInt (pk_id p)), (vkey ''name'', Str (pk_name p))] @ off_detail u3)) (on_db (put_user u3) s),
              Inr ()))))"

end
