(* ===== verification/Account_Facts.thy ===== *)
theory Account_Facts
  imports Account Run_Log
begin

text \<open>
  What signing in and account changes guarantee: a session comes from every factor the user has, attempts
  are throttled without looking at the password, and a session that was ended stays ended.
\<close>

section \<open>What changes\<close>

lemma then_do_Inl: "then_do m k = (s', Inl x) \<longleftrightarrow> m = (s', Inl x) \<or> (\<exists>a s1. m = (s1, Inr a) \<and> k a s1 = (s', Inl x))"
  by (cases m; cases "snd m") auto

lemma then_do_Inr: "then_do m k = (s', Inr b) \<longleftrightarrow> (\<exists>a s1. m = (s1, Inr a) \<and> k a s1 = (s', Inr b))"
  by (cases m; cases "snd m") auto

lemma login_blocked_db [simp]: "srv_db (fst (login_blocked now ip name s)) = srv_db s"
  by (simp add: login_blocked_def Let_def case_prod_unfold)

lemma record_login_failure_db [simp]: "srv_db (fst (record_login_failure now ip name s)) = srv_db s"
  by (simp add: record_login_failure_def)

lemma record_factor_failure_db [simp]: "srv_db (fst (record_factor_failure now ip u s)) = srv_db s"
  by (simp add: record_factor_failure_def Let_def case_prod_unfold)

lemma reset_login_db [simp]: "srv_db (reset_login ip name s) = srv_db s"
  by (simp add: reset_login_def)

lemma raise_if_throttled_db [simp]: "srv_db (fst (raise_if_throttled now ip name msg s)) = srv_db s"
  by (simp add: raise_if_throttled_def case_prod_unfold)

lemma check_throttle_db [simp]: "srv_db (fst (check_second_factor_throttle now u s)) = srv_db s"
  by (simp add: check_second_factor_throttle_def Let_def case_prod_unfold)

lemma users_audit [simp]: "users (audit_record now a db) = users db"
  using static_audit(2) [of now a db] unfolding static_part_def by (elim Pair_inject) simp

lemma users_audit_user [simp]: "users (srv_db (audit_user now action out u ip d s)) = users (srv_db s)"
  by (simp add: audit_user_def on_db_def)

lemma on_db_db [simp]: "srv_db (on_db f s) = f (srv_db s)"
  by (simp add: on_db_def)

section \<open>How a row may change\<close>

text \<open>Recovery codes are there only beside a second factor.\<close>

definition row_ok :: "user \<Rightarrow> bool" where
  "row_ok u \<longleftrightarrow> (recovery_code_hashes u \<noteq> None \<longrightarrow> two_factor_enabled u)"

text \<open>Sessions of a user end when the password changes and when a first second factor is added, and only end.\<close>

definition row_evolves :: "user \<Rightarrow> user \<Rightarrow> bool" where
  "row_evolves u u' \<longleftrightarrow>
     user_id u' = user_id u \<and> username u' = username u \<and> is_active u' = is_active u \<and> session_version u \<le> session_version u' \<and>
     (password_hash u' \<noteq> password_hash u \<longrightarrow> session_version u < session_version u') \<and>
     (\<not> two_factor_enabled u \<and> two_factor_enabled u' \<longrightarrow> session_version u < session_version u') \<and> (row_ok u \<longrightarrow> row_ok u')"

lemma row_evolves_refl [simp]: "row_evolves u u"
  by (simp add: row_evolves_def)

lemma row_evolves_trans: "row_evolves u u1 \<Longrightarrow> row_evolves u1 u2 \<Longrightarrow> row_evolves u u2"
proof -
  assume a: "row_evolves u u1" "row_evolves u1 u2"
  have le: "session_version u \<le> session_version u1" "session_version u1 \<le> session_version u2" using a by (simp_all add: row_evolves_def)
  have "session_version u < session_version u2" if "password_hash u2 \<noteq> password_hash u"
    using a le that by (cases "password_hash u1 = password_hash u") (simp_all add: row_evolves_def)
  moreover have "session_version u < session_version u2" if "\<not> two_factor_enabled u" "two_factor_enabled u2"
    using a le that by (cases "two_factor_enabled u1") (simp_all add: row_evolves_def)
  ultimately show ?thesis using a le by (simp add: row_evolves_def)
qed

definition users_evolve :: "database \<Rightarrow> database \<Rightarrow> bool" where
  "users_evolve db db' \<longleftrightarrow> list_all2 row_evolves (users db) (users db')"

definition user_ids_ok :: "database \<Rightarrow> bool" where
  "user_ids_ok db \<longleftrightarrow> distinct (map user_id (users db))"

lemma users_evolve_same: "users db' = users db \<Longrightarrow> users_evolve db db'"
  by (simp add: users_evolve_def list_all2_same)

lemma users_evolve_trans: "users_evolve db d \<Longrightarrow> users_evolve d db' \<Longrightarrow> users_evolve db db'"
  unfolding users_evolve_def by (rule list_all2_trans [OF row_evolves_trans])

lemma users_evolve_ids: "users_evolve db db' \<Longrightarrow> map user_id (users db') = map user_id (users db)"
  unfolding users_evolve_def by (induction rule: list_all2_induct) (simp_all add: row_evolves_def)

lemma get_user_Some: "get_user db i = Some u \<Longrightarrow> u \<in> set (users db) \<and> user_id u = Some i"
  by (auto simp: get_user_def dest: get_row_Some)

lemma put_user_evolves:
  assumes "user_ids_ok db" and "get_user db i = Some u" and "row_evolves u u'"
  shows "users_evolve db (put_user u' db)"
proof -
  have u: "u \<in> set (users db)" "user_id u = Some i" using get_user_Some [OF assms(2)] by simp_all
  have "row_evolves x (if user_id x = user_id u' then u' else x)" if "x \<in> set (users db)" for x
  proof (cases "user_id x = user_id u'")
    case True
    moreover have "user_id u' = user_id u" using assms(3) by (simp add: row_evolves_def)
    moreover have "inj_on user_id (set (users db))" using assms(1) by (simp add: user_ids_ok_def distinct_map)
    ultimately have "x = u" using that u(1) by (simp add: inj_on_def)
    then show ?thesis using assms(3) True by simp
  qed simp
  then have "list_all2 row_evolves (users db) (map (\<lambda>x. if user_id x = user_id u' then u' else x) (users db))"
    by (simp add: list.rel_map list_all2_same)
  then show ?thesis by (simp add: users_evolve_def put_user_def update_rows_def)
qed

lemma get_put_user:
  assumes "get_user db i = Some u" and "user_id u' = user_id u"
  shows "get_user (put_user u' db) i = Some u'"
proof -
  have id: "user_id u' = Some i" using assms get_user_Some by simp
  have "get_row user_id (update_rows (\<lambda>x. user_id x = user_id u') (\<lambda>_. u') xs) (Some i) = Some u'"
    if "\<exists>x \<in> set xs. user_id x = Some i" for xs
    using that id by (induction xs) (auto simp: get_row_def update_rows_def)
  then show ?thesis using get_user_Some [OF assms(1)] by (simp add: get_user_def put_user_def) blast
qed

lemma put_again: "user_id u2 = user_id u1 \<Longrightarrow> users (put_user u2 (put_user u1 db)) = users (put_user u2 db)"
  by (simp add: put_user_def update_rows_def)

section \<open>Proofs of identity\<close>

lemma check_current_password_users: "check_current_password lib now ip u pw action s = (s', r) \<Longrightarrow> users (srv_db s') = users (srv_db s)"
proof -
  assume c: "check_current_password lib now ip u pw action s = (s', r)"
  obtain s1 x where r: "raise_if_throttled now ip (username u) ''Too many failed password attempts. Try again in a few minutes.'' s = (s1, x)"
    by fastforce
  have "srv_db s1 = srv_db s" using raise_if_throttled_db r by (metis fst_conv)
  moreover have "users (srv_db s') = users (srv_db s1)"
    using c r record_login_failure_db by (cases x) (auto simp: check_current_password_def case_prod_unfold split: if_splits)
  ultimately show ?thesis by simp
qed

text \<open>Using a factor, or failing to, changes nothing else of the row.\<close>

lemma passkeys_updated: "update_rows p f pks = [] \<longleftrightarrow> pks = []"
  by (simp add: update_rows_def)

lemma use_second_factor_row: "use_second_factor e lib now code rec u = (u1, m) \<Longrightarrow> row_evolves u u1 \<and> session_version u1 = session_version u \<and> two_factor_enabled u1 = two_factor_enabled u"
  using use_second_factor_accepted [of e lib now code rec u u1] use_second_factor_refused [of e lib now code rec u u1]
  by (cases m) (auto simp: row_evolves_def row_ok_def two_factor_enabled_def)

lemma verify_assertion_row:
  "verify_assertion lib now cred purpose u = (u1, r) \<Longrightarrow> row_evolves u u1 \<and> session_version u1 = session_version u \<and> two_factor_enabled u1 = two_factor_enabled u"
  by (auto simp: verify_assertion_def take_challenge_def row_evolves_def row_ok_def two_factor_enabled_def passkeys_updated
      split: option.splits if_splits)

lemma try_factor_row:
  "try_factor e lib now f u = (u1, r) \<Longrightarrow> row_evolves u u1 \<and> session_version u1 = session_version u \<and> two_factor_enabled u1 = two_factor_enabled u"
  by (cases f) (auto simp: try_factor_def split: prod.splits option.splits sum.splits dest: use_second_factor_row verify_assertion_row)

lemma check_second_factor_spec:
  assumes "check_second_factor e lib now u0 ip action f s = (s', r)" and "user_ids_ok (srv_db s)"
  shows "users_evolve (srv_db s) (srv_db s')"
    and "r = Inr (u1, m) \<Longrightarrow> \<exists>i u. user_id u0 = Some i \<and> get_user (srv_db s) i = Some u \<and> try_factor e lib now f u = (u1, Inr m) \<and>
      users (srv_db s') = users (put_user u1 (srv_db s))"
proof -
  obtain s1 x where t: "check_second_factor_throttle now u0 s = (s1, x)" by fastforce
  have db: "srv_db s1 = srv_db s" using check_throttle_db t by (metis fst_conv)
  have "users_evolve (srv_db s) (srv_db s') \<and> (r = Inr (u1, m) \<longrightarrow> (\<exists>i u. user_id u0 = Some i \<and> get_user (srv_db s) i = Some u \<and>
      try_factor e lib now f u = (u1, Inr m) \<and> users (srv_db s') = users (put_user u1 (srv_db s))))"
  proof (cases x)
    case (Inl err)
    then show ?thesis using assms(1) t db by (auto simp: check_second_factor_def users_evolve_same)
  next
    case (Inr a)
    show ?thesis
    proof (cases "Option.bind (user_id u0) (get_user (srv_db s1))")
      case None
      then show ?thesis using assms(1) t db Inr by (auto simp: check_second_factor_def users_evolve_same)
    next
      case (Some u)
      then obtain i where i: "user_id u0 = Some i" "get_user (srv_db s) i = Some u" using db by (cases "user_id u0") auto
      obtain u2 out where f: "try_factor e lib now f u = (u2, out)" by fastforce
      have ev: "users_evolve (srv_db s) (put_user u2 (srv_db s))"
        using put_user_evolves [OF assms(2) i(2)] try_factor_row [OF f] by blast
      show ?thesis
      proof (cases out)
        case (Inl problem)
        have "users (srv_db s') = users (put_user u2 (srv_db s))"
          using assms(1) t Inr Some f Inl db record_factor_failure_db
          by (auto simp: check_second_factor_def case_prod_unfold on_db_def)
        moreover have "r \<noteq> Inr (u1, m)" using assms(1) t Inr Some f Inl by (auto simp: check_second_factor_def case_prod_unfold)
        ultimately show ?thesis using ev by (simp add: users_evolve_def)
      next
        case (Inr m2)
        then have "srv_db s' = put_user u2 (srv_db s)" "r = Inr (u2, m2)"
          using assms(1) t \<open>x = Inr a\<close> Some f db by (auto simp: check_second_factor_def on_db_def)
        then show ?thesis using ev i f Inr by auto
      qed
    qed
  qed
  then show "users_evolve (srv_db s) (srv_db s')"
    and "r = Inr (u1, m) \<Longrightarrow> \<exists>i u. user_id u0 = Some i \<and> get_user (srv_db s) i = Some u \<and> try_factor e lib now f u = (u1, Inr m) \<and>
      users (srv_db s') = users (put_user u1 (srv_db s))" by blast+
qed

section \<open>Signing in\<close>

lemma raise_if_throttled_Inr: "raise_if_throttled now ip name msg s = (s', Inr x) \<Longrightarrow> \<not> snd (login_blocked now ip name s) \<and> srv_db s' = srv_db s"
  using login_blocked_db [of now ip name s] by (auto simp: raise_if_throttled_def case_prod_unfold split: if_splits)

lemma mfa_user_Inr:
  assumes "mfa_user lib now cookie ip s = (s', Inr u)"
  shows "\<exists>c i v. cookie = Some c \<and> verify_mfa_token lib now c = Some (i, v) \<and> get_user (srv_db s) i = Some u \<and> is_active u \<and>
    session_version u = v \<and> two_factor_enabled u \<and> srv_db s' = srv_db s \<and> \<not> snd (login_blocked now ip (username u) s)"
  using assms by (auto simp: mfa_user_def then_do_Inr split: option.splits if_splits dest!: raise_if_throttled_Inr)

lemma mfa_user_db: "srv_db (fst (mfa_user lib now cookie ip s)) = srv_db s"
proof -
  have "srv_db (fst (then_do (raise_if_throttled now ip name msg s) (\<lambda>_ s. (s, Inr u)))) = srv_db s" for name msg and u :: user
    using raise_if_throttled_db [of now ip name msg s] by (cases "raise_if_throttled now ip name msg s"; cases "snd (raise_if_throttled now ip name msg s)") auto
  then show ?thesis by (simp add: mfa_user_def split: option.split prod.split)
qed

text \<open>Answers of a password, and of a second factor.\<close>

lemma login_Inr:
  assumes "login e lib dummy now ip name pw s = (s', Inr a)"
  shows "\<not> snd (login_blocked now ip name s) \<and> (\<exists>u. find (\<lambda>x. username x = name) (users (srv_db s)) = Some u \<and> is_active u \<and>
    al_verify_password lib pw (password_hash u) \<and>
    (if two_factor_enabled u
     then a = MfaChallenge (second_factor_methods lib u) (create_mfa_token lib now u) \<and> srv_db s' = srv_db s
     else a = SignedIn (to_out e (srv_db s) u ''password'') (create_session_token lib now u ''password'')))"
proof -
  obtain s1 where t: "raise_if_throttled now ip name ''Too many failed login attempts. Try again in a few minutes.'' s = (s1, Inr ())"
    using assms by (auto simp: login_def then_do_Inr)
  show ?thesis using assms raise_if_throttled_Inr [OF t] t
    by (auto simp: login_def failed_login_def Let_def case_prod_unfold split: option.splits if_splits)
qed

lemma finish_mfa_out: "snd (finish_mfa e lib now ip u used s) =
    Inr (SignedIn (to_out e (srv_db s) u ''password'') (create_session_token lib now u ''password''))"
  by (simp add: finish_mfa_def Let_def)

lemma finish_mfa_users [simp]: "users (srv_db (fst (finish_mfa e lib now ip u used s))) = users (srv_db s)"
  by (simp add: finish_mfa_def Let_def)

lemma login_second_Inr:
  assumes "login_second e lib now ip cookie f s = (s', Inr a)" and "user_ids_ok (srv_db s)"
  shows "\<exists>c i u u1 m out. cookie = Some c \<and> verify_mfa_token lib now c = Some (i, session_version u) \<and> get_user (srv_db s) i = Some u \<and>
    is_active u \<and> two_factor_enabled u \<and> \<not> snd (login_blocked now ip (username u) s) \<and> try_factor e lib now f u = (u1, Inr m) \<and>
    get_user (srv_db s') i = Some u1 \<and> a = SignedIn out (create_session_token lib now u1 ''password'')"
proof -
  obtain u s1 u1 m s2 where m: "mfa_user lib now cookie ip s = (s1, Inr u)"
    and f: "check_second_factor e lib now u ip ''auth.login'' f s1 = (s2, Inr (u1, m))"
    and fin: "finish_mfa e lib now ip u1 m s2 = (s', Inr a)"
    using assms(1) by (auto simp: login_second_def then_do_Inr)
  obtain c i where c: "cookie = Some c" "verify_mfa_token lib now c = Some (i, session_version u)" "get_user (srv_db s) i = Some u"
      "is_active u" "two_factor_enabled u" "srv_db s1 = srv_db s" "\<not> snd (login_blocked now ip (username u) s)"
    using mfa_user_Inr [OF m] by blast
  obtain j v where f': "user_id u = Some j" "get_user (srv_db s) j = Some v" "try_factor e lib now f v = (u1, Inr m)"
      "users (srv_db s2) = users (put_user u1 (srv_db s))"
    using check_second_factor_spec(2) [OF f, of u1 m] assms(2) c(6) by auto
  have v: "j = i" "v = u" using f'(1,2) c(3) get_user_Some [OF c(3)] by auto
  have "user_id u1 = user_id u" using try_factor_row [OF f'(3)] v by (simp add: row_evolves_def)
  then have "get_user (put_user u1 (srv_db s)) i = Some u1" by (rule get_put_user [OF c(3)])
  moreover have "users (srv_db s') = users (put_user u1 (srv_db s))" using fin finish_mfa_users [of e lib now ip u1 m s2] f'(4) by simp
  ultimately have "get_user (srv_db s') i = Some u1" by (simp add: get_user_def)
  then show ?thesis using c f' v fin finish_mfa_out [of e lib now ip u1 m s2] by auto
qed

text \<open>What the signed tokens promise: the salt is part of the key, and a token always says the same.\<close>

definition salts_apart :: "auth_lib \<Rightarrow> bool" where
  "salts_apart lib \<longleftrightarrow> (\<forall>salt salt' age now now' d. salt' \<noteq> salt \<longrightarrow> al_loads lib salt' age now' (al_dumps lib salt now d) = None)"

definition tokens_stable :: "auth_lib \<Rightarrow> bool" where
  "tokens_stable lib \<longleftrightarrow> (\<forall>salt age age' now now' t d d' issued issued'.
     al_loads lib salt age now t = Some (d, issued) \<and> al_loads lib salt age' now' t = Some (d', issued') \<longrightarrow> d' = d)"

lemma mfa_token_no_session:
  assumes "salts_apart lib"
  shows "authenticate_token lib now' (Some (create_mfa_token lib now u)) db = None"
proof -
  have "SESSION_SALT \<noteq> MFA_SALT" by (simp add: SESSION_SALT_def MFA_SALT_def)
  then have "verify_session_token lib now' (create_mfa_token lib now u) = None"
    using assms by (simp add: salts_apart_def verify_session_token_def load_user_token_def create_mfa_token_def)
  then show ?thesis by (simp add: authenticate_token_def)
qed

section \<open>Account changes\<close>

lemma same_users:
  assumes "users db' = users db"
  shows "get_user db' = get_user db" "user_ids_ok db' = user_ids_ok db" "users_evolve db' = users_evolve db"
    "users (put_user u db') = users (put_user u db)"
  using assms by (simp_all add: get_user_def user_ids_ok_def users_evolve_def put_user_def fun_eq_iff)

text \<open>What follows a check of the password starts from the same rows.\<close>

lemma password_then:
  assumes "then_do (check_current_password lib now ip u pw action s) k = (s', r)"
    and ids: "user_ids_ok (srv_db s)" and u: "get_user (srv_db s) i = Some u"
    and k: "\<And>s1. user_ids_ok (srv_db s1) \<Longrightarrow> get_user (srv_db s1) i = Some u \<Longrightarrow> users_evolve (srv_db s1) (srv_db (fst (k () s1)))"
  shows "users_evolve (srv_db s) (srv_db s')"
proof -
  obtain s1 x where c: "check_current_password lib now ip u pw action s = (s1, x)" by fastforce
  note same = same_users [OF check_current_password_users [OF c]]
  show ?thesis
  proof (cases x)
    case (Inl err)
    then show ?thesis using assms(1) c users_evolve_same check_current_password_users [OF c] by simp
  next
    case (Inr a)
    then have "fst (k () s1) = s'" using assms(1) c by simp
    then show ?thesis using k [of s1] ids u same by simp
  qed
qed

lemma put_step:
  assumes "users (srv_db s') = users (put_user u' (srv_db s))" and "get_user (srv_db s) i = Some u" and "user_ids_ok (srv_db s)"
    and "row_evolves u u'"
  shows "users_evolve (srv_db s) (srv_db s')"
  using put_user_evolves [OF assms(3,2,4)] assms(1) by (simp add: users_evolve_def)

lemma row_step:
  assumes "users (srv_db s') = users (srv_db s) \<or> (\<exists>u'. users (srv_db s') = users (put_user u' (srv_db s)) \<and> row_evolves u u')"
    and "get_user (srv_db s) i = Some u" and "user_ids_ok (srv_db s)"
  shows "users_evolve (srv_db s) (srv_db s')"
  using assms put_step users_evolve_same by blast

text \<open>A row that was proved by a second factor and then changed.\<close>

lemma factor_then:
  assumes "then_do (check_second_factor e lib now u ip action f s) k = (s', r)"
    and ids: "user_ids_ok (srv_db s)" and u: "get_user (srv_db s) i = Some u"
    and k: "\<And>u1 m s1. \<exists>u2. users (srv_db (fst (k (u1, m) s1))) = users (put_user u2 (srv_db s1)) \<and> row_evolves u1 u2"
  shows "users_evolve (srv_db s) (srv_db s')"
proof -
  obtain s1 x where c: "check_second_factor e lib now u ip action f s = (s1, x)" by fastforce
  show ?thesis
  proof (cases x)
    case (Inl err)
    then show ?thesis using assms(1) c check_second_factor_spec(1) [OF c ids] by simp
  next
    case (Inr um)
    obtain u1 m where um: "um = (u1, m)" by fastforce
    obtain j v where v: "user_id u = Some j" "get_user (srv_db s) j = Some v" "try_factor e lib now f v = (u1, Inr m)"
        "users (srv_db s1) = users (put_user u1 (srv_db s))"
      using check_second_factor_spec(2) [OF c ids, of u1 m] Inr um by blast
    obtain u2 where u2: "users (srv_db (fst (k (u1, m) s1))) = users (put_user u2 (srv_db s1))" "row_evolves u1 u2" using k by blast
    have "user_id u2 = user_id u1" using u2(2) by (simp add: row_evolves_def)
    then have "users (put_user u2 (srv_db s1)) = users (put_user u2 (srv_db s))"
      using same_users(4) [OF v(4)] put_again by simp
    moreover have "fst (k (u1, m) s1) = s'" using assms(1) c Inr um by simp
    ultimately have "users (srv_db s') = users (put_user u2 (srv_db s))" using u2(1) by simp
    moreover have "row_evolves v u2" using row_evolves_trans try_factor_row [OF v(3)] u2(2) by blast
    ultimately show ?thesis by (rule put_step [OF _ v(2) ids])
  qed
qed

text \<open>Every handler changes rows this way only.\<close>

lemmas row_defs = row_evolves_def row_ok_def two_factor_enabled_def

lemma change_password_evolves:
  assumes "change_password lib now ip u old_pw new_pw s = (s', r)" and "user_ids_ok (srv_db s)" and "get_user (srv_db s) i = Some u"
  shows "users_evolve (srv_db s) (srv_db s')"
proof (rule password_then [OF assms(1) [unfolded change_password_def] assms(2,3)], goal_cases)
  case (1 s1)
  show ?case by (rule row_step [OF _ 1(2,1)]) (auto simp: Let_def row_defs)
qed

lemma totp_setup_evolves:
  assumes "totp_setup lib now secret ip u pw s = (s', r)" and "user_ids_ok (srv_db s)" and "get_user (srv_db s) i = Some u"
  shows "users_evolve (srv_db s) (srv_db s')"
proof (rule password_then [OF assms(1) [unfolded totp_setup_def] assms(2,3)], goal_cases)
  case (1 s1)
  show ?case by (rule row_step [OF _ 1(2,1)]) (auto simp: row_defs)
qed

lemma totp_enable_evolves:
  assumes "totp_enable e lib now raw ip u code s = (s', r)" and "user_ids_ok (srv_db s)" and "get_user (srv_db s) i = Some u"
  shows "users_evolve (srv_db s) (srv_db s')"
proof (rule row_step [OF _ assms(3,2)])
  show "users (srv_db s') = users (srv_db s) \<or> (\<exists>u'. users (srv_db s') = users (put_user u' (srv_db s)) \<and> row_evolves u u')"
    using assms(1) by (cases "totp_secret u"; cases "passkeys u")
      (auto simp: totp_enable_def totp_enable_user_def new_recovery_codes_def Let_def row_defs split: if_splits option.splits)
qed

lemma regenerate_evolves:
  assumes "regenerate_recovery_codes e lib now raw ip u pw s = (s', r)" and "user_ids_ok (srv_db s)" and "get_user (srv_db s) i = Some u"
  shows "users_evolve (srv_db s) (srv_db s')"
proof (rule password_then [OF assms(1) [unfolded regenerate_recovery_codes_def] assms(2,3)], goal_cases)
  case (1 s1)
  show ?case by (rule row_step [OF _ 1(2,1)]) (auto simp: new_recovery_codes_def Let_def row_defs)
qed

lemma refuse_removing_then:
  assumes "\<And>s1. srv_db s1 = srv_db s \<Longrightarrow> users_evolve (srv_db s1) (srv_db (fst (k () s1)))"
  shows "users_evolve (srv_db s) (srv_db (fst (then_do (refuse_removing_last_factor e u removing s) k)))"
  using assms [of s] by (simp add: refuse_removing_last_factor_def Let_def users_evolve_same)

lemma totp_disable_evolves:
  assumes "totp_disable e lib now ip u pw f s = (s', r)" and "user_ids_ok (srv_db s)" and "get_user (srv_db s) i = Some u"
  shows "users_evolve (srv_db s) (srv_db s')"
proof (rule password_then [OF assms(1) [unfolded totp_disable_def] assms(2,3)], goal_cases)
  case (1 s1)
  have "users_evolve (srv_db s2) (srv_db (fst (then_do (check_second_factor e lib now u ip ''auth.totp_disable'' f s2) (\<lambda>(u1, used) s.
      let u2 = totp_clear u1 in
      (audit_user now ''auth.totp_disable'' ''success'' u2 ip (Some (off_detail u2)) (on_db (put_user u2) s), Inr ())))))"
    if "srv_db s2 = srv_db s1" for s2
    by (rule factor_then [OF prod.collapse [symmetric]])
      (use 1 that in \<open>auto simp: Let_def totp_clear_def row_defs\<close>)
  then show ?case by (cases "totp_secret u") (auto simp: users_evolve_same intro: refuse_removing_then)
qed

lemma remove_passkey_evolves:
  assumes "remove_passkey e lib now ip u pk pw f s = (s', r)" and "user_ids_ok (srv_db s)" and "get_user (srv_db s) i = Some u"
  shows "users_evolve (srv_db s) (srv_db s')"
proof (rule password_then [OF assms(1) [unfolded remove_passkey_def] assms(2,3)], goal_cases)
  case (1 s1)
  show ?case
  proof (cases "find_passkey u pk")
    case None
    then show ?thesis by (simp add: users_evolve_same)
  next
    case (Some p)
    have "users_evolve (srv_db s2) (srv_db (fst (then_do (check_second_factor e lib now u ip ''auth.passkey_remove'' f s2) (\<lambda>(u1, used) s.
      let u2 = u1\<lparr>passkeys := filter (\<lambda>q. pk_id q \<noteq> pk) (passkeys u1)\<rparr>;
          u3 = (if two_factor_enabled u2 then u2 else u2\<lparr>recovery_code_hashes := None\<rparr>) in
      (audit_user now ''auth.passkey_remove'' ''success'' u3 ip
         (Some ([(vkey ''passkey_id'', VInt (pk_id p)), (vkey ''name'', Str (pk_name p))] @ off_detail u3)) (on_db (put_user u3) s), Inr ())))))"
      if "srv_db s2 = srv_db s1" for s2
      by (rule factor_then [OF prod.collapse [symmetric]])
        (use 1 that in \<open>auto simp: Let_def row_defs\<close>)
    then show ?thesis using Some by (auto intro: refuse_removing_then)
  qed
qed

lemma registration_options_evolves:
  assumes "passkey_registration_options lib now handle challenge ip u pw s = (s', r)" and "user_ids_ok (srv_db s)"
    and "get_user (srv_db s) i = Some u"
  shows "users_evolve (srv_db s) (srv_db s')"
proof (rule password_then [OF assms(1) [unfolded passkey_registration_options_def] assms(2,3)], goal_cases)
  case (1 s1)
  show ?case
    by (rule row_step [OF _ 1(2,1)])
      (auto simp: registration_options_def store_challenge_def Let_def row_defs split: prod.splits sum.splits passkey_error.splits if_splits)
qed

lemma verify_registration_row: "verify_registration lib now cred u = (u1, x) \<Longrightarrow> u1 = u \<or> u1 = u\<lparr>webauthn_pending := None\<rparr>"
  by (auto simp: verify_registration_def take_challenge_def split: option.splits sum.splits if_splits)

lemma users_next_passkey [simp]: "users (db\<lparr>next_passkey_id := n\<rparr>) = users db"
  by simp

lemma add_passkey_evolves:
  assumes "add_passkey e lib now raw ip u name cred s = (s', r)" and "user_ids_ok (srv_db s)" and "get_user (srv_db s) i = Some u"
  shows "users_evolve (srv_db s) (srv_db s')"
proof (rule row_step [OF _ assms(3,2)])
  obtain u1 x where v: "verify_registration lib now cred u = (u1, x)" by fastforce
  then show "users (srv_db s') = users (srv_db s) \<or> (\<exists>u'. users (srv_db s') = users (put_user u' (srv_db s)) \<and> row_evolves u u')"
    using assms(1) verify_registration_row [OF v]
    by (cases x) (auto simp: add_passkey_def new_recovery_codes_def Let_def row_defs split: if_splits)
qed

lemma rename_passkey_evolves:
  assumes "rename_passkey now ip u pk name s = (s', r)" and "user_ids_ok (srv_db s)" and "get_user (srv_db s) i = Some u"
  shows "users_evolve (srv_db s) (srv_db s')"
  by (rule row_step [OF _ assms(3,2)])
    (use assms(1) in \<open>auto simp: rename_passkey_def Let_def row_defs passkeys_updated split: option.splits if_splits\<close>)

lemma passkey_options_evolves:
  assumes "passkey_options lib now challenge purpose u s = (s', r)" and "user_ids_ok (srv_db s)"
  shows "users_evolve (srv_db s) (srv_db s')"
proof -
  obtain s1 x where t: "check_second_factor_throttle now u s = (s1, x)" by fastforce
  have db: "srv_db s1 = srv_db s" using check_throttle_db t by (metis fst_conv)
  show ?thesis
  proof (cases "x = Inr () \<and> Option.bind (user_id u) (get_user (srv_db s)) \<noteq> None")
    case True
    then obtain i v where v: "user_id u = Some i" "get_user (srv_db s) i = Some v" by (cases "user_id u") auto
    show ?thesis
      by (rule row_step [OF _ v(2) assms(2)])
        (use assms(1) t db True v in \<open>auto simp: passkey_options_def authentication_options_def store_challenge_def row_defs split: if_splits\<close>)
  next
    case False
    then have "srv_db s' = srv_db s1" using assms(1) t db by (cases x) (auto simp: passkey_options_def)
    then show ?thesis using db by (simp add: users_evolve_same)
  qed
qed

lemma login_users: "login e lib dummy now ip name pw s = (s', r) \<Longrightarrow> users (srv_db s') = users (srv_db s)"
proof -
  assume l: "login e lib dummy now ip name pw s = (s', r)"
  obtain s1 x where t: "raise_if_throttled now ip name ''Too many failed login attempts. Try again in a few minutes.'' s = (s1, x)" by fastforce
  have db: "srv_db s1 = srv_db s" using raise_if_throttled_db t by (metis fst_conv)
  have f: "users (srv_db s2) = users (srv_db s1)" if "failed_login now ip name who ok s1 = (s2, x2)" for who ok s2 x2
    using that record_login_failure_db [of now ip name s1] by (auto simp: failed_login_def case_prod_unfold)
  show ?thesis using l t db f by (cases x) (auto simp: login_def Let_def dest: f split: option.splits if_splits)
qed

lemma login_second_evolves:
  assumes "login_second e lib now ip cookie f s = (s', r)" and "user_ids_ok (srv_db s)"
  shows "users_evolve (srv_db s) (srv_db s')"
proof -
  obtain s1 x where m: "mfa_user lib now cookie ip s = (s1, x)" by fastforce
  have db: "srv_db s1 = srv_db s" using mfa_user_db m by (metis fst_conv)
  show ?thesis
  proof (cases x)
    case (Inl err)
    then show ?thesis using assms(1) m db by (simp add: login_second_def users_evolve_same)
  next
    case (Inr u)
    obtain s2 y where c: "check_second_factor e lib now u ip ''auth.login'' f s1 = (s2, y)" by fastforce
    have ev: "users_evolve (srv_db s) (srv_db s2)" using check_second_factor_spec(1) [OF c] assms(2) db by simp
    have "users (srv_db s') = users (srv_db s2)"
    proof (cases y)
      case (Inr um)
      obtain u1 w where "um = (u1, w)" by fastforce
      then have "s' = fst (finish_mfa e lib now ip u1 w s2)" using assms(1) m \<open>x = Inr u\<close> c Inr by (simp add: login_second_def)
      then show ?thesis by simp
    qed (use assms(1) m Inr c in \<open>simp add: login_second_def\<close>)
    then show ?thesis using ev by (simp add: users_evolve_def)
  qed
qed

lemma login_passkey_options_evolves:
  assumes "login_passkey_options lib now challenge ip cookie s = (s', r)" and "user_ids_ok (srv_db s)"
  shows "users_evolve (srv_db s) (srv_db s')"
proof -
  obtain s1 x where m: "mfa_user lib now cookie ip s = (s1, x)" by fastforce
  have db: "srv_db s1 = srv_db s" using mfa_user_db m by (metis fst_conv)
  then show ?thesis using assms m passkey_options_evolves [of lib now challenge "''login''" _ s1 s' r]
    by (cases x) (auto simp: login_passkey_options_def users_evolve_same)
qed

section \<open>Any sequence of requests\<close>

text \<open>A request for one's own account finds the row of its session.\<close>

inductive account_step :: "env \<Rightarrow> auth_lib \<Rightarrow> srv \<Rightarrow> srv \<Rightarrow> bool" for e lib where
  login: "login e lib dummy now ip name pw s = (s', r) \<Longrightarrow> account_step e lib s s'"
| login_mfa: "login_mfa e lib now ip cookie code s = (s', r) \<Longrightarrow> account_step e lib s s'"
| login_passkey_options: "login_passkey_options lib now challenge ip cookie s = (s', r') \<Longrightarrow> account_step e lib s s'"
| login_passkey: "login_passkey e lib now ip cookie cred s = (s', r) \<Longrightarrow> account_step e lib s s'"
| logout: "logout lib now ip cookie s = s' \<Longrightarrow> account_step e lib s s'"
| change_password: "get_user (srv_db s) i = Some u \<Longrightarrow> change_password lib now ip u pw new_pw s = (s', r1) \<Longrightarrow> account_step e lib s s'"
| totp_setup: "get_user (srv_db s) i = Some u \<Longrightarrow> totp_setup lib now secret ip u pw s = (s', r2) \<Longrightarrow> account_step e lib s s'"
| totp_enable: "get_user (srv_db s) i = Some u \<Longrightarrow> totp_enable e lib now raw ip u code' s = (s', r3) \<Longrightarrow> account_step e lib s s'"
| totp_disable: "get_user (srv_db s) i = Some u \<Longrightarrow> totp_disable e lib now ip u pw f s = (s', r4) \<Longrightarrow> account_step e lib s s'"
| recovery_codes: "get_user (srv_db s) i = Some u \<Longrightarrow> regenerate_recovery_codes e lib now raw ip u pw s = (s', r5) \<Longrightarrow> account_step e lib s s'"
| registration_options:
    "get_user (srv_db s) i = Some u \<Longrightarrow> passkey_registration_options lib now handle challenge ip u pw s = (s', r6) \<Longrightarrow> account_step e lib s s'"
| add_passkey: "get_user (srv_db s) i = Some u \<Longrightarrow> add_passkey e lib now raw ip u name cred s = (s', r7) \<Longrightarrow> account_step e lib s s'"
| rename_passkey: "get_user (srv_db s) i = Some u \<Longrightarrow> rename_passkey now ip u pk name s = (s', r8) \<Longrightarrow> account_step e lib s s'"
| step_up: "get_user (srv_db s) i = Some u \<Longrightarrow> passkey_step_up_options lib now challenge u s = (s', r9) \<Longrightarrow> account_step e lib s s'"
| remove_passkey: "get_user (srv_db s) i = Some u \<Longrightarrow> remove_passkey e lib now ip u pk pw f s = (s', r4) \<Longrightarrow> account_step e lib s s'"

inductive account_run :: "env \<Rightarrow> auth_lib \<Rightarrow> srv \<Rightarrow> srv \<Rightarrow> bool" for e lib s where
  no_requests: "account_run e lib s s"
| one_request: "account_run e lib s s1 \<Longrightarrow> account_step e lib s1 s2 \<Longrightarrow> account_run e lib s s2"

lemmas handlers_evolve = change_password_evolves totp_setup_evolves totp_enable_evolves totp_disable_evolves regenerate_evolves
  registration_options_evolves add_passkey_evolves rename_passkey_evolves remove_passkey_evolves

lemma account_step_evolves:
  assumes "account_step e lib s s'" and "user_ids_ok (srv_db s)"
  shows "users_evolve (srv_db s) (srv_db s')"
  using assms
proof (cases rule: account_step.cases)
  case (logout now ip cookie)
  then show ?thesis by (auto simp: logout_def users_evolve_same split: option.splits)
qed (auto dest: handlers_evolve login_second_evolves passkey_options_evolves login_passkey_options_evolves intro: users_evolve_same login_users
    simp: login_mfa_def login_passkey_def passkey_step_up_options_def)

lemma account_run_evolves:
  assumes "account_run e lib s s'" and "user_ids_ok (srv_db s)"
  shows "users_evolve (srv_db s) (srv_db s') \<and> user_ids_ok (srv_db s')"
  using assms
proof (induction rule: account_run.induct)
  case no_requests
  then show ?case by (simp add: users_evolve_same)
next
  case (one_request s1 s2)
  then have "users_evolve (srv_db s1) (srv_db s2)" using account_step_evolves by blast
  then show ?case using one_request users_evolve_trans users_evolve_ids by (metis user_ids_ok_def)
qed

text \<open>
  C10. A password alone signs in only a user without a second factor: \<open>login\<close> answers only a user with that
  name who is active, whose password was verified, when neither the name nor the address is throttled. With a
  second factor the answer is a challenge, whose token is no session at any time and for any database.
\<close>

theorem password_sign_in:
  assumes "login e lib dummy now ip name pw s = (s', Inr a)" and "salts_apart lib"
  shows "\<not> snd (login_blocked now ip name s) \<and> (\<exists>u. u \<in> set (users (srv_db s)) \<and> username u = name \<and> is_active u \<and>
    al_verify_password lib pw (password_hash u) \<and>
    (if two_factor_enabled u
     then (\<exists>t. a = MfaChallenge (second_factor_methods lib u) t \<and> srv_db s' = srv_db s \<and>
       (\<forall>now' db. authenticate_token lib now' (Some t) db = None))
     else a = SignedIn (to_out e (srv_db s) u ''password'') (create_session_token lib now u ''password'')))"
  using login_Inr [OF assms(1)] mfa_token_no_session [OF assms(2)] by (auto dest: find_SomeD split: if_splits)


text \<open>The session of a token names the row and the version it was made for.\<close>

lemma authenticate_token_Some:
  "authenticate_token lib now (Some t) db = Some u \<longleftrightarrow>
     t \<noteq> [] \<and> (\<exists>i. verify_session_token lib now t = Some (i, session_version u) \<and> get_user db i = Some u \<and> is_active u)"
  by (auto simp: authenticate_token_def split: option.splits if_splits)

lemma verify_session_stable:
  assumes "tokens_stable lib" and "verify_session_token lib now t = Some x" and "verify_session_token lib now' t = Some y"
  shows "y = x"
proof -
  obtain d a where l: "al_loads lib SESSION_SALT SESSION_MAX_AGE_SECONDS now t = Some (d, a)"
    using assms(2) by (auto simp: verify_session_token_def load_user_token_def split: option.splits)
  obtain d' a' where l': "al_loads lib SESSION_SALT SESSION_MAX_AGE_SECONDS now' t = Some (d', a')"
    using assms(3) by (auto simp: verify_session_token_def load_user_token_def split: option.splits)
  have "d' = d" using assms(1) l l' unfolding tokens_stable_def by blast
  then show ?thesis using assms(2,3) l l' by (simp add: verify_session_token_def load_user_token_def)
qed

lemma get_user_evolves:
  assumes "users_evolve db db'" and "get_user db i = Some u"
  shows "\<exists>u'. get_user db' i = Some u' \<and> row_evolves u u'"
proof -
  have "get_row user_id ys (Some i) = Some u' \<and> row_evolves u u'"
    if "list_all2 row_evolves xs ys" "get_row user_id xs (Some i) = Some u" "u' = the (get_row user_id ys (Some i))" for xs ys u'
    using that by (induction rule: list_all2_induct) (auto simp: get_row_def row_evolves_def split: if_splits)
  then show ?thesis using assms by (auto simp: users_evolve_def get_user_def)
qed



section \<open>A sign-in and a changed password\<close>

definition sample_server :: "user \<Rightarrow> srv" where
  "sample_server u = new_server (empty_db\<lparr>users := [u]\<rparr>)"

lemma sample_tokens: "salts_apart sample_lib \<and> tokens_stable sample_lib"
proof -
  have "dropWhile (\<lambda>c. c = CHR ''!'') (replicate n (CHR ''!'') @ CHR ''.'' # t) = CHR ''.'' # t" for n t
    by (induction n) simp_all
  then show ?thesis by (simp add: salts_apart_def tokens_stable_def sample_lib_def split: option.split val.split)
qed

lemma sample_blocked:
  "login_blocked now ip name (sample_server u) = (sample_server u, False)"
  by (simp add: login_blocked_def blocked_def recent_def failures_of_def pop_failures_def sample_server_def new_server_def new_throttle_def)

lemma sample_users [simp]: "users (srv_db (sample_server u)) = [u]" "user_ids_ok (srv_db (sample_server u))"
  by (simp_all add: sample_server_def new_server_def user_ids_ok_def)

lemma sample_get_user [simp]: "get_user (srv_db (sample_server u)) i = (if user_id u = Some i then Some u else None)"
  by (simp add: get_user_def get_row_def)

lemma sample_login:
  "login sample_env sample_lib ''dummy'' 0 ''ip'' ''ann'' ''pw'' (sample_server sample_user) =
     (sample_server sample_user, Inr (MfaChallenge (second_factor_methods sample_lib sample_user) (create_mfa_token sample_lib 0 sample_user)))"
  by (simp add: login_def raise_if_throttled_def sample_blocked Let_def sample_lib_def two_factor_enabled_def)
    (simp add: sample_user_def)

theorem password_sign_in_witness:
  "\<exists>t. snd (login sample_env sample_lib ''dummy'' 0 ''ip'' ''ann'' ''pw'' (sample_server sample_user)) =
       Inr (MfaChallenge (second_factor_methods sample_lib sample_user) t) \<and> authenticate_token sample_lib 0 (Some t) (srv_db (sample_server sample_user)) = None"
  using password_sign_in [OF sample_login] sample_tokens by (auto simp: sample_login split: if_splits)

lemma sample_mfa_user:
  "mfa_user sample_lib (secs 30) (Some (CHR ''.'' # MFA_SALT)) ''ip'' (sample_server sample_user) = (sample_server sample_user, Inr sample_user)"
  by (simp add: mfa_user_def raise_if_throttled_def sample_blocked verify_mfa_token_def load_user_token_def sample_lib_def sample_claims_def
      int_claim_def cred_get_def two_factor_enabled_def) (simp add: sample_user_def)

lemma sample_check:
  "\<exists>s1. check_second_factor sample_env sample_lib (secs 30) sample_user ''ip'' ''auth.login'' (Totp ''111111'') (sample_server sample_user) =
     (s1, Inr (sample_user\<lparr>totp_last_counter := Some 1\<rparr>, ''totp''))"
  by (simp add: check_second_factor_def check_second_factor_throttle_def blocked_def recent_def failures_of_def pop_failures_def
      sample_server_def new_server_def new_throttle_def try_factor_def use_second_factor_def match_counter_def looks_like_totp_code_def
      no_spaces_def is_digit_def sample_lib_def sample_user_def STEP_SECONDS_def secs_def get_user_def get_row_def)


lemma sample_change:
  "\<exists>s' r. change_password sample_lib 0 ''ip'' sample_user ''pw'' ''secret'' (sample_server sample_user) = (s', r) \<and>
     users (srv_db s') = [sample_user\<lparr>password_hash := ''secret'', session_version := 1\<rparr>]"
proof -
  have "check_current_password sample_lib 0 ''ip'' sample_user ''pw'' action (sample_server sample_user) =
      (reset_login ''ip'' ''ann'' (sample_server sample_user), Inr ())" for action
    by (simp add: check_current_password_def raise_if_throttled_def sample_blocked sample_lib_def) (simp add: sample_user_def)
  moreover have "lower ''secret'' \<noteq> lower (username sample_user)" by (auto simp: lower_def sample_user_def dest: map_eq_imp_length_eq)
  ultimately show ?thesis
    by (simp add: change_password_def Let_def put_user_def update_rows_def) (simp add: sample_user_def sample_lib_def)
qed

lemma sample_session:
  "verify_session_token sample_lib now (CHR ''.'' # SESSION_SALT) = Some (1, 0)"
  by (simp add: verify_session_token_def load_user_token_def sample_lib_def sample_claims_def int_claim_def cred_get_def)



end
