(* ===== verification/Login_Limits.thy ===== *)
theory Login_Limits
  imports Account_Facts
begin

text \<open>
  How many passwords can be tried: the failure counters of \<open>Throttle\<close> under the sign-in of \<open>Login\<close>. A right
  password forgets the failures of its user, never those of the address.
\<close>

text \<open>The counter of addresses agrees with the failed sign-ins \<open>h\<close> of each address.\<close>

definition ip_agrees :: "time \<Rightarrow> (string \<Rightarrow> time list) \<Rightarrow> srv \<Rightarrow> bool" where
  "ip_agrees now h s \<longleftrightarrow> agrees now h (srv_ip_login s) \<and> th_max (srv_ip_login s) = 20 \<and> th_window (srv_ip_login s) = secs 300"

lemma ip_agrees_new: "ip_agrees now (\<lambda>_. []) (new_server db)"
  by (simp add: ip_agrees_def agrees_def new_server_def new_throttle_def failures_of_def)

lemma ip_agrees_later: "ip_agrees now h s \<Longrightarrow> now \<le> now' \<Longrightarrow> ip_agrees now' h s"
  using keeps_later unfolding ip_agrees_def agrees_def by metis

lemma ip_agrees_on_db [simp]: "ip_agrees now h (on_db f s) = ip_agrees now h s"
  by (simp add: ip_agrees_def on_db_def)

lemma ip_agrees_audit [simp]: "ip_agrees now h (audit_user now' a out u ip d s) = ip_agrees now h s"
  by (simp add: audit_user_def)

lemma ip_agrees_reset [simp]: "ip_agrees now h (reset_login ip name s) = ip_agrees now h s"
  by (simp add: ip_agrees_def reset_login_def)

lemma ip_agrees_blocked:
  assumes "ip_agrees now h s"
  shows "ip_agrees now h (fst (login_blocked now ip name s))"
    and "\<not> snd (login_blocked now ip name s) \<Longrightarrow> length (filter (\<lambda>t. now - t < secs 300) (h ip)) < 20"
proof -
  let ?th = "srv_ip_login s"
  have a: "agrees now h ?th" "th_max ?th = 20" "th_window ?th = secs 300" using assms by (simp_all add: ip_agrees_def)
  show "ip_agrees now h (fst (login_blocked now ip name s))"
    using a agrees_recent [of now h ?th ip] failures_recent(2,3) [of ip now ?th]
    by (auto simp: ip_agrees_def login_blocked_def blocked_def Let_def split: prod.split)
  have "filter (\<lambda>t. now - t < secs 300) (failures_of ?th ip) = filter (\<lambda>t. now - t < secs 300) (h ip)"
    using a(1,3) by (simp add: agrees_def keeps_def)
  then show "length (filter (\<lambda>t. now - t < secs 300) (h ip)) < 20" if "\<not> snd (login_blocked now ip name s)"
    using that a(2,3) by (auto simp: login_blocked_def blocked_def recent_def Let_def split: prod.splits if_splits)
qed

lemma ip_agrees_record:
  assumes "ip_agrees now h s"
  shows "ip_agrees now (h(ip := h ip @ [now])) (fst (record_login_failure now ip name s))"
proof -
  let ?th = "srv_ip_login s"
  have "agrees now (h(ip := h ip @ [now])) (record_failure ip now ?th)" using assms agrees_record [of now h ?th ip] unfolding ip_agrees_def by blast
  moreover have "th_window (record_failure ip now ?th) = th_window ?th" "th_max (record_failure ip now ?th) = th_max ?th"
    using perform_settings [of "(Failure ip, now)" ?th] by simp_all
  ultimately show ?thesis using assms unfolding record_login_failure_def by (intro ip_agrees_blocked(1)) (simp add: ip_agrees_def)
qed

definition bad_password :: "'a http \<Rightarrow> bool" where
  "bad_password r \<longleftrightarrow> r = Inl (HTTPException 401 ''Invalid username or password'')"

lemma login_counted:
  assumes "ip_agrees now h s" and "login e lib dummy now ip name pw s = (s', r)"
  shows "if bad_password r then length (filter (\<lambda>t. now - t < secs 300) (h ip)) < 20 \<and> ip_agrees now (h(ip := h ip @ [now])) s'
    else ip_agrees now h s'"
proof -
  obtain s1 b where b: "login_blocked now ip name s = (s1, b)" by fastforce
  have s1: "ip_agrees now h s1" "\<not> b \<Longrightarrow> length (filter (\<lambda>t. now - t < secs 300) (h ip)) < 20"
    using ip_agrees_blocked [OF assms(1), of ip name] b by simp_all
  have f: "bad_password r \<and> ip_agrees now (h(ip := h ip @ [now])) s'" if "failed_login now ip name who ok s1 = (s', r)" for who ok
    using that ip_agrees_record [OF s1(1), of ip name] by (auto simp: failed_login_def bad_password_def split: prod.splits)
  show ?thesis
    using assms(2) b s1 f by (auto simp: login_def raise_if_throttled_def bad_password_def Let_def split: if_splits option.splits)
qed

text \<open>Sign-ins one after the other: the times of those from \<open>ip\<close> that were answered that the password is wrong.\<close>

fun failed_logins ::
  "env \<Rightarrow> auth_lib \<Rightarrow> string \<Rightarrow> string \<Rightarrow> (time \<times> string \<times> string \<times> string) list \<Rightarrow> srv \<Rightarrow> time list" where
  "failed_logins e lib dummy ip [] s = []"
| "failed_logins e lib dummy ip ((now, addr, name, pw) # tries) s =
     (case login e lib dummy now addr name pw s of
        (s1, r) \<Rightarrow> (if addr = ip \<and> bad_password r then [now] else []) @ failed_logins e lib dummy ip tries s1)"

definition at_most_20 :: "time list \<Rightarrow> bool" where
  "at_most_20 ts \<longleftrightarrow> (\<forall>t. length (filter (\<lambda>x. t - x < secs 300 \<and> x \<le> t) ts) \<le> 20)"

lemma at_most_20_snoc:
  assumes "at_most_20 ts" and "length (filter (\<lambda>t. now - t < secs 300) ts) < 20"
  shows "at_most_20 (ts @ [now])"
  unfolding at_most_20_def
proof
  fix t
  have "length (filter (\<lambda>x. t - x < secs 300 \<and> x \<le> t) ts) \<le> length (filter (\<lambda>x. now - x < secs 300) ts)" if "now \<le> t"
    using that by (induction ts) auto
  then show "length (filter (\<lambda>x. t - x < secs 300 \<and> x \<le> t) (ts @ [now])) \<le> 20"
    using assms by (cases "now \<le> t") (auto simp: at_most_20_def)
qed

lemma failed_logins_bounded:
  assumes "ip_agrees t h s" and "sorted (t # map fst tries)" and "at_most_20 (h ip)"
  shows "at_most_20 (h ip @ failed_logins e lib dummy ip tries s)"
  using assms
proof (induction tries arbitrary: t h s)
  case (Cons x tries)
  obtain now addr name pw where x: "x = (now, addr, name, pw)" by (metis prod_cases4)
  obtain s1 r where l: "login e lib dummy now addr name pw s = (s1, r)" by fastforce
  have a: "ip_agrees now h s" using Cons.prems(1,2) x by (auto intro: ip_agrees_later)
  have srt: "sorted (now # map fst tries)" using Cons.prems(2) x by simp
  note c = login_counted [OF a l]
  show ?case
  proof (cases "bad_password r")
    case True
    let ?h = "h(addr := h addr @ [now])"
    have "at_most_20 (?h ip)" using c True Cons.prems(3) by (auto intro: at_most_20_snoc)
    then have "at_most_20 (?h ip @ failed_logins e lib dummy ip tries s1)" using Cons.IH [of now ?h s1] c True srt unfolding if_P [OF True] by blast
    then show ?thesis using x l True by (cases "addr = ip") auto
  next
    case False
    then show ?thesis using Cons.IH [of now h s1] c srt Cons.prems(3) x l by simp
  qed
qed simp



end
