(* ===== verification/Api_Keys.thy ===== *)
theory Api_Keys
  imports Login Scoping Netguard Host_Keys
begin

text \<open>
  API keys: their tokens and what makes one valid (\<open>app/api_keys.py\<close>), who a request is from
  (\<open>app/dependencies.py\<close>), and their life in a project (\<open>app/routers/api_keys.py\<close>). A request is one step at
  one time; \<open>draws\<close> is what the random generator gives, in order, and \<open>stamp\<close> the text of a time.
\<close>

section \<open>Networks\<close>

text \<open>\<open>str\<close> of an address: dotted, or hextets with the first longest run of zeros left out.\<close>

definition text4 :: "32 word \<Rightarrow> string" where
  "text4 w = join ''.'' (map (\<lambda>i. show_nat (unat (drop_bit (24 - 8 * i) w) mod 256)) [0..<4])"

fun show_hex :: "nat \<Rightarrow> string" where
  "show_hex n = (if n < 16 then [hex_digit n] else show_hex (n div 16) @ [hex_digit (n mod 16)])"

declare show_hex.simps [simp del]

definition hextet_list :: "128 word \<Rightarrow> nat list" where
  "hextet_list w = map (\<lambda>i. unat (drop_bit (112 - 16 * i) w) mod 65536) [0..<8]"

text \<open>The best run so far (its start and length) and the length of the run that ends here.\<close>

definition zero_run :: "nat list \<Rightarrow> nat \<times> nat" where
  "zero_run hs =
     fst (fold (\<lambda>i ((start, len), run). if hs ! i = 0 then ((if run + 1 > len then (i - run, run + 1) else (start, len)), run + 1) else ((start, len), 0))
            [0..<length hs] ((0, 0), 0))"

definition text6 :: "128 word \<Rightarrow> string" where
  "text6 w =
     (let hs = hextet_list w; parts = map show_hex hs; (start, len) = zero_run hs in
      join '':''
        (if len > 1
         then (if start = 0 then [[]] else []) @ take start parts @ [[]] @ drop (start + len) parts @ (if start + len = 8 then [[]] else [])
         else parts))"

text \<open>\<open>str(ip_network(entry, strict=False))\<close>; a scope stays when no host bits were cleared.\<close>

definition network_text :: "string \<Rightarrow> network \<Rightarrow> string" where
  "network_text entry n =
     (case n of
        N4 w p \<Rightarrow> text4 w @ ''/'' @ show_nat p
      | N6 w p \<Rightarrow>
          let a = hd (split_char (CHR ''/'') entry);
              scope = dropWhile (\<lambda>c. c \<noteq> CHR ''%'') a in
          text6 w @ (if parse6 a = Some w then scope else []) @ ''/'' @ show_nat p)"

fun parse_networks :: "string list \<Rightarrow> string list \<Rightarrow> string + string list" where
  "parse_networks [] networks = Inr networks"
| "parse_networks (raw # rest) networks =
     (case ip_network (strip raw) of
        None \<Rightarrow> Inl (py_repr (take 60 raw) @ '' is not an IP address or CIDR'')
      | Some n \<Rightarrow>
          let t = network_text (strip raw) n in
          parse_networks rest (if t \<in> set networks then networks else networks @ [t]))"

text \<open>Networks are stored as \<open>parse_networks\<close> gives them, so they are read back without an error.\<close>

definition address_allowed :: "api_key \<Rightarrow> string option \<Rightarrow> bool" where
  "address_allowed k ip =
     (case k_allowed_networks k of
        None \<Rightarrow> True
      | Some ns \<Rightarrow>
          ns = [] \<or>
          (case ip_address (case ip of None \<Rightarrow> [] | Some s \<Rightarrow> s) of
             None \<Rightarrow> False
           | Some a \<Rightarrow>
               let address = (case a of V6 w \<Rightarrow> (case ipv4_mapped w of Some m \<Rightarrow> V4 m | None \<Rightarrow> V6 w) | V4 w \<Rightarrow> V4 w) in
               list_ex (\<lambda>n. case ip_network n of Some net \<Rightarrow> in_net address net | None \<Rightarrow> False) ns))"

section \<open>Tokens\<close>

definition TOKEN_PREFIX :: string where "TOKEN_PREFIX = ''ansd''"
definition MAX_TOKEN_LENGTH :: nat where "MAX_TOKEN_LENGTH = 200"
definition LAST_USED_GRANULARITY :: time where "LAST_USED_GRANULARITY = mins 1"

definition key_hash :: "env \<Rightarrow> string \<Rightarrow> string" where
  "key_hash e token = sha256_hex e token"

text \<open>A drawn prefix and secret.\<close>

definition new_token :: "string \<times> string \<Rightarrow> string \<times> string" where
  "new_token d = (case d of (prefix, secret) \<Rightarrow> (TOKEN_PREFIX @ ''_'' @ prefix @ ''_'' @ secret, prefix))"

definition hex_lower :: "char \<Rightarrow> bool" where
  "hex_lower c \<longleftrightarrow> c \<in> set ''0123456789abcdef''"

definition parse_key_prefix :: "string \<Rightarrow> string option" where
  "parse_key_prefix token =
     (if length token > MAX_TOKEN_LENGTH then None
      else case partition_char (CHR ''_'') token of
        (a, sep, r) \<Rightarrow>
          (case partition_char (CHR ''_'') r of
             (prefix, sep2, secret) \<Rightarrow>
               if \<not> sep \<or> \<not> sep2 \<or> a \<noteq> TOKEN_PREFIX \<or> secret = [] then None
               else if length prefix \<noteq> 8 \<or> \<not> list_all hex_lower prefix then None
               else Some prefix))"

definition key_status :: "time \<Rightarrow> api_key \<Rightarrow> string" where
  "key_status now k = (if k_revoked_at k \<noteq> None then ''revoked'' else if k_expires_at k \<le> now then ''expired'' else ''active'')"

definition creator_problem :: "database \<Rightarrow> api_key \<Rightarrow> string option" where
  "creator_problem db k =
     (case Option.bind (k_created_by_id k) (get_user db) of
        None \<Rightarrow> Some ''creator deleted''
      | Some u \<Rightarrow>
          if \<not> is_active u then Some ''creator deactivated''
          else if API_KEYS_MANAGE \<notin> project_permissions db u (k_project_id k)
          then Some (''creator can no longer manage this project'' @ [CHR 0x27] @ ''s keys'')
          else None)"

definition put_key :: "api_key \<Rightarrow> database \<Rightarrow> database" where
  "put_key k db = db\<lparr>api_keys := update_rows (\<lambda>x. k_id x = k_id k) (\<lambda>_. k) (api_keys db)\<rparr>"

definition authenticate_api_key ::
  "env \<Rightarrow> time \<Rightarrow> string \<Rightarrow> string option \<Rightarrow> database \<Rightarrow> database \<times> user option \<times> string option \<times> string option" where
  "authenticate_api_key e now token ip db =
     (case parse_key_prefix token of
        None \<Rightarrow> (db, None, Some ''malformed'', None)
      | Some prefix \<Rightarrow>
          (case find (\<lambda>k. k_prefix k = prefix) (api_keys db) of
             None \<Rightarrow> (db, None, Some ''unknown key'', Some prefix)
           | Some k \<Rightarrow>
               if key_hash e token \<noteq> k_token_hash k then (db, None, Some ''bad secret'', Some prefix)
               else if key_status now k \<noteq> ''active'' then (db, None, Some (key_status now k), Some prefix)
               else case creator_problem db k of
                 Some problem \<Rightarrow> (db, None, Some (''suspended: '' @ problem), Some prefix)
               | None \<Rightarrow>
                   if \<not> address_allowed k ip then (db, None, Some ''address not allowed'', Some prefix)
                   else (if (case k_last_used_at k of None \<Rightarrow> True | Some t \<Rightarrow> now - t \<ge> LAST_USED_GRANULARITY)
                         then put_key (k\<lparr>k_last_used_at := Some now, k_last_used_ip := ip\<rparr>) db else db,
                         Some (principal_for k), None, Some prefix)))"

definition lifetime_days :: "api_key \<Rightarrow> int" where
  "lifetime_days k = Orderings.max 1 (min 365 (round_div (k_expires_at k - k_created_at k) (secs 86400)))"

section \<open>Who a request is from\<close>

text \<open>Too many bad keys from the address.\<close>

datatype rate_limited = RateLimited

definition authenticate_bearer :: "env \<Rightarrow> time \<Rightarrow> string \<Rightarrow> string \<Rightarrow> srv \<Rightarrow> srv \<times> (rate_limited + user option)" where
  "authenticate_bearer e now authorization ip s =
     (case blocked ip now (srv_api_key_ip s) of
        (t, True) \<Rightarrow> (s\<lparr>srv_api_key_ip := t\<rparr>, Inl RateLimited)
      | (t, False) \<Rightarrow>
          let s1 = s\<lparr>srv_api_key_ip := t\<rparr>;
              (scheme, sep, rest) = partition_char (CHR '' '') authorization;
              (db, principal, reason, prefix) =
                (if lower scheme = ''bearer'' \<and> strip rest \<noteq> [] then authenticate_api_key e now (strip rest) (Some ip) (srv_db s1)
                 else (srv_db s1, None, Some ''malformed'', None)) in
          case principal of
            Some u \<Rightarrow> (s1\<lparr>srv_db := db\<rparr>, Inr (Some u))
          | None \<Rightarrow>
              (on_db (audit_record now ((audit_call ''apikey.auth'')
                 \<lparr>au_outcome := ''failure'',
                  au_actor_username := Some (case prefix of None \<Rightarrow> ''(malformed key)'' | Some p \<Rightarrow> if p = [] then ''(malformed key)'' else ''apikey:'' @ p),
                  au_ip := Some ip, au_detail := Some [(vkey ''reason'', opt_str reason)]\<rparr>))
                 (s1\<lparr>srv_db := db, srv_api_key_ip := record_failure ip now (srv_api_key_ip s1)\<rparr>),
               Inr None))"

definition authenticate_request ::
  "env \<Rightarrow> auth_lib \<Rightarrow> time \<Rightarrow> string option \<Rightarrow> string option \<Rightarrow> string \<Rightarrow> srv \<Rightarrow> srv \<times> (rate_limited + user option)" where
  "authenticate_request e lib now cookie authorization ip s =
     (case authorization of
        Some a \<Rightarrow> authenticate_bearer e now a ip s
      | None \<Rightarrow> (s, Inr (authenticate_token lib now cookie (srv_db s))))"

definition get_current_user ::
  "env \<Rightarrow> auth_lib \<Rightarrow> time \<Rightarrow> string option \<Rightarrow> string option \<Rightarrow> string \<Rightarrow> srv \<Rightarrow> srv \<times> user http" where
  "get_current_user e lib now cookie authorization ip s =
     (if (cookie = None \<or> cookie = Some []) \<and> authorization = None then refuse 401 ''Not authenticated'' s
      else case authenticate_request e lib now cookie authorization ip s of
        (s1, Inl RateLimited) \<Rightarrow> refuse 429 ''Too many invalid API keys. Try again in a few minutes.'' s1
      | (s1, Inr None) \<Rightarrow> refuse 401 (if authorization \<noteq> None then ''Invalid API key'' else ''Session invalid or expired'') s1
      | (s1, Inr (Some u)) \<Rightarrow> (s1, Inr u))"

section \<open>The keys of a project\<close>

definition MAX_KEYS_PER_PROJECT :: nat where "MAX_KEYS_PER_PROJECT = 50"

definition keys_guard :: guard_spec where
  "keys_guard = \<lparr>gd_read = Some API_KEYS_MANAGE, gd_write = Some API_KEYS_MANAGE, gd_api_key = False, gd_during_2fa_setup = False\<rparr>"

definition sign_in_of :: "auth_lib \<Rightarrow> time \<Rightarrow> string \<Rightarrow> string option" where
  "sign_in_of lib now c = map_option (\<lambda>i. if si_sso i then ''sso'' else ''password'') (session_info_of lib now c)"

text \<open>The guard of the route, then the permission in the project.\<close>

definition keys_request :: "env \<Rightarrow> auth_lib \<Rightarrow> time \<Rightarrow> request \<Rightarrow> user \<Rightarrow> key_id \<Rightarrow> srv \<Rightarrow> srv \<times> unit http" where
  "keys_request e lib now rq u pid s =
     (case guard e (sign_in_of lib now) keys_guard now rq u (srv_db s) of
        (db, Inl x) \<Rightarrow> (s\<lparr>srv_db := db\<rparr>, Inl x)
      | (db, Inr _) \<Rightarrow>
          (case require_project_permission now u (Some rq) pid API_KEYS_MANAGE db of
             (db1, Inl x) \<Rightarrow> (s\<lparr>srv_db := db1\<rparr>, Inl x)
           | (db1, Inr _) \<Rightarrow> (s\<lparr>srv_db := db1\<rparr>, Inr ())))"

record key_out =
  ko_key :: api_key
  ko_status :: string
  ko_suspended_because :: "string option"
  ko_playbooks :: "(key_id \<times> string) list option"
  ko_inventories :: "(key_id \<times> string) list option"

definition named :: "('r \<Rightarrow> key_id) \<Rightarrow> ('r \<Rightarrow> string) \<Rightarrow> 'r list \<Rightarrow> key_id list option \<Rightarrow> (key_id \<times> string) list option" where
  "named key name tbl ids =
     map_option (List.map_filter (\<lambda>i. map_option (\<lambda>r. (key r, name r)) (get_row key tbl i))) ids"

definition key_view :: "time \<Rightarrow> database \<Rightarrow> api_key \<Rightarrow> key_out" where
  "key_view now db k =
     (let problem = (if key_status now k = ''active'' then creator_problem db k else None) in
      \<lparr>ko_key = k, ko_status = (if problem \<noteq> None then ''suspended'' else key_status now k), ko_suspended_because = problem,
       ko_playbooks = named pb_id pb_name (playbooks db) (k_allowed_playbook_ids k),
       ko_inventories = named i_id i_name (inventories db) (k_allowed_inventory_ids k)\<rparr>)"

text \<open>What is sent: for each limit whether it is there, and then null or a list.\<close>

record key_limits =
  kl_networks :: "string list option option"
  kl_playbook_ids :: "key_id list option option"
  kl_inventory_ids :: "key_id list option option"

definition limit_or_none :: "'a list \<Rightarrow> 'a list option" where
  "limit_or_none xs = (if xs = [] then None else Some xs)"

fun first_seen :: "'a list \<Rightarrow> 'a list" where
  "first_seen [] = []"
| "first_seen (x # xs) = x # filter (\<lambda>y. y \<noteq> x) (first_seen xs)"

definition limit_ids :: "('r \<Rightarrow> key_id) \<Rightarrow> ('r \<Rightarrow> key_id) \<Rightarrow> string \<Rightarrow> 'r list \<Rightarrow> key_id \<Rightarrow> key_id list option \<Rightarrow> key_id list option http" where
  "limit_ids key project label tbl pid ids =
     (case ids of
        None \<Rightarrow> Inr None
      | Some is \<Rightarrow>
          (case find (\<lambda>i. case get_row key tbl i of None \<Rightarrow> True | Some r \<Rightarrow> project r \<noteq> pid) (first_seen is) of
             Some i \<Rightarrow> Inl (HTTPException 422 (''No '' @ label @ '' '' @ show_int i @ '' in this project''))
           | None \<Rightarrow> Inr (limit_or_none (first_seen is))))"

text \<open>The limits as stored.\<close>

definition limits_of ::
  "database \<Rightarrow> key_id \<Rightarrow> key_limits \<Rightarrow> (string list option \<times> key_id list option \<times> key_id list option) http" where
  "limits_of db pid l =
     (case (case Option.bind (kl_networks l) (\<lambda>x. x) of
              None \<Rightarrow> Inr None
            | Some ns \<Rightarrow> (case parse_networks ns [] of Inl msg \<Rightarrow> Inl (HTTPException 422 msg) | Inr xs \<Rightarrow> Inr (limit_or_none xs))) of
        Inl x \<Rightarrow> Inl x
      | Inr ns \<Rightarrow>
          (case limit_ids pb_id pb_project_id ''playbook'' (playbooks db) pid (Option.bind (kl_playbook_ids l) (\<lambda>x. x)) of
             Inl x \<Rightarrow> Inl x
           | Inr ps \<Rightarrow>
               (case limit_ids i_id i_project_id ''inventory'' (inventories db) pid (Option.bind (kl_inventory_ids l) (\<lambda>x. x)) of
                  Inl x \<Rightarrow> Inl x
                | Inr is \<Rightarrow> Inr (ns, ps, is))))"

definition texts_val :: "string list \<Rightarrow> val" where
  "texts_val ss = VList (map Str ss)"

definition int_list :: "key_id list \<Rightarrow> val" where
  "int_list is = VList (map VInt is)"

definition limit_detail :: "string \<Rightarrow> ('a \<Rightarrow> val) \<Rightarrow> 'a option \<Rightarrow> vars" where
  "limit_detail field f v = (case v of None \<Rightarrow> [] | Some x \<Rightarrow> [(vkey field, f x)])"

definition audit_key :: "time \<Rightarrow> string \<Rightarrow> request \<Rightarrow> user \<Rightarrow> key_id \<Rightarrow> api_key \<Rightarrow> vars \<Rightarrow> srv \<Rightarrow> srv" where
  "audit_key now action rq u pid k detail =
     on_db (audit_record now ((audit_call action)
       \<lparr>au_actor := Some u, au_target_type := Some ''api_key'', au_target_id := Some (k_id k), au_target_name := Some (k_name k),
        au_ip := Some (rq_ip rq), au_project_id := Some pid, au_detail := Some detail\<rparr>))"

definition list_api_keys :: "env \<Rightarrow> auth_lib \<Rightarrow> time \<Rightarrow> request \<Rightarrow> user \<Rightarrow> key_id \<Rightarrow> srv \<Rightarrow> srv \<times> key_out list http" where
  "list_api_keys e lib now rq u pid s =
     then_do (keys_request e lib now rq u pid s) (\<lambda>_ s.
       (s, Inr (map (key_view now (srv_db s))
          (rev (sort_key k_id (filter (\<lambda>k. k_project_id k = pid) (api_keys (srv_db s))))))))"

text \<open>Drawing until the prefix is new; None while it is not.\<close>

definition new_key ::
  "env \<Rightarrow> time \<Rightarrow> (string \<times> string) list \<Rightarrow> key_id \<Rightarrow> string \<Rightarrow> string \<Rightarrow> user \<Rightarrow> int \<Rightarrow> database \<Rightarrow> (database \<times> api_key \<times> string) option" where
  "new_key e now draws pid name preset u lifetime db =
     map_option
       (\<lambda>d. case new_token d of
          (token, prefix) \<Rightarrow>
            let k = \<lparr>k_id = next_api_key_id db, k_project_id = pid, k_name = name, k_preset = preset, k_prefix = prefix,
                     k_token_hash = key_hash e token, k_created_by = username u, k_created_by_id = user_id u, k_created_at = now,
                     k_expires_at = now + days lifetime, k_last_used_at = None, k_last_used_ip = None, k_revoked_at = None,
                     k_revoked_by = None, k_allowed_networks = None, k_allowed_playbook_ids = None, k_allowed_inventory_ids = None\<rparr>
            in (db\<lparr>api_keys := api_keys db @ [k], next_api_key_id := next_api_key_id db + 1\<rparr>, k, token))
       (find (\<lambda>d. \<forall>k \<in> set (api_keys db). k_prefix k \<noteq> snd (new_token d)) draws)"

definition with_limits :: "string list option \<times> key_id list option \<times> key_id list option \<Rightarrow> api_key \<Rightarrow> api_key" where
  "with_limits l k =
     (case l of (ns, ps, is) \<Rightarrow> k\<lparr>k_allowed_networks := ns, k_allowed_playbook_ids := ps, k_allowed_inventory_ids := is\<rparr>)"

record key_create =
  kc_name :: string
  kc_preset :: string
  kc_expires_in_days :: int
  kc_password :: "string option"
  kc_limits :: key_limits

definition create_api_key ::
  "env \<Rightarrow> auth_lib \<Rightarrow> (time \<Rightarrow> string) \<Rightarrow> time \<Rightarrow> (string \<times> string) list \<Rightarrow> request \<Rightarrow> user \<Rightarrow> key_id \<Rightarrow> key_create \<Rightarrow> srv \<Rightarrow>
   (srv \<times> (key_out \<times> string) http) option" where
  "create_api_key e lib stamp now draws rq u pid p s0 =
     (case then_do (keys_request e lib now rq u pid s0)
             (\<lambda>_ s. check_reauthentication lib now (rq_ip rq) (rq_cookie rq) u (kc_password p) ''apikey.create'' s) of
        (s, Inl x) \<Rightarrow> Some (s, Inl x)
      | (s, Inr _) \<Rightarrow>
          let existing = filter (\<lambda>k. k_project_id k = pid) (api_keys (srv_db s)) in
          if \<exists>k \<in> set existing. k_name k = kc_name p \<and> k_revoked_at k = None
          then Some (refuse 409 ''This project already has an API key with that name'' s)
          else if length (filter (\<lambda>k. key_status now k = ''active'') existing) \<ge> MAX_KEYS_PER_PROJECT
          then Some (refuse 409 (''A project can have at most '' @ show_nat MAX_KEYS_PER_PROJECT @ '' active API keys. Revoke one first.'') s)
          else case limits_of (srv_db s) pid (kc_limits p) of
            Inl x \<Rightarrow> Some (s, Inl x)
          | Inr l \<Rightarrow>
              map_option
                (\<lambda>(db, k, token).
                   let k1 = with_limits l k;
                       s1 = audit_key now ''apikey.create'' rq u pid k1
                         ([(vkey ''preset'', Str (k_preset k1)), (vkey ''prefix'', Str (k_prefix k1)), (vkey ''expires_at'', Str (stamp (k_expires_at k1)))] @
                          limit_detail ''allowed_networks'' texts_val (k_allowed_networks k1) @
                          limit_detail ''allowed_playbook_ids'' int_list (k_allowed_playbook_ids k1) @
                          limit_detail ''allowed_inventory_ids'' int_list (k_allowed_inventory_ids k1)) (s\<lparr>srv_db := put_key k1 db\<rparr>)
                   in (s1, Inr (key_view now (srv_db s1) k1, token)))
                (new_key e now draws pid (kc_name p) (kc_preset p) u (kc_expires_in_days p) (srv_db s)))"

definition project_key :: "key_id \<Rightarrow> key_id \<Rightarrow> database \<Rightarrow> api_key option" where
  "project_key pid i db =
     (case get_row k_id (api_keys db) i of None \<Rightarrow> None | Some k \<Rightarrow> if k_project_id k \<noteq> pid then None else Some k)"

definition revoked :: "time \<Rightarrow> user \<Rightarrow> api_key \<Rightarrow> api_key" where
  "revoked now u k = k\<lparr>k_revoked_at := Some now, k_revoked_by := Some (username u)\<rparr>"

definition rotate_api_key ::
  "env \<Rightarrow> auth_lib \<Rightarrow> (time \<Rightarrow> string) \<Rightarrow> time \<Rightarrow> (string \<times> string) list \<Rightarrow> request \<Rightarrow> user \<Rightarrow> key_id \<Rightarrow> key_id \<Rightarrow> string option \<Rightarrow> srv \<Rightarrow>
   (srv \<times> (key_out \<times> string) http) option" where
  "rotate_api_key e lib stamp now draws rq u pid i password s0 =
     (case then_do (keys_request e lib now rq u pid s0)
             (\<lambda>_ s. check_reauthentication lib now (rq_ip rq) (rq_cookie rq) u password ''apikey.rotate'' s) of
        (s, Inl x) \<Rightarrow> Some (s, Inl x)
      | (s, Inr _) \<Rightarrow>
          (case project_key pid i (srv_db s) of
             None \<Rightarrow> Some (refuse 404 ''API key not found'' s)
           | Some k0 \<Rightarrow>
               if k_revoked_at k0 \<noteq> None then Some (refuse 409 ''This key is revoked. Create a new one instead.'' s)
               else
                 map_option
                   (\<lambda>(db, k, token).
                      let k1 = with_limits (k_allowed_networks k0, k_allowed_playbook_ids k0, k_allowed_inventory_ids k0) k;
                          s1 = audit_key now ''apikey.rotate'' rq u pid k1
                            [(vkey ''preset'', Str (k_preset k1)), (vkey ''prefix'', Str (k_prefix k1)), (vkey ''replaces'', Str (k_prefix k0)),
                             (vkey ''expires_at'', Str (stamp (k_expires_at k1)))] (s\<lparr>srv_db := put_key k1 db\<rparr>)
                      in (s1, Inr (key_view now (srv_db s1) k1, token)))
                   (new_key e now draws pid (k_name k0) (k_preset k0) u (lifetime_days k0) (put_key (revoked now u k0) (srv_db s)))))"

text \<open>The fields that were sent; a field not sent stays.\<close>

definition changed_limits :: "key_limits \<Rightarrow> string list option \<times> key_id list option \<times> key_id list option \<Rightarrow> api_key \<Rightarrow> api_key" where
  "changed_limits l new k =
     (case new of
        (ns, ps, is) \<Rightarrow>
          with_limits
            (if kl_networks l = None then k_allowed_networks k else ns,
             if kl_playbook_ids l = None then k_allowed_playbook_ids k else ps,
             if kl_inventory_ids l = None then k_allowed_inventory_ids k else is) k)"

definition opt_val :: "('a \<Rightarrow> val) \<Rightarrow> 'a option \<Rightarrow> val" where
  "opt_val f v = (case v of None \<Rightarrow> VNone | Some x \<Rightarrow> f x)"

definition sent_detail :: "string \<Rightarrow> key_limits \<Rightarrow> api_key \<Rightarrow> vars" where
  "sent_detail suffix l k =
     (if kl_networks l = None then [] else [(vkey (''allowed_networks'' @ suffix), opt_val texts_val (k_allowed_networks k))]) @
     (if kl_playbook_ids l = None then [] else [(vkey (''allowed_playbook_ids'' @ suffix), opt_val int_list (k_allowed_playbook_ids k))]) @
     (if kl_inventory_ids l = None then [] else [(vkey (''allowed_inventory_ids'' @ suffix), opt_val int_list (k_allowed_inventory_ids k))])"

definition update_api_key_limits ::
  "env \<Rightarrow> auth_lib \<Rightarrow> time \<Rightarrow> request \<Rightarrow> user \<Rightarrow> key_id \<Rightarrow> key_id \<Rightarrow> key_limits \<Rightarrow> srv \<Rightarrow> srv \<times> key_out http" where
  "update_api_key_limits e lib now rq u pid i l s =
     then_do (keys_request e lib now rq u pid s) (\<lambda>_ s.
       case project_key pid i (srv_db s) of
         None \<Rightarrow> refuse 404 ''API key not found'' s
       | Some k \<Rightarrow>
           if k_revoked_at k \<noteq> None then refuse 409 ''This key is revoked'' s
           else case limits_of (srv_db s) pid l of
             Inl x \<Rightarrow> (s, Inl x)
           | Inr new \<Rightarrow>
               let k1 = changed_limits l new k; s1 = on_db (put_key k1) s;
                   s2 = (if k1 = k then s1
                         else audit_key now ''apikey.update'' rq u pid k1
                           ([(vkey ''prefix'', Str (k_prefix k1))] @ sent_detail [] l k1 @ sent_detail ''_before'' l k) s1)
               in (s2, Inr (key_view now (srv_db s2) k1)))"

definition revoke_api_key ::
  "env \<Rightarrow> auth_lib \<Rightarrow> time \<Rightarrow> request \<Rightarrow> user \<Rightarrow> key_id \<Rightarrow> key_id \<Rightarrow> srv \<Rightarrow> srv \<times> unit http" where
  "revoke_api_key e lib now rq u pid i s =
     then_do (keys_request e lib now rq u pid s) (\<lambda>_ s.
       case project_key pid i (srv_db s) of
         None \<Rightarrow> refuse 404 ''API key not found'' s
       | Some k \<Rightarrow>
           if k_revoked_at k \<noteq> None then (s, Inr ())
           else let k1 = revoked now u k in
             (audit_key now ''apikey.revoke'' rq u pid k1
                [(vkey ''preset'', Str (k_preset k1)), (vkey ''prefix'', Str (k_prefix k1))] (on_db (put_key k1) s), Inr ()))"

end
