(* ===== verification/Key_Facts.thy ===== *)
theory Key_Facts
  imports Api_Keys Account_Facts
begin

text \<open>
  What API keys guarantee: a principal only for a key that is valid now, no fallback to a cookie, one live key
  per name and one row per prefix through any sequence of requests, and revoked for good.
\<close>

section \<open>What requests leave alone\<close>

definition key_part :: "database \<Rightarrow> user list \<times> project list \<times> project_member list \<times> api_key list \<times> key_id" where
  "key_part db = (users db, projects db, members db, api_keys db, next_api_key_id db)"

lemma key_partD:
  "key_part db' = key_part db \<Longrightarrow> users db' = users db \<and> projects db' = projects db \<and> members db' = members db \<and>
     api_keys db' = api_keys db \<and> next_api_key_id db' = next_api_key_id db"
  by (simp add: key_part_def)

lemma next_key_deliveries [simp]: "next_api_key_id (fold (insert_delivery now ev data k) chs db) = next_api_key_id db"
  by (induction chs arbitrary: db) (simp_all add: insert_delivery_def Let_def)

lemma next_key_emit [simp]: "next_api_key_id (emit_known now event pid data key db) = next_api_key_id db"
  by (auto simp: emit_known_def emit_def Let_def split: option.splits)

lemma key_part_audit [simp]: "key_part (audit_record now a db) = key_part db"
proof -
  have "next_api_key_id (from_audit now x d) = next_api_key_id d" for x d
    by (simp add: from_audit_def attack_def admin_change_def Let_def)
  then have "next_api_key_id (audit_record now a db) = next_api_key_id db" by (simp add: audit_record_def Let_def)
  then show ?thesis using static_audit(2) [of now a db] by (simp add: key_part_def static_part_def)
qed

lemma key_part_audit_key [simp]: "key_part (srv_db (audit_key now act rq u pid k d s)) = key_part (srv_db s)"
  by (simp add: audit_key_def)

lemma key_part_audit_user [simp]: "key_part (srv_db (audit_user now act out u ip d s)) = key_part (srv_db s)"
  by (simp add: audit_user_def)

lemma check_current_password_part: "key_part (srv_db (fst (check_current_password lib now ip u pw action s))) = key_part (srv_db s)"
proof -
  obtain s1 x where r: "raise_if_throttled now ip (username u) ''Too many failed password attempts. Try again in a few minutes.'' s = (s1, x)"
    by fastforce
  have "srv_db s1 = srv_db s" using raise_if_throttled_db r by (metis fst_conv)
  then show ?thesis using r by (cases x) (simp_all add: check_current_password_def case_prod_unfold)
qed

lemma check_reauthentication_part:
  "key_part (srv_db (fst (check_reauthentication lib now ip cookie u pw action s))) = key_part (srv_db s)"
  by (simp add: check_reauthentication_def check_current_password_part Let_def split: option.split)

lemma keys_request_part: "key_part (srv_db (fst (keys_request e lib now rq u pid s))) = key_part (srv_db s)"
proof -
  have g: "key_part (fst (guard e si g now rq u db)) = key_part db" for si g db
    by (simp add: guard_def Let_def split: option.split)
  have r: "key_part (fst (require_project_permission now u rq' pid p db)) = key_part db" for p db and rq' :: "request option"
    by (simp add: require_project_permission_def hidden_def deny_def record_denial_def Let_def split: option.split)
  obtain db x where gd: "guard e (sign_in_of lib now) keys_guard now rq u (srv_db s) = (db, x)" by fastforce
  obtain db1 y where rp: "require_project_permission now u (Some rq) pid API_KEYS_MANAGE db = (db1, y)" by fastforce
  have "key_part db = key_part (srv_db s)" using g [of "sign_in_of lib now" keys_guard "srv_db s"] gd by simp
  moreover have "key_part db1 = key_part db" using r [of "Some rq" API_KEYS_MANAGE db] rp by simp
  ultimately show ?thesis by (cases x; cases y) (simp_all add: keys_request_def gd rp)
qed

lemma same_members:
  assumes "members db' = members db"
  shows "project_permissions db' u pid = project_permissions db u pid"
proof -
  have "user_project_roles db' u = user_project_roles db u"
    using assms by (simp add: user_project_roles_def split: option.split)
  then show ?thesis by (simp add: project_permissions_def)
qed

lemma same_permissions: "key_part db' = key_part db \<Longrightarrow> project_permissions db' u pid = project_permissions db u pid"
  by (rule same_members) (simp add: key_part_def)

lemma keys_request_Inr:
  assumes "keys_request e lib now rq u pid s = (s', Inr x)"
  shows "api_key_id u = None \<and> API_KEYS_MANAGE \<in> project_permissions (srv_db s) u pid"
  using assms
  by (auto simp: keys_request_def guard_def keys_guard_def require_project_permission_def hidden_def deny_def Let_def
      split: prod.splits sum.splits option.splits if_splits)

text \<open>Both checks before a key is made: the same rows, and who it is.\<close>

lemma admitted:
  assumes "then_do (keys_request e lib now rq u pid s0) (\<lambda>_ s. check_reauthentication lib now ip cookie u pw action s) = (s, r)"
  shows "key_part (srv_db s) = key_part (srv_db s0)"
    and "r = Inr x \<Longrightarrow> api_key_id u = None \<and> API_KEYS_MANAGE \<in> project_permissions (srv_db s) u pid"
proof -
  obtain s1 y where k: "keys_request e lib now rq u pid s0 = (s1, y)" by fastforce
  have p: "key_part (srv_db s1) = key_part (srv_db s0)" using keys_request_part k by (metis fst_conv)
  have "key_part (srv_db s) = key_part (srv_db s0) \<and> (r = Inr x \<longrightarrow> api_key_id u = None \<and> API_KEYS_MANAGE \<in> project_permissions (srv_db s) u pid)"
  proof (cases y)
    case (Inl err)
    then show ?thesis using assms k p by auto
  next
    case (Inr a)
    then have "check_reauthentication lib now ip cookie u pw action s1 = (s, r)" using assms k by simp
    then have same: "key_part (srv_db s) = key_part (srv_db s0)" using check_reauthentication_part p by (metis fst_conv)
    then show ?thesis using keys_request_Inr k Inr same_permissions [OF same] by blast
  qed
  then show "key_part (srv_db s) = key_part (srv_db s0)"
    and "r = Inr x \<Longrightarrow> api_key_id u = None \<and> API_KEYS_MANAGE \<in> project_permissions (srv_db s) u pid" by blast+
qed

section \<open>Who a key is\<close>

text \<open>A key that may be used now, from this address.\<close>

definition key_valid :: "time \<Rightarrow> string \<Rightarrow> database \<Rightarrow> api_key \<Rightarrow> bool" where
  "key_valid now ip db k \<longleftrightarrow>
     k_revoked_at k = None \<and> now < k_expires_at k \<and> address_allowed k (Some ip) \<and>
     (\<exists>i u. k_created_by_id k = Some i \<and> get_user db i = Some u \<and> is_active u \<and> API_KEYS_MANAGE \<in> project_permissions db u (k_project_id k))"

lemma key_valid_checks:
  "key_valid now ip db k \<longleftrightarrow> key_status now k = ''active'' \<and> creator_problem db k = None \<and> address_allowed k (Some ip)"
  by (auto simp: key_valid_def key_status_def creator_problem_def split: bind_splits option.splits if_splits)

lemma authenticate_api_key_principal:
  "fst (snd (authenticate_api_key e now token (Some ip) db)) = Some u \<longleftrightarrow>
     (\<exists>p k. parse_key_prefix token = Some p \<and> find (\<lambda>k. k_prefix k = p) (api_keys db) = Some k \<and>
        key_hash e token = k_token_hash k \<and> key_valid now ip db k \<and> u = principal_for k)"
  by (auto simp: authenticate_api_key_def key_valid_checks split: option.splits)

text \<open>The token of an Authorization header, if it has the form of one.\<close>

definition bearer_token :: "string \<Rightarrow> string option" where
  "bearer_token a =
     (case partition_char (CHR '' '') a of (scheme, sep, rest) \<Rightarrow> if lower scheme = ''bearer'' \<and> strip rest \<noteq> [] then Some (strip rest) else None)"

lemma bearer_principal:
  "snd (authenticate_bearer e now a ip s) = Inr (Some u) \<longleftrightarrow>
     \<not> snd (blocked ip now (srv_api_key_ip s)) \<and>
     (\<exists>t. bearer_token a = Some t \<and> fst (snd (authenticate_api_key e now t (Some ip) (srv_db s))) = Some u)"
proof -
  obtain t b where b: "blocked ip now (srv_api_key_ip s) = (t, b)" by fastforce
  obtain scheme sep rest where p: "partition_char (CHR '' '') a = (scheme, sep, rest)" by (metis prod_cases3)
  obtain db who reason prefix where k: "authenticate_api_key e now (strip rest) (Some ip) (srv_db s) = (db, who, reason, prefix)" by (metis prod_cases4)
  show ?thesis
    by (cases b; cases who; cases "lower scheme = ''bearer'' \<and> strip rest \<noteq> []") (auto simp: authenticate_bearer_def bearer_token_def b p k)
qed

text \<open>
  C12. A request with an Authorization header is from the key it names or from nobody. It gets the key's principal
  exactly when the address is not throttled, the token's prefix names a row whose hash is the token's, the key
  is neither revoked nor expired, its creator still is an active user who may manage the project's keys, and
  the address is one of the key's. The cookie sent along makes no difference.
\<close>

theorem bearer_sound:
  "snd (get_current_user e lib now cookie (Some a) ip s) = Inr u \<longleftrightarrow>
     \<not> snd (blocked ip now (srv_api_key_ip s)) \<and>
     (\<exists>t p k. bearer_token a = Some t \<and> parse_key_prefix t = Some p \<and> find (\<lambda>k. k_prefix k = p) (api_keys (srv_db s)) = Some k \<and>
        key_hash e t = k_token_hash k \<and> key_valid now ip (srv_db s) k \<and> u = principal_for k)"
proof -
  have "snd (get_current_user e lib now cookie (Some a) ip s) = Inr u \<longleftrightarrow> snd (authenticate_bearer e now a ip s) = Inr (Some u)"
    by (auto simp: get_current_user_def authenticate_request_def split: prod.split sum.split rate_limited.split option.split)
  then show ?thesis unfolding bearer_principal authenticate_api_key_principal by blast
qed

section \<open>The life of a key\<close>

text \<open>What stays of a key's row: its identity, its term, and that it was revoked.\<close>

definition key_evolves :: "api_key \<Rightarrow> api_key \<Rightarrow> bool" where
  "key_evolves k k' \<longleftrightarrow>
     k_id k' = k_id k \<and> k_project_id k' = k_project_id k \<and> k_name k' = k_name k \<and> k_preset k' = k_preset k \<and> k_prefix k' = k_prefix k \<and>
     k_token_hash k' = k_token_hash k \<and> k_created_by_id k' = k_created_by_id k \<and> k_created_at k' = k_created_at k \<and>
     k_expires_at k' = k_expires_at k \<and>
     (k_revoked_at k \<noteq> None \<longrightarrow> k_revoked_at k' = k_revoked_at k \<and> k_revoked_by k' = k_revoked_by k)"

definition keys_evolve :: "database \<Rightarrow> database \<Rightarrow> bool" where
  "keys_evolve db db' \<longleftrightarrow> (\<forall>k \<in> set (api_keys db). \<exists>k' \<in> set (api_keys db'). key_evolves k k')"

lemma key_evolves_refl [simp]: "key_evolves k k"
  by (simp add: key_evolves_def)

lemma keys_evolve_trans: "keys_evolve db d \<Longrightarrow> keys_evolve d db' \<Longrightarrow> keys_evolve db db'"
  unfolding keys_evolve_def key_evolves_def by (metis (no_types, lifting))

text \<open>One row per id and prefix, one live key per name in a project, and at most a year.\<close>

definition same_name :: "api_key \<Rightarrow> api_key \<Rightarrow> bool" where
  "same_name k j \<longleftrightarrow> k_revoked_at k = None \<and> k_revoked_at j = None \<and> k_project_id k = k_project_id j \<and> k_name k = k_name j"

definition term_ok :: "api_key \<Rightarrow> bool" where
  "term_ok k \<longleftrightarrow> k_created_at k < k_expires_at k \<and> k_expires_at k \<le> k_created_at k + days 365"

definition keys_ok :: "database \<Rightarrow> bool" where
  "keys_ok db \<longleftrightarrow>
     distinct (map k_id (api_keys db)) \<and> distinct (map k_prefix (api_keys db)) \<and>
     (\<forall>k \<in> set (api_keys db). k_id k < next_api_key_id db \<and> term_ok k \<and> (\<forall>j \<in> set (api_keys db). same_name k j \<longrightarrow> k_id k = k_id j))"

lemma same_keys:
  assumes "key_part db' = key_part db"
  shows "keys_ok db' = keys_ok db" and "keys_evolve db db'" and "keys_evolve d db' = keys_evolve d db"
  using key_partD [OF assms] by (auto simp: keys_ok_def keys_evolve_def intro!: bexI key_evolves_refl)

lemma put_key_row:
  assumes "distinct (map k_id (api_keys db))" and "k \<in> set (api_keys db)" and "k_id k1 = k_id k"
  shows "y \<in> set (api_keys (put_key k1 db)) \<longleftrightarrow> y = k1 \<or> y \<in> set (api_keys db) \<and> k_id y \<noteq> k_id k"
  using assms by (auto simp: put_key_def update_rows_def)

lemma put_key_columns:
  assumes "k \<in> set (api_keys db)" and "distinct (map k_id (api_keys db))" and "k_id k1 = k_id k" and "f k1 = f k"
  shows "map f (api_keys (put_key k1 db)) = map f (api_keys db)"
proof -
  have "f (if k_id x = k_id k1 then k1 else x) = f x" if "x \<in> set (api_keys db)" for x
  proof (cases "k_id x = k_id k1")
    case True
    then have "x = k" using assms(1-3) that by (auto simp: distinct_map inj_on_def)
    then show ?thesis using assms True by simp
  qed simp
  then show ?thesis by (simp add: put_key_def update_rows_def)
qed

lemma evolved_ok:
  assumes "keys_ok db" and "map k_id (api_keys db') = map k_id (api_keys db)" and "map k_prefix (api_keys db') = map k_prefix (api_keys db)"
    and "next_api_key_id db' = next_api_key_id db" and "\<And>y. y \<in> set (api_keys db') \<Longrightarrow> \<exists>x \<in> set (api_keys db). key_evolves x y"
  shows "keys_ok db'"
proof -
  have "k_id y < next_api_key_id db' \<and> term_ok y" if "y \<in> set (api_keys db')" for y
    using assms(1,4) assms(5) [OF that] by (auto simp: keys_ok_def term_ok_def key_evolves_def)
  moreover have "k_id y = k_id z" if "y \<in> set (api_keys db')" "z \<in> set (api_keys db')" "same_name y z" for y z
  proof -
    note origin = assms(5) [OF that(1)] assms(5) [OF that(2)]
    obtain a where a: "a \<in> set (api_keys db)" "key_evolves a y" using origin(1) by blast
    obtain b where b: "b \<in> set (api_keys db)" "key_evolves b z" using origin(2) by blast
    have "same_name a b" using a(2) b(2) that(3) by (auto simp: same_name_def key_evolves_def)
    then have "k_id a = k_id b" using assms(1) a(1) b(1) by (auto simp: keys_ok_def)
    then show ?thesis using a(2) b(2) by (simp add: key_evolves_def)
  qed
  ultimately show ?thesis using assms(1-3) by (simp add: keys_ok_def)
qed

lemma put_key_ok:
  assumes ok: "keys_ok db" and k: "k \<in> set (api_keys db)" and ev: "key_evolves k k1"
  shows "keys_ok (put_key k1 db)" and "keys_evolve db (put_key k1 db)"
proof -
  have ids: "distinct (map k_id (api_keys db))" using ok by (simp add: keys_ok_def)
  have id: "k_id k1 = k_id k" "k_prefix k1 = k_prefix k" using ev by (simp_all add: key_evolves_def)
  note row = put_key_row [OF ids k id(1)]
  show "keys_ok (put_key k1 db)"
  proof (rule evolved_ok [OF ok])
    show "map k_id (api_keys (put_key k1 db)) = map k_id (api_keys db)" by (rule put_key_columns [OF k ids id(1) id(1)])
    show "map k_prefix (api_keys (put_key k1 db)) = map k_prefix (api_keys db)" by (rule put_key_columns [OF k ids id(1) id(2)])
    show "next_api_key_id (put_key k1 db) = next_api_key_id db" by (simp add: put_key_def)
    show "\<exists>x \<in> set (api_keys db). key_evolves x y" if "y \<in> set (api_keys (put_key k1 db))" for y
      using that k ev key_evolves_refl unfolding row by blast
  qed
  have "\<exists>k' \<in> set (api_keys (put_key k1 db)). key_evolves x k'" if "x \<in> set (api_keys db)" for x
  proof (cases "k_id x = k_id k")
    case True
    then have "x = k" using ids k that by (auto simp: distinct_map inj_on_def)
    then show ?thesis using ev row by blast
  next
    case False
    then show ?thesis using row that key_evolves_refl by blast
  qed
  then show "keys_evolve db (put_key k1 db)" by (simp add: keys_evolve_def)
qed

lemma new_key_Some:
  assumes "new_key e now draws pid name preset u n db = Some (db', k, token)"
  shows "api_keys db' = api_keys db @ [k] \<and> next_api_key_id db' = next_api_key_id db + 1 \<and> k_id k = next_api_key_id db \<and>
    users db' = users db \<and> members db' = members db \<and> k_project_id k = pid \<and> k_name k = name \<and> k_preset k = preset \<and>
    k_revoked_at k = None \<and> k_created_at k = now \<and> k_expires_at k = now + days n \<and> k_created_by_id k = user_id u \<and> k_token_hash k = key_hash e token \<and>
    (\<forall>j \<in> set (api_keys db). k_prefix j \<noteq> k_prefix k) \<and> (\<exists>d \<in> set draws. new_token d = (token, k_prefix k))"
proof -
  obtain d where d: "find (\<lambda>d. \<forall>k \<in> set (api_keys db). k_prefix k \<noteq> snd (new_token d)) draws = Some d"
    using assms by (auto simp: new_key_def)
  obtain t p where t: "new_token d = (t, p)" by fastforce
  have "d \<in> set draws \<and> (\<forall>k \<in> set (api_keys db). k_prefix k \<noteq> p)" using d t find_SomeD [OF d] by simp
  moreover have "db' = db\<lparr>api_keys := api_keys db @ [k], next_api_key_id := next_api_key_id db + 1\<rparr>" "t = token" "k_prefix k = p"
      "k_id k = next_api_key_id db" "k_project_id k = pid" "k_name k = name" "k_preset k = preset" "k_revoked_at k = None" "k_created_at k = now"
      "k_expires_at k = now + days n" "k_created_by_id k = user_id u" "k_token_hash k = key_hash e t"
    using assms d t unfolding new_key_def Let_def by auto
  ultimately show ?thesis using t by auto
qed

lemma days_mono: "1 \<le> n \<Longrightarrow> n \<le> 365 \<Longrightarrow> 0 < days n \<and> days n \<le> days 365"
  by (simp add: days_def secs_def)

lemma new_key_ok:
  assumes ok: "keys_ok db" and k: "new_key e now draws pid name preset u n db = Some (db', k, token)" and n: "1 \<le> n" "n \<le> 365"
    and free: "\<forall>j \<in> set (api_keys db). k_project_id j = pid \<and> k_name j = name \<longrightarrow> k_revoked_at j \<noteq> None"
  shows "keys_ok db'" and "keys_evolve db db'" and "k \<in> set (api_keys db')"
proof -
  note new = new_key_Some [OF k]
  have "term_ok k" using new days_mono [OF n] by (simp add: term_ok_def)
  moreover have "k_id j < k_id k \<and> k_prefix j \<noteq> k_prefix k \<and> \<not> same_name j k \<and> \<not> same_name k j" if "j \<in> set (api_keys db)" for j
    using ok new free that by (auto simp: keys_ok_def same_name_def)
  moreover have "next_api_key_id db' = k_id k + 1" "api_keys db' = api_keys db @ [k]" "k_id k = next_api_key_id db" using new by simp_all
  moreover have "k_id k \<notin> k_id ` set (api_keys db)" "k_prefix k \<notin> k_prefix ` set (api_keys db)" using calculation(2) by force+
  ultimately show "keys_ok db'" using ok by (fastforce simp: keys_ok_def)
  show "keys_evolve db db'" using new key_evolves_refl unfolding keys_evolve_def by (metis Un_iff set_append)
  show "k \<in> set (api_keys db')" using new by simp
qed

lemma with_limits_evolves [simp]: "key_evolves k (with_limits l k)"
  by (simp add: key_evolves_def with_limits_def split: prod.split)

lemma changed_limits_evolves [simp]: "key_evolves k (changed_limits l new k)"
  by (simp add: changed_limits_def split: prod.split)

lemma revoked_evolves: "k_revoked_at k = None \<Longrightarrow> key_evolves k (revoked now u k)"
  by (simp add: key_evolves_def revoked_def)

lemma project_key_Some: "project_key pid i db = Some k \<Longrightarrow> k \<in> set (api_keys db) \<and> k_id k = i \<and> k_project_id k = pid"
  by (auto simp: project_key_def dest: get_row_Some split: option.splits if_splits)

abbreviation keeps_keys :: "srv \<Rightarrow> srv \<Rightarrow> bool" where
  "keeps_keys s s' \<equiv> keys_ok (srv_db s') \<and> keys_evolve (srv_db s) (srv_db s')"

lemma kept: "key_part (srv_db s') = key_part (srv_db s) \<Longrightarrow> keys_ok (srv_db s) \<Longrightarrow> keeps_keys s s'"
  using same_keys(1,2) [of "srv_db s'" "srv_db s"] by simp

lemma kept_by:
  assumes "key_part (srv_db s1) = key_part (srv_db s)" and "keys_ok db" and "keys_evolve (srv_db s1) db" and "key_part (srv_db s') = key_part db"
  shows "keeps_keys s s'"
proof
  show "keys_ok (srv_db s')" using same_keys(1) [OF assms(4)] assms(2) by simp
  show "keys_evolve (srv_db s) (srv_db s')"
    using keys_evolve_trans [OF same_keys(2) [OF assms(1)] assms(3)] same_keys(3) [OF assms(4)] by simp
qed

text \<open>Creating a key is refused, or adds the key with its limits.\<close>

lemma create_Some:
  assumes "create_api_key e lib stamp now draws rq u pid p s = Some (s', r)"
  obtains (refused) "key_part (srv_db s') = key_part (srv_db s)" and "\<nexists>y. r = Inr y"
    | (made) s1 :: srv and l db k token out where "key_part (srv_db s1) = key_part (srv_db s)"
      and "api_key_id u = None" and "API_KEYS_MANAGE \<in> project_permissions (srv_db s1) u pid"
      and "new_key e now draws pid (kc_name p) (kc_preset p) u (kc_expires_in_days p) (srv_db s1) = Some (db, k, token)"
      and "\<forall>j \<in> set (api_keys (srv_db s1)). k_project_id j = pid \<and> k_name j = kc_name p \<longrightarrow> k_revoked_at j \<noteq> None"
      and "limits_of (srv_db s1) pid (kc_limits p) = Inr l"
      and "key_part (srv_db s') = key_part (put_key (with_limits l k) db)" and "r = Inr (out, token)" and "ko_key out = with_limits l k"
proof -
  obtain s1 x where a: "then_do (keys_request e lib now rq u pid s)
      (\<lambda>_ s. check_reauthentication lib now (rq_ip rq) (rq_cookie rq) u (kc_password p) ''apikey.create'' s) = (s1, x)" by fastforce
  note part = admitted(1) [OF a]
  show ?thesis
  proof (cases x)
    case (Inl err)
    then show ?thesis using assms a part that(1) by (auto simp: create_api_key_def)
  next
    case (Inr y)
    let ?taken = "\<exists>k \<in> set (filter (\<lambda>k. k_project_id k = pid) (api_keys (srv_db s1))). k_name k = kc_name p \<and> k_revoked_at k = None"
    let ?full = "length (filter (\<lambda>k. key_status now k = ''active'') (filter (\<lambda>k. k_project_id k = pid) (api_keys (srv_db s1)))) \<ge> MAX_KEYS_PER_PROJECT"
    have taken: "create_api_key e lib stamp now draws rq u pid p s = Some (refuse 409 ''This project already has an API key with that name'' s1)" if ?taken
      unfolding create_api_key_def a Inr prod.case sum.case Let_def if_P [OF that] by simp
    have full: "create_api_key e lib stamp now draws rq u pid p s =
        Some (refuse 409 (''A project can have at most '' @ show_nat MAX_KEYS_PER_PROJECT @ '' active API keys. Revoke one first.'') s1)"
      if "\<not> ?taken" and ?full
      unfolding create_api_key_def a Inr prod.case sum.case Let_def if_not_P [OF that(1)] if_P [OF that(2)] by simp
    have rest: "create_api_key e lib stamp now draws rq u pid p s =
        (case limits_of (srv_db s1) pid (kc_limits p) of
           Inl x \<Rightarrow> Some (s1, Inl x)
         | Inr l \<Rightarrow> create_api_key e lib stamp now draws rq u pid p s)"
      if "\<not> ?taken" and "\<not> ?full"
      unfolding create_api_key_def a Inr prod.case sum.case Let_def if_not_P [OF that(1)] if_not_P [OF that(2)] by (simp split: sum.split)
    have made: "create_api_key e lib stamp now draws rq u pid p s =
        map_option (\<lambda>(db, k, token).
           let k1 = with_limits l k;
               s2 = audit_key now ''apikey.create'' rq u pid k1
                 ([(vkey ''preset'', Str (k_preset k1)), (vkey ''prefix'', Str (k_prefix k1)), (vkey ''expires_at'', Str (stamp (k_expires_at k1)))] @
                  limit_detail ''allowed_networks'' texts_val (k_allowed_networks k1) @
                  limit_detail ''allowed_playbook_ids'' int_list (k_allowed_playbook_ids k1) @
                  limit_detail ''allowed_inventory_ids'' int_list (k_allowed_inventory_ids k1)) (s1\<lparr>srv_db := put_key k1 db\<rparr>)
           in (s2, Inr (key_view now (srv_db s2) k1, token)))
        (new_key e now draws pid (kc_name p) (kc_preset p) u (kc_expires_in_days p) (srv_db s1))"
      if "\<not> ?taken" and "\<not> ?full" and "limits_of (srv_db s1) pid (kc_limits p) = Inr l" for l
      unfolding create_api_key_def a Inr prod.case sum.case Let_def if_not_P [OF that(1)] if_not_P [OF that(2)] that(3) by simp
    show ?thesis
    proof (cases "?taken \<or> ?full")
      case True
      then have "s' = s1 \<and> (\<nexists>y. r = Inr y)" using assms taken full by (cases ?taken) auto
      then show ?thesis using part that(1) by blast
    next
      case False
      show ?thesis
      proof (cases "limits_of (srv_db s1) pid (kc_limits p)")
        case (Inl err)
        then show ?thesis using assms rest part that(1) False by auto
      next
        case (Inr l)
        have m: "\<not> ?taken" "\<not> ?full" using False by simp_all
        note m = assms [unfolded made [OF m Inr]]
        obtain db k token where n: "new_key e now draws pid (kc_name p) (kc_preset p) u (kc_expires_in_days p) (srv_db s1) = Some (db, k, token)"
          using m by auto
        have u: "api_key_id u = None" "API_KEYS_MANAGE \<in> project_permissions (srv_db s1) u pid" using admitted(2) [OF a \<open>x = Inr y\<close>] by simp_all
        have free: "\<forall>j \<in> set (api_keys (srv_db s1)). k_project_id j = pid \<and> k_name j = kc_name p \<longrightarrow> k_revoked_at j \<noteq> None" using False by auto
        have "key_part (srv_db s') = key_part (put_key (with_limits l k) db) \<and> (\<exists>out. r = Inr (out, token) \<and> ko_key out = with_limits l k)"
          using m n by (auto simp: Let_def key_view_def)
        then show ?thesis using that(2) [OF part u n free Inr] by blast
      qed
    qed
  qed
qed

lemma create_keeps:
  assumes "create_api_key e lib stamp now draws rq u pid p s = Some (s', r)" and "keys_ok (srv_db s)"
    and "1 \<le> kc_expires_in_days p" and "kc_expires_in_days p \<le> 365"
  shows "keeps_keys s s'"
proof (rule create_Some [OF assms(1)], goal_cases)
  case 1
  then show ?case using kept assms(2) by blast
next
  case made: (2 s1 l db k token out)
  have "keys_ok (srv_db s1)" using same_keys(1) [OF made(1)] assms(2) by simp
  note new = new_key_ok [OF this made(4) assms(3,4) made(5)]
  note put = put_key_ok [OF new(1,3) with_limits_evolves]
  show ?case by (rule kept_by [OF made(1) put(1) keys_evolve_trans [OF new(2) put(2)] made(7)])
qed

lemma put_key_part: "key_part (put_key k db) = (users db, projects db, members db, api_keys (put_key k db), next_api_key_id db)"
  by (simp add: key_part_def put_key_def)

text \<open>Rotating is refused, or revokes the key and adds its replacement.\<close>

lemma rotate_Some:
  assumes "rotate_api_key e lib stamp now draws rq u pid i pw s = Some (s', r)"
  obtains (refused) "key_part (srv_db s') = key_part (srv_db s)" and "\<nexists>y. r = Inr y"
    | (made) s1 :: srv and k0 db k token out where "key_part (srv_db s1) = key_part (srv_db s)" and "project_key pid i (srv_db s1) = Some k0"
      and "k_revoked_at k0 = None"
      and "new_key e now draws pid (k_name k0) (k_preset k0) u (lifetime_days k0) (put_key (revoked now u k0) (srv_db s1)) = Some (db, k, token)"
      and "key_part (srv_db s') =
        key_part (put_key (with_limits (k_allowed_networks k0, k_allowed_playbook_ids k0, k_allowed_inventory_ids k0) k) db)"
      and "r = Inr (out, token)"
proof -
  obtain s1 x where a: "then_do (keys_request e lib now rq u pid s)
      (\<lambda>_ s. check_reauthentication lib now (rq_ip rq) (rq_cookie rq) u pw ''apikey.rotate'' s) = (s1, x)" by fastforce
  note part = admitted(1) [OF a]
  consider (no) "s' = s1" "\<nexists>y. r = Inr y"
    | (yes) k0 db k token out where "project_key pid i (srv_db s1) = Some k0" "k_revoked_at k0 = None"
      "new_key e now draws pid (k_name k0) (k_preset k0) u (lifetime_days k0) (put_key (revoked now u k0) (srv_db s1)) = Some (db, k, token)"
      "key_part (srv_db s') = key_part (put_key (with_limits (k_allowed_networks k0, k_allowed_playbook_ids k0, k_allowed_inventory_ids k0) k) db)"
      "r = Inr (out, token)"
  proof (cases x)
    case (Inl err)
    then show ?thesis using assms a that(1) by (auto simp: rotate_api_key_def)
  next
    case (Inr y)
    show ?thesis
    proof (cases "\<exists>k0. project_key pid i (srv_db s1) = Some k0 \<and> k_revoked_at k0 = None")
      case True
      then obtain k0 where k0: "project_key pid i (srv_db s1) = Some k0" "k_revoked_at k0 = None" by blast
      obtain db k token where n: "new_key e now draws pid (k_name k0) (k_preset k0) u (lifetime_days k0) (put_key (revoked now u k0) (srv_db s1)) = Some (db, k, token)"
        using assms a Inr k0 by (auto simp: rotate_api_key_def)
      show ?thesis using assms a Inr k0 n that(2) [OF k0 n] by (auto simp: rotate_api_key_def Let_def)
    next
      case False
      then show ?thesis using assms a Inr that(1) by (auto simp: rotate_api_key_def split: option.splits)
    qed
  qed
  then show ?thesis using that part by cases auto
qed

lemma lifetime_bounds: "1 \<le> lifetime_days k \<and> lifetime_days k \<le> 365"
  by (simp add: lifetime_days_def)

lemma rotate_keeps:
  assumes "rotate_api_key e lib stamp now draws rq u pid i pw s = Some (s', r)" and "keys_ok (srv_db s)"
  shows "keeps_keys s s'"
proof (rule rotate_Some [OF assms(1)], goal_cases)
  case 1
  then show ?case using kept assms(2) by blast
next
  case made: (2 s1 k0 db k token out)
  let ?db = "put_key (revoked now u k0) (srv_db s1)"
  have ok: "keys_ok (srv_db s1)" using same_keys(1) [OF made(1)] assms(2) by simp
  have k0: "k0 \<in> set (api_keys (srv_db s1))" "k_id k0 = i" "k_project_id k0 = pid" using project_key_Some [OF made(2)] by simp_all
  note old = put_key_ok [OF ok k0(1) revoked_evolves [OF made(3)]]
  have "k_revoked_at j \<noteq> None" if "j \<in> set (api_keys ?db)" "k_project_id j = pid" "k_name j = k_name k0" for j
  proof -
    have id: "k_id (revoked now u k0) = k_id k0" by (simp add: revoked_def)
    have ids: "distinct (map k_id (api_keys (srv_db s1)))" using ok by (simp add: keys_ok_def)
    have "j = revoked now u k0 \<or> j \<in> set (api_keys (srv_db s1)) \<and> k_id j \<noteq> k_id k0"
      by (rule put_key_row [OF ids k0(1) id, THEN iffD1, OF that(1)])
    then show ?thesis
    proof
      assume 2: "j \<in> set (api_keys (srv_db s1)) \<and> k_id j \<noteq> k_id k0"
      then have "\<not> same_name j k0" using ok k0(1) by (auto simp: keys_ok_def)
      then show ?thesis using that(2,3) k0(3) made(3) by (simp add: same_name_def)
    qed (simp add: revoked_def)
  qed
  then have free: "\<forall>j \<in> set (api_keys ?db). k_project_id j = pid \<and> k_name j = k_name k0 \<longrightarrow> k_revoked_at j \<noteq> None" by blast
  note new = new_key_ok [OF old(1) made(4) _ _ free]
  note new = new [OF lifetime_bounds [THEN conjunct1] lifetime_bounds [THEN conjunct2]]
  note put = put_key_ok [OF new(1,3) with_limits_evolves]
  show ?case
    by (rule kept_by [OF made(1) put(1) keys_evolve_trans [OF keys_evolve_trans [OF old(2) new(2)] put(2)] made(5)])
qed

lemma request_then_keeps:
  assumes "then_do (keys_request e lib now rq u pid s) k = (s', r)" and "keys_ok (srv_db s)"
    and "\<And>s1. keys_ok (srv_db s1) \<Longrightarrow> keeps_keys s1 (fst (k () s1))"
  shows "keeps_keys s s'"
proof -
  obtain s1 x where a: "keys_request e lib now rq u pid s = (s1, x)" by fastforce
  have part: "key_part (srv_db s1) = key_part (srv_db s)" using keys_request_part a by (metis fst_conv)
  show ?thesis
  proof (cases x)
    case (Inl err)
    then show ?thesis using assms(1,2) a kept part by simp
  next
    case (Inr y)
    then have "fst (k () s1) = s'" using assms(1) a by simp
    then have "keeps_keys s1 s'" using assms(3) [of s1] same_keys(1) [OF part] assms(2) by simp
    then show ?thesis using kept_by [OF part _ _ refl] by blast
  qed
qed

lemma put_keeps:
  assumes "project_key pid i (srv_db s) = Some k" and "keys_ok (srv_db s)" and "key_evolves k k1"
    and "key_part (srv_db s') = key_part (put_key k1 (srv_db s))"
  shows "keeps_keys s s'"
proof -
  have k: "k \<in> set (api_keys (srv_db s))" using project_key_Some [OF assms(1)] by simp
  show ?thesis by (rule kept_by [OF refl put_key_ok(1) [OF assms(2) k assms(3)] put_key_ok(2) [OF assms(2) k assms(3)] assms(4)])
qed

lemma update_keeps:
  assumes "update_api_key_limits e lib now rq u pid i l s = (s', r)" and "keys_ok (srv_db s)"
  shows "keeps_keys s s'"
proof (rule request_then_keeps [OF assms(1) [unfolded update_api_key_limits_def] assms(2)], goal_cases)
  case (1 s1)
  show ?case
  proof (cases "\<exists>k new. project_key pid i (srv_db s1) = Some k \<and> k_revoked_at k = None \<and> limits_of (srv_db s1) pid l = Inr new")
    case True
    then obtain k new where k: "project_key pid i (srv_db s1) = Some k" "k_revoked_at k = None" "limits_of (srv_db s1) pid l = Inr new" by blast
    show ?thesis by (rule put_keeps [OF k(1) 1 changed_limits_evolves [of k l new]]) (simp add: k Let_def)
  next
    case False
    then show ?thesis using kept [OF refl 1] by (auto split: option.split sum.split)
  qed
qed

lemma revoke_keeps:
  assumes "revoke_api_key e lib now rq u pid i s = (s', r)" and "keys_ok (srv_db s)"
  shows "keeps_keys s s'"
proof (rule request_then_keeps [OF assms(1) [unfolded revoke_api_key_def] assms(2)], goal_cases)
  case (1 s1)
  show ?case
  proof (cases "\<exists>k. project_key pid i (srv_db s1) = Some k \<and> k_revoked_at k = None")
    case True
    then obtain k where k: "project_key pid i (srv_db s1) = Some k" "k_revoked_at k = None" by blast
    show ?thesis by (rule put_keeps [OF k(1) 1 revoked_evolves [OF k(2)]]) (simp add: k Let_def)
  next
    case False
    then show ?thesis using kept [OF refl 1] by (auto split: option.split)
  qed
qed

lemma authenticate_api_key_db:
  assumes "authenticate_api_key e now token ip db = (db', r)" and "keys_ok db"
  shows "keys_ok db' \<and> keys_evolve db db'"
proof -
  have "db' = db \<or> (\<exists>k \<in> set (api_keys db). db' = put_key (k\<lparr>k_last_used_at := Some now, k_last_used_ip := ip\<rparr>) db)"
  proof (cases "parse_key_prefix token")
    case None
    then show ?thesis using assms(1) by (simp add: authenticate_api_key_def)
  next
    case (Some p)
    show ?thesis
    proof (cases "find (\<lambda>k. k_prefix k = p) (api_keys db)")
      case None
      then show ?thesis using assms(1) Some by (simp add: authenticate_api_key_def)
    next
      case (Some k)
      have "k \<in> set (api_keys db)" using find_SomeD [OF Some] by simp
      moreover have "db' = db \<or> db' = put_key (k\<lparr>k_last_used_at := Some now, k_last_used_ip := ip\<rparr>) db"
        using assms(1) Some \<open>parse_key_prefix token = Some p\<close>
        by (cases "creator_problem db k") (auto simp: authenticate_api_key_def split: if_splits)
      ultimately show ?thesis by blast
    qed
  qed
  then show ?thesis
  proof
    assume "db' = db"
    then show ?thesis using assms(2) same_keys(2) [OF refl] by simp
  next
    assume "\<exists>k \<in> set (api_keys db). db' = put_key (k\<lparr>k_last_used_at := Some now, k_last_used_ip := ip\<rparr>) db"
    then obtain k where k: "k \<in> set (api_keys db)" "db' = put_key (k\<lparr>k_last_used_at := Some now, k_last_used_ip := ip\<rparr>) db" by blast
    have "key_evolves k (k\<lparr>k_last_used_at := Some now, k_last_used_ip := ip\<rparr>)" by (simp add: key_evolves_def)
    from put_key_ok [OF assms(2) k(1) this] show ?thesis using k(2) by simp
  qed
qed

lemma bearer_keeps:
  assumes "authenticate_bearer e now a ip s = (s', r)" and "keys_ok (srv_db s)"
  shows "keeps_keys s s'"
proof -
  obtain t b where b: "blocked ip now (srv_api_key_ip s) = (t, b)" by fastforce
  obtain scheme sep rest where p: "partition_char (CHR '' '') a = (scheme, sep, rest)" by (metis prod_cases3)
  obtain db who reason prefix where k: "authenticate_api_key e now (strip rest) (Some ip) (srv_db s) = (db, who, reason, prefix)" by (metis prod_cases4)
  have "key_part (srv_db s') = key_part (srv_db s) \<or> key_part (srv_db s') = key_part db"
    using assms(1) by (cases b; cases who; cases "lower scheme = ''bearer'' \<and> strip rest \<noteq> []") (auto simp: authenticate_bearer_def b p k)
  then show ?thesis
  proof
    assume "key_part (srv_db s') = key_part db"
    then show ?thesis using kept_by [OF refl] authenticate_api_key_db [OF k assms(2)] by blast
  qed (use kept assms(2) in blast)
qed

lemma get_current_user_keeps:
  assumes "get_current_user e lib now cookie a ip s = (s', r)" and "keys_ok (srv_db s)"
  shows "keeps_keys s s'"
proof -
  have "s' = s \<or> (\<exists>h x. a = Some h \<and> authenticate_bearer e now h ip s = (s', x))"
    using assms(1) by (cases a) (auto simp: get_current_user_def authenticate_request_def
      split: if_splits prod.splits sum.splits option.splits rate_limited.splits)
  then show ?thesis
  proof
    assume "s' = s"
    then show ?thesis using kept [OF refl assms(2)] by simp
  next
    assume "\<exists>h x. a = Some h \<and> authenticate_bearer e now h ip s = (s', x)"
    then obtain h x where h: "authenticate_bearer e now h ip s = (s', x)" by blast
    show ?thesis by (rule bearer_keeps [OF h assms(2)])
  qed
qed

section \<open>Any sequence of requests about keys\<close>

text \<open>The lifetime of a new key is what the schema accepts.\<close>

inductive key_step :: "env \<Rightarrow> auth_lib \<Rightarrow> (time \<Rightarrow> string) \<Rightarrow> srv \<Rightarrow> srv \<Rightarrow> bool" for e lib stamp where
  create: "create_api_key e lib stamp now draws rq u pid p s = Some (s', r) \<Longrightarrow> 1 \<le> kc_expires_in_days p \<Longrightarrow>
    kc_expires_in_days p \<le> 365 \<Longrightarrow> key_step e lib stamp s s'"
| rotate: "rotate_api_key e lib stamp now draws rq u pid i pw s = Some (s', r) \<Longrightarrow> key_step e lib stamp s s'"
| change: "update_api_key_limits e lib now rq u pid i l s = (s', r1) \<Longrightarrow> key_step e lib stamp s s'"
| revoke: "revoke_api_key e lib now rq u pid i s = (s', r2) \<Longrightarrow> key_step e lib stamp s s'"
| use_key: "get_current_user e lib now cookie a ip s = (s', r3) \<Longrightarrow> key_step e lib stamp s s'"

inductive key_run :: "env \<Rightarrow> auth_lib \<Rightarrow> (time \<Rightarrow> string) \<Rightarrow> srv \<Rightarrow> srv \<Rightarrow> bool" for e lib stamp s where
  key_run_none: "key_run e lib stamp s s"
| key_run_step: "key_run e lib stamp s s1 \<Longrightarrow> key_step e lib stamp s1 s2 \<Longrightarrow> key_run e lib stamp s s2"

lemma key_step_keeps: "key_step e lib stamp s s' \<Longrightarrow> keys_ok (srv_db s) \<Longrightarrow> keeps_keys s s'"
  by (erule key_step.cases) (auto dest: create_keeps rotate_keeps update_keeps revoke_keeps get_current_user_keeps)

lemma key_run_keeps:
  assumes "key_run e lib stamp s s'" and "keys_ok (srv_db s)"
  shows "keeps_keys s s'"
  using assms
proof (induction rule: key_run.induct)
  case key_run_none
  then show ?case using kept [OF refl] by blast
next
  case (key_run_step s1 s2)
  have s1: "keys_ok (srv_db s1)" "keys_evolve (srv_db s) (srv_db s1)" using key_run_step by simp_all
  have s2: "keys_ok (srv_db s2)" "keys_evolve (srv_db s1) (srv_db s2)" using key_step_keeps [OF key_run_step.hyps(2) s1(1)] by simp_all
  show ?case using s2(1) keys_evolve_trans [OF s1(2) s2(2)] by simp
qed


lemma find_prefix:
  assumes "distinct (map k_prefix ks)" and "k \<in> set ks"
  shows "find (\<lambda>x. k_prefix x = k_prefix k) ks = Some k"
  using assms by (induction ks) (auto simp: image_iff)

text \<open>
  C19. Revoked is for good: once a key is revoked, no token with its prefix gets a principal in any later state, at any
  time and from any address, whatever requests came between.
\<close>

theorem revoked_for_good:
  assumes "key_run e lib stamp s s'" and "keys_ok (srv_db s)" and "k \<in> set (api_keys (srv_db s))" and "k_revoked_at k \<noteq> None"
    and "parse_key_prefix token = Some (k_prefix k)"
  shows "fst (snd (authenticate_api_key e now token (Some ip) (srv_db s'))) = None"
proof -
  have ok: "keys_ok (srv_db s')" "keys_evolve (srv_db s) (srv_db s')" using key_run_keeps [OF assms(1,2)] by simp_all
  obtain k' where k': "k' \<in> set (api_keys (srv_db s'))" "key_evolves k k'" using ok(2) assms(3) unfolding keys_evolve_def by blast
  have pr: "k_prefix k' = k_prefix k" "k_revoked_at k' \<noteq> None" using k'(2) assms(4) by (simp_all add: key_evolves_def)
  have "distinct (map k_prefix (api_keys (srv_db s')))" using ok(1) by (simp add: keys_ok_def)
  then have "find (\<lambda>x. k_prefix x = k_prefix k) (api_keys (srv_db s')) = Some k'" using find_prefix [OF _ k'(1)] pr(1) by simp
  then have "fst (snd (authenticate_api_key e now token (Some ip) (srv_db s'))) \<noteq> Some u" for u
    using pr(2) assms(5) unfolding authenticate_api_key_principal key_valid_def by simp
  then show ?thesis by auto
qed

section \<open>A new key works\<close>

text \<open>What the generator draws: eight hexadecimal digits, and a secret.\<close>

definition draw_ok :: "string \<times> string \<Rightarrow> bool" where
  "draw_ok d \<longleftrightarrow> length (fst d) = 8 \<and> list_all hex_lower (fst d) \<and> snd d \<noteq> [] \<and> length (snd d) \<le> 100"

lemma parse_new_token:
  assumes "draw_ok d" and "new_token d = (token, p)"
  shows "parse_key_prefix token = Some p"
proof -
  obtain a b where d: "d = (a, b)" by fastforce
  have "\<not> hex_lower (CHR ''_'')" by (simp add: hex_lower_def)
  then have hex: "\<forall>c \<in> set a. c \<noteq> CHR ''_''" using assms(1) d by (auto simp: draw_ok_def list_all_iff)
  have tok: "token = ''ansd'' @ CHR ''_'' # a @ CHR ''_'' # b" "p = a" using assms(2) d by (auto simp: new_token_def TOKEN_PREFIX_def)
  have "partition_char (CHR ''_'') token = (''ansd'', True, a @ CHR ''_'' # b)" unfolding tok by (simp add: partition_char_def Let_def)
  moreover have "partition_char (CHR ''_'') (a @ CHR ''_'' # b) = (a, True, b)"
    using hex by (simp add: partition_char_def Let_def takeWhile_append2 dropWhile_append2)
  ultimately show ?thesis
    using assms(1) d tok by (simp add: parse_key_prefix_def draw_ok_def TOKEN_PREFIX_def MAX_TOKEN_LENGTH_def)
qed

lemma with_limits_fields [simp]:
  "k_prefix (with_limits l k) = k_prefix k" "k_token_hash (with_limits l k) = k_token_hash k" "k_revoked_at (with_limits l k) = k_revoked_at k"
  "k_expires_at (with_limits l k) = k_expires_at k" "k_created_by_id (with_limits l k) = k_created_by_id k"
  "k_project_id (with_limits l k) = k_project_id k" "k_id (with_limits l k) = k_id k" "k_preset (with_limits l k) = k_preset k"
  by (simp_all add: with_limits_def split: prod.split)

text \<open>
  C20. The token that was shown works: after a key was created for a user, until it expires and from the addresses it
  was limited to, the token authenticates as that key, with the preset that was asked for and in its project.
\<close>

theorem created_key_works:
  assumes "create_api_key e lib stamp now draws rq u pid p s = Some (s', Inr (out, token))" and "keys_ok (srv_db s)"
    and "1 \<le> kc_expires_in_days p" and "kc_expires_in_days p \<le> 365" and "list_all draw_ok draws"
    and "user_id u = Some i" and "get_user (srv_db s) i = Some u" and "is_active u"
    and "now' < k_expires_at (ko_key out)" and "address_allowed (ko_key out) (Some ip)"
  shows "fst (snd (authenticate_api_key e now' token (Some ip) (srv_db s'))) = Some (principal_for (ko_key out)) \<and>
    k_project_id (ko_key out) = pid \<and> k_preset (ko_key out) = kc_preset p \<and> k_expires_at (ko_key out) = now + days (kc_expires_in_days p)"
proof (rule create_Some [OF assms(1)], goal_cases)
  case 1
  then show ?case by blast
next
  case made: (2 s1 l db k token' out')
  have out: "token' = token" "ko_key out = with_limits l k" using made(8,9) by auto
  note new = new_key_Some [OF made(4)]
  have ok: "keys_ok (srv_db s1)" using same_keys(1) [OF made(1)] assms(2) by simp
  note row = new_key_ok [OF ok made(4) assms(3,4) made(5)]
  have kin: "with_limits l k \<in> set (api_keys (put_key (with_limits l k) db))"
    using row(3) by (auto simp: put_key_def update_rows_def)
  have "keys_ok (put_key (with_limits l k) db)" by (rule put_key_ok(1) [OF row(1,3) with_limits_evolves])
  then have "find (\<lambda>x. k_prefix x = k_prefix k) (api_keys (put_key (with_limits l k) db)) = Some (with_limits l k)"
    using find_prefix [OF _ kin] by (simp add: keys_ok_def)
  then have f: "find (\<lambda>x. k_prefix x = k_prefix k) (api_keys (srv_db s')) = Some (with_limits l k)" using key_partD [OF made(7)] by simp
  have "\<exists>d \<in> set draws. new_token d = (token, k_prefix k)" using new out(1) by blast
  then have parse: "parse_key_prefix token = Some (k_prefix k)" using assms(5) parse_new_token by (auto simp: list_all_iff)
  have same: "users (srv_db s') = users (srv_db s)" "members (srv_db s') = members (srv_db s1)"
    using key_partD [OF made(7)] key_partD [OF made(1)] new by (simp_all add: put_key_def)
  have "get_user (srv_db s') i = Some u" using assms(7) same(1) by (simp add: get_user_def)
  moreover have "API_KEYS_MANAGE \<in> project_permissions (srv_db s') u pid" using made(3) same_members [OF same(2)] by simp
  ultimately have "key_valid now' ip (srv_db s') (with_limits l k)"
    using assms(6,8,9,10) new out(2) by (simp add: key_valid_def)
  then have "fst (snd (authenticate_api_key e now' token (Some ip) (srv_db s'))) = Some (principal_for (with_limits l k))"
    unfolding authenticate_api_key_principal using parse f new out(1) by auto
  then show ?case using out(2) new by simp
qed

section \<open>Making a key\<close>

definition sample_admin :: user where
  "sample_admin = sample_user\<lparr>user_role := ''admin''\<rparr>"

definition key_server :: srv where
  "key_server = new_server (empty_db\<lparr>users := [sample_admin], projects := [\<lparr>p_id = 7, p_name = ''web''\<rparr>]\<rparr>)"

definition key_post :: request where
  "key_post = \<lparr>rq_method = ''POST'', rq_path = ''/api/projects/7/keys'', rq_ip = ''ip'', rq_cookie = None\<rparr>"

definition key_wish :: key_create where
  "key_wish = \<lparr>kc_name = ''ci'', kc_preset = ''trigger'', kc_expires_in_days = 90, kc_password = Some ''pw'',
     kc_limits = \<lparr>kl_networks = None, kl_playbook_ids = None, kl_inventory_ids = None\<rparr>\<rparr>"

definition key_draws :: "(string \<times> string) list" where
  "key_draws = [(''0123abcd'', ''secret'')]"

lemma sample_key_request: "keys_request sample_env sample_lib 0 key_post sample_admin 7 key_server = (key_server, Inr ())"
proof -
  have a: "is_global_admin sample_admin" by (simp add: is_global_admin_def sample_admin_def)
  have p: "get_row p_id (projects (srv_db key_server)) 7 = Some \<lparr>p_id = 7, p_name = ''web''\<rparr>"
    by (simp add: key_server_def new_server_def get_row_def)
  have "project_permissions (srv_db key_server) sample_admin 7 = ALL_PERMISSIONS" using a by (simp add: project_permissions_def)
  moreover have "API_KEYS_MANAGE \<in> ALL_PERMISSIONS" by (simp add: ALL_PERMISSIONS_def)
  moreover have "holds_somewhere (srv_db key_server) sample_admin API_KEYS_MANAGE" using a by (simp add: holds_somewhere_def)
  moreover have "api_key_id sample_admin = None" "two_factor_enabled sample_admin"
    by (simp_all add: sample_admin_def sample_user_def two_factor_enabled_def)
  moreover have "rq_method key_post \<notin> SAFE_METHODS" by (simp add: key_post_def SAFE_METHODS_def)
  ultimately show ?thesis
    using p by (auto simp: keys_request_def guard_def keys_guard_def two_factor_setup_required_def require_project_permission_def Let_def)
qed

lemma sample_reauthentication:
  "check_reauthentication sample_lib 0 ''ip'' None sample_admin (Some ''pw'') action key_server = (reset_login ''ip'' ''ann'' key_server, Inr ())"
proof -
  have "login_blocked 0 ''ip'' ''ann'' key_server = (key_server, False)"
    by (simp add: login_blocked_def blocked_def recent_def failures_of_def pop_failures_def key_server_def new_server_def new_throttle_def)
  moreover have "username sample_admin = ''ann''" "password_hash sample_admin = ''pw''" by (simp_all add: sample_admin_def sample_user_def)
  ultimately show ?thesis by (simp add: check_reauthentication_def check_current_password_def raise_if_throttled_def sample_lib_def)
qed

lemma sample_create:
  "\<exists>s' out. create_api_key sample_env sample_lib (\<lambda>_. ''t'') 0 key_draws key_post sample_admin 7 key_wish key_server =
     Some (s', Inr (out, ''ansd_0123abcd_secret'')) \<and> k_expires_at (ko_key out) = days 90 \<and> k_allowed_networks (ko_key out) = None"
proof -
  have e: "api_keys (srv_db key_server) = []" by (simp add: key_server_def new_server_def empty_db_def)
  have w: "kc_password key_wish = Some ''pw''" "rq_ip key_post = ''ip''" "rq_cookie key_post = None" by (simp_all add: key_wish_def key_post_def)
  have l: "limits_of db 7 (kc_limits key_wish) = Inr (None, None, None)" for db
    by (simp add: limits_of_def limit_ids_def key_wish_def)
  show ?thesis
    by (simp add: create_api_key_def sample_key_request sample_reauthentication w e l MAX_KEYS_PER_PROJECT_def)
      (simp add: new_key_def e key_draws_def new_token_def TOKEN_PREFIX_def Let_def key_view_def with_limits_def key_wish_def)
qed

lemma key_server_facts:
  "keys_ok (srv_db key_server)" "get_user (srv_db key_server) 1 = Some sample_admin" "user_id sample_admin = Some 1" "is_active sample_admin"
  "list_all draw_ok key_draws" "1 \<le> kc_expires_in_days key_wish" "kc_expires_in_days key_wish \<le> 365"
  by (simp_all add: keys_ok_def key_server_def new_server_def get_user_def get_row_def sample_admin_def sample_user_def key_draws_def
      draw_ok_def hex_lower_def key_wish_def) (simp_all add: empty_db_def)

theorem created_key_works_witness:
  "\<exists>s' out. create_api_key sample_env sample_lib (\<lambda>_. ''t'') 0 key_draws key_post sample_admin 7 key_wish key_server =
       Some (s', Inr (out, ''ansd_0123abcd_secret'')) \<and>
     fst (snd (authenticate_api_key sample_env 1 ''ansd_0123abcd_secret'' (Some ''9.9.9.9'') (srv_db s'))) = Some (principal_for (ko_key out))"
proof -
  obtain s' out where c: "create_api_key sample_env sample_lib (\<lambda>_. ''t'') 0 key_draws key_post sample_admin 7 key_wish key_server =
      Some (s', Inr (out, ''ansd_0123abcd_secret''))" "k_expires_at (ko_key out) = days 90" "k_allowed_networks (ko_key out) = None"
    using sample_create by blast
  have "1 < k_expires_at (ko_key out)" "address_allowed (ko_key out) (Some ''9.9.9.9'')"
    using c by (simp_all add: days_def secs_def address_allowed_def)
  then show ?thesis
    using created_key_works [OF c(1) key_server_facts(1,6,7,5,3,2,4)] c(1) by blast
qed


theorem revoked_for_good_witness:
  "fst (snd (authenticate_api_key sample_env 5 ''ansd_0123abcd_secret'' (Some ''9.9.9.9'')
     (srv_db (new_server (empty_db\<lparr>api_keys := [sample_key\<lparr>k_id := 0, k_prefix := ''0123abcd'', k_created_at := 0, k_expires_at := 9,
        k_token_hash := ''#ansd_0123abcd_secret'', k_revoked_at := Some 3\<rparr>]\<rparr>))))) = None"
proof -
  let ?k = "sample_key\<lparr>k_id := 0, k_prefix := ''0123abcd'', k_created_at := 0, k_expires_at := 9,
        k_token_hash := ''#ansd_0123abcd_secret'', k_revoked_at := Some 3\<rparr>"
  let ?s = "new_server (empty_db\<lparr>api_keys := [?k]\<rparr>)"
  have "keys_ok (srv_db ?s)" by (simp add: keys_ok_def new_server_def term_ok_def days_def secs_def) (simp add: empty_db_def)
  moreover have "parse_key_prefix ''ansd_0123abcd_secret'' = Some (k_prefix ?k)"
    by (simp add: parse_key_prefix_def partition_char_def TOKEN_PREFIX_def MAX_TOKEN_LENGTH_def hex_lower_def)
  ultimately show ?thesis
    using revoked_for_good [OF key_run_none [of sample_env sample_lib "\<lambda>_. ''t''" ?s], of ?k] by (simp add: new_server_def)
qed

end
