(* ===== verification/Spec2Isabelle.thy ===== *)
theory Spec2Isabelle
  imports Scoping Internal_Facts Output_Facts Refresh_Facts Json_Limits Git_Facts Transactions Scrub Run_View Login_Limits Key_Facts
begin

text \<open>
  \<^bold>\<open>AnsiDeck: the run queue and the worker protocol.\<close>

  AnsiDeck runs Ansible playbooks. A server (\<open>src/backend/app\<close>) keeps everything in PostgreSQL:
  users and projects, inventories, credentials, and the queue of runs, inventory refreshes,
  playbook checks and host key scans. Workers poll its internal API, claim one job at a time, fetch
  the job once, send its events and finally report its outcome.

  \<^bold>\<open>The state.\<close> \<open>Models\<close> has one record per table of \<open>models.py\<close> with the columns the modelled code
  uses; the columns shared by the four kinds of jobs are the record \<open>job\<close>, which \<open>run\<close>, \<open>refresh\<close>,
  \<open>lint_job\<close> and \<open>host_key_scan\<close> extend. \<open>database\<close> is the tables (lists of rows), with the log and
  artifact files beside them; \<open>env\<close> is the settings and the parameters that stand for library
  functions (the SHA-256 of a token, the JSON line of an event). Times are integers in
  microseconds, the value of \<open>now()\<close> in the transaction. A handler is a function from the database to
  the database and its answer; it locks the row it works on first, so handlers on one row are
  serialised and one application of the function is one transaction.

  \<^bold>\<open>The theories.\<close>
  \<^item> \<open>Prelude\<close>: JSON values, errors as sums, integer and string operations of Python, tables as
    lists of rows (lookup, update, first in an order).
  \<^item> \<open>Models\<close>: the tables, the run states, the unique indexes.
  \<^item> \<open>Notifications\<close>: \<open>notifications/events.py\<close>, \<open>alerts.py\<close>, \<open>ops.py\<close>, \<open>security.py\<close> and \<open>audit.py\<close>.
  \<^item> \<open>Permissions\<close>, \<open>Scoping\<close>: \<open>permissions.py\<close> with its endpoint guard, the principal of an API key,
    \<open>scoping.py\<close>. The lemmas show what the guard decides, that a key stays in its project, that no one
    but a global admin holds a global permission, and that a row outside a caller's projects is
    indistinguishable from a missing one.
  \<^item> \<open>Run_Log\<close>: \<open>run_log.py\<close>, with the crash consistency of the log.
  \<^item> \<open>Store_Outage\<close>: \<open>store_outage.py\<close> and the SQL of the same rules.
  \<^item> \<open>Jobs\<close>: from \<open>jobs.py\<close>, when a queued run can no longer run, and its extra vars.
  \<^item> \<open>Claims\<close>: the shape of the claim statements (candidate, \<open>SKIP LOCKED\<close>, update) over any table,
    as the locale \<open>claim_table\<close>; \<open>Queue\<close> interprets it for the four tables.
  \<^item> \<open>Queue\<close>, \<open>Queue_Facts\<close>: \<open>queue.py\<close>. A claim is a sequence of attempts; each attempt has the
    snapshot its statement saw, the rows others had locked, and may lose a race on the unique index
    of running runs. The loop is bounded by \<open>CLAIM_ATTEMPTS\<close> as in the code. The lemmas show the
    invariant of the queue, the order of claims, progress, and what a worker must be able to do.
  \<^item> \<open>Galaxy\<close>, \<open>Lint\<close>: the gate of galaxy installs, and the queue of playbook checks.
  \<^item> \<open>Host_Keys\<close>, \<open>Host_Key_Store\<close>, \<open>Host_Key_Scans\<close>: parsing and storing SSH host keys. The
    fingerprint (SHA-256) is a parameter; base64 decoding is written out.
  \<^item> \<open>Internal_Api\<close>, \<open>Internal_Facts\<close>: \<open>internal_api.py\<close>. Building a job (decrypting secrets,
    rendering) is a parameter of the job handler, as are the addresses of a run's hosts. The lemmas
    show that events are logged exactly once, that a job is handed out once, that a completed run is
    final and its log complete, and what happens when the secret store is down.
  \<^item> \<open>Json_Limits\<close>: \<open>json_limits.py\<close>, the nesting depth of a JSON text found by a scan of its bytes.
  \<^item> \<open>Inventory_Render\<close>, \<open>Inventory_Facts\<close>: \<open>inventory_render.py\<close>. An inventory is a graph of hosts and
    groups; the lemmas show that what a dynamic source contributes is never evaluated, that the
    inventory's own data wins, and which hosts a run on a group reaches. PyYAML's dumper is a parameter.
  \<^item> \<open>Inventory_Output\<close>, \<open>Output_Facts\<close>: the part of \<open>inventory_sources.py\<close> that reads what an inventory
    plugin printed. The recursion over group children is the code's own; it ends because every step
    finishes a group or shortens the stack.
  \<^item> \<open>Refreshes\<close>, \<open>Refresh_Api\<close>, \<open>Refresh_Facts\<close>: the queue of refreshes, their sources' outputs, the
    snapshots and the runs that wait for one; and the handlers of \<open>internal_api.py\<close> a worker calls
    while it refreshes. What other transactions commit between two statements is a parameter.
  \<^item> \<open>Dispatch\<close>: \<open>notifications/dispatch.py\<close>. Sending is a parameter that may return, raise or die.
  \<^item> \<open>Netguard\<close>: \<open>netguard.py\<close>, with the addresses and networks of Python's \<open>ipaddress\<close> as words.
  \<^item> \<open>Inventory_Files\<close>: \<open>inventory_files.py\<close>, what an inventory source takes from a git snapshot.
  \<^item> \<open>Git_Trees\<close>, \<open>Git_Sync\<close>, \<open>Git_Facts\<close>: \<open>git_sync.py\<close>. The checks of URLs, branches and patterns and of a
    commit's tree; a sync as a function of what the git subprocesses return (\<open>git_world\<close>), the tar of a
    snapshot, which snapshots are pruned. The lemmas show that no link of a usable commit leaves the
    repository, and that a sync applies a commit as a whole or not at all.
  \<^item> \<open>Reaper\<close>: \<open>reaper.py\<close>, one pass as its sequence of transactions; what others commit in between and the
    rows they hold locked are arguments.
  \<^item> \<open>Run_Api\<close>, \<open>Run_Facts\<close>: from \<open>routers/runs.py\<close>, starting a run, starting one again and cancelling. The
    lemmas show that a queued run was authorised in every part and that a refused request changes no job.
  \<^item> \<open>Job_Moves\<close>, \<open>Lifecycle\<close>, \<open>Transactions\<close>: the components together. \<open>step\<close> is one transaction of the system,
    with a rule per handler, request and step of the reaper. \<open>Job_Moves\<close> and \<open>Lifecycle\<close> show for each of them
    that it moves a job only from queued to running, back, or to an end; \<open>Transactions\<close> derives the invariant of
    every reachable state and that outcomes are final, by induction over the steps. Deleting projects,
    inventories or users, which sets references of jobs to null, is not among the steps.
  \<^item> \<open>Scrub\<close>: \<open>scrub.py\<close>, the masking of variables and the exact redaction of secrets.
  \<^item> \<open>Log_View\<close>, \<open>Run_View\<close>: the rest of \<open>routers/runs.py\<close>: the export of a log and its live view, what is shown of a
    run, its artifacts. The live view is a function of what each of its reads finds in the file; the lemmas show
    that it refines the lines of the log and that it ends.
  \<^item> \<open>Throttle\<close>: the failure counters of \<open>hardening.py\<close>, which refine the history of their calls.
  \<^item> \<open>Second_Factor\<close>, \<open>Sessions\<close>, \<open>Login\<close>, \<open>Account\<close>: \<open>totp.py\<close>, \<open>passkeys.py\<close>, \<open>security.py\<close>, \<open>dependencies.py\<close> and
    \<open>routers/auth.py\<close>. The state \<open>srv\<close> is the database with the counters of the process; the libraries (itsdangerous,
    argon2, pyotp, Fernet, webauthn) are the record \<open>auth_lib\<close>. \<open>Account_Facts\<close> shows what a sign-in takes and, by
    induction over any sequence of requests (\<open>account_run\<close>), that sessions end when an account changes;
    \<open>Login_Limits\<close> bounds how often a password can be tried.
  \<^item> \<open>Api_Keys\<close>, \<open>Key_Facts\<close>: \<open>api_keys.py\<close> and \<open>routers/api_keys.py\<close>, with who a request is from. The lemmas show
    when a key is accepted and, over any sequence of requests (\<open>key_run\<close>), the invariant of the table and that
    a revoked key stays revoked. The random draws of \<open>new_key\<close> are a list; None means that it is used up.

  \<^bold>\<open>Not modelled.\<close> The routers of the public API beyond runs, sign-in, accounts and API keys; the front
  end; migrations; the git subprocesses and the secret store client (they drive programs and HTTP);
  the worker process; single sign-on over third-party
  libraries; the Origin check; metrics, which have no effect on the state; and the wake-up of listeners after a
  commit, which only shortens polling.
\<close>

end
